(* ===== verification/Prelude.thy ===== *)
theory Prelude
  imports Complex_Main "HOL-Library.AList" "HOL-Library.Multiset"
begin

text \<open>
  What every theory of the development shares: how Python values are read, the tolerance
  constants, insertion-ordered dictionaries, and the interfaces (locales) that several
  components implement.

  Reading of Python values.
  \<^item> \<open>int\<close> is \<open>int\<close> (unbounded); counters that start at 0 and only grow are \<open>nat\<close>.
  \<^item> \<open>float\<close> is \<open>real\<close>: rounding is not modelled. Where the code tests
    \<open>math.isfinite\<close> the argument is a \<open>pyfloat\<close>, so that the tests are branches.
  \<^item> \<open>Optional[x]\<close> is \<open>x option\<close>; \<open>dict\<close> is an association list in insertion order,
    \<open>d[k] = v\<close> is \<open>AList.update\<close> (in place if the key exists, else at the end),
    \<open>d.pop(k, None)\<close> is \<open>AList.delete\<close>, \<open>d.get(k)\<close> is \<open>map_of\<close>.
  \<^item> A raised exception is the \<open>Inl\<close> side of a sum.
  \<^item> \<open>time.time()\<close> is an argument: the wall clock reading the call would have made.
\<close>

named_theorems step_defs \<open>definitions of state-changing operations\<close>
named_theorems frame_simps \<open>fields and keys an operation leaves alone\<close>

section \<open>Floats that may be infinite or not a number\<close>

datatype pyfloat = Fin real | PosInf | NegInf | NaN

fun py_isfinite :: "pyfloat \<Rightarrow> bool" where
  "py_isfinite (Fin _) = True"
| "py_isfinite _ = False"

lemma py_isfinite_iff: "py_isfinite x \<longleftrightarrow> (\<exists>r. x = Fin r)"
  by (cases x) auto

section \<open>Tolerance\<close>

text \<open>The constant \<open>1e-9\<close> that the engine uses as quantity tolerance everywhere.\<close>

definition eps :: real where
  "eps = 1 / 1000000000"

lemma eps_pos [simp, arith]: "0 < eps" and eps_ge_0 [simp]: "0 \<le> eps"
  and eps_nonzero [simp]: "eps \<noteq> 0"
  by (simp_all add: eps_def)

lemma eps_less_1 [simp]: "eps < 1"
  by (simp add: eps_def)

section \<open>Python idioms\<close>

text \<open>\<open>x or y\<close> on an optional number: the left value unless it is None or zero.\<close>

definition or_num :: "'a::zero option \<Rightarrow> 'a \<Rightarrow> 'a" where
  "or_num x y = (case x of None \<Rightarrow> y | Some v \<Rightarrow> if v = 0 then y else v)"

text \<open>A \<open>now_ms: int | None\<close> argument that defaults to the wall clock.\<close>

definition now_or :: "int option \<Rightarrow> int \<Rightarrow> int" where
  "now_or now wall = (case now of None \<Rightarrow> wall | Some t \<Rightarrow> t)"

lemma or_num_simps [simp]:
  "or_num None y = y" "or_num (Some 0) y = y" "v \<noteq> 0 \<Longrightarrow> or_num (Some v) y = v"
  by (simp_all add: or_num_def)

lemma now_or_simps [simp]: "now_or None w = w" "now_or (Some t) w = t"
  by (simp_all add: now_or_def)

text \<open>\<open>x or y\<close> on two optional numbers, the result still optional.\<close>

definition or_opt :: "'a::zero option \<Rightarrow> 'a option \<Rightarrow> 'a option" where
  "or_opt x y = (case x of None \<Rightarrow> y | Some v \<Rightarrow> if v = 0 then y else Some v)"

lemma of_int_scaled_mono: "0 \<le> r \<Longrightarrow> i \<le> j \<Longrightarrow> r * of_int i \<le> r * (of_int j :: real)"
  by (intro mult_left_mono) simp_all

text \<open>\<open>s.startswith(p)\<close>, and the floor remainder \<open>x % y\<close> of floats.\<close>

definition py_startswith :: "string \<Rightarrow> string \<Rightarrow> bool" where
  "py_startswith s p \<longleftrightarrow> take (length p) s = p"

definition py_fmod :: "real \<Rightarrow> real \<Rightarrow> real" where
  "py_fmod x y = x - y * of_int \<lfloor>x / y\<rfloor>"

lemma py_fmod_bounds: "0 < y \<Longrightarrow> 0 \<le> py_fmod x y \<and> py_fmod x y < y"
  using floor_divide_lower [of y x] floor_divide_upper [of y x]
  by (simp add: py_fmod_def algebra_simps)

section \<open>Loops that keep a maximum\<close>

text \<open>
  \<open>m = 0; for x in xs: if (v := f(x)) is not None: m = max(m, v)\<close>, the loop by which the
  engine computes retry hints, intervals and delays.
\<close>

definition loop_max :: "('a \<Rightarrow> int option) \<Rightarrow> 'a list \<Rightarrow> int" where
  "loop_max f xs = foldl (\<lambda>m x. case f x of None \<Rightarrow> m | Some v \<Rightarrow> max m v) 0 xs"

lemma loop_max_start:
  fixes f :: "'a \<Rightarrow> int option"
  shows "foldl (\<lambda>m x. case f x of None \<Rightarrow> m | Some v \<Rightarrow> max m v) (max a b) xs =
   max a (foldl (\<lambda>m x. case f x of None \<Rightarrow> m | Some v \<Rightarrow> max m v) b xs)"
proof (induction xs arbitrary: b)
  case Nil
  show ?case by simp
next
  case (Cons x xs)
  show ?case
  proof (cases "f x")
    case None
    then show ?thesis by (simp add: Cons.IH)
  next
    case (Some v)
    have "max (max a b) v = max a (max b v)" by (rule max.assoc)
    with Some show ?thesis by (simp only: foldl_Cons option.case Cons.IH)
  qed
qed

lemma loop_max_Nil [simp]: "loop_max f [] = 0"
  by (simp add: loop_max_def)

lemma loop_max_Cons [simp]:
  "loop_max f (x # xs) = (case f x of None \<Rightarrow> loop_max f xs | Some v \<Rightarrow> max v (loop_max f xs))"
  using loop_max_start [of f _ 0 xs] by (auto simp: loop_max_def max.commute split: option.split)

lemma loop_max_ge_0 [simp]: "0 \<le> loop_max f xs"
  by (induction xs) (auto split: option.split)

lemma loop_max_ge: "x \<in> set xs \<Longrightarrow> f x = Some v \<Longrightarrow> v \<le> loop_max f xs"
  by (induction xs) (auto split: option.split)

lemma loop_max_le_iff: "0 \<le> b \<Longrightarrow> loop_max f xs \<le> b \<longleftrightarrow> (\<forall>x\<in>set xs. \<forall>v. f x = Some v \<longrightarrow> v \<le> b)"
  by (induction xs) (auto split: option.split)

lemma loop_max_attained:
  "0 < loop_max f xs \<Longrightarrow> \<exists>x\<in>set xs. f x = Some (loop_max f xs)"
  by (induction xs) (auto simp: max_def split: option.splits if_splits)

section \<open>Dictionaries\<close>

type_synonym ('k, 'v) dict = "('k \<times> 'v) list"

abbreviation dict_get :: "('k, 'v) dict \<Rightarrow> 'k \<Rightarrow> 'v option" where
  "dict_get d k \<equiv> map_of d k"

abbreviation dict_put :: "'k \<Rightarrow> 'v \<Rightarrow> ('k, 'v) dict \<Rightarrow> ('k, 'v) dict" where
  "dict_put k v d \<equiv> AList.update k v d"

abbreviation dict_pop :: "'k \<Rightarrow> ('k, 'v) dict \<Rightarrow> ('k, 'v) dict" where
  "dict_pop k d \<equiv> AList.delete k d"

lemma dict_get_put [simp]: "dict_get (dict_put k v d) j = (if j = k then Some v else dict_get d j)"
  by (simp add: update_conv')

lemma dict_get_pop [simp]: "dict_get (dict_pop k d) j = (if j = k then None else dict_get d j)"
  by (simp add: delete_conv')

text \<open>\<open>list(dict.fromkeys(xs))\<close>: the first occurrences, in order.\<close>

definition first_occurrences :: "'a list \<Rightarrow> 'a list" where
  "first_occurrences xs = rev (remdups (rev xs))"

lemma first_occurrences_simps [simp]:
  "set (first_occurrences xs) = set xs" "distinct (first_occurrences xs)" "first_occurrences xs = [] \<longleftrightarrow> xs = []"
  by (simp_all add: first_occurrences_def)

section \<open>Interfaces\<close>

subsection \<open>Keyed stores\<close>

text \<open>
  A store of values under keys: what is read back after a write. Its clients are loops that
  touch one key per iteration.
\<close>

locale keyed_store =
  fixes lookup :: "'s \<Rightarrow> 'k \<Rightarrow> 'v option"
    and store :: "'k \<Rightarrow> 'v \<Rightarrow> 's \<Rightarrow> 's"
  assumes lookup_store_same: "lookup (store k v s) k = Some v"
    and lookup_store_other: "j \<noteq> k \<Longrightarrow> lookup (store k v s) j = lookup s j"
begin

lemma lookup_store: "lookup (store k v s) j = (if j = k then Some v else lookup s j)"
  by (simp add: lookup_store_same lookup_store_other)

lemma lookup_store_write: "lookup (store k v (store k w s)) j = lookup (store k v s) j"
  by (simp add: lookup_store)

lemma fold_frame:
  assumes "\<And>k s. j \<noteq> k \<Longrightarrow> lookup (f k s) j = lookup s j" and "j \<notin> set ks"
  shows "lookup (fold f ks s) j = lookup s j"
  using assms(2) by (induction ks arbitrary: s) (auto simp: assms(1))

lemma fold_value_invariant:
  assumes f: "\<And>k s. \<forall>j v. lookup s j = Some v \<longrightarrow> P j v \<Longrightarrow>
      \<forall>j v. lookup (f k s) j = Some v \<longrightarrow> P j v"
    and s: "\<forall>j v. lookup s j = Some v \<longrightarrow> P j v"
  shows "\<forall>j v. lookup (fold f ks s) j = Some v \<longrightarrow> P j v"
  using s
proof (induction ks arbitrary: s)
  case Nil
  then show ?case by simp
next
  case (Cons k ks)
  from Cons.IH [OF f [OF Cons.prems]] show ?case by simp
qed

end

interpretation dict_store: keyed_store dict_get dict_put
  by unfold_locales simp_all

subsection \<open>Systems driven by events, and their invariants\<close>

text \<open>
  A run of events from a state, the events being admissible (\<open>ok\<close>) in the states in which
  they occur, and the sum of a per-event quantity along the run.
\<close>

primrec run_ok :: "('s \<Rightarrow> 'e \<Rightarrow> 's) \<Rightarrow> ('s \<Rightarrow> 'e \<Rightarrow> bool) \<Rightarrow> 's \<Rightarrow> 'e list \<Rightarrow> bool" where
  "run_ok step ok s [] = True"
| "run_ok step ok s (e # es) = (ok s e \<and> run_ok step ok (step s e) es)"

primrec run_sum :: "('s \<Rightarrow> 'e \<Rightarrow> 's) \<Rightarrow> ('s \<Rightarrow> 'e \<Rightarrow> real) \<Rightarrow> 's \<Rightarrow> 'e list \<Rightarrow> real" where
  "run_sum step f s [] = 0"
| "run_sum step f s (e # es) = f s e + run_sum step f (step s e) es"

lemma run_ok_stateless [simp]: "run_ok step (\<lambda>_. P) s es = list_all P es"
  by (induction es arbitrary: s) auto

lemma list_all_True [simp]: "list_all (\<lambda>_. True) xs"
  by (simp add: list.pred_True)

lemma run_ok_append:
  "run_ok step ok s (es @ fs) \<longleftrightarrow> run_ok step ok s es \<and> run_ok step ok (foldl step s es) fs"
  by (induction es arbitrary: s) auto

lemma run_sum_scale: "run_sum step (\<lambda>s e. c * f s e) s es = c * run_sum step f s es"
  by (induction es arbitrary: s) (auto simp: algebra_simps)

locale event_system =
  fixes step :: "'s \<Rightarrow> 'e \<Rightarrow> 's"
    and inv :: "'s \<Rightarrow> bool"
    and ok :: "'s \<Rightarrow> 'e \<Rightarrow> bool"
  assumes step_inv: "inv s \<Longrightarrow> ok s e \<Longrightarrow> inv (step s e)"
begin

lemma run_inv: "inv s \<Longrightarrow> run_ok step ok s es \<Longrightarrow> inv (foldl step s es)"
  by (induction es arbitrary: s) (auto intro: step_inv)

end

text \<open>
  A metered system: each event may charge for something (tokens, requests), and a potential
  pays for the charge up to a slack. Over a run the charges are bounded by what the potential
  lost plus the slack.
\<close>

locale metered_system = event_system step inv ok
  for step :: "'s \<Rightarrow> 'e \<Rightarrow> 's" and inv :: "'s \<Rightarrow> bool" and ok :: "'s \<Rightarrow> 'e \<Rightarrow> bool" +
  fixes potential :: "'s \<Rightarrow> real"
    and charge :: "'s \<Rightarrow> 'e \<Rightarrow> real"
    and slack :: "'s \<Rightarrow> 'e \<Rightarrow> real"
  assumes charge_paid:
    "inv s \<Longrightarrow> ok s e \<Longrightarrow> potential (step s e) + charge s e \<le> potential s + slack s e"
begin

lemma run_charge_le:
  "inv s \<Longrightarrow> run_ok step ok s es \<Longrightarrow>
     run_sum step charge s es \<le> potential s - potential (foldl step s es) + run_sum step slack s es"
proof (induction es arbitrary: s)
  case Nil
  then show ?case by simp
next
  case (Cons e es)
  from Cons.prems have "run_sum step charge (step s e) es
      \<le> potential (step s e) - potential (foldl step (step s e) es) + run_sum step slack (step s e) es"
    by (intro Cons.IH) (auto intro: step_inv)
  with charge_paid [of s e] Cons.prems show ?case by simp
qed

end

text \<open>A system in which some rank never falls, whatever the events.\<close>

locale ranked_system = event_system step inv ok
  for step :: "'s \<Rightarrow> 'e \<Rightarrow> 's" and inv :: "'s \<Rightarrow> bool" and ok :: "'s \<Rightarrow> 'e \<Rightarrow> bool" +
  fixes rank :: "'s \<Rightarrow> 'r::preorder"
  assumes step_rank: "inv s \<Longrightarrow> ok s e \<Longrightarrow> rank s \<le> rank (step s e)"
begin

lemma run_rank: "inv s \<Longrightarrow> run_ok step ok s es \<Longrightarrow> rank s \<le> rank (foldl step s es)"
proof (induction es arbitrary: s)
  case Nil
  show ?case by simp
next
  case (Cons e es)
  from Cons.prems have "rank s \<le> rank (step s e)" by (auto intro: step_rank)
  also from Cons.prems have "\<dots> \<le> rank (foldl step (step s e) es)"
    by (intro Cons.IH) (auto intro: step_inv)
  finally show ?case by simp
qed

end

end
