(* ===== verification/Rate_Limit.thy ===== *)
theory Rate_Limit
  imports Prelude
begin

text \<open>
  \<open>lightfee/rate_limit/engine.py\<close>: the token-bucket engine that every venue request passes
  through, and the runtime loop that waits on it.

  A scope (\<open>host:\<dots>\<close>, \<open>venue:\<dots>\<close>, \<open>group:\<dots>\<close> or an endpoint) may carry a bucket, a weight
  and a minimal interval. The engine's dictionary of scopes is an association list in
  insertion order. An operation that raises \<open>RateLimitError\<close> returns \<open>Inl\<close> of the error
  together with the state it leaves: the buckets refilled before the raise stay refilled.
\<close>

section \<open>State\<close>

datatype rate_limit_error_reason = COOLDOWN | MIN_INTERVAL | BUDGET_EXCEEDED

record rate_limit_error =
  rle_reason :: rate_limit_error_reason
  rle_retry_in_ms :: int

record bucket_state =
  bk_capacity :: real
  bk_refill_per_ms :: real
  bk_tokens :: real
  bk_last_refill_ms :: int
  bk_cooldown_until_ms :: int

record scope_state =
  sc_bucket :: "bucket_state option"
  sc_weight :: "real option"
  sc_min_interval_ms :: "int option"
  sc_last_request_at_ms :: "int option"
  sc_backoff_failures :: nat

record rate_limit_engine =
  en_window_ms :: real
  en_margin :: real
  en_scopes :: "(string, scope_state) dict"
  en_backoff_initial_ms :: int
  en_backoff_max_ms :: int

definition DEFAULT_BACKOFF_INITIAL_MS :: int where "DEFAULT_BACKOFF_INITIAL_MS = 1000"
definition DEFAULT_BACKOFF_MAX_MS :: int where "DEFAULT_BACKOFF_MAX_MS = 8000"
definition DEFAULT_BUDGET_RETRY_MS :: int where "DEFAULT_BUDGET_RETRY_MS = 50"

definition new_scope_state :: scope_state where
  "new_scope_state = \<lparr>sc_bucket = None, sc_weight = None, sc_min_interval_ms = None,
     sc_last_request_at_ms = None, sc_backoff_failures = 0\<rparr>"

definition refill :: "bucket_state \<Rightarrow> int \<Rightarrow> bucket_state" where
  "refill b now =
     (let elapsed_ms = max 0 (now - bk_last_refill_ms b)
      in if elapsed_ms \<le> 0 then b
         else let replenished = of_int elapsed_ms * bk_refill_per_ms b
              in b\<lparr>bk_tokens := min (bk_capacity b) (bk_tokens b + replenished),
                   bk_last_refill_ms := now\<rparr>)"

definition init_engine :: "int \<Rightarrow> real \<Rightarrow> real option \<Rightarrow> rate_limit_engine" where
  "init_engine window_secs margin default_margin =
     \<lparr>en_window_ms = of_int (max window_secs 1) * 1000,
      en_margin = (case default_margin of Some m \<Rightarrow> m | None \<Rightarrow> margin),
      en_scopes = [],
      en_backoff_initial_ms = DEFAULT_BACKOFF_INITIAL_MS,
      en_backoff_max_ms = DEFAULT_BACKOFF_MAX_MS\<rparr>"

text \<open>
  \<open>_scope_mut\<close> returns the scope's state, creating an empty one under a new key; the code
  then assigns to its fields. \<open>with_scope\<close> is the lookup, the assignment and the store.
\<close>

definition scope_of :: "rate_limit_engine \<Rightarrow> string \<Rightarrow> scope_state" where
  "scope_of e s = (case dict_get (en_scopes e) s of None \<Rightarrow> new_scope_state | Some st \<Rightarrow> st)"

definition with_scope :: "string \<Rightarrow> (scope_state \<Rightarrow> scope_state) \<Rightarrow> rate_limit_engine \<Rightarrow> rate_limit_engine" where
  "with_scope s f e = e\<lparr>en_scopes := dict_put s (f (scope_of e s)) (en_scopes e)\<rparr>"

section \<open>Registration\<close>

definition register_bucket ::
  "string \<Rightarrow> real option \<Rightarrow> real option \<Rightarrow> real option \<Rightarrow> rate_limit_engine \<Rightarrow> rate_limit_engine" where
  "register_bucket scope budget_per_minute capacity refill_per_sec e =
     (let (cap, rps) =
        (case budget_per_minute of
           Some budget \<Rightarrow>
             let cap = max (budget * en_margin e) 0
             in (cap, if en_window_ms e > 0 then cap / en_window_ms e else 0)
         | None \<Rightarrow>
             (case capacity of
                Some c \<Rightarrow> (c, or_num refill_per_sec 0 / 1000)
              | None \<Rightarrow> (0, 0)))
      in with_scope scope
           (\<lambda>st. st\<lparr>sc_bucket := Some \<lparr>bk_capacity = cap, bk_refill_per_ms = rps, bk_tokens = cap,
              bk_last_refill_ms = 0, bk_cooldown_until_ms = 0\<rparr>\<rparr>) e)"

text \<open>
  The call forms of \<open>register_weight(scope, weight_or_scope, weight_val)\<close>: a number, a legacy
  scope name with an explicit weight, a legacy scope name alone, or nothing.
\<close>

datatype weight_args = Weight_Number real | Legacy_Scope_Weight string real | Legacy_Scope string | No_Weight

fun register_weight :: "string \<Rightarrow> weight_args \<Rightarrow> rate_limit_engine \<Rightarrow> rate_limit_engine" where
  "register_weight scope (Legacy_Scope_Weight s w) e = with_scope s (\<lambda>st. st\<lparr>sc_weight := Some w\<rparr>) e"
| "register_weight scope (Weight_Number w) e = with_scope scope (\<lambda>st. st\<lparr>sc_weight := Some w\<rparr>) e"
| "register_weight scope (Legacy_Scope s) e = with_scope s (\<lambda>st. st\<lparr>sc_weight := Some 1\<rparr>) e"
| "register_weight scope No_Weight e = e"

datatype interval_args = Interval_Ms int | Legacy_Scope_Interval string int | Legacy_Interval_Scope string | No_Interval

fun register_min_interval :: "string \<Rightarrow> interval_args \<Rightarrow> rate_limit_engine \<Rightarrow> rate_limit_engine" where
  "register_min_interval scope (Legacy_Scope_Interval s ms) e =
     with_scope s (\<lambda>st. st\<lparr>sc_min_interval_ms := Some ms\<rparr>) e"
| "register_min_interval scope (Interval_Ms ms) e =
     with_scope scope (\<lambda>st. st\<lparr>sc_min_interval_ms := Some ms\<rparr>) e"
| "register_min_interval scope (Legacy_Interval_Scope s) e =
     with_scope s (\<lambda>st. st\<lparr>sc_min_interval_ms := Some 0\<rparr>) e"
| "register_min_interval scope No_Interval e = e"

section \<open>Weights and intervals\<close>

definition resolve_weight :: "rate_limit_engine \<Rightarrow> string \<Rightarrow> string option \<Rightarrow> real" where
  "resolve_weight e endpoint_scope group_scope =
     (case Option.bind (dict_get (en_scopes e) endpoint_scope) sc_weight of
        Some w \<Rightarrow> w
      | None \<Rightarrow>
          (case Option.bind group_scope (\<lambda>g. Option.bind (dict_get (en_scopes e) g) sc_weight) of
             Some w \<Rightarrow> w
           | None \<Rightarrow> 1))"

definition resolve_min_interval :: "rate_limit_engine \<Rightarrow> string list \<Rightarrow> int" where
  "resolve_min_interval e ss =
     loop_max (\<lambda>s. Option.bind (dict_get (en_scopes e) s) sc_min_interval_ms) ss"

definition is_endpoint_scope :: "string \<Rightarrow> bool" where
  "is_endpoint_scope s \<longleftrightarrow>
     \<not> (py_startswith s ''host:'' \<or> py_startswith s ''venue:'' \<or> py_startswith s ''group:'')"

definition resolve_weight_from_scopes :: "rate_limit_engine \<Rightarrow> string list \<Rightarrow> real" where
  "resolve_weight_from_scopes e ss =
     (let endpoint_scope =
            (case find is_endpoint_scope ss of Some s \<Rightarrow> s | None \<Rightarrow> ''request'');
          group_scope =
            (case find (\<lambda>s. py_startswith s ''group:'' \<and> count_list s (CHR '':'') \<ge> 2) ss of
               Some s \<Rightarrow> Some s
             | None \<Rightarrow> find (\<lambda>s. py_startswith s ''group:'') ss)
      in resolve_weight e endpoint_scope group_scope)"

section \<open>Retry hints\<close>

definition cooldown_retry_ms :: "rate_limit_engine \<Rightarrow> string list \<Rightarrow> int \<Rightarrow> int option" where
  "cooldown_retry_ms e ss now =
     (let max_remaining = loop_max
        (\<lambda>s. case Option.bind (dict_get (en_scopes e) s) sc_bucket of
               None \<Rightarrow> None
             | Some b \<Rightarrow> let remaining = bk_cooldown_until_ms b - now
                         in if remaining > 0 then Some remaining else None) ss
      in if max_remaining > 0 then Some max_remaining else None)"

definition interval_retry :: "scope_state \<Rightarrow> int \<Rightarrow> int option" where
  "interval_retry st now =
     (case (sc_min_interval_ms st, sc_last_request_at_ms st) of
        (Some interval, Some last_ms) \<Rightarrow>
          let elapsed = max 0 (now - last_ms)
          in if elapsed < interval then Some (interval - elapsed) else None
      | _ \<Rightarrow> None)"

definition min_interval_retry_ms :: "rate_limit_engine \<Rightarrow> string list \<Rightarrow> int \<Rightarrow> int option" where
  "min_interval_retry_ms e ss now =
     (let max_retry = loop_max
        (\<lambda>s. case dict_get (en_scopes e) s of None \<Rightarrow> None | Some st \<Rightarrow> interval_retry st now) ss
      in if max_retry > 0 then Some max_retry else None)"

text \<open>\<open>int(x)\<close> truncates; the quotient here is not negative, so it is the floor.\<close>

definition budget_retry_ms :: "bucket_state \<Rightarrow> real \<Rightarrow> int" where
  "budget_retry_ms b weight =
     (if bk_refill_per_ms b \<le> 0 then DEFAULT_BUDGET_RETRY_MS
      else
        let missing = max (weight - bk_tokens b) 0
        in if missing < eps then DEFAULT_BUDGET_RETRY_MS
           else
             let retry = \<lfloor>missing / bk_refill_per_ms b\<rfloor>;
                 retry = (if py_fmod missing (bk_refill_per_ms b) > eps then retry + 1 else retry)
             in max retry 1)"

definition failure_backoff_ms :: "rate_limit_engine \<Rightarrow> nat \<Rightarrow> int" where
  "failure_backoff_ms e failures =
     (let shift = min failures 20
      in min (push_bit shift (en_backoff_initial_ms e)) (en_backoff_max_ms e))"

section \<open>Consumption\<close>

text \<open>Phase 3 of \<open>try_consume_scopes\<close>: refill each bucket in turn, stop at the first short one.\<close>

fun check_budgets ::
  "string list \<Rightarrow> real \<Rightarrow> int \<Rightarrow> rate_limit_engine \<Rightarrow> (rate_limit_error + unit) \<times> rate_limit_engine" where
  "check_budgets [] weight now e = (Inr (), e)"
| "check_budgets (s # ss) weight now e =
     (case Option.bind (dict_get (en_scopes e) s) sc_bucket of
        None \<Rightarrow> check_budgets ss weight now e
      | Some b \<Rightarrow>
          let b = refill b now;
              e = with_scope s (\<lambda>st. st\<lparr>sc_bucket := Some b\<rparr>) e
          in if bk_tokens b + eps < weight
             then (Inl \<lparr>rle_reason = BUDGET_EXCEEDED, rle_retry_in_ms = budget_retry_ms b weight\<rparr>, e)
             else check_budgets ss weight now e)"

text \<open>Phase 4: deduct from every scope and stamp those with a minimal interval.\<close>

definition deduct :: "real \<Rightarrow> int \<Rightarrow> scope_state \<Rightarrow> scope_state" where
  "deduct weight now st =
     (let st = (case sc_bucket st of
                  None \<Rightarrow> st
                | Some b \<Rightarrow> st\<lparr>sc_bucket := Some (b\<lparr>bk_tokens := max 0 (bk_tokens b - weight)\<rparr>)\<rparr>)
      in if sc_min_interval_ms st \<noteq> None then st\<lparr>sc_last_request_at_ms := Some now\<rparr> else st)"

definition deduct_scopes :: "string list \<Rightarrow> real \<Rightarrow> int \<Rightarrow> rate_limit_engine \<Rightarrow> rate_limit_engine" where
  "deduct_scopes ss weight now e = fold (\<lambda>s. with_scope s (deduct weight now)) ss e"

definition try_consume_scopes ::
  "string list \<Rightarrow> real \<Rightarrow> int option \<Rightarrow> int \<Rightarrow> rate_limit_engine
     \<Rightarrow> (rate_limit_error + unit) \<times> rate_limit_engine" where
  "try_consume_scopes ss weight now_ms wall e =
     (let now = now_or now_ms wall
      in case cooldown_retry_ms e ss now of
           Some retry \<Rightarrow> (Inl \<lparr>rle_reason = COOLDOWN, rle_retry_in_ms = retry\<rparr>, e)
         | None \<Rightarrow>
             (case min_interval_retry_ms e ss now of
                Some retry \<Rightarrow> (Inl \<lparr>rle_reason = MIN_INTERVAL, rle_retry_in_ms = retry\<rparr>, e)
              | None \<Rightarrow>
                  (case check_budgets ss weight now e of
                     (Inl err, e) \<Rightarrow> (Inl err, e)
                   | (Inr _, e) \<Rightarrow> (Inr (), deduct_scopes ss weight now e))))"

datatype consume_args = Consume_Scopes "string list" | Consume_Weight real

fun try_consume ::
  "string \<Rightarrow> consume_args \<Rightarrow> int option \<Rightarrow> int \<Rightarrow> rate_limit_engine
     \<Rightarrow> (rate_limit_error + unit) \<times> rate_limit_engine" where
  "try_consume scope (Consume_Scopes ss) now_ms wall e =
     (let all_scopes = scope # filter (\<lambda>s. s \<noteq> scope) ss;
          weight = resolve_weight_from_scopes e all_scopes
      in try_consume_scopes all_scopes weight (Some (now_or now_ms wall)) wall e)"
| "try_consume scope (Consume_Weight w) now_ms wall e = try_consume_scopes [scope] w now_ms wall e"

section \<open>Cooldown and backoff\<close>

definition extend_cooldown :: "int \<Rightarrow> scope_state \<Rightarrow> scope_state" where
  "extend_cooldown until st =
     (case sc_bucket st of
        None \<Rightarrow> st
      | Some b \<Rightarrow>
          st\<lparr>sc_bucket := Some (b\<lparr>bk_cooldown_until_ms := max (bk_cooldown_until_ms b) until\<rparr>)\<rparr>)"

definition apply_cooldown ::
  "string list \<Rightarrow> int \<Rightarrow> int option \<Rightarrow> int \<Rightarrow> rate_limit_engine \<Rightarrow> rate_limit_engine" where
  "apply_cooldown ss retry_after_ms now_ms wall e =
     (let until_ms = now_or now_ms wall + retry_after_ms
      in fold (\<lambda>s. with_scope s (extend_cooldown until_ms)) ss e)"

text \<open>One iteration of \<open>apply_backoff\<close>: the scope's new state and the delay it got, if any.\<close>

definition back_off_scope :: "rate_limit_engine \<Rightarrow> int \<Rightarrow> scope_state \<Rightarrow> scope_state" where
  "back_off_scope e now st =
     (case sc_bucket st of
        None \<Rightarrow> st
      | Some b \<Rightarrow>
          let delay_ms = failure_backoff_ms e (sc_backoff_failures st)
          in st\<lparr>sc_backoff_failures := sc_backoff_failures st + 1,
                sc_bucket := Some (b\<lparr>bk_cooldown_until_ms :=
                   max (bk_cooldown_until_ms b) (now + delay_ms)\<rparr>)\<rparr>)"

fun backoff_loop :: "string list \<Rightarrow> int \<Rightarrow> int \<Rightarrow> rate_limit_engine \<Rightarrow> int \<times> rate_limit_engine" where
  "backoff_loop [] now max_delay_ms e = (max_delay_ms, e)"
| "backoff_loop (s # ss) now max_delay_ms e =
     (let st = scope_of e s;
          max_delay_ms = (case sc_bucket st of
                            None \<Rightarrow> max_delay_ms
                          | Some _ \<Rightarrow> max max_delay_ms (failure_backoff_ms e (sc_backoff_failures st)))
      in backoff_loop ss now max_delay_ms (with_scope s (back_off_scope e now) e))"

definition apply_backoff ::
  "string list \<Rightarrow> int option \<Rightarrow> int option \<Rightarrow> int \<Rightarrow> rate_limit_engine \<Rightarrow> int \<times> rate_limit_engine" where
  "apply_backoff ss maybe_now_ms now_ms wall e =
     (let now = (case now_ms of Some t \<Rightarrow> t | None \<Rightarrow> or_num maybe_now_ms wall)
      in backoff_loop ss now 0 e)"

section \<open>Queries\<close>

definition bucket_snapshot :: "rate_limit_engine \<Rightarrow> string \<Rightarrow> (real \<times> real \<times> real \<times> int) option" where
  "bucket_snapshot e scope =
     map_option (\<lambda>b. (bk_capacity b, bk_refill_per_ms b, bk_tokens b, bk_cooldown_until_ms b))
       (Option.bind (dict_get (en_scopes e) scope) sc_bucket)"

definition bucket_ids :: "rate_limit_engine \<Rightarrow> string list" where
  "bucket_ids e = map fst (filter (\<lambda>(s, st). sc_bucket st \<noteq> None) (en_scopes e))"

definition scope_count :: "rate_limit_engine \<Rightarrow> nat" where
  "scope_count e = length (en_scopes e)"

section \<open>Reading and writing scopes\<close>

abbreviation bucket_of :: "rate_limit_engine \<Rightarrow> string \<Rightarrow> bucket_state option" where
  "bucket_of e s \<equiv> Option.bind (dict_get (en_scopes e) s) sc_bucket"

definition store_scope :: "string \<Rightarrow> scope_state \<Rightarrow> rate_limit_engine \<Rightarrow> rate_limit_engine" where
  "store_scope s st e = e\<lparr>en_scopes := dict_put s st (en_scopes e)\<rparr>"

interpretation scopes: keyed_store "\<lambda>e. dict_get (en_scopes e)" store_scope
  by unfold_locales (simp_all add: store_scope_def)

lemma with_scope_store: "with_scope s f e = store_scope s (f (scope_of e s)) e"
  by (simp add: with_scope_def store_scope_def)

lemma scope_of_with_scope [frame_simps]:
  "scope_of (with_scope s f e) j = (if j = s then f (scope_of e s) else scope_of e j)"
  by (simp add: with_scope_store scope_of_def scopes.lookup_store)

lemma lookup_with_scope [frame_simps]:
  "dict_get (en_scopes (with_scope s f e)) j =
     (if j = s then Some (f (scope_of e s)) else dict_get (en_scopes e) j)"
  by (simp add: with_scope_store scopes.lookup_store)

lemma with_scope_params [simp]:
  "en_backoff_initial_ms (with_scope s f e) = en_backoff_initial_ms e"
  "en_backoff_max_ms (with_scope s f e) = en_backoff_max_ms e"
  "en_margin (with_scope s f e) = en_margin e"
  "en_window_ms (with_scope s f e) = en_window_ms e"
  by (simp_all add: with_scope_def)

lemma failure_backoff_with_scope [simp]:
  "failure_backoff_ms (with_scope s f e) n = failure_backoff_ms e n"
  by (simp add: failure_backoff_ms_def)

lemma new_scope_state_simps [simp]:
  "sc_bucket new_scope_state = None" "sc_weight new_scope_state = None"
  "sc_min_interval_ms new_scope_state = None" "sc_last_request_at_ms new_scope_state = None"
  "sc_backoff_failures new_scope_state = 0"
  by (simp_all add: new_scope_state_def)

lemma bucket_of_eq: "bucket_of e s = sc_bucket (scope_of e s)"
  by (simp add: scope_of_def split: option.split)

section \<open>Refilling one bucket\<close>

lemma refill_simps [simp]:
  "bk_capacity (refill b t) = bk_capacity b"
  "bk_refill_per_ms (refill b t) = bk_refill_per_ms b"
  "bk_cooldown_until_ms (refill b t) = bk_cooldown_until_ms b"
  by (simp_all add: refill_def Let_def)

lemma refill_last: "bk_last_refill_ms (refill b t) = max (bk_last_refill_ms b) t"
  by (simp add: refill_def Let_def max_def)

lemma refill_tokens:
  "bk_tokens (refill b t) =
     (if t \<le> bk_last_refill_ms b then bk_tokens b
      else min (bk_capacity b) (bk_tokens b + of_int (t - bk_last_refill_ms b) * bk_refill_per_ms b))"
  by (simp add: refill_def Let_def max_def)

lemma refill_refill [simp]: "refill (refill b t) t = refill b t"
proof -
  have "max 0 (t - bk_last_refill_ms (refill b t)) \<le> 0" by (simp add: refill_last)
  then show ?thesis unfolding refill_def [of "refill b t" t] Let_def by simp
qed

definition bucket_ok :: "bucket_state \<Rightarrow> bool" where
  "bucket_ok b \<longleftrightarrow> 0 \<le> bk_tokens b \<and> bk_tokens b \<le> bk_capacity b \<and> 0 \<le> bk_refill_per_ms b"

lemma refill_ok: "bucket_ok b \<Longrightarrow> bucket_ok (refill b t)"
  by (auto simp: bucket_ok_def refill_tokens)

lemma refill_mono: "bucket_ok b \<Longrightarrow> bk_tokens b \<le> bk_tokens (refill b t)"
  by (auto simp: bucket_ok_def refill_tokens)

text \<open>The credit of a bucket: its tokens less everything it could have earned by its clock.\<close>

definition credit :: "bucket_state \<Rightarrow> real" where
  "credit b = bk_tokens b - bk_refill_per_ms b * of_int (bk_last_refill_ms b)"

lemma refill_credit: "0 \<le> bk_refill_per_ms b \<Longrightarrow> credit (refill b t) \<le> credit b"
  by (auto simp: credit_def refill_tokens refill_last algebra_simps max_def min_le_iff_disj)

section \<open>The phases of a consumption\<close>

text \<open>What one scope contributes to the admission decision.\<close>

definition cooldown_over :: "rate_limit_engine \<Rightarrow> int \<Rightarrow> string \<Rightarrow> bool" where
  "cooldown_over e now s \<longleftrightarrow> (\<forall>b. bucket_of e s = Some b \<longrightarrow> bk_cooldown_until_ms b \<le> now)"

definition interval_over :: "rate_limit_engine \<Rightarrow> int \<Rightarrow> string \<Rightarrow> bool" where
  "interval_over e now s \<longleftrightarrow>
     (\<forall>st m l. dict_get (en_scopes e) s = Some st \<longrightarrow> sc_min_interval_ms st = Some m \<longrightarrow>
        sc_last_request_at_ms st = Some l \<longrightarrow> m \<le> max 0 (now - l))"

definition budget_covers :: "rate_limit_engine \<Rightarrow> real \<Rightarrow> int \<Rightarrow> string \<Rightarrow> bool" where
  "budget_covers e weight now s \<longleftrightarrow>
     (\<forall>b. bucket_of e s = Some b \<longrightarrow> weight \<le> bk_tokens (refill b now) + eps)"

lemma loop_max_pos_iff: "0 < loop_max f xs \<longleftrightarrow> (\<exists>x\<in>set xs. \<exists>v. f x = Some v \<and> 0 < v)"
  using loop_max_le_iff [of 0 f xs] by (auto simp: not_le [symmetric])

lemma cooldown_retry_None_iff:
  "cooldown_retry_ms e ss now = None \<longleftrightarrow> (\<forall>s\<in>set ss. cooldown_over e now s)"
  by (auto simp: cooldown_retry_ms_def Let_def loop_max_pos_iff cooldown_over_def
      split: option.splits if_splits) force+

lemma interval_retry_Some_iff:
  "(\<exists>v. interval_retry st now = Some v) \<longleftrightarrow>
     (\<exists>m l. sc_min_interval_ms st = Some m \<and> sc_last_request_at_ms st = Some l \<and> max 0 (now - l) < m)"
  by (auto simp: interval_retry_def Let_def split: option.splits)

lemma interval_retry_pos: "interval_retry st now = Some v \<Longrightarrow> 0 < v"
  by (auto simp: interval_retry_def Let_def split: option.splits if_splits)

lemma min_interval_retry_None_iff:
  "min_interval_retry_ms e ss now = None \<longleftrightarrow> (\<forall>s\<in>set ss. interval_over e now s)"
proof -
  have "min_interval_retry_ms e ss now = None \<longleftrightarrow>
      (\<forall>s\<in>set ss. \<forall>st. dict_get (en_scopes e) s = Some st \<longrightarrow> (\<nexists>v. interval_retry st now = Some v))"
    by (auto simp: min_interval_retry_ms_def Let_def loop_max_pos_iff interval_retry_pos
        split: option.splits)
       (metis interval_retry_pos)+
  then show ?thesis
    by (auto simp: interval_retry_Some_iff interval_over_def not_less le_max_iff_disj)
qed

definition refill_scope :: "int \<Rightarrow> scope_state \<Rightarrow> scope_state" where
  "refill_scope now st = st\<lparr>sc_bucket := map_option (\<lambda>b. refill b now) (sc_bucket st)\<rparr>"

lemma refill_scope_simps [simp]:
  "sc_bucket (refill_scope now st) = map_option (\<lambda>b. refill b now) (sc_bucket st)"
  "sc_weight (refill_scope now st) = sc_weight st"
  "sc_min_interval_ms (refill_scope now st) = sc_min_interval_ms st"
  "sc_last_request_at_ms (refill_scope now st) = sc_last_request_at_ms st"
  "sc_backoff_failures (refill_scope now st) = sc_backoff_failures st"
  by (simp_all add: refill_scope_def)

lemma refill_scope_idem [simp]: "refill_scope now (refill_scope now st) = refill_scope now st"
  by (cases "sc_bucket st") (simp_all add: refill_scope_def)

lemma refill_scope_no_bucket: "sc_bucket st = None \<Longrightarrow> refill_scope now st = st"
  by (simp add: refill_scope_def)

lemma with_scope_refill:
  assumes "bucket_of e s = Some b"
  shows "with_scope s (\<lambda>st. st\<lparr>sc_bucket := Some (refill b now)\<rparr>) e = with_scope s (refill_scope now) e"
  using assms by (simp add: with_scope_def refill_scope_def bucket_of_eq)

lemma check_budgets_Cons:
  "check_budgets (s # ss) w now e =
     (case bucket_of e s of
        None \<Rightarrow> check_budgets ss w now e
      | Some b \<Rightarrow>
          if bk_tokens (refill b now) + eps < w
          then (Inl \<lparr>rle_reason = BUDGET_EXCEEDED, rle_retry_in_ms = budget_retry_ms (refill b now) w\<rparr>,
                with_scope s (refill_scope now) e)
          else check_budgets ss w now (with_scope s (refill_scope now) e))"
  by (simp add: Let_def with_scope_refill split: option.split)

declare check_budgets.simps(2) [simp del]

lemma lookup_refilled:
  "bucket_of e s = Some b \<Longrightarrow> dict_get (en_scopes (with_scope s (refill_scope now) e)) j =
     (if j = s then map_option (refill_scope now) (dict_get (en_scopes e) s) else dict_get (en_scopes e) j)"
  by (auto simp: lookup_with_scope scope_of_def split: option.splits)

lemma bind_refill_scope:
  "Option.bind (map_option (refill_scope now) x) sc_bucket =
     map_option (\<lambda>b. refill b now) (Option.bind x sc_bucket)"
  by (cases x) simp_all

lemma budget_covers_refilled:
  "bucket_of e s = Some b \<Longrightarrow>
     budget_covers (with_scope s (refill_scope now) e) w now j = budget_covers e w now j"
  by (auto simp: budget_covers_def lookup_refilled bind_refill_scope split: if_splits)

lemma check_budgets_Inr_iff:
  "fst (check_budgets ss w now e) = Inr () \<longleftrightarrow> (\<forall>s\<in>set ss. budget_covers e w now s)"
proof (induction ss arbitrary: e)
  case Nil
  show ?case by simp
next
  case (Cons s ss)
  show ?case
  proof (cases "bucket_of e s")
    case None
    then show ?thesis by (simp add: check_budgets_Cons Cons.IH budget_covers_def)
  next
    case (Some b)
    then have "budget_covers e w now s \<longleftrightarrow> \<not> bk_tokens (refill b now) + eps < w"
      by (auto simp: budget_covers_def)
    with Some show ?thesis
      by (simp add: check_budgets_Cons Cons.IH budget_covers_refilled)
  qed
qed

lemma check_budgets_lookup:
  "fst (check_budgets ss w now e) = Inr () \<Longrightarrow>
     dict_get (en_scopes (snd (check_budgets ss w now e))) j =
       (if j \<in> set ss then map_option (refill_scope now) (dict_get (en_scopes e) j)
        else dict_get (en_scopes e) j)"
proof (induction ss arbitrary: e)
  case Nil
  then show ?case by simp
next
  case (Cons s ss)
  show ?case
  proof (cases "bucket_of e s")
    case None
    then have "map_option (refill_scope now) (dict_get (en_scopes e) s) = dict_get (en_scopes e) s"
      by (cases "dict_get (en_scopes e) s") (simp_all add: refill_scope_no_bucket)
    with None Cons show ?thesis by (auto simp: check_budgets_Cons)
  next
    case (Some b)
    with Cons.prems have "fst (check_budgets ss w now (with_scope s (refill_scope now) e)) = Inr ()"
      by (simp add: check_budgets_Cons split: if_splits)
    from Cons.IH [OF this] Some Cons.prems show ?thesis
      by (auto simp: check_budgets_Cons lookup_refilled option.map_comp comp_def split: if_splits)
  qed
qed

lemma check_budgets_lookup_any:
  "dict_get (en_scopes (snd (check_budgets ss w now e))) j = dict_get (en_scopes e) j \<or>
   j \<in> set ss \<and> dict_get (en_scopes (snd (check_budgets ss w now e))) j =
     map_option (refill_scope now) (dict_get (en_scopes e) j)"
proof (induction ss arbitrary: e)
  case Nil
  show ?case by simp
next
  case (Cons s ss)
  show ?case
  proof (cases "bucket_of e s")
    case None
    with Cons.IH [of e] show ?thesis by (auto simp: check_budgets_Cons)
  next
    case (Some b)
    with Cons.IH [of "with_scope s (refill_scope now) e"] show ?thesis
      by (auto simp: check_budgets_Cons lookup_refilled option.map_comp comp_def split: if_splits)
  qed
qed

lemma check_budgets_params [simp]:
  "en_backoff_initial_ms (snd (check_budgets ss w now e)) = en_backoff_initial_ms e"
  "en_backoff_max_ms (snd (check_budgets ss w now e)) = en_backoff_max_ms e"
  "en_margin (snd (check_budgets ss w now e)) = en_margin e"
  "en_window_ms (snd (check_budgets ss w now e)) = en_window_ms e"
  by (induction ss arbitrary: e) (simp_all add: check_budgets_Cons split: option.split)

lemma check_budgets_Inl_reason:
  "fst (check_budgets ss w now e) = Inl err \<Longrightarrow> rle_reason err = BUDGET_EXCEEDED"
  by (induction ss arbitrary: e) (auto simp: check_budgets_Cons split: option.splits if_splits)

lemma scope_of_fold_with_scope:
  "scope_of (fold (\<lambda>s. with_scope s f) ss e) j = (f ^^ count_list ss j) (scope_of e j)"
  by (induction ss arbitrary: e) (simp_all add: scope_of_with_scope funpow_swap1)

lemma lookup_fold_with_scope:
  "dict_get (en_scopes (fold (\<lambda>s. with_scope s f) ss e)) j =
     (if j \<in> set ss then Some ((f ^^ count_list ss j) (scope_of e j)) else dict_get (en_scopes e) j)"
proof (induction ss arbitrary: e)
  case Nil
  show ?case by simp
next
  case (Cons s ss)
  have "count_list ss j = 0" if "j \<notin> set ss" using that by (simp add: count_list_0_iff)
  then show ?case
    by (auto simp: Cons.IH scope_of_with_scope lookup_with_scope funpow_swap1)
qed

section \<open>Deduction\<close>

definition take_tokens :: "real \<Rightarrow> bucket_state \<Rightarrow> bucket_state" where
  "take_tokens w b = b\<lparr>bk_tokens := max 0 (bk_tokens b - w)\<rparr>"

lemma take_tokens_simps [simp]:
  "bk_tokens (take_tokens w b) = max 0 (bk_tokens b - w)"
  "bk_capacity (take_tokens w b) = bk_capacity b"
  "bk_refill_per_ms (take_tokens w b) = bk_refill_per_ms b"
  "bk_last_refill_ms (take_tokens w b) = bk_last_refill_ms b"
  "bk_cooldown_until_ms (take_tokens w b) = bk_cooldown_until_ms b"
  by (simp_all add: take_tokens_def)

lemma deduct_simps [simp]:
  "sc_bucket (deduct w now st) = map_option (take_tokens w) (sc_bucket st)"
  "sc_weight (deduct w now st) = sc_weight st"
  "sc_min_interval_ms (deduct w now st) = sc_min_interval_ms st"
  "sc_last_request_at_ms (deduct w now st) =
     (if sc_min_interval_ms st \<noteq> None then Some now else sc_last_request_at_ms st)"
  "sc_backoff_failures (deduct w now st) = sc_backoff_failures st"
  by (auto simp: deduct_def Let_def take_tokens_def split: option.split)

lemma deduct_funpow [simp]:
  "sc_bucket ((deduct w now ^^ n) st) = map_option (take_tokens w ^^ n) (sc_bucket st)"
  "sc_weight ((deduct w now ^^ n) st) = sc_weight st"
  "sc_min_interval_ms ((deduct w now ^^ n) st) = sc_min_interval_ms st"
  "sc_backoff_failures ((deduct w now ^^ n) st) = sc_backoff_failures st"
proof -
  show "sc_min_interval_ms ((deduct w now ^^ n) st) = sc_min_interval_ms st" by (induction n) simp_all
  show "sc_weight ((deduct w now ^^ n) st) = sc_weight st" by (induction n) simp_all
  show "sc_backoff_failures ((deduct w now ^^ n) st) = sc_backoff_failures st" by (induction n) simp_all
  show "sc_bucket ((deduct w now ^^ n) st) = map_option (take_tokens w ^^ n) (sc_bucket st)"
    by (induction n) (simp_all add: option.map_comp comp_def option.map_ident)
qed

lemma take_tokens_funpow [simp]:
  "bk_capacity ((take_tokens w ^^ n) b) = bk_capacity b"
  "bk_refill_per_ms ((take_tokens w ^^ n) b) = bk_refill_per_ms b"
  "bk_last_refill_ms ((take_tokens w ^^ n) b) = bk_last_refill_ms b"
  "bk_cooldown_until_ms ((take_tokens w ^^ n) b) = bk_cooldown_until_ms b"
  by (induction n) simp_all

lemma take_tokens_funpow_le:
  "0 \<le> w \<Longrightarrow> 0 \<le> bk_tokens b \<Longrightarrow>
     0 \<le> bk_tokens ((take_tokens w ^^ n) b) \<and> bk_tokens ((take_tokens w ^^ n) b) \<le> bk_tokens b"
  by (induction n) auto

lemma take_tokens_funpow_drop:
  assumes "0 \<le> w" and "0 \<le> bk_tokens b" and "0 < n"
  shows "bk_tokens ((take_tokens w ^^ n) b) \<le> max 0 (bk_tokens b - w)"
proof -
  obtain m where n: "n = Suc m" using assms(3) by (cases n) auto
  have "bk_tokens ((take_tokens w ^^ m) b) \<le> bk_tokens b"
    using take_tokens_funpow_le [OF assms(1,2)] by blast
  then show ?thesis unfolding n by auto
qed

lemma deduct_scopes_lookup:
  "dict_get (en_scopes (deduct_scopes ss w now e)) j =
     (if j \<in> set ss then Some ((deduct w now ^^ count_list ss j) (scope_of e j))
      else dict_get (en_scopes e) j)"
  by (simp add: deduct_scopes_def lookup_fold_with_scope)

lemma deduct_scopes_params [simp]:
  "en_backoff_initial_ms (deduct_scopes ss w now e) = en_backoff_initial_ms e"
  "en_backoff_max_ms (deduct_scopes ss w now e) = en_backoff_max_ms e"
  "en_margin (deduct_scopes ss w now e) = en_margin e"
  "en_window_ms (deduct_scopes ss w now e) = en_window_ms e"
  by (induction ss arbitrary: e) (simp_all add: deduct_scopes_def)

section \<open>The consumption as a whole\<close>

definition scope_admits :: "rate_limit_engine \<Rightarrow> real \<Rightarrow> int \<Rightarrow> string \<Rightarrow> bool" where
  "scope_admits e weight now s \<longleftrightarrow>
     cooldown_over e now s \<and> interval_over e now s \<and> budget_covers e weight now s"

abbreviation admitted :: "(rate_limit_error + unit) \<times> rate_limit_engine \<Rightarrow> bool" where
  "admitted r \<equiv> fst r = Inr ()"

lemma sum_unit_cases: "fst r \<noteq> Inr () \<Longrightarrow> \<exists>err. fst r = Inl (err :: 'a)" for r :: "('a + unit) \<times> 'b"
  by (cases "fst r") auto

lemma admitted_iff:
  "admitted (try_consume_scopes ss w nw wall e) \<longleftrightarrow> (\<forall>s\<in>set ss. scope_admits e w (now_or nw wall) s)"
proof -
  have "admitted (try_consume_scopes ss w nw wall e) \<longleftrightarrow>
      cooldown_retry_ms e ss (now_or nw wall) = None \<and>
      min_interval_retry_ms e ss (now_or nw wall) = None \<and>
      fst (check_budgets ss w (now_or nw wall) e) = Inr ()"
    by (auto simp: try_consume_scopes_def Let_def split: option.splits prod.splits sum.splits)
  then show ?thesis
    by (auto simp: cooldown_retry_None_iff min_interval_retry_None_iff check_budgets_Inr_iff
        scope_admits_def)
qed

lemma admitted_state:
  assumes "admitted (try_consume_scopes ss w nw wall e)"
  shows "snd (try_consume_scopes ss w nw wall e) =
     deduct_scopes ss w (now_or nw wall) (snd (check_budgets ss w (now_or nw wall) e))"
    and "fst (check_budgets ss w (now_or nw wall) e) = Inr ()"
  using assms
  by (auto simp: try_consume_scopes_def Let_def split: option.splits prod.splits sum.splits)

lemma admitted_lookup:
  assumes "admitted (try_consume_scopes ss w nw wall e)"
  shows "dict_get (en_scopes (snd (try_consume_scopes ss w nw wall e))) j =
     (if j \<in> set ss
      then Some ((deduct w (now_or nw wall) ^^ count_list ss j) (refill_scope (now_or nw wall) (scope_of e j)))
      else dict_get (en_scopes e) j)"
  using admitted_state [OF assms]
  by (auto simp: deduct_scopes_lookup check_budgets_lookup scope_of_def refill_scope_no_bucket
      split: option.split)

lemma rejected_state:
  assumes "\<not> admitted (try_consume_scopes ss w nw wall e)"
  shows "snd (try_consume_scopes ss w nw wall e) = e \<or>
     snd (try_consume_scopes ss w nw wall e) = snd (check_budgets ss w (now_or nw wall) e)"
  using assms
  by (auto simp: try_consume_scopes_def Let_def split: option.splits prod.splits sum.splits)

lemma rejected_lookup:
  assumes "\<not> admitted (try_consume_scopes ss w nw wall e)"
  shows "dict_get (en_scopes (snd (try_consume_scopes ss w nw wall e))) j = dict_get (en_scopes e) j \<or>
     j \<in> set ss \<and> dict_get (en_scopes (snd (try_consume_scopes ss w nw wall e))) j =
       map_option (refill_scope (now_or nw wall)) (dict_get (en_scopes e) j)"
  using rejected_state [OF assms] check_budgets_lookup_any [of ss w "now_or nw wall" e j] by auto

lemma try_consume_scopes_params [simp]:
  "en_backoff_initial_ms (snd (try_consume_scopes ss w nw wall e)) = en_backoff_initial_ms e"
  "en_backoff_max_ms (snd (try_consume_scopes ss w nw wall e)) = en_backoff_max_ms e"
  "en_margin (snd (try_consume_scopes ss w nw wall e)) = en_margin e"
  "en_window_ms (snd (try_consume_scopes ss w nw wall e)) = en_window_ms e"
  using admitted_state(1) [of ss w nw wall e] rejected_state [of ss w nw wall e]
  by (metis check_budgets_params deduct_scopes_params)+

section \<open>The engine as an event system\<close>

datatype rl_op =
    Register_Bucket string "real option" "real option" "real option"
  | Register_Weight string weight_args
  | Register_Min_Interval string interval_args
  | Try_Consume string consume_args int
  | Try_Consume_Scopes "string list" real int
  | Apply_Cooldown "string list" int int
  | Apply_Backoff "string list" int

fun rl_step :: "rate_limit_engine \<Rightarrow> rl_op \<Rightarrow> rate_limit_engine" where
  "rl_step e (Register_Bucket s budget cap rps) = register_bucket s budget cap rps e"
| "rl_step e (Register_Weight s args) = register_weight s args e"
| "rl_step e (Register_Min_Interval s args) = register_min_interval s args e"
| "rl_step e (Try_Consume s args now) = snd (try_consume s args (Some now) now e)"
| "rl_step e (Try_Consume_Scopes ss w now) = snd (try_consume_scopes ss w (Some now) now e)"
| "rl_step e (Apply_Cooldown ss retry_after now) = apply_cooldown ss retry_after (Some now) now e"
| "rl_step e (Apply_Backoff ss now) = snd (apply_backoff ss None (Some now) now e)"

text \<open>Arguments the callers pass: no negative budgets, capacities, rates or weights.\<close>

fun rl_op_ok :: "rl_op \<Rightarrow> bool" where
  "rl_op_ok (Register_Bucket s budget cap rps) \<longleftrightarrow>
     budget \<noteq> None \<or> (case cap of Some c \<Rightarrow> 0 \<le> c | None \<Rightarrow> True) \<and> (case rps of Some r \<Rightarrow> 0 \<le> r | None \<Rightarrow> True)"
| "rl_op_ok (Register_Weight s (Weight_Number w)) \<longleftrightarrow> 0 \<le> w"
| "rl_op_ok (Register_Weight s (Legacy_Scope_Weight t w)) \<longleftrightarrow> 0 \<le> w"
| "rl_op_ok (Try_Consume s (Consume_Weight w) now) \<longleftrightarrow> 0 \<le> w"
| "rl_op_ok (Try_Consume_Scopes ss w now) \<longleftrightarrow> 0 \<le> w"
| "rl_op_ok _ \<longleftrightarrow> True"

text \<open>The request an event makes, if it is one: its scopes, weight and time.\<close>

fun rl_request :: "rate_limit_engine \<Rightarrow> rl_op \<Rightarrow> (string list \<times> real \<times> int) option" where
  "rl_request e (Try_Consume s (Consume_Scopes ss) now) =
     (let all_scopes = s # filter (\<lambda>t. t \<noteq> s) ss
      in Some (all_scopes, resolve_weight_from_scopes e all_scopes, now))"
| "rl_request e (Try_Consume s (Consume_Weight w) now) = Some ([s], w, now)"
| "rl_request e (Try_Consume_Scopes ss w now) = Some (ss, w, now)"
| "rl_request e _ = None"

definition scope_ok :: "scope_state \<Rightarrow> bool" where
  "scope_ok st \<longleftrightarrow> (\<forall>b. sc_bucket st = Some b \<longrightarrow> bucket_ok b) \<and> (\<forall>w. sc_weight st = Some w \<longrightarrow> 0 \<le> w)"

definition engine_ok :: "rate_limit_engine \<Rightarrow> bool" where
  "engine_ok e \<longleftrightarrow> (\<forall>s st. dict_get (en_scopes e) s = Some st \<longrightarrow> scope_ok st)"

lemma scope_ok_new [simp]: "scope_ok new_scope_state"
  by (simp add: scope_ok_def)

lemma engine_ok_scope_of: "engine_ok e \<Longrightarrow> scope_ok (scope_of e s)"
  by (simp add: engine_ok_def scope_of_def split: option.split)

lemma engine_ok_with_scope:
  "engine_ok e \<Longrightarrow> (\<And>st. scope_ok st \<Longrightarrow> scope_ok (f st)) \<Longrightarrow> engine_ok (with_scope s f e)"
  using engine_ok_scope_of [of e s] by (auto simp: engine_ok_def lookup_with_scope)

lemma engine_ok_fold_with_scope:
  "engine_ok e \<Longrightarrow> (\<And>st. scope_ok st \<Longrightarrow> scope_ok (f st)) \<Longrightarrow>
     engine_ok (fold (\<lambda>s. with_scope s f) ss e)"
  by (induction ss arbitrary: e) (auto intro: engine_ok_with_scope)

lemma resolve_weight_nonneg: "engine_ok e \<Longrightarrow> 0 \<le> resolve_weight e s g"
  by (auto simp: resolve_weight_def engine_ok_def scope_ok_def Option.bind_eq_Some_conv split: option.split)

lemma rl_request_weight_nonneg:
  "engine_ok e \<Longrightarrow> rl_op_ok x \<Longrightarrow> rl_request e x = Some (ss, w, now) \<Longrightarrow> 0 \<le> w"
  by (cases "(e, x)" rule: rl_request.cases)
     (auto simp: Let_def resolve_weight_from_scopes_def resolve_weight_nonneg)

lemma rl_step_request:
  "rl_request e x = Some (ss, w, now) \<Longrightarrow>
     rl_step e x = snd (try_consume_scopes ss w (Some now) now e)"
  by (cases "(e, x)" rule: rl_request.cases) (auto simp: Let_def)

lemma scope_ok_refill: "scope_ok st \<Longrightarrow> scope_ok (refill_scope now st)"
  by (auto simp: scope_ok_def refill_ok)

lemma scope_ok_deduct: "0 \<le> w \<Longrightarrow> scope_ok st \<Longrightarrow> scope_ok (deduct w now st)"
  by (fastforce simp: scope_ok_def bucket_ok_def)

lemma scope_ok_deduct_funpow: "0 \<le> w \<Longrightarrow> scope_ok st \<Longrightarrow> scope_ok ((deduct w now ^^ n) st)"
  by (induction n) (simp_all add: scope_ok_deduct)

lemma engine_ok_try_consume_scopes:
  assumes "engine_ok e" and "0 \<le> w"
  shows "engine_ok (snd (try_consume_scopes ss w nw wall e))"
proof (cases "admitted (try_consume_scopes ss w nw wall e)")
  case True
  with assms show ?thesis
    by (auto simp: engine_ok_def admitted_lookup
        intro!: scope_ok_deduct_funpow scope_ok_refill engine_ok_scope_of split: if_splits)
next
  case False
  from assms rejected_lookup [OF False] show ?thesis
    unfolding engine_ok_def by (metis map_option_eq_Some scope_ok_refill)
qed

lemma scope_ok_extend_cooldown: "scope_ok st \<Longrightarrow> scope_ok (extend_cooldown until st)"
  by (auto simp: scope_ok_def extend_cooldown_def bucket_ok_def split: option.splits)

lemma scope_ok_back_off: "scope_ok st \<Longrightarrow> scope_ok (back_off_scope e now st)"
  by (auto simp: scope_ok_def back_off_scope_def bucket_ok_def Let_def split: option.splits)

lemma engine_ok_backoff_loop: "engine_ok e \<Longrightarrow> engine_ok (snd (backoff_loop ss now m e))"
  by (induction ss arbitrary: e m) (auto simp: Let_def intro: engine_ok_with_scope scope_ok_back_off)

lemma or_num_nonneg: "(case x of Some r \<Rightarrow> 0 \<le> r | None \<Rightarrow> True) \<Longrightarrow> 0 \<le> or_num x (0::real)"
  by (auto simp: or_num_def split: option.splits)

lemma scope_ok_set_bucket: "scope_ok st \<Longrightarrow> bucket_ok b \<Longrightarrow> scope_ok (st\<lparr>sc_bucket := Some b\<rparr>)"
  by (simp add: scope_ok_def)

lemma engine_ok_register_bucket:
  "engine_ok e \<Longrightarrow> rl_op_ok (Register_Bucket s budget cap rps) \<Longrightarrow> engine_ok (register_bucket s budget cap rps e)"
  using or_num_nonneg [of rps]
  by (auto simp: register_bucket_def Let_def bucket_ok_def
      intro!: engine_ok_with_scope scope_ok_set_bucket split: option.splits prod.splits if_splits)

lemma engine_ok_register_weight:
  "engine_ok e \<Longrightarrow> rl_op_ok (Register_Weight s args) \<Longrightarrow> engine_ok (register_weight s args e)"
  by (cases args) (auto intro!: engine_ok_with_scope simp: scope_ok_def)

lemma engine_ok_register_min_interval: "engine_ok e \<Longrightarrow> engine_ok (register_min_interval s args e)"
  by (cases args) (auto intro!: engine_ok_with_scope simp: scope_ok_def)

lemma rl_step_ok:
  assumes e: "engine_ok e" and x: "rl_op_ok x"
  shows "engine_ok (rl_step e x)"
proof (cases "rl_request e x")
  case (Some r)
  then obtain ss w now where "rl_request e x = Some (ss, w, now)" by (cases r) auto
  with e x show ?thesis
    by (simp add: rl_step_request engine_ok_try_consume_scopes rl_request_weight_nonneg)
next
  case None
  with e x show ?thesis
    by (cases x rule: rl_op_ok.cases)
       (auto simp: apply_cooldown_def apply_backoff_def Let_def
         intro: engine_ok_fold_with_scope scope_ok_extend_cooldown engine_ok_backoff_loop
           engine_ok_register_bucket engine_ok_register_weight engine_ok_register_min_interval
         simp del: register_weight.simps register_min_interval.simps rl_op_ok.simps(1,2,3))
qed

interpretation rl: event_system rl_step engine_ok "\<lambda>_. rl_op_ok"
  by unfold_locales (rule rl_step_ok)

section \<open>Metering one scope\<close>

fun keeps_bucket :: "string \<Rightarrow> rl_op \<Rightarrow> bool" where
  "keeps_bucket s (Register_Bucket t _ _ _) \<longleftrightarrow> t \<noteq> s"
| "keeps_bucket s _ \<longleftrightarrow> True"

fun rl_op_time :: "rl_op \<Rightarrow> int option" where
  "rl_op_time (Try_Consume s args now) = Some now"
| "rl_op_time (Try_Consume_Scopes ss w now) = Some now"
| "rl_op_time (Apply_Cooldown ss retry_after now) = Some now"
| "rl_op_time (Apply_Backoff ss now) = Some now"
| "rl_op_time _ = None"

definition in_window :: "int \<Rightarrow> int \<Rightarrow> rl_op \<Rightarrow> bool" where
  "in_window t0 T x \<longleftrightarrow> (\<forall>t. rl_op_time x = Some t \<longrightarrow> t0 \<le> t \<and> t \<le> T)"

text \<open>Whether an event is a request that goes through scope \<open>s\<close>, and the weight it is charged.\<close>

definition passes_through :: "string \<Rightarrow> rate_limit_engine \<Rightarrow> rl_op \<Rightarrow> bool" where
  "passes_through s e x \<longleftrightarrow>
     (case rl_request e x of
        None \<Rightarrow> False
      | Some (ss, w, now) \<Rightarrow> s \<in> set ss \<and> admitted (try_consume_scopes ss w (Some now) now e))"

definition admitted_weight :: "string \<Rightarrow> rate_limit_engine \<Rightarrow> rl_op \<Rightarrow> real" where
  "admitted_weight s e x =
     (if passes_through s e x then (case rl_request e x of Some (ss, w, now) \<Rightarrow> w | None \<Rightarrow> 0) else 0)"

definition admissions :: "string \<Rightarrow> rate_limit_engine \<Rightarrow> rl_op \<Rightarrow> real" where
  "admissions s e x = (if passes_through s e x then 1 else 0)"

text \<open>The credit a scope has at the start of a window, earned idle time before it included.\<close>

definition scope_credit :: "string \<Rightarrow> int \<Rightarrow> rate_limit_engine \<Rightarrow> real" where
  "scope_credit s t0 e = (case bucket_of e s of None \<Rightarrow> 0 | Some b \<Rightarrow> credit (refill b t0))"

definition metered :: "string \<Rightarrow> real \<Rightarrow> int \<Rightarrow> rate_limit_engine \<Rightarrow> bool" where
  "metered s r T e \<longleftrightarrow> engine_ok e \<and>
     (\<exists>b. bucket_of e s = Some b \<and> bk_refill_per_ms b = r \<and> bk_last_refill_ms b \<le> T)"

definition metered_op :: "string \<Rightarrow> int \<Rightarrow> int \<Rightarrow> rl_op \<Rightarrow> bool" where
  "metered_op s t0 T x \<longleftrightarrow> rl_op_ok x \<and> keeps_bucket s x \<and> in_window t0 T x"

definition same_meter :: "bucket_state \<Rightarrow> bucket_state \<Rightarrow> bool" where
  "same_meter b c \<longleftrightarrow> bk_tokens c = bk_tokens b \<and> bk_refill_per_ms c = bk_refill_per_ms b \<and>
     bk_last_refill_ms c = bk_last_refill_ms b \<and> bk_capacity c = bk_capacity b"

lemma same_meter_refl [simp]: "same_meter b b"
  by (simp add: same_meter_def)

lemma same_meter_trans: "same_meter a b \<Longrightarrow> same_meter b c \<Longrightarrow> same_meter a c"
  by (simp add: same_meter_def)

lemma extend_cooldown_meter:
  "sc_bucket st = Some b \<Longrightarrow> \<exists>c. sc_bucket (extend_cooldown u st) = Some c \<and> same_meter b c"
  by (simp add: extend_cooldown_def same_meter_def)

lemma back_off_meter:
  "sc_bucket st = Some b \<Longrightarrow> \<exists>c. sc_bucket (back_off_scope e now st) = Some c \<and> same_meter b c"
  by (simp add: back_off_scope_def same_meter_def Let_def)

lemma fold_with_scope_meter:
  assumes f: "\<And>st b. sc_bucket st = Some b \<Longrightarrow> \<exists>c. sc_bucket (f st) = Some c \<and> same_meter b c"
  shows "bucket_of e s = Some b \<Longrightarrow>
     \<exists>c. bucket_of (fold (\<lambda>s. with_scope s f) ss e) s = Some c \<and> same_meter b c"
proof (induction ss arbitrary: e b)
  case Nil
  then show ?case by simp
next
  case (Cons t ss)
  have "\<exists>c. bucket_of (with_scope t f e) s = Some c \<and> same_meter b c"
    using Cons.prems f [of "scope_of e t"] by (auto simp: bucket_of_eq scope_of_with_scope)
  then obtain c where c: "bucket_of (with_scope t f e) s = Some c" "same_meter b c" by blast
  from Cons.IH [OF c(1)] c(2) show ?case by (auto intro: same_meter_trans)
qed

lemma backoff_loop_meter:
  "bucket_of e s = Some b \<Longrightarrow>
     \<exists>c. bucket_of (snd (backoff_loop ss now m e)) s = Some c \<and> same_meter b c"
proof (induction ss arbitrary: e b m)
  case Nil
  then show ?case by simp
next
  case (Cons t ss)
  have "\<exists>c. bucket_of (with_scope t (back_off_scope e now) e) s = Some c \<and> same_meter b c"
    using Cons.prems back_off_meter [of "scope_of e t" _ e now]
    by (auto simp: bucket_of_eq scope_of_with_scope)
  then obtain c where c: "bucket_of (with_scope t (back_off_scope e now) e) s = Some c" "same_meter b c"
    by blast
  from Cons.IH [OF c(1)] c(2) show ?case by (auto simp: Let_def intro: same_meter_trans)
qed

lemma register_weight_meter:
  "bucket_of (register_weight t args e) s = bucket_of e s"
  by (cases args) (simp_all add: bucket_of_eq scope_of_with_scope)

lemma register_min_interval_meter:
  "bucket_of (register_min_interval t args e) s = bucket_of e s"
  by (cases args) (simp_all add: bucket_of_eq scope_of_with_scope)

lemma register_bucket_meter:
  "t \<noteq> s \<Longrightarrow> bucket_of (register_bucket t budget cap rps e) s = bucket_of e s"
  by (simp add: register_bucket_def Let_def bucket_of_eq scope_of_with_scope split: prod.split)

lemma non_request_meter:
  assumes "rl_request e x = None" and "keeps_bucket s x" and b: "bucket_of e s = Some b"
  shows "\<exists>c. bucket_of (rl_step e x) s = Some c \<and> same_meter b c"
proof (cases x)
  case (Apply_Cooldown ss retry_after now)
  with fold_with_scope_meter [OF extend_cooldown_meter b] show ?thesis
    by (simp add: apply_cooldown_def Let_def)
next
  case (Apply_Backoff ss now)
  with backoff_loop_meter [OF b] show ?thesis by (simp add: apply_backoff_def Let_def)
next
  case (Try_Consume t args now)
  with assms(1) show ?thesis by (cases args) (simp_all add: Let_def)
qed (use assms in \<open>simp_all add: register_weight_meter register_min_interval_meter register_bucket_meter
       del: register_weight.simps register_min_interval.simps\<close>)

lemma request_rejected_meter:
  assumes "\<not> admitted (try_consume_scopes ss w (Some now) now e)" and "bucket_of e s = Some b"
  shows "bucket_of (snd (try_consume_scopes ss w (Some now) now e)) s \<in> {Some b, Some (refill b now)}"
  using rejected_lookup [OF assms(1), of s] assms(2)
  by (auto simp: bind_refill_scope)

lemma request_admitted_meter:
  assumes "admitted (try_consume_scopes ss w (Some now) now e)" and "bucket_of e s = Some b"
  shows "bucket_of (snd (try_consume_scopes ss w (Some now) now e)) s =
     Some (if s \<in> set ss then (take_tokens w ^^ count_list ss s) (refill b now) else b)"
  using admitted_lookup [OF assms(1), of s] assms(2) by (auto simp: bucket_of_eq)

lemma request_admitted_credit:
  assumes "admitted (try_consume_scopes ss w (Some now) now e)" and b: "bucket_of e s = Some b"
    and ok: "bucket_ok b" and w: "0 \<le> w" and s: "s \<in> set ss"
  shows "credit ((take_tokens w ^^ count_list ss s) (refill b now)) + w \<le> credit (refill b now) + eps"
proof -
  let ?b = "refill b now"
  have rok: "bucket_ok ?b" using ok by (rule refill_ok)
  have "budget_covers e w now s"
    using assms(1) s by (simp add: admitted_iff scope_admits_def)
  then have "w \<le> bk_tokens ?b + eps" using b by (simp add: budget_covers_def)
  moreover have "0 < count_list ss s" using s count_list_0_iff [of ss s] by auto
  then have "bk_tokens ((take_tokens w ^^ count_list ss s) ?b) \<le> max 0 (bk_tokens ?b - w)"
    using rok w by (intro take_tokens_funpow_drop) (auto simp: bucket_ok_def)
  ultimately have "bk_tokens ((take_tokens w ^^ count_list ss s) ?b) + w \<le> bk_tokens ?b + eps"
    using eps_pos by linarith
  then show ?thesis by (simp add: credit_def)
qed

lemma refill_past: "t \<le> bk_last_refill_ms b \<Longrightarrow> refill b t = b"
  by (simp add: refill_def Let_def)

lemma refill_compose:
  assumes "bucket_ok b" and "t \<le> u"
  shows "refill (refill b t) u = refill b u"
proof (cases "t \<le> bk_last_refill_ms b")
  case True
  then show ?thesis by (simp add: refill_past)
next
  case False
  let ?r = "bk_refill_per_ms b" and ?l = "bk_last_refill_ms b" and ?c = "bk_capacity b"
  have r: "0 \<le> ?r" and c: "bk_tokens b \<le> ?c" using assms(1) by (auto simp: bucket_ok_def)
  show ?thesis
  proof (cases "u = t")
    case True
    then show ?thesis by simp
  next
    case u: False
    with assms(2) False have lt: "?l < t" "t < u" by auto
    have "0 \<le> of_int (u - t) * ?r" using r lt by simp
    moreover have "of_int (t - ?l) * ?r + of_int (u - t) * ?r = of_int (u - ?l) * ?r"
      by (simp add: algebra_simps)
    ultimately have "min ?c (min ?c (bk_tokens b + of_int (t - ?l) * ?r) + of_int (u - t) * ?r) =
        min ?c (bk_tokens b + of_int (u - ?l) * ?r)"
      by (auto simp: min_def)
    with lt show ?thesis by (simp add: refill_def Let_def max_def)
  qed
qed

lemma refill_credit_later:
  assumes "bucket_ok b" and "t \<le> u"
  shows "credit (refill b u) \<le> credit (refill b t)"
  using refill_credit [of "refill b t" u] assms by (simp add: refill_compose bucket_ok_def)

lemma same_meter_refill: "same_meter b c \<Longrightarrow> credit (refill c t) = credit (refill b t)"
  by (simp add: same_meter_def credit_def refill_tokens refill_last)

lemma scope_credit_eqI:
  "bucket_of e s = Some b \<Longrightarrow> t0 \<le> bk_last_refill_ms b \<Longrightarrow> scope_credit s t0 e = credit b"
  by (simp add: scope_credit_def refill_past)

lemma metered_step:
  assumes m: "metered s r T e" and x: "metered_op s t0 T x"
  shows "metered s r T (rl_step e x) \<and>
     scope_credit s t0 (rl_step e x) + admitted_weight s e x \<le> scope_credit s t0 e + eps * admissions s e x"
proof -
  from m obtain b where b: "bucket_of e s = Some b" "bk_refill_per_ms b = r" "bk_last_refill_ms b \<le> T"
    and e: "engine_ok e" by (auto simp: metered_def)
  from e x have e': "engine_ok (rl_step e x)" by (simp add: metered_op_def rl_step_ok)
  have bok: "bucket_ok b" using e b(1) by (metis bucket_of_eq engine_ok_scope_of scope_ok_def)
  show ?thesis
  proof (cases "rl_request e x")
    case None
    obtain c where "bucket_of (rl_step e x) s = Some c" "same_meter b c"
      using non_request_meter [OF None _ b(1)] x unfolding metered_op_def by blast
    with None b e' show ?thesis
      by (simp add: metered_def scope_credit_def same_meter_refill admitted_weight_def
          admissions_def passes_through_def) (simp add: same_meter_def)
  next
    case (Some q)
    then obtain ss w now where q: "rl_request e x = Some (ss, w, now)" by (cases q) auto
    have now: "t0 \<le> now" "now \<le> T" using q x
      by (cases "(e, x)" rule: rl_request.cases; auto simp: metered_op_def in_window_def Let_def)+
    have w: "0 \<le> w" using rl_request_weight_nonneg [OF e _ q] x by (simp add: metered_op_def)
    have later: "credit (refill b now) \<le> scope_credit s t0 e"
      using refill_credit_later [OF bok now(1)] b(1) by (simp add: scope_credit_def)
    have step: "rl_step e x = snd (try_consume_scopes ss w (Some now) now e)"
      by (rule rl_step_request [OF q])
    show ?thesis
    proof (cases "admitted (try_consume_scopes ss w (Some now) now e)")
      case True
      have b': "bucket_of (rl_step e x) s =
          Some (if s \<in> set ss then (take_tokens w ^^ count_list ss s) (refill b now) else b)"
        using request_admitted_meter [OF True b(1)] by (simp only: step)
      show ?thesis
      proof (cases "s \<in> set ss")
        case in_ss: True
        with b' now have "scope_credit s t0 (rl_step e x) =
            credit ((take_tokens w ^^ count_list ss s) (refill b now))"
          by (intro scope_credit_eqI) (auto simp: refill_last)
        with in_ss b' True q b e' now later request_admitted_credit [OF True b(1) bok w in_ss]
        show ?thesis
          by (simp add: metered_def admitted_weight_def admissions_def passes_through_def refill_last)
      next
        case False
        with b' q b e' show ?thesis
          by (simp add: metered_def scope_credit_def admitted_weight_def admissions_def passes_through_def)
      qed
    next
      case False
      have b': "bucket_of (rl_step e x) s \<in> {Some b, Some (refill b now)}"
        using request_rejected_meter [OF False b(1)] by (simp only: step)
      then have "scope_credit s t0 (rl_step e x) \<le> scope_credit s t0 e"
        using later now b(1) scope_credit_eqI [of "rl_step e x" s "refill b now" t0]
        by (auto simp: refill_last scope_credit_def)
      with b' q False b e' now show ?thesis
        by (auto simp: metered_def admitted_weight_def admissions_def passes_through_def refill_last)
    qed
  qed
qed

interpretation meter: metered_system rl_step "metered s r T" "\<lambda>_. metered_op s t0 T"
    "scope_credit s t0" "admitted_weight s" "\<lambda>e x. eps * admissions s e x"
  for s r t0 T
  by unfold_locales (auto dest: metered_step)

text \<open>What goes through a scope in a window, whatever happened before it.\<close>

lemma window_weight_bound:
  assumes e: "engine_ok e" and b: "bucket_of e s = Some b"
    and last: "bk_last_refill_ms b \<le> T" and T: "t0 \<le> T" and xs: "list_all (metered_op s t0 T) xs"
  shows "run_sum rl_step (admitted_weight s) e xs \<le>
     bk_capacity b + bk_refill_per_ms b * of_int (T - t0) + eps * run_sum rl_step (admissions s) e xs"
proof -
  let ?r = "bk_refill_per_ms b" and ?e' = "foldl rl_step e xs"
  have m: "metered s ?r T e" using e b last by (simp add: metered_def)
  have bok: "bucket_ok b" using e b by (metis bucket_of_eq engine_ok_scope_of scope_ok_def)
  then have r: "0 \<le> ?r" by (simp add: bucket_ok_def)
  have "metered s ?r T ?e'" using meter.run_inv [OF m] xs by simp
  then obtain c where c: "bucket_of ?e' s = Some c" "bk_refill_per_ms c = ?r" "bk_last_refill_ms c \<le> T"
    and "engine_ok ?e'" by (auto simp: metered_def)
  then have "bucket_ok c" by (metis bucket_of_eq engine_ok_scope_of scope_ok_def)
  then have "0 \<le> bk_tokens (refill c t0)" using refill_ok [of c t0] by (simp add: bucket_ok_def)
  moreover have "?r * of_int (max (bk_last_refill_ms c) t0) \<le> ?r * of_int T"
    using c(3) T r by (intro of_int_scaled_mono) auto
  ultimately have after: "- (?r * of_int T) \<le> scope_credit s t0 ?e'"
    using c by (simp add: scope_credit_def credit_def refill_last)
  have "bk_tokens (refill b t0) \<le> bk_capacity b" using refill_ok [OF bok] by (simp add: bucket_ok_def)
  moreover have "?r * of_int t0 \<le> ?r * of_int (max (bk_last_refill_ms b) t0)"
    using r by (intro of_int_scaled_mono) auto
  ultimately have "scope_credit s t0 e \<le> bk_capacity b - ?r * of_int t0"
    using b by (simp add: scope_credit_def credit_def refill_last)
  with after meter.run_charge_le [OF m, of t0 xs] xs show ?thesis
    by (simp add: run_sum_scale algebra_simps)
qed

section \<open>Clocks: refilling twice, and retry hints\<close>

lemma refill_mono_time:
  assumes "bucket_ok b" and "t \<le> u"
  shows "bk_tokens (refill b t) \<le> bk_tokens (refill b u)"
proof -
  have "bk_tokens (refill b t) \<le> bk_tokens (refill (refill b t) u)"
    by (rule refill_mono [OF refill_ok [OF assms(1)]])
  then show ?thesis by (simp add: refill_compose [OF assms])
qed

lemma budget_retry_pos: "0 < budget_retry_ms b w"
  by (auto simp: budget_retry_ms_def DEFAULT_BUDGET_RETRY_MS_def Let_def less_max_iff_disj)

text \<open>What is earned in the hinted time makes up for what is missing, up to the tolerance.\<close>

lemma budget_retry_earns:
  assumes r: "0 < bk_refill_per_ms b" and short: "bk_tokens b + eps < w"
  shows "w - eps \<le> bk_tokens b + bk_refill_per_ms b * of_int (budget_retry_ms b w)"
proof -
  let ?r = "bk_refill_per_ms b" and ?m = "w - bk_tokens b"
  let ?q = "\<lfloor>?m / ?r\<rfloor>"
  have m: "max ?m 0 = ?m" "\<not> ?m < eps" using short eps_pos by linarith+
  let ?k = "if py_fmod ?m ?r > eps then ?q + 1 else ?q"
  have retry: "budget_retry_ms b w = max ?k 1"
    using r m by (simp add: budget_retry_ms_def Let_def)
  have "?m - eps \<le> ?r * of_int ?k"
  proof (cases "py_fmod ?m ?r > eps")
    case True
    have "?m < (of_int ?q + 1) * ?r" by (rule floor_divide_upper [OF r])
    moreover have "?r * of_int ?k = (of_int ?q + 1) * ?r" using True by (simp add: mult.commute)
    ultimately show ?thesis using eps_pos by linarith
  next
    case False
    then show ?thesis by (simp add: py_fmod_def algebra_simps)
  qed
  also have "?r * of_int ?k \<le> ?r * of_int (max ?k 1)"
    using r by (intro of_int_scaled_mono) auto
  finally show ?thesis by (simp add: retry algebra_simps)
qed

lemma budget_retry_enough:
  assumes ok: "bucket_ok b" and r: "0 < bk_refill_per_ms b" and cap: "w \<le> bk_capacity b"
    and short: "bk_tokens b + eps < w" and u: "bk_last_refill_ms b + budget_retry_ms b w \<le> u"
  shows "w \<le> bk_tokens (refill b u) + eps"
proof -
  let ?r = "bk_refill_per_ms b" and ?l = "bk_last_refill_ms b"
  have lt: "?l < u" using u budget_retry_pos [of b w] by linarith
  have "of_int (budget_retry_ms b w) \<le> (of_int (u - ?l) :: real)"
    using u by (simp only: of_int_le_iff)
  then have "?r * of_int (budget_retry_ms b w) \<le> ?r * of_int (u - ?l)"
    using r by (intro mult_left_mono) auto
  with budget_retry_earns [OF r short]
  have "w - eps \<le> bk_tokens b + of_int (u - ?l) * ?r" by (simp add: algebra_simps)
  then have "w - eps \<le> min (bk_capacity b) (bk_tokens b + of_int (u - ?l) * ?r)"
    using cap eps_pos by (intro min.boundedI) linarith+
  with lt have "w - eps \<le> bk_tokens (refill b u)" by (simp only: refill_tokens) simp
  then show ?thesis by simp
qed

section \<open>Backoff delays\<close>

lemma failure_backoff_le_max: "failure_backoff_ms e n \<le> en_backoff_max_ms e"
  by (simp add: failure_backoff_ms_def Let_def)

lemma failure_backoff_mono:
  assumes "0 \<le> en_backoff_initial_ms e" and "n \<le> m"
  shows "failure_backoff_ms e n \<le> failure_backoff_ms e m"
proof -
  have "(2::int) ^ min n 20 \<le> 2 ^ min m 20" using assms(2) by (intro power_increasing) auto
  then have "en_backoff_initial_ms e * 2 ^ min n 20 \<le> en_backoff_initial_ms e * 2 ^ min m 20"
    using assms(1) by (rule mult_left_mono)
  then show ?thesis by (simp add: failure_backoff_ms_def Let_def push_bit_eq_mult min.coboundedI1)
qed

section \<open>Cooldown deadlines never move back\<close>

definition cooldown_until :: "string \<Rightarrow> rate_limit_engine \<Rightarrow> int" where
  "cooldown_until s e = (case bucket_of e s of None \<Rightarrow> 0 | Some b \<Rightarrow> bk_cooldown_until_ms b)"

definition has_bucket :: "string \<Rightarrow> rate_limit_engine \<Rightarrow> bool" where
  "has_bucket s e \<longleftrightarrow> bucket_of e s \<noteq> None"

lemma cooldown_fold_with_scope:
  assumes f: "\<And>st b. sc_bucket st = Some b \<Longrightarrow>
      \<exists>c. sc_bucket (f st) = Some c \<and> bk_cooldown_until_ms b \<le> bk_cooldown_until_ms c"
  shows "bucket_of e s = Some b \<Longrightarrow>
     \<exists>c. bucket_of (fold (\<lambda>s. with_scope s f) ss e) s = Some c \<and>
         bk_cooldown_until_ms b \<le> bk_cooldown_until_ms c"
proof (induction ss arbitrary: e b)
  case Nil
  then show ?case by simp
next
  case (Cons t ss)
  have "\<exists>c. bucket_of (with_scope t f e) s = Some c \<and> bk_cooldown_until_ms b \<le> bk_cooldown_until_ms c"
    using Cons.prems f [of "scope_of e t"] by (auto simp: bucket_of_eq scope_of_with_scope)
  then obtain c where c: "bucket_of (with_scope t f e) s = Some c"
      "bk_cooldown_until_ms b \<le> bk_cooldown_until_ms c" by blast
  from Cons.IH [OF c(1)] c(2) show ?case by (auto intro: order_trans)
qed

lemma cooldown_backoff_loop:
  "bucket_of e s = Some b \<Longrightarrow>
     \<exists>c. bucket_of (snd (backoff_loop ss now m e)) s = Some c \<and>
         bk_cooldown_until_ms b \<le> bk_cooldown_until_ms c"
proof (induction ss arbitrary: e b m)
  case Nil
  then show ?case by simp
next
  case (Cons t ss)
  have "\<exists>c. bucket_of (with_scope t (back_off_scope e now) e) s = Some c \<and>
      bk_cooldown_until_ms b \<le> bk_cooldown_until_ms c"
    using Cons.prems by (auto simp: bucket_of_eq scope_of_with_scope back_off_scope_def Let_def)
  then obtain c where c: "bucket_of (with_scope t (back_off_scope e now) e) s = Some c"
      "bk_cooldown_until_ms b \<le> bk_cooldown_until_ms c" by blast
  from Cons.IH [OF c(1)] c(2) show ?case by (auto simp: Let_def intro: order_trans)
qed

lemma cooldown_step:
  assumes "keeps_bucket s x" and b: "bucket_of e s = Some b"
  shows "\<exists>c. bucket_of (rl_step e x) s = Some c \<and> bk_cooldown_until_ms b \<le> bk_cooldown_until_ms c"
proof (cases "rl_request e x")
  case (Some q)
  then obtain ss w now where q: "rl_request e x = Some (ss, w, now)" by (cases q) auto
  show ?thesis
  proof (cases "admitted (try_consume_scopes ss w (Some now) now e)")
    case True
    with request_admitted_meter [OF True b] q show ?thesis by (simp add: rl_step_request)
  next
    case False
    with request_rejected_meter [OF False b] q show ?thesis by (auto simp: rl_step_request)
  qed
next
  case None
  show ?thesis
  proof (cases x)
    case (Apply_Cooldown ss retry_after now)
    have "\<exists>c. sc_bucket (extend_cooldown u st) = Some c \<and> bk_cooldown_until_ms b \<le> bk_cooldown_until_ms c"
      if "sc_bucket st = Some b" for u st b
      using that by (simp add: extend_cooldown_def)
    from cooldown_fold_with_scope [OF this b] Apply_Cooldown show ?thesis
      by (simp add: apply_cooldown_def Let_def)
  next
    case (Apply_Backoff ss now)
    with cooldown_backoff_loop [OF b] show ?thesis by (simp add: apply_backoff_def Let_def)
  next
    case (Try_Consume t args now)
    with None show ?thesis by (cases args) (simp_all add: Let_def)
  qed (use assms None in \<open>simp_all add: register_weight_meter register_min_interval_meter
         register_bucket_meter del: register_weight.simps register_min_interval.simps\<close>)
qed

interpretation cooldown: ranked_system rl_step "has_bucket s" "\<lambda>_. keeps_bucket s" "cooldown_until s"
  for s
proof unfold_locales
  fix e x
  assume "has_bucket s e" and x: "keeps_bucket s x"
  then obtain b where b: "bucket_of e s = Some b" by (auto simp: has_bucket_def)
  from cooldown_step [OF x b] b
  show "has_bucket s (rl_step e x)" and "cooldown_until s e \<le> cooldown_until s (rl_step e x)"
    by (auto simp: has_bucket_def cooldown_until_def)
qed

lemma extend_cooldown_funpow:
  "sc_bucket st = Some b \<Longrightarrow> 0 < n \<Longrightarrow>
     \<exists>c. sc_bucket ((extend_cooldown u ^^ n) st) = Some c \<and> u \<le> bk_cooldown_until_ms c"
proof (induction n)
  case 0
  then show ?case by simp
next
  case (Suc n)
  then show ?case by (cases n) (auto simp: extend_cooldown_def split: option.splits)
qed

lemma apply_cooldown_until:
  assumes "has_bucket s e" and "s \<in> set ss"
  shows "has_bucket s (apply_cooldown ss retry_after (Some now) now e) \<and>
     now + retry_after \<le> cooldown_until s (apply_cooldown ss retry_after (Some now) now e)"
proof -
  have "0 < count_list ss s" using assms(2) count_list_0_iff [of ss s] by auto
  with assms(1) extend_cooldown_funpow [of "scope_of e s" _ "count_list ss s" "now + retry_after"]
  show ?thesis
    by (auto simp: has_bucket_def cooldown_until_def apply_cooldown_def Let_def bucket_of_eq
        scope_of_fold_with_scope)
qed

lemma cooling_request_rejected:
  assumes "has_bucket s e" and "s \<in> set ss" and "now < cooldown_until s e"
  shows "\<exists>err. fst (try_consume_scopes ss w (Some now) now e) = Inl err \<and> rle_reason err = COOLDOWN"
proof -
  have "\<not> cooldown_over e now s"
    using assms(1,3) by (auto simp: cooldown_over_def has_bucket_def cooldown_until_def)
  with assms(2) have "cooldown_retry_ms e ss now \<noteq> None"
    by (auto simp: cooldown_retry_None_iff)
  then show ?thesis by (auto simp: try_consume_scopes_def Let_def)
qed

end
