(* ===== verification/Rate_Limit_Runtime.thy ===== *)
theory Rate_Limit_Runtime
  imports Rate_Limit
begin

text \<open>
  The runtime around the token-bucket engine: \<open>lightfee/rate_limit/config.py\<close> (the
  configuration records, the configuration manager's reload) and the class
  \<open>RateLimitRuntime\<close> of \<open>lightfee/rate_limit/engine.py\<close> (the engine builder, the blocking
  wait, the recording of a venue's 429 answers).

  The parsing of the TOML text and the hash of it are arguments of \<open>config_refresh\<close>; the
  recommendation engine that is told about limit hits is not modelled. In the wait loop
  \<open>wake t d\<close> is the clock reading after a sleep of \<open>d\<close> ms begun at \<open>t\<close>.
\<close>

section \<open>Configuration\<close>

record rate_limit_global_config =
  gc_default_margin :: real
  gc_refresh_interval_secs :: int

record rate_limit_host_config =
  hc_budget_per_minute :: "int option"
  hc_min_interval_ms :: "int option"

record venue_docs_fallback =
  df_budget_per_minute :: "int option"
  df_min_interval_ms :: "int option"

record rate_limit_venue_config =
  vc_budget_per_minute :: "int option"
  vc_min_interval_ms :: "int option"
  vc_ws_budget_per_minute :: "int option"
  vc_endpoint_weights :: "(string, int) dict"
  vc_group_weights :: "(string, int) dict"
  vc_endpoint_min_interval_ms :: "(string, int) dict"
  vc_group_min_interval_ms :: "(string, int) dict"
  vc_scopes :: "(string, string) dict"
  vc_docs_fallback :: venue_docs_fallback

record rate_limit_config =
  cf_global_config :: rate_limit_global_config
  cf_hosts :: "(string, rate_limit_host_config) dict"
  cf_venues :: "(string, rate_limit_venue_config) dict"

datatype refresh_outcome = RELOADED | UNCHANGED | FAILED_BUT_KEPT_OLD

record rate_limit_config_manager =
  cm_path :: "string option"
  cm_last_raw :: string
  cm_last_hash :: string
  cm_config :: rate_limit_config

text \<open>
  \<open>RateLimitConfigManager.refresh\<close>: \<open>file\<close> is what reading the path gives (None is an
  \<open>OSError\<close>), \<open>hash\<close> the hex digest, \<open>parse\<close> the TOML parser (None is a raised exception).
\<close>

definition config_refresh ::
  "(string \<Rightarrow> string option) \<Rightarrow> (string \<Rightarrow> string) \<Rightarrow> (string \<Rightarrow> rate_limit_config option)
     \<Rightarrow> rate_limit_config_manager \<Rightarrow> refresh_outcome \<times> rate_limit_config_manager" where
  "config_refresh file hash parse m =
     (case cm_path m of
        None \<Rightarrow> (UNCHANGED, m)
      | Some path \<Rightarrow>
          (case file path of
             None \<Rightarrow> (FAILED_BUT_KEPT_OLD, m)
           | Some raw \<Rightarrow>
               let h = hash raw
               in if h = cm_last_hash m then (UNCHANGED, m)
                  else
                    (case parse raw of
                       None \<Rightarrow> (FAILED_BUT_KEPT_OLD, m)
                     | Some config \<Rightarrow>
                         (RELOADED, m\<lparr>cm_config := config, cm_last_raw := raw, cm_last_hash := h\<rparr>))))"

section \<open>Built-in defaults\<close>

definition V1_COMMON_GROUP_WEIGHTS :: "(string, int) dict" where
  "V1_COMMON_GROUP_WEIGHTS = [
     (''depth'', 5),
     (''market'', 1),
     (''order'', 1),
     (''account'', 1),
     (''ws_public'', 1),
     (''ws_private'', 1)]"

definition common_group_min_intervals :: "int \<Rightarrow> (string, int) dict" where
  "common_group_min_intervals default_ms = map (\<lambda>(k, _). (k, default_ms)) V1_COMMON_GROUP_WEIGHTS"

definition venue_binance_defaults :: rate_limit_venue_config where
  "venue_binance_defaults =
     \<lparr>vc_budget_per_minute = Some 2400,
      vc_min_interval_ms = Some 25,
      vc_ws_budget_per_minute = Some 600,
      vc_endpoint_weights = [
        (''GET /fapi/v1/depth'', 5),
        (''GET /fapi/v1/exchangeInfo'', 10),
        (''GET /fapi/v1/ticker/bookTicker'', 2),
        (''GET /fapi/v1/premiumIndex'', 1),
        (''GET /fapi/v1/ticker/24hr'', 2),
        (''GET /fapi/v1/openInterest'', 1),
        (''POST /fapi/v1/order'', 1)],
      vc_group_weights = V1_COMMON_GROUP_WEIGHTS,
      vc_endpoint_min_interval_ms = [
        (''GET /fapi/v1/depth'', 25),
        (''GET /fapi/v1/ticker/24hr'', 25),
        (''GET /fapi/v1/openInterest'', 25)],
      vc_group_min_interval_ms = common_group_min_intervals 25,
      vc_scopes = [
        (''GET /fapi/v1/depth'', ''depth''),
        (''GET /fapi/v1/exchangeInfo'', ''market''),
        (''GET /fapi/v1/ticker/bookTicker'', ''market''),
        (''GET /fapi/v1/premiumIndex'', ''market''),
        (''GET /fapi/v1/ticker/24hr'', ''market''),
        (''GET /fapi/v1/openInterest'', ''market''),
        (''POST /fapi/v1/order'', ''order'')],
      vc_docs_fallback = \<lparr>df_budget_per_minute = Some 1200, df_min_interval_ms = Some 50\<rparr>\<rparr>"

definition venue_aster_defaults :: rate_limit_venue_config where
  "venue_aster_defaults =
     \<lparr>vc_budget_per_minute = Some 1200,
      vc_min_interval_ms = Some 50,
      vc_ws_budget_per_minute = Some 600,
      vc_endpoint_weights = [
        (''GET /fapi/v1/depth'', 5),
        (''GET /fapi/v1/exchangeInfo'', 10),
        (''GET /fapi/v1/ticker/bookTicker'', 2),
        (''GET /fapi/v1/premiumIndex'', 1),
        (''GET /fapi/v1/ticker/24hr'', 2),
        (''GET /fapi/v1/openInterest'', 1),
        (''POST /fapi/v1/order'', 1),
        (''GET /fapi/v3/order'', 1),
        (''POST /fapi/v3/order'', 1),
        (''DELETE /fapi/v3/order'', 1),
        (''GET /fapi/v3/openOrders'', 1),
        (''GET /fapi/v3/positionRisk'', 5),
        (''GET /fapi/v3/positionSide/dual'', 30),
        (''GET /fapi/v3/accountWithJoinMargin'', 5),
        (''POST /fapi/v3/leverage'', 1),
        (''GET /fapi/v3/leverageBracket'', 1)],
      vc_group_weights = V1_COMMON_GROUP_WEIGHTS,
      vc_endpoint_min_interval_ms = [
        (''GET /fapi/v1/depth'', 50),
        (''GET /fapi/v1/ticker/24hr'', 50),
        (''GET /fapi/v1/openInterest'', 50),
        (''GET /fapi/v3/order'', 50),
        (''POST /fapi/v3/order'', 50),
        (''DELETE /fapi/v3/order'', 50),
        (''GET /fapi/v3/openOrders'', 50),
        (''GET /fapi/v3/positionRisk'', 50),
        (''GET /fapi/v3/positionSide/dual'', 50),
        (''GET /fapi/v3/accountWithJoinMargin'', 50),
        (''POST /fapi/v3/leverage'', 50),
        (''GET /fapi/v3/leverageBracket'', 50)],
      vc_group_min_interval_ms = common_group_min_intervals 50,
      vc_scopes = [
        (''GET /fapi/v1/depth'', ''depth''),
        (''GET /fapi/v1/exchangeInfo'', ''market''),
        (''GET /fapi/v1/ticker/bookTicker'', ''market''),
        (''GET /fapi/v1/premiumIndex'', ''market''),
        (''GET /fapi/v1/ticker/24hr'', ''market''),
        (''GET /fapi/v1/openInterest'', ''market''),
        (''POST /fapi/v1/order'', ''order''),
        (''GET /fapi/v3/order'', ''account''),
        (''POST /fapi/v3/order'', ''order''),
        (''DELETE /fapi/v3/order'', ''order''),
        (''GET /fapi/v3/openOrders'', ''account''),
        (''GET /fapi/v3/positionRisk'', ''account''),
        (''GET /fapi/v3/positionSide/dual'', ''account''),
        (''GET /fapi/v3/accountWithJoinMargin'', ''account''),
        (''POST /fapi/v3/leverage'', ''order''),
        (''GET /fapi/v3/leverageBracket'', ''account'')],
      vc_docs_fallback = \<lparr>df_budget_per_minute = Some 1200, df_min_interval_ms = Some 50\<rparr>\<rparr>"

definition venue_bybit_defaults :: rate_limit_venue_config where
  "venue_bybit_defaults =
     \<lparr>vc_budget_per_minute = Some 600,
      vc_min_interval_ms = Some 75,
      vc_ws_budget_per_minute = Some 300,
      vc_endpoint_weights = [
        (''GET /v5/market/orderbook'', 5),
        (''GET /v5/market/tickers'', 1),
        (''GET /v5/market/instruments-info'', 2),
        (''POST /v5/order/create'', 1),
        (''GET /v5/account/fee-rate'', 1)],
      vc_group_weights = V1_COMMON_GROUP_WEIGHTS,
      vc_endpoint_min_interval_ms = [
        (''GET /v5/market/orderbook'', 75),
        (''GET /v5/market/tickers'', 75)],
      vc_group_min_interval_ms = common_group_min_intervals 75,
      vc_scopes = [
        (''GET /v5/market/orderbook'', ''depth''),
        (''GET /v5/market/tickers'', ''market''),
        (''GET /v5/market/instruments-info'', ''market''),
        (''POST /v5/order/create'', ''order''),
        (''GET /v5/account/fee-rate'', ''account'')],
      vc_docs_fallback = \<lparr>df_budget_per_minute = Some 600, df_min_interval_ms = Some 100\<rparr>\<rparr>"

definition venue_bitget_defaults :: rate_limit_venue_config where
  "venue_bitget_defaults =
     \<lparr>vc_budget_per_minute = Some 600,
      vc_min_interval_ms = Some 100,
      vc_ws_budget_per_minute = Some 300,
      vc_endpoint_weights = [
        (''GET /api/v3/market/orderbook'', 1),
        (''GET /api/v2/mix/market/merge-depth'', 5),
        (''GET /api/v2/mix/market/ticker'', 1),
        (''GET /api/v2/mix/market/tickers'', 1),
        (''GET /api/v2/mix/market/current-fund-rate'', 1),
        (''GET /api/v2/mix/market/contracts'', 2),
        (''POST /api/v2/mix/order/place-order'', 1)],
      vc_group_weights = V1_COMMON_GROUP_WEIGHTS,
      vc_endpoint_min_interval_ms = [
        (''GET /api/v3/market/orderbook'', 100),
        (''GET /api/v2/mix/market/merge-depth'', 100),
        (''GET /api/v2/mix/market/tickers'', 100)],
      vc_group_min_interval_ms = common_group_min_intervals 100,
      vc_scopes = [
        (''GET /api/v3/market/orderbook'', ''depth''),
        (''GET /api/v2/mix/market/merge-depth'', ''depth''),
        (''GET /api/v2/mix/market/ticker'', ''market''),
        (''GET /api/v2/mix/market/tickers'', ''market''),
        (''GET /api/v2/mix/market/current-fund-rate'', ''market''),
        (''GET /api/v2/mix/market/contracts'', ''market''),
        (''POST /api/v2/mix/order/place-order'', ''order'')],
      vc_docs_fallback = \<lparr>df_budget_per_minute = Some 600, df_min_interval_ms = Some 100\<rparr>\<rparr>"

definition venue_okx_defaults :: rate_limit_venue_config where
  "venue_okx_defaults =
     \<lparr>vc_budget_per_minute = Some 600,
      vc_min_interval_ms = Some 100,
      vc_ws_budget_per_minute = Some 300,
      vc_endpoint_weights = [
        (''GET /api/v5/market/books'', 5),
        (''GET /api/v5/public/funding-rate'', 1),
        (''GET /api/v5/market/tickers'', 1),
        (''GET /api/v5/public/open-interest'', 1),
        (''POST /api/v5/trade/order'', 1),
        (''GET /api/v5/account/config'', 1)],
      vc_group_weights = V1_COMMON_GROUP_WEIGHTS,
      vc_endpoint_min_interval_ms = [
        (''GET /api/v5/market/books'', 100),
        (''GET /api/v5/market/tickers'', 100),
        (''GET /api/v5/public/open-interest'', 100)],
      vc_group_min_interval_ms = common_group_min_intervals 100,
      vc_scopes = [
        (''GET /api/v5/market/books'', ''depth''),
        (''GET /api/v5/public/funding-rate'', ''market''),
        (''GET /api/v5/market/tickers'', ''market''),
        (''GET /api/v5/public/open-interest'', ''market''),
        (''POST /api/v5/trade/order'', ''order''),
        (''GET /api/v5/account/config'', ''account'')],
      vc_docs_fallback = \<lparr>df_budget_per_minute = Some 600, df_min_interval_ms = Some 100\<rparr>\<rparr>"

definition venue_gate_defaults :: rate_limit_venue_config where
  "venue_gate_defaults =
     \<lparr>vc_budget_per_minute = Some 900,
      vc_min_interval_ms = Some 75,
      vc_ws_budget_per_minute = Some 300,
      vc_endpoint_weights = [
        (''GET /api/v4/futures/usdt/order_book'', 5),
        (''GET /api/v4/futures/usdt/tickers'', 1),
        (''GET /api/v4/futures/usdt/contracts'', 2),
        (''POST /api/v4/futures/usdt/orders'', 1)],
      vc_group_weights = V1_COMMON_GROUP_WEIGHTS,
      vc_endpoint_min_interval_ms = [
        (''GET /api/v4/futures/usdt/order_book'', 75)],
      vc_group_min_interval_ms = common_group_min_intervals 75,
      vc_scopes = [
        (''GET /api/v4/futures/usdt/order_book'', ''depth''),
        (''GET /api/v4/futures/usdt/tickers'', ''market''),
        (''GET /api/v4/futures/usdt/contracts'', ''market''),
        (''POST /api/v4/futures/usdt/orders'', ''order'')],
      vc_docs_fallback = \<lparr>df_budget_per_minute = Some 900, df_min_interval_ms = Some 75\<rparr>\<rparr>"

definition venue_hyperliquid_defaults :: rate_limit_venue_config where
  "venue_hyperliquid_defaults =
     \<lparr>vc_budget_per_minute = Some 1200,
      vc_min_interval_ms = Some 50,
      vc_ws_budget_per_minute = Some 300,
      vc_endpoint_weights = [
        (''POST /info'', 2),
        (''POST /exchange'', 1)],
      vc_group_weights = V1_COMMON_GROUP_WEIGHTS,
      vc_endpoint_min_interval_ms = [
        (''POST /info'', 50)],
      vc_group_min_interval_ms = common_group_min_intervals 50,
      vc_scopes = [
        (''POST /info'', ''market''),
        (''POST /exchange'', ''order'')],
      vc_docs_fallback = \<lparr>df_budget_per_minute = Some 1200, df_min_interval_ms = Some 50\<rparr>\<rparr>"

definition built_in_defaults :: rate_limit_config where
  "built_in_defaults =
     \<lparr>cf_global_config = \<lparr>gc_default_margin = 95 / 100, gc_refresh_interval_secs = 30\<rparr>,
      cf_hosts = [
        (''fapi.binance.com'', \<lparr>hc_budget_per_minute = Some 2400, hc_min_interval_ms = Some 25\<rparr>),
        (''fapi.asterdex.com'', \<lparr>hc_budget_per_minute = Some 1200, hc_min_interval_ms = Some 50\<rparr>),
        (''api.bybit.com'', \<lparr>hc_budget_per_minute = Some 600, hc_min_interval_ms = Some 75\<rparr>),
        (''api.bitget.com'', \<lparr>hc_budget_per_minute = Some 600, hc_min_interval_ms = Some 100\<rparr>),
        (''www.okx.com'', \<lparr>hc_budget_per_minute = Some 600, hc_min_interval_ms = Some 100\<rparr>),
        (''api.gateio.ws'', \<lparr>hc_budget_per_minute = Some 900, hc_min_interval_ms = Some 75\<rparr>),
        (''api.hyperliquid.xyz'', \<lparr>hc_budget_per_minute = Some 1200, hc_min_interval_ms = Some 50\<rparr>)],
      cf_venues = [
        (''binance'', venue_binance_defaults),
        (''aster'', venue_aster_defaults),
        (''bybit'', venue_bybit_defaults),
        (''bitget'', venue_bitget_defaults),
        (''okx'', venue_okx_defaults),
        (''gate'', venue_gate_defaults),
        (''hyperliquid'', venue_hyperliquid_defaults)]\<rparr>"

section \<open>The engine builder\<close>

definition default_engine :: rate_limit_engine where
  "default_engine = init_engine 60 (95 / 100) None"

definition register_host :: "string \<times> rate_limit_host_config \<Rightarrow> rate_limit_engine \<Rightarrow> rate_limit_engine" where
  "register_host h e =
     (case hc_budget_per_minute (snd h) of
        None \<Rightarrow> e
      | Some budget \<Rightarrow>
          let host_scope = ''host:'' @ fst h;
              e = register_bucket host_scope (Some (of_int budget)) None None e
          in case hc_min_interval_ms (snd h) of
               None \<Rightarrow> e
             | Some ms \<Rightarrow> register_min_interval host_scope (Interval_Ms ms) e)"

definition register_venue_tables ::
  "string \<Rightarrow> rate_limit_venue_config \<Rightarrow> rate_limit_engine \<Rightarrow> rate_limit_engine" where
  "register_venue_tables venue_id venue e =
     (let e = fold (\<lambda>(endpoint, w). register_weight endpoint (Weight_Number (of_int w)))
                (vc_endpoint_weights venue) e;
          e = fold (\<lambda>(group, gw). register_weight (''group:'' @ venue_id @ '':'' @ group) (Weight_Number (of_int gw))
                      \<circ> register_weight (''group:'' @ group) (Weight_Number (of_int gw)))
                (vc_group_weights venue) e;
          e = fold (\<lambda>(endpoint, em). register_min_interval endpoint (Interval_Ms em))
                (vc_endpoint_min_interval_ms venue) e;
          e = fold (\<lambda>(group, gm). register_min_interval (''group:'' @ venue_id @ '':'' @ group) (Interval_Ms gm)
                      \<circ> register_min_interval (''group:'' @ group) (Interval_Ms gm))
                (vc_group_min_interval_ms venue) e
      in case vc_ws_budget_per_minute venue of
           None \<Rightarrow> e
         | Some ws_budget \<Rightarrow>
             if ws_budget > 0
             then fold (\<lambda>ws_group. register_bucket (''group:'' @ venue_id @ '':'' @ ws_group)
                          (Some (of_int ws_budget)) None None) [''ws_public'', ''ws_private''] e
             else e)"

definition effective_budget :: "rate_limit_venue_config \<Rightarrow> int option" where
  "effective_budget venue = or_opt (vc_budget_per_minute venue) (df_budget_per_minute (vc_docs_fallback venue))"

definition effective_min_interval :: "rate_limit_venue_config \<Rightarrow> int option" where
  "effective_min_interval venue = or_opt (vc_min_interval_ms venue) (df_min_interval_ms (vc_docs_fallback venue))"

definition register_venue :: "string \<times> rate_limit_venue_config \<Rightarrow> rate_limit_engine \<Rightarrow> rate_limit_engine" where
  "register_venue v e =
     (case effective_budget (snd v) of
        None \<Rightarrow> e
      | Some budget \<Rightarrow>
          let venue_scope = ''venue:'' @ fst v;
              e = register_bucket venue_scope (Some (of_int budget)) None None e;
              e = (case effective_min_interval (snd v) of
                     None \<Rightarrow> e
                   | Some ms \<Rightarrow> register_min_interval venue_scope (Interval_Ms ms) e)
          in register_venue_tables (fst v) (snd v) e)"

definition build_engine_from_config :: "rate_limit_config option \<Rightarrow> rate_limit_engine" where
  "build_engine_from_config config =
     (case config of
        None \<Rightarrow> default_engine
      | Some c \<Rightarrow>
          let margin = gc_default_margin (cf_global_config c);
              e = init_engine 60 margin None;
              e = fold register_host (cf_hosts c) e
          in fold register_venue (cf_venues c) e)"

section \<open>The runtime\<close>

record rate_limit_runtime =
  rt_engine :: rate_limit_engine
  rt_config_manager :: "rate_limit_config_manager option"

definition new_runtime ::
  "rate_limit_engine option \<Rightarrow> rate_limit_config_manager option \<Rightarrow> rate_limit_runtime" where
  "new_runtime engine manager =
     \<lparr>rt_engine = (case engine of
         Some e \<Rightarrow> e
       | None \<Rightarrow> (case manager of
            Some m \<Rightarrow> build_engine_from_config (Some (cm_config m))
          | None \<Rightarrow> init_engine 60 (95 / 100) None)),
      rt_config_manager = manager\<rparr>"

definition runtime_refresh ::
  "(string \<Rightarrow> string option) \<Rightarrow> (string \<Rightarrow> string) \<Rightarrow> (string \<Rightarrow> rate_limit_config option)
     \<Rightarrow> rate_limit_runtime \<Rightarrow> rate_limit_runtime" where
  "runtime_refresh file hash parse rt =
     (case rt_config_manager rt of
        None \<Rightarrow> rt
      | Some m \<Rightarrow>
          let (outcome, m) = config_refresh file hash parse m;
              rt = rt\<lparr>rt_config_manager := Some m\<rparr>
          in if outcome = RELOADED
             then rt\<lparr>rt_engine := build_engine_from_config (Some (cm_config m))\<rparr>
             else rt)"

definition refresh_interval_secs :: "rate_limit_runtime \<Rightarrow> int" where
  "refresh_interval_secs rt =
     (case rt_config_manager rt of
        Some m \<Rightarrow> gc_refresh_interval_secs (cf_global_config (cm_config m))
      | None \<Rightarrow> 30)"

definition resolve_request_weight :: "rate_limit_engine \<Rightarrow> string list \<Rightarrow> real" where
  "resolve_request_weight e ss =
     (let endpoint_scope =
            (case find is_endpoint_scope ss of Some s \<Rightarrow> s | None \<Rightarrow> ''request'');
          group_scope =
            (case find (\<lambda>s. py_startswith s ''group:'' \<and> count_list s (CHR '':'') \<ge> 2) ss of
               Some s \<Rightarrow> Some s
             | None \<Rightarrow> find (\<lambda>s. py_startswith s ''group:'') ss)
      in resolve_weight e endpoint_scope group_scope)"

text \<open>
  The loop of \<open>wait_until_ready_for_scopes\<close> (and of its async copy), with fuel: None is
  running out of it. \<open>now\<close> is the clock reading at the top of the iteration; \<open>started\<close> is the
  earlier reading from which the deadline is computed.
\<close>

fun wait_loop ::
  "nat \<Rightarrow> (int \<Rightarrow> int \<Rightarrow> int) \<Rightarrow> string list \<Rightarrow> int \<Rightarrow> int \<Rightarrow> real option \<Rightarrow> int \<Rightarrow> rate_limit_engine
     \<Rightarrow> (bool \<times> rate_limit_engine) option" where
  "wait_loop 0 wake ss timeout_ms deadline weight_override now e = None"
| "wait_loop (Suc fuel) wake ss timeout_ms deadline weight_override now e =
     (let weight = (case weight_override of Some w \<Rightarrow> w | None \<Rightarrow> resolve_request_weight e ss)
      in case try_consume_scopes ss weight (Some now) now e of
           (Inr _, e) \<Rightarrow> Some (True, e)
         | (Inl err, e) \<Rightarrow>
             if timeout_ms > 0 \<and> now + rle_retry_in_ms err > deadline then Some (False, e)
             else wait_loop fuel wake ss timeout_ms deadline weight_override
                    (wake now (max 0 (rle_retry_in_ms err))) e)"

definition wait_until_ready_for_scopes ::
  "nat \<Rightarrow> (int \<Rightarrow> int \<Rightarrow> int) \<Rightarrow> string list \<Rightarrow> int \<Rightarrow> real option \<Rightarrow> int \<Rightarrow> int \<Rightarrow> rate_limit_engine
     \<Rightarrow> (bool \<times> rate_limit_engine) option" where
  "wait_until_ready_for_scopes fuel wake ss timeout_ms weight_override started now e =
     wait_loop fuel wake ss timeout_ms (started + timeout_ms) weight_override now e"

definition record_rate_limit_for_scopes ::
  "string list \<Rightarrow> int \<Rightarrow> int \<Rightarrow> rate_limit_engine \<Rightarrow> int \<times> rate_limit_engine" where
  "record_rate_limit_for_scopes ss retry_after_ms now e =
     (if retry_after_ms \<noteq> 0 \<and> retry_after_ms > 0
      then (retry_after_ms, apply_cooldown ss retry_after_ms (Some now) now e)
      else apply_backoff ss (Some now) None now e)"

section \<open>A rejected attempt changes nothing but refill stamps\<close>

definition refilled_at :: "int \<Rightarrow> rate_limit_engine \<Rightarrow> rate_limit_engine \<Rightarrow> bool" where
  "refilled_at now e e' \<longleftrightarrow>
     (\<forall>j. dict_get (en_scopes e') j = dict_get (en_scopes e) j \<or>
          dict_get (en_scopes e') j = map_option (refill_scope now) (dict_get (en_scopes e) j))"

lemma rejected_refilled_at:
  assumes "try_consume_scopes ss w (Some now) wall e = (Inl err, e')"
  shows "refilled_at now e e'"
  using rejected_lookup [of ss w "Some now" wall e] assms by (auto simp: refilled_at_def)

lemma refilled_at_field:
  assumes "refilled_at now e e'" and "\<And>st. f (refill_scope now st) = f st"
  shows "map_option f (dict_get (en_scopes e') j) = map_option f (dict_get (en_scopes e) j)"
  using assms(1) [unfolded refilled_at_def, rule_format, of j]
  by (cases "dict_get (en_scopes e) j") (auto simp: assms(2))

lemma bind_map_option: "Option.bind x f = Option.bind (map_option f x) id"
  by (cases x) simp_all

lemma refilled_at_weight:
  assumes "refilled_at now e e'"
  shows "resolve_request_weight e' ss = resolve_request_weight e ss"
proof -
  have "Option.bind (dict_get (en_scopes e') j) sc_weight = Option.bind (dict_get (en_scopes e) j) sc_weight"
    for j using refilled_at_field [OF assms, of sc_weight j] by (metis bind_map_option refill_scope_simps(2))
  then show ?thesis
    by (simp add: resolve_request_weight_def resolve_weight_def cong: option.case_cong)
qed

lemma refilled_at_bucket:
  assumes "refilled_at now e e'"
  shows "bucket_of e' j = bucket_of e j \<or> bucket_of e' j = map_option (\<lambda>b. refill b now) (bucket_of e j)"
  using assms [unfolded refilled_at_def, rule_format, of j] by (auto simp: bind_refill_scope)

lemma refilled_at_cooldown:
  "refilled_at now e e' \<Longrightarrow> cooldown_over e' u s \<longleftrightarrow> cooldown_over e u s"
  using refilled_at_bucket [of now e e' s]
  by (cases "bucket_of e s") (auto simp: cooldown_over_def)

lemma refilled_at_interval:
  assumes "refilled_at now e e'"
  shows "interval_over e' u s \<longleftrightarrow> interval_over e u s"
  using assms [unfolded refilled_at_def, rule_format, of s]
  by (cases "dict_get (en_scopes e) s") (auto simp: interval_over_def)

lemma refilled_at_covers:
  assumes "refilled_at now e e'" and "\<forall>b. bucket_of e s = Some b \<longrightarrow> bucket_ok b" and "now \<le> u"
  shows "budget_covers e' w u s \<longleftrightarrow> budget_covers e w u s"
  using refilled_at_bucket [OF assms(1), of s] assms(2,3)
  by (cases "bucket_of e s") (auto simp: budget_covers_def refill_compose)

section \<open>After the hinted time\<close>

text \<open>
  What the wait needs: no bucket or request stamp lies in the future, and each bucket of the
  request can hold its weight and refills.
\<close>

definition can_serve :: "rate_limit_engine \<Rightarrow> string list \<Rightarrow> real \<Rightarrow> int \<Rightarrow> bool" where
  "can_serve e ss w now \<longleftrightarrow>
     (\<forall>s\<in>set ss.
        (\<forall>b. bucket_of e s = Some b \<longrightarrow>
           bucket_ok b \<and> 0 < bk_refill_per_ms b \<and> w \<le> bk_capacity b \<and> bk_last_refill_ms b \<le> now) \<and>
        (\<forall>st l. dict_get (en_scopes e) s = Some st \<longrightarrow> sc_last_request_at_ms st = Some l \<longrightarrow> l \<le> now))"

lemma can_serve_refilled:
  assumes "refilled_at now e e'" and "can_serve e ss w now" and "now \<le> u"
  shows "can_serve e' ss w u"
  unfolding can_serve_def
proof (intro ballI conjI allI impI)
  fix s b assume "s \<in> set ss" "bucket_of e' s = Some b"
  with refilled_at_bucket [OF assms(1), of s] assms(2,3)
  show "bucket_ok b" "0 < bk_refill_per_ms b" "w \<le> bk_capacity b" "bk_last_refill_ms b \<le> u"
    unfolding can_serve_def by (fastforce intro: refill_ok simp: refill_last)+
next
  fix s st l assume "s \<in> set ss" "dict_get (en_scopes e') s = Some st" "sc_last_request_at_ms st = Some l"
  with assms(1) [unfolded refilled_at_def, rule_format, of s] assms(2,3)
  show "l \<le> u" unfolding can_serve_def by fastforce
qed

lemma cooldown_hint:
  assumes "cooldown_retry_ms e ss now = Some r" and "s \<in> set ss" and "now + r \<le> u"
  shows "cooldown_over e u s"
proof -
  let ?f = "\<lambda>s. case bucket_of e s of None \<Rightarrow> None
     | Some b \<Rightarrow> let remaining = bk_cooldown_until_ms b - now in if remaining > 0 then Some remaining else None"
  have r: "r = loop_max ?f ss" "0 < r"
    using assms(1) by (auto simp: cooldown_retry_ms_def Let_def split: if_splits)
  show ?thesis unfolding cooldown_over_def
  proof (intro allI impI)
    fix b assume b: "bucket_of e s = Some b"
    show "bk_cooldown_until_ms b \<le> u"
    proof (cases "bk_cooldown_until_ms b - now > 0")
      case True
      with b have "?f s = Some (bk_cooldown_until_ms b - now)" by simp
      from loop_max_ge [of s ss ?f, OF assms(2) this] r assms(3) show ?thesis by simp
    next
      case False
      with r(2) assms(3) show ?thesis by simp
    qed
  qed
qed

lemma interval_hint:
  assumes "min_interval_retry_ms e ss now = Some r" and "s \<in> set ss" and "now + r \<le> u"
    and "can_serve e ss w now"
  shows "interval_over e u s"
proof -
  let ?f = "\<lambda>s. case dict_get (en_scopes e) s of None \<Rightarrow> None | Some st \<Rightarrow> interval_retry st now"
  have r: "r = loop_max ?f ss" "0 < r"
    using assms(1) by (auto simp: min_interval_retry_ms_def Let_def split: if_splits)
  show ?thesis unfolding interval_over_def
  proof (intro allI impI)
    fix st m l
    assume st: "dict_get (en_scopes e) s = Some st" "sc_min_interval_ms st = Some m"
      "sc_last_request_at_ms st = Some l"
    then have l: "l \<le> now" using assms(2,4) by (auto simp: can_serve_def)
    show "m \<le> max 0 (u - l)"
    proof (cases "max 0 (now - l) < m")
      case True
      with st have "?f s = Some (m - max 0 (now - l))" by (simp add: interval_retry_def Let_def)
      from loop_max_ge [of s ss ?f, OF assms(2) this] r assms(3) l show ?thesis by simp
    next
      case False
      with r(2) assms(3) l show ?thesis by simp
    qed
  qed
qed

lemma check_budgets_Inl:
  "fst (check_budgets ss w now e) = Inl err \<Longrightarrow>
     \<exists>s\<in>set ss. \<exists>b. bucket_of e s = Some b \<and> bk_tokens (refill b now) + eps < w \<and>
       rle_retry_in_ms err = budget_retry_ms (refill b now) w"
proof (induction ss arbitrary: e)
  case Nil
  then show ?case by simp
next
  case (Cons s ss)
  show ?case
  proof (cases "bucket_of e s")
    case None
    with Cons show ?thesis by (auto simp: check_budgets_Cons)
  next
    case (Some b)
    show ?thesis
    proof (cases "bk_tokens (refill b now) + eps < w")
      case True
      with Some Cons.prems show ?thesis by (auto simp: check_budgets_Cons)
    next
      case False
      with Some Cons.prems have "fst (check_budgets ss w now (with_scope s (refill_scope now) e)) = Inl err"
        by (simp add: check_budgets_Cons)
      from Cons.IH [OF this] obtain t c where t: "t \<in> set ss"
        "bucket_of (with_scope s (refill_scope now) e) t = Some c" "bk_tokens (refill c now) + eps < w"
        "rle_retry_in_ms err = budget_retry_ms (refill c now) w" by blast
      with Some show ?thesis
        by (cases "t = s") (auto simp: lookup_refilled bind_refill_scope)
    qed
  qed
qed

lemma budget_hint:
  assumes "fst (check_budgets ss w now e) = Inl err" and "can_serve e ss w now"
    and u: "now + rle_retry_in_ms err \<le> u"
  shows "\<exists>s\<in>set ss. \<not> budget_covers e w now s \<and> budget_covers e w u s"
proof -
  obtain s b where s: "s \<in> set ss" "bucket_of e s = Some b" "bk_tokens (refill b now) + eps < w"
    "rle_retry_in_ms err = budget_retry_ms (refill b now) w"
    using check_budgets_Inl [OF assms(1)] by blast
  with assms(2) have b: "bucket_ok b" "0 < bk_refill_per_ms b" "w \<le> bk_capacity b" "bk_last_refill_ms b \<le> now"
    by (auto simp: can_serve_def)
  have le: "now \<le> u" using u s(4) budget_retry_pos [of "refill b now" w] by linarith
  have "w \<le> bk_tokens (refill (refill b now) u) + eps"
    using b s u by (intro budget_retry_enough refill_ok) (simp_all add: refill_last)
  then have "budget_covers e w u s" using s b le by (simp add: budget_covers_def refill_compose)
  moreover have "\<not> budget_covers e w now s" using s by (simp add: budget_covers_def)
  ultimately show ?thesis using s(1) by blast
qed

section \<open>The wait ends\<close>

definition waiting :: "rate_limit_engine \<Rightarrow> string list \<Rightarrow> real \<Rightarrow> int \<Rightarrow> nat" where
  "waiting e ss w now =
     (if \<forall>s\<in>set ss. cooldown_over e now s then 0 else 1) +
     (if \<forall>s\<in>set ss. interval_over e now s then 0 else 1) +
     card {s \<in> set ss. \<not> budget_covers e w now s}"

lemma waiting_le: "waiting e ss w now \<le> length ss + 2"
proof -
  have "card {s \<in> set ss. \<not> budget_covers e w now s} \<le> card (set ss)" by (intro card_mono) auto
  also have "\<dots> \<le> length ss" by (rule card_length)
  finally show ?thesis by (simp add: waiting_def)
qed

lemma waiting_refilled:
  assumes "refilled_at now e e'" and "can_serve e ss w now" and "now \<le> u"
  shows "waiting e' ss w u = waiting e ss w u"
proof -
  have "{s \<in> set ss. \<not> budget_covers e' w u s} = {s \<in> set ss. \<not> budget_covers e w u s}"
    using assms refilled_at_covers [OF assms(1) _ assms(3)] by (auto simp: can_serve_def)
  then show ?thesis
    using assms(1) by (simp add: waiting_def refilled_at_cooldown refilled_at_interval)
qed

lemma cooldown_over_later: "cooldown_over e now s \<Longrightarrow> now \<le> u \<Longrightarrow> cooldown_over e u s"
  by (auto simp: cooldown_over_def)

lemma interval_over_later: "interval_over e now s \<Longrightarrow> now \<le> u \<Longrightarrow> interval_over e u s"
  by (fastforce simp: interval_over_def)

lemma covers_later:
  assumes "can_serve e ss w now" and "s \<in> set ss" and "budget_covers e w now s" and "now \<le> u"
  shows "budget_covers e w u s"
  unfolding budget_covers_def
proof (intro allI impI)
  fix b assume b: "bucket_of e s = Some b"
  with assms(1,2) have "bucket_ok b" by (auto simp: can_serve_def)
  from refill_mono_time [OF this assms(4)] b assms(3) show "w \<le> bk_tokens (refill b u) + eps"
    by (auto simp: budget_covers_def)
qed

text \<open>One rejected attempt, then the hinted sleep: one thing less to wait for.\<close>

lemma rejected_waiting:
  assumes r: "try_consume_scopes ss w (Some now) wall e = (Inl err, e')"
    and ok: "can_serve e ss w now" and u: "now + max 0 (rle_retry_in_ms err) \<le> u"
  shows "waiting e ss w u < waiting e ss w now"
proof -
  let ?C = "\<lambda>t. \<forall>s\<in>set ss. cooldown_over e t s" and ?I = "\<lambda>t. \<forall>s\<in>set ss. interval_over e t s"
  let ?B = "\<lambda>t. {s \<in> set ss. \<not> budget_covers e w t s}"
  have le: "now \<le> u" and hint: "now + rle_retry_in_ms err \<le> u" using u by simp_all
  have C: "?C now \<longrightarrow> ?C u" and I: "?I now \<longrightarrow> ?I u"
    using le cooldown_over_later interval_over_later by blast+
  have B: "?B u \<subseteq> ?B now" using covers_later [OF ok] le by blast
  then have cB: "card (?B u) \<le> card (?B now)" by (intro card_mono) auto
  consider (cool) "cooldown_retry_ms e ss now = Some (rle_retry_in_ms err)"
    | (interval) "min_interval_retry_ms e ss now = Some (rle_retry_in_ms err)"
    | (budget) "fst (check_budgets ss w now e) = Inl err"
    using r by (auto simp: try_consume_scopes_def Let_def split: option.splits prod.splits sum.splits)
  then show ?thesis
  proof cases
    case cool
    then have "\<not> ?C now" using cooldown_retry_None_iff [of e ss now] by auto
    moreover have "?C u" using cooldown_hint [OF cool _ hint] by blast
    ultimately show ?thesis using I cB by (auto simp: waiting_def)
  next
    case interval
    then have "\<not> ?I now" using min_interval_retry_None_iff [of e ss now] by auto
    moreover have "?I u" using interval_hint [OF interval _ hint ok] by blast
    ultimately show ?thesis using C cB by (auto simp: waiting_def)
  next
    case budget
    then have "?B u \<subset> ?B now" using budget_hint [OF budget ok hint] B by blast
    then have "card (?B u) < card (?B now)" by (intro psubset_card_mono) auto
    with C I show ?thesis by (auto simp: waiting_def)
  qed
qed

lemma wait_loop_returns:
  assumes wake: "\<And>t d. 0 \<le> d \<Longrightarrow> t + d \<le> wake t d"
  shows "can_serve e ss w now \<Longrightarrow>
     (case wo of Some v \<Rightarrow> v | None \<Rightarrow> resolve_request_weight e ss) = w \<Longrightarrow>
     waiting e ss w now < fuel \<Longrightarrow>
     \<exists>b e'. wait_loop fuel wake ss timeout_ms deadline wo now e = Some (b, e') \<and> (timeout_ms \<le> 0 \<longrightarrow> b)"
proof (induction fuel arbitrary: now e)
  case 0
  then show ?case by simp
next
  case (Suc fuel)
  show ?case
  proof (cases "try_consume_scopes ss w (Some now) now e")
    case (Pair r e')
    show ?thesis
    proof (cases r)
      case (Inr unit)
      with Pair Suc.prems(2) show ?thesis by auto
    next
      case (Inl err)
      let ?u = "wake now (max 0 (rle_retry_in_ms err))"
      have att: "try_consume_scopes ss w (Some now) now e = (Inl err, e')" using Pair Inl by simp
      have u: "now + max 0 (rle_retry_in_ms err) \<le> ?u" by (rule wake) simp
      then have le: "now \<le> ?u" by simp
      note ref = rejected_refilled_at [OF att]
      have "waiting e' ss w ?u < fuel"
        using rejected_waiting [OF att Suc.prems(1) u] Suc.prems(3)
        by (simp add: waiting_refilled [OF ref Suc.prems(1) le])
      moreover have "(case wo of Some v \<Rightarrow> v | None \<Rightarrow> resolve_request_weight e' ss) = w"
        using Suc.prems(2) refilled_at_weight [OF ref] by (cases wo) simp_all
      ultimately have "\<exists>b e''. wait_loop fuel wake ss timeout_ms deadline wo ?u e' = Some (b, e'') \<and>
          (timeout_ms \<le> 0 \<longrightarrow> b)"
        by (intro Suc.IH can_serve_refilled [OF ref Suc.prems(1) le])
      with att Suc.prems(2) show ?thesis by auto
    qed
  qed
qed

text \<open>The wait answers True only by admitting the request, at the call or later.\<close>

lemma wait_loop_true:
  assumes wake: "\<And>t d. 0 \<le> d \<Longrightarrow> t + d \<le> wake t d"
  shows "wait_loop fuel wake ss timeout_ms deadline wo now e = Some (True, e') \<Longrightarrow>
     \<exists>u\<ge>now. \<exists>e0 w. try_consume_scopes ss w (Some u) u e0 = (Inr (), e')"
proof (induction fuel arbitrary: now e)
  case 0
  then show ?case by simp
next
  case (Suc fuel)
  let ?w = "case wo of Some w \<Rightarrow> w | None \<Rightarrow> resolve_request_weight e ss"
  show ?case
  proof (cases "try_consume_scopes ss ?w (Some now) now e")
    case (Pair r e1)
    show ?thesis
    proof (cases r)
      case (Inr unit)
      with Pair Suc.prems show ?thesis by auto
    next
      case (Inl err)
      let ?u = "wake now (max 0 (rle_retry_in_ms err))"
      from Pair Inl Suc.prems have "wait_loop fuel wake ss timeout_ms deadline wo ?u e1 = Some (True, e')"
        by (simp split: if_splits)
      moreover have "now \<le> ?u" using wake [of "max 0 (rle_retry_in_ms err)" now] by simp
      ultimately show ?thesis using Suc.IH [of ?u e1] order_trans [of now ?u] by blast
    qed
  qed
qed

section \<open>Invariants of all scopes\<close>

definition all_scopes :: "(scope_state \<Rightarrow> bool) \<Rightarrow> rate_limit_engine \<Rightarrow> bool" where
  "all_scopes P e \<longleftrightarrow> (\<forall>s st. dict_get (en_scopes e) s = Some st \<longrightarrow> P st)"

text \<open>The events that register nothing.\<close>

fun traffic :: "rl_op \<Rightarrow> bool" where
  "traffic (Register_Bucket _ _ _ _) = False"
| "traffic (Register_Weight _ _) = False"
| "traffic (Register_Min_Interval _ _) = False"
| "traffic _ = True"

lemma all_scopesD: "all_scopes P e \<Longrightarrow> dict_get (en_scopes e) s = Some st \<Longrightarrow> P st"
  by (simp add: all_scopes_def)

lemma all_scopes_with_scope:
  "all_scopes P e \<Longrightarrow> P (f (scope_of e s)) \<Longrightarrow> all_scopes P (with_scope s f e)"
  by (auto simp: all_scopes_def lookup_with_scope)

lemma all_scopes_fold:
  assumes "\<And>x e. x \<in> set xs \<Longrightarrow> all_scopes P e \<Longrightarrow> all_scopes P (f x e)" and "all_scopes P e"
  shows "all_scopes P (fold f xs e)"
  using assms by (induction xs arbitrary: e) auto

locale scope_invariant =
  fixes P :: "scope_state \<Rightarrow> bool" and T :: int
  assumes new: "P new_scope_state"
    and refill: "P st \<Longrightarrow> now \<le> T \<Longrightarrow> P (refill_scope now st)"
    and deduct: "P st \<Longrightarrow> now \<le> T \<Longrightarrow> 0 \<le> w \<Longrightarrow> P (deduct w now st)"
    and cooldown: "P st \<Longrightarrow> P (extend_cooldown u st)"
    and back_off: "P st \<Longrightarrow> P (back_off_scope e now st)"
    and weight: "P st \<Longrightarrow> sc_weight st = Some w \<Longrightarrow> 0 \<le> w"
begin

lemma scope_of: "all_scopes P e \<Longrightarrow> P (scope_of e s)"
  by (auto simp: scope_of_def all_scopes_def new split: option.split)

lemma deduct_funpow_keeps: "P st \<Longrightarrow> now \<le> T \<Longrightarrow> 0 \<le> w \<Longrightarrow> P ((deduct w now ^^ n) st)"
  by (induction n) (auto intro: deduct)

lemma try_consume_scopes:
  assumes "all_scopes P e" and "0 \<le> w" and "now \<le> T"
  shows "all_scopes P (snd (try_consume_scopes ss w (Some now) wall e))"
proof (cases "admitted (try_consume_scopes ss w (Some now) wall e)")
  case True
  with assms show ?thesis
    by (auto simp: all_scopes_def admitted_lookup intro!: deduct_funpow_keeps refill scope_of
        split: if_splits)
next
  case False
  show ?thesis unfolding all_scopes_def
  proof (intro allI impI)
    fix s st
    assume "dict_get (en_scopes (snd (try_consume_scopes ss w (Some now) wall e))) s = Some st"
    with rejected_lookup [OF False, of s] assms show "P st"
      by (cases "dict_get (en_scopes e) s") (auto dest: all_scopesD intro: refill)
  qed
qed

lemma lookup_weight:
  "all_scopes P e \<Longrightarrow> Option.bind (dict_get (en_scopes e) s) sc_weight = Some w \<Longrightarrow> 0 \<le> w"
  by (auto simp: Option.bind_eq_Some_conv dest: all_scopesD intro: weight)

lemma resolve_weight: "all_scopes P e \<Longrightarrow> 0 \<le> resolve_weight e s g"
  using lookup_weight [of e]
  by (cases g) (auto simp: resolve_weight_def split: option.split)

lemma request_weight:
  "all_scopes P e \<Longrightarrow> rl_op_ok x \<Longrightarrow> rl_request e x = Some (ss, w, now) \<Longrightarrow> 0 \<le> w"
  by (cases "(e, x)" rule: rl_request.cases)
     (auto simp: Let_def resolve_weight_from_scopes_def resolve_weight)

lemma backoff_loop: "all_scopes P e \<Longrightarrow> all_scopes P (snd (backoff_loop ss now m e))"
proof (induction ss arbitrary: e m)
  case Nil
  then show ?case by simp
next
  case (Cons s ss)
  have "all_scopes P (with_scope s (back_off_scope e now) e)"
    using Cons.prems by (intro all_scopes_with_scope back_off scope_of)
  then show ?case by (simp add: Let_def Cons.IH)
qed

lemma step:
  assumes e: "all_scopes P e" and x: "rl_op_ok x" "traffic x" "\<forall>t. rl_op_time x = Some t \<longrightarrow> t \<le> T"
  shows "all_scopes P (rl_step e x)"
proof (cases "rl_request e x")
  case (Some q)
  then obtain ss w now where q: "rl_request e x = Some (ss, w, now)" by (cases q) auto
  with x(3) have "now \<le> T" by (cases "(e, x)" rule: rl_request.cases) (auto simp: Let_def)
  with q e show ?thesis
    by (simp add: rl_step_request try_consume_scopes request_weight [OF e x(1) q])
next
  case None
  show ?thesis
  proof (cases x)
    case (Apply_Cooldown ss retry_after now)
    have "all_scopes P (fold (\<lambda>s. with_scope s (extend_cooldown (now + retry_after))) ss e)"
      using e by (intro all_scopes_fold all_scopes_with_scope cooldown scope_of)
    with Apply_Cooldown show ?thesis by (simp add: apply_cooldown_def Let_def)
  next
    case (Apply_Backoff ss now)
    with e show ?thesis by (simp add: apply_backoff_def Let_def backoff_loop)
  next
    case (Try_Consume t args now)
    with None show ?thesis by (cases args) (simp_all add: Let_def)
  qed (use x None in simp_all)
qed

end

text \<open>Every bucket can hold a weight \<open>W\<close> and refills, no stamp is later than \<open>T\<close>.\<close>

definition scope_serves :: "real \<Rightarrow> int \<Rightarrow> scope_state \<Rightarrow> bool" where
  "scope_serves W T st \<longleftrightarrow>
     (\<forall>b. sc_bucket st = Some b \<longrightarrow>
        bucket_ok b \<and> 0 < bk_refill_per_ms b \<and> W \<le> bk_capacity b \<and> bk_last_refill_ms b \<le> T) \<and>
     (\<forall>w. sc_weight st = Some w \<longrightarrow> 0 \<le> w \<and> w \<le> W) \<and>
     (\<forall>l. sc_last_request_at_ms st = Some l \<longrightarrow> l \<le> T)"

lemma bucket_ok_take_tokens: "0 \<le> w \<Longrightarrow> bucket_ok b \<Longrightarrow> bucket_ok (take_tokens w b)"
  by (auto simp: bucket_ok_def)

lemma scope_serves_refill: "scope_serves W T st \<Longrightarrow> now \<le> T \<Longrightarrow> scope_serves W T (refill_scope now st)"
  by (auto simp: scope_serves_def refill_ok refill_last)

lemma scope_serves_deduct:
  "scope_serves W T st \<Longrightarrow> now \<le> T \<Longrightarrow> 0 \<le> w \<Longrightarrow> scope_serves W T (deduct w now st)"
  by (auto simp: scope_serves_def bucket_ok_take_tokens)

lemma scope_serves_cooldown: "scope_serves W T st \<Longrightarrow> scope_serves W T (extend_cooldown u st)"
  by (auto simp: scope_serves_def extend_cooldown_def bucket_ok_def split: option.splits)

lemma scope_serves_back_off: "scope_serves W T st \<Longrightarrow> scope_serves W T (back_off_scope e now st)"
  by (auto simp: scope_serves_def back_off_scope_def bucket_ok_def Let_def split: option.splits)

interpretation serves: scope_invariant "scope_serves W T" T for W T
proof
  show "scope_serves W T new_scope_state" by (simp add: scope_serves_def)
  show "scope_serves W T st \<Longrightarrow> sc_weight st = Some w \<Longrightarrow> 0 \<le> w" for st w
    by (auto simp: scope_serves_def)
qed (fact scope_serves_refill scope_serves_deduct scope_serves_cooldown scope_serves_back_off)+

definition serving :: "real \<Rightarrow> int \<Rightarrow> rate_limit_engine \<Rightarrow> bool" where
  "serving W T e \<longleftrightarrow> all_scopes (scope_serves W T) e"

definition traffic_until :: "int \<Rightarrow> rl_op \<Rightarrow> bool" where
  "traffic_until T x \<longleftrightarrow> rl_op_ok x \<and> traffic x \<and> (\<forall>t. rl_op_time x = Some t \<longrightarrow> t \<le> T)"

interpretation serving: event_system rl_step "serving W T" "\<lambda>_. traffic_until T" for W T
  by unfold_locales (simp add: serving_def traffic_until_def serves.step)

lemma serving_lookup_weight:
  "serving W T e \<Longrightarrow> Option.bind (dict_get (en_scopes e) s) sc_weight = Some w \<Longrightarrow> w \<le> W"
  by (auto simp: serving_def Option.bind_eq_Some_conv dest!: all_scopesD) (simp add: scope_serves_def)

lemma serving_weight:
  assumes "serving W T e" and "1 \<le> W"
  shows "resolve_request_weight e ss \<le> W"
proof -
  have "resolve_weight e s g \<le> W" for s g
    using assms serving_lookup_weight [OF assms(1)]
    by (cases g) (auto simp: resolve_weight_def split: option.split)
  then show ?thesis by (simp add: resolve_request_weight_def)
qed

lemma serving_can_serve:
  assumes "serving W T e" and "w \<le> W" and "T \<le> now"
  shows "can_serve e ss w now"
  using assms unfolding can_serve_def serving_def
  by (fastforce dest: all_scopesD simp: scope_serves_def Option.bind_eq_Some_conv)

lemma serving_wait:
  assumes "serving W T e" and "1 \<le> W" and "T \<le> now" and "length ss + 3 \<le> fuel"
    and "\<And>t d. 0 \<le> d \<Longrightarrow> t + d \<le> wake t d" and "\<And>v. wo = Some v \<Longrightarrow> v \<le> W"
  shows "\<exists>b e'. wait_until_ready_for_scopes fuel wake ss timeout_ms wo started now e = Some (b, e') \<and>
     (timeout_ms \<le> 0 \<longrightarrow> b)"
proof -
  let ?w = "case wo of Some v \<Rightarrow> v | None \<Rightarrow> resolve_request_weight e ss"
  have "?w \<le> W" using assms(6) serving_weight [OF assms(1,2)] by (auto split: option.split)
  then show ?thesis
    unfolding wait_until_ready_for_scopes_def
    using assms(1-5) waiting_le [of e ss ?w now]
    by (intro wait_loop_returns [where w = ?w] serving_can_serve) auto
qed

section \<open>The engine a configuration builds\<close>

definition table_ok :: "int \<Rightarrow> (string, int) dict \<Rightarrow> bool" where
  "table_ok W d \<longleftrightarrow> list_all (\<lambda>(_, w). 0 \<le> w \<and> w \<le> W) d"

definition budget_ok :: "real \<Rightarrow> int \<Rightarrow> int option \<Rightarrow> bool" where
  "budget_ok margin W budget \<longleftrightarrow>
     (case budget of None \<Rightarrow> True | Some n \<Rightarrow> 0 < of_int n * margin \<and> of_int W \<le> of_int n * margin)"

definition venue_ok :: "real \<Rightarrow> int \<Rightarrow> rate_limit_venue_config \<Rightarrow> bool" where
  "venue_ok margin W v \<longleftrightarrow>
     budget_ok margin W (effective_budget v) \<and> table_ok W (vc_endpoint_weights v) \<and>
     table_ok W (vc_group_weights v) \<and>
     (case vc_ws_budget_per_minute v of None \<Rightarrow> True
      | Some n \<Rightarrow> 0 < n \<longrightarrow> budget_ok margin W (Some n))"

text \<open>A configuration whose budgets cover its heaviest request.\<close>

definition config_ok :: "int \<Rightarrow> rate_limit_config \<Rightarrow> bool" where
  "config_ok W c \<longleftrightarrow>
     (let margin = gc_default_margin (cf_global_config c)
      in list_all (\<lambda>(_, h). budget_ok margin W (hc_budget_per_minute h)) (cf_hosts c) \<and>
         list_all (\<lambda>(_, v). venue_ok margin W v) (cf_venues c))"

definition built :: "real \<Rightarrow> int \<Rightarrow> rate_limit_engine \<Rightarrow> bool" where
  "built margin W e \<longleftrightarrow> serving (of_int W) 0 e \<and> en_margin e = margin \<and> en_window_ms e = 60000"

lemma built_register_bucket:
  assumes "built margin W e" and "budget_ok margin W (Some n)"
  shows "built margin W (register_bucket s (Some (of_int n)) None None e)"
  using assms serves.scope_of [of "of_int W" 0 e s]
  by (auto simp: built_def serving_def register_bucket_def Let_def budget_ok_def scope_serves_def
      bucket_ok_def intro!: all_scopes_with_scope)

lemma built_register_weight:
  assumes "built margin W e" and "0 \<le> w" and "w \<le> W"
  shows "built margin W (register_weight s (Weight_Number (of_int w)) e)"
  using assms serves.scope_of [of "of_int W" 0 e s]
  by (auto simp: built_def serving_def scope_serves_def intro!: all_scopes_with_scope)

lemma built_register_min_interval:
  "built margin W e \<Longrightarrow> built margin W (register_min_interval s (Interval_Ms m) e)"
  using serves.scope_of [of "of_int W" 0 e s]
  by (auto simp: built_def serving_def scope_serves_def intro!: all_scopes_with_scope)

lemma built_fold:
  "(\<And>x e. x \<in> set xs \<Longrightarrow> built margin W e \<Longrightarrow> built margin W (f x e)) \<Longrightarrow> built margin W e \<Longrightarrow>
     built margin W (fold f xs e)"
  by (induction xs arbitrary: e) auto

lemmas built_intros = built_register_bucket built_register_weight built_register_min_interval

lemma built_register_host:
  assumes "built margin W e" and "budget_ok margin W (hc_budget_per_minute (snd h))"
  shows "built margin W (register_host h e)"
  using assms
  by (auto simp: register_host_def Let_def split: option.split intro!: built_intros
      simp del: register_min_interval.simps)

lemma table_okD: "table_ok W d \<Longrightarrow> (k, w) \<in> set d \<Longrightarrow> 0 \<le> w \<and> w \<le> W"
  by (auto simp: table_ok_def list_all_iff)

lemma built_fold_table:
  assumes "\<And>k w e. 0 \<le> w \<Longrightarrow> w \<le> W \<Longrightarrow> built margin W e \<Longrightarrow> built margin W (f (k, w) e)"
    and "table_ok W d" and "built margin W e"
  shows "built margin W (fold f d e)"
proof (rule built_fold [OF _ assms(3)])
  fix x e assume "x \<in> set d" and "built margin W e"
  moreover obtain k w where "x = (k, w)" by (cases x)
  ultimately show "built margin W (f x e)" using table_okD [OF assms(2), of k w] by (simp add: assms(1))
qed

lemma built_register_venue_tables:
  assumes "built margin W e" and "venue_ok margin W v"
  shows "built margin W (register_venue_tables i v e)"
proof -
  note del = register_weight.simps register_min_interval.simps
  let ?e1 = "fold (\<lambda>(endpoint, w). register_weight endpoint (Weight_Number (of_int w))) (vc_endpoint_weights v) e"
  have e1: "built margin W ?e1"
    by (rule built_fold_table [OF _ _ assms(1)])
       (use assms(2) in \<open>simp_all del: del add: venue_ok_def built_register_weight\<close>)
  let ?e2 = "fold (\<lambda>(group, gw). register_weight (''group:'' @ i @ '':'' @ group) (Weight_Number (of_int gw))
       \<circ> register_weight (''group:'' @ group) (Weight_Number (of_int gw))) (vc_group_weights v) ?e1"
  have e2: "built margin W ?e2"
    by (rule built_fold_table [OF _ _ e1])
       (use assms(2) in \<open>simp_all del: del add: venue_ok_def built_register_weight\<close>)
  let ?e3 = "fold (\<lambda>(endpoint, em). register_min_interval endpoint (Interval_Ms em))
       (vc_endpoint_min_interval_ms v) ?e2"
  have e3: "built margin W ?e3"
    by (rule built_fold [OF _ e2]) (auto simp del: del intro!: built_register_min_interval)
  let ?e4 = "fold (\<lambda>(group, gm). register_min_interval (''group:'' @ i @ '':'' @ group) (Interval_Ms gm)
       \<circ> register_min_interval (''group:'' @ group) (Interval_Ms gm)) (vc_group_min_interval_ms v) ?e3"
  have e4: "built margin W ?e4"
    by (rule built_fold [OF _ e3]) (auto simp del: del intro!: built_register_min_interval)
  show ?thesis
  proof (cases "\<exists>n. vc_ws_budget_per_minute v = Some n \<and> 0 < n")
    case True
    then obtain n where n: "vc_ws_budget_per_minute v = Some n" "0 < n" by blast
    with assms(2) have "budget_ok margin W (Some n)" by (simp add: venue_ok_def)
    with e4 have "built margin W
        (register_bucket (''group:'' @ i @ '':'' @ ''ws_private'') (Some (of_int n)) None None
          (register_bucket (''group:'' @ i @ '':'' @ ''ws_public'') (Some (of_int n)) None None ?e4))"
      by (intro built_register_bucket)
    with n show ?thesis by (simp del: del add: register_venue_tables_def Let_def)
  next
    case False
    with e4 show ?thesis by (auto simp del: del simp: register_venue_tables_def Let_def split: option.split)
  qed
qed

lemma built_register_venue:
  assumes "built margin W e" and "venue_ok margin W (snd v)"
  shows "built margin W (register_venue v e)"
proof (cases "effective_budget (snd v)")
  case None
  with assms show ?thesis by (simp add: register_venue_def)
next
  case (Some n)
  with assms(2) have "budget_ok margin W (Some n)" by (simp add: venue_ok_def)
  with assms Some show ?thesis
    by (auto simp: register_venue_def Let_def simp del: register_min_interval.simps
        split: option.split intro!: built_register_venue_tables built_intros)
qed

lemma built_engine:
  assumes "config_ok W c"
  shows "serving (of_int W) 0 (build_engine_from_config (Some c))"
proof -
  let ?m = "gc_default_margin (cf_global_config c)"
  have "built ?m W (init_engine 60 ?m None)"
    by (simp add: built_def serving_def all_scopes_def init_engine_def)
  then have "built ?m W (build_engine_from_config (Some c))"
    using assms
    by (auto simp: build_engine_from_config_def Let_def config_ok_def list_all_iff
        intro!: built_fold built_register_venue built_register_host)
  then show ?thesis by (simp add: built_def)
qed

lemmas venue_defaults_defs = venue_binance_defaults_def venue_aster_defaults_def
  venue_bybit_defaults_def venue_bitget_defaults_def venue_okx_defaults_def venue_gate_defaults_def
  venue_hyperliquid_defaults_def

text \<open>The heaviest built-in request weighs 30, the smallest built-in budget is 300 a minute. A caller that names a
  weight itself asks for at most 40.\<close>

lemma built_in_config_ok: "config_ok 40 built_in_defaults"
  by (simp add: config_ok_def built_in_defaults_def venue_defaults_defs venue_ok_def budget_ok_def
      table_ok_def effective_budget_def or_opt_def V1_COMMON_GROUP_WEIGHTS_def)

lemma serving_later: "serving W T e \<Longrightarrow> T \<le> T' \<Longrightarrow> serving W T' e"
  by (fastforce simp: serving_def all_scopes_def scope_serves_def)

section \<open>Why a request is rejected\<close>

lemma cooldown_retry_pos: "cooldown_retry_ms e ss now = Some r \<Longrightarrow> 0 < r"
  by (auto simp: cooldown_retry_ms_def Let_def split: if_splits)

lemma min_interval_retry_pos: "min_interval_retry_ms e ss now = Some r \<Longrightarrow> 0 < r"
  by (auto simp: min_interval_retry_ms_def Let_def split: if_splits)

lemma check_budgets_retry_pos: "fst (check_budgets ss w now e) = Inl err \<Longrightarrow> 0 < rle_retry_in_ms err"
  using check_budgets_Inl [of ss w now e err] budget_retry_pos by auto

lemma rejection_reason:
  assumes "fst (try_consume_scopes ss w nw wall e) = Inl err"
  shows "0 < rle_retry_in_ms err \<and> rle_reason err =
       (if \<exists>s\<in>set ss. \<not> cooldown_over e (now_or nw wall) s then COOLDOWN
        else if \<exists>s\<in>set ss. \<not> interval_over e (now_or nw wall) s then MIN_INTERVAL
        else BUDGET_EXCEEDED)"
proof (cases "cooldown_retry_ms e ss (now_or nw wall)")
  case (Some r)
  then have "\<exists>s\<in>set ss. \<not> cooldown_over e (now_or nw wall) s"
    using cooldown_retry_None_iff [of e ss "now_or nw wall"] by auto
  with Some assms cooldown_retry_pos [OF Some] show ?thesis
    by (auto simp: try_consume_scopes_def Let_def)
next
  case None
  then have c: "\<forall>s\<in>set ss. cooldown_over e (now_or nw wall) s" by (simp add: cooldown_retry_None_iff)
  show ?thesis
  proof (cases "min_interval_retry_ms e ss (now_or nw wall)")
    case (Some r)
    then have "\<exists>s\<in>set ss. \<not> interval_over e (now_or nw wall) s"
      using min_interval_retry_None_iff [of e ss "now_or nw wall"] by auto
    with Some None c assms min_interval_retry_pos [OF Some] show ?thesis
      by (auto simp: try_consume_scopes_def Let_def)
  next
    case none: None
    then have i: "\<forall>s\<in>set ss. interval_over e (now_or nw wall) s"
      by (simp add: min_interval_retry_None_iff)
    from none None assms have "fst (check_budgets ss w (now_or nw wall) e) = Inl err"
      by (auto simp: try_consume_scopes_def Let_def split: prod.splits sum.splits)
    with c i check_budgets_Inl_reason check_budgets_retry_pos show ?thesis by auto
  qed
qed

section \<open>What an attempt leaves behind\<close>

lemma early_rejection_state:
  assumes "fst (try_consume_scopes ss w nw wall e) = Inl err" and "rle_reason err \<noteq> BUDGET_EXCEEDED"
  shows "snd (try_consume_scopes ss w nw wall e) = e"
  using assms check_budgets_Inl_reason [of ss w "now_or nw wall" e]
  by (auto simp: try_consume_scopes_def Let_def split: option.splits prod.splits sum.splits)

section \<open>Delays a backoff gives\<close>

lemma failure_backoff_nonneg:
  "0 \<le> en_backoff_initial_ms e \<Longrightarrow> 0 \<le> en_backoff_max_ms e \<Longrightarrow> 0 \<le> failure_backoff_ms e n"
  by (simp add: failure_backoff_ms_def Let_def push_bit_eq_mult)

lemma backoff_loop_delay:
  assumes "0 \<le> en_backoff_max_ms e" and "m \<le> en_backoff_max_ms e"
  shows "m \<le> fst (backoff_loop ss now m e) \<and> fst (backoff_loop ss now m e) \<le> en_backoff_max_ms e"
  using assms
proof (induction ss arbitrary: e m)
  case Nil
  then show ?case by simp
next
  case (Cons s ss)
  let ?m = "case sc_bucket (scope_of e s) of None \<Rightarrow> m
     | Some _ \<Rightarrow> max m (failure_backoff_ms e (sc_backoff_failures (scope_of e s)))"
  have "m \<le> ?m" and "?m \<le> en_backoff_max_ms e"
    using Cons.prems failure_backoff_le_max [of e] by (auto split: option.split)
  with Cons.IH [of "with_scope s (back_off_scope e now) e" ?m] Cons.prems show ?case
    by (simp add: Let_def)
qed

section \<open>Properties\<close>

text \<open>C1: In every window of time, whatever registrations of other buckets, requests, cooldowns
  and backoffs came before and come in between, the total weight admitted through a scope is at
  most the capacity of its bucket plus what the bucket refills in the window (plus the
  tolerance 1e-9 per admitted request).\<close>

theorem admitted_weight_in_window:
  assumes "list_all rl_op_ok ys" and "e = foldl rl_step (init_engine window_secs margin dm) ys"
    and "dict_get (en_scopes e) s = Some st" and "sc_bucket st = Some b"
    and "bk_last_refill_ms b \<le> T" and "start \<le> T" and "list_all (metered_op s start T) xs"
  shows "run_sum rl_step (admitted_weight s) e xs \<le>
     bk_capacity b + bk_refill_per_ms b * of_int (T - start) + eps * run_sum rl_step (admissions s) e xs"
proof -
  have "engine_ok (init_engine window_secs margin dm)" by (simp add: engine_ok_def init_engine_def)
  with assms(1,2) have "engine_ok e" using rl.run_inv by simp
  with assms(3-7) show ?thesis by (intro window_weight_bound) simp_all
qed

lemma admitted_weight_in_window_witness:
  "\<exists>e b. bucket_of e ''venue:x'' = Some b \<and> bk_capacity b = 10 \<and>
     run_sum rl_step (admitted_weight ''venue:x'') e [Try_Consume_Scopes [''venue:x''] 4 2000]
       \<le> 10 + 1 / 1000 * 1000 +
         eps * run_sum rl_step (admissions ''venue:x'') e [Try_Consume_Scopes [''venue:x''] 4 2000]"
proof -
  let ?ys = "[Register_Bucket ''venue:x'' None (Some 10) (Some 1)]"
  let ?b = "\<lparr>bk_capacity = 10, bk_refill_per_ms = 1 / 1000, bk_tokens = 10, bk_last_refill_ms = 0,
      bk_cooldown_until_ms = 0\<rparr>"
  let ?e = "foldl rl_step (init_engine 60 1 None) ?ys"
  let ?xs = "[Try_Consume_Scopes [''venue:x''] 4 2000]"
  have st: "dict_get (en_scopes ?e) ''venue:x'' = Some (new_scope_state\<lparr>sc_bucket := Some ?b\<rparr>)"
    by (simp add: register_bucket_def init_engine_def or_num_def lookup_with_scope scope_of_def)
  have "run_sum rl_step (admitted_weight ''venue:x'') ?e ?xs \<le>
     bk_capacity ?b + bk_refill_per_ms ?b * of_int (2000 - 1000) +
       eps * run_sum rl_step (admissions ''venue:x'') ?e ?xs"
    by (rule admitted_weight_in_window [OF _ refl st, where T = 2000 and start = 1000])
       (simp_all add: metered_op_def in_window_def)
  with st show ?thesis by (intro exI [of _ ?e] exI [of _ ?b]) simp
qed

text \<open>C20: With the built-in venue configuration, after any traffic (requests, cooldowns and
  backoffs, rejected or not, at times up to T), a caller that waits for any list of scopes
  without a deadline is admitted after at most \<open>length ss + 3\<close> attempts, provided sleeping d ms
  takes at least d ms and the weight, when the caller overrides it, is at most 40 (the heaviest that
  an adapter asks for); with a deadline the wait returns as well.\<close>

theorem default_config_wait_returns:
  assumes "list_all (traffic_until T) xs" and "0 \<le> T" and "T \<le> now" and "length ss + 3 \<le> fuel"
    and "\<And>t d. 0 \<le> d \<Longrightarrow> t + d \<le> wake t d" and "\<And>v. wo = Some v \<Longrightarrow> v \<le> 40"
  shows "\<exists>b e'. wait_until_ready_for_scopes fuel wake ss timeout_ms wo started now
        (foldl rl_step (build_engine_from_config (Some built_in_defaults)) xs) = Some (b, e') \<and>
     (timeout_ms \<le> 0 \<longrightarrow> b)"
proof -
  have "serving 40 0 (build_engine_from_config (Some built_in_defaults))"
    using built_engine [OF built_in_config_ok] by simp
  then have "serving 40 T (build_engine_from_config (Some built_in_defaults))"
    using assms(2) by (rule serving_later)
  then have "serving 40 T (foldl rl_step (build_engine_from_config (Some built_in_defaults)) xs)"
    using assms(1) by (simp add: serving.run_inv)
  then show ?thesis using assms(3-6) by (intro serving_wait [where W = 40 and T = T]) simp_all
qed

lemma default_config_wait_returns_witness:
  "\<exists>b e'. wait_until_ready_for_scopes 5 (\<lambda>t d. t + d) [''venue:okx'', ''group:depth''] 0 (Some 40) 8999 9000
        (foldl rl_step (build_engine_from_config (Some built_in_defaults))
           [Apply_Backoff [''venue:okx''] 1000, Try_Consume_Scopes [''venue:okx''] 5 1500]) = Some (b, e') \<and>
     (0 \<le> (0::int) \<longrightarrow> b)"
  by (rule default_config_wait_returns [where T = 2000]) (simp_all add: traffic_until_def)

text \<open>The admission decision. A request is admitted exactly when every one of its scopes is
  out of cooldown, past its minimal interval and, after refilling, holds the weight up to the
  tolerance; otherwise the error names the first failing check in the order cooldown, interval,
  budget, and its retry hint is positive.\<close>

theorem admission_decision:
  "(fst (try_consume_scopes ss w now_ms wall e) = Inr () \<longleftrightarrow>
     (\<forall>s\<in>set ss. cooldown_over e (now_or now_ms wall) s \<and> interval_over e (now_or now_ms wall) s \<and>
        budget_covers e w (now_or now_ms wall) s)) \<and>
   (\<forall>err. fst (try_consume_scopes ss w now_ms wall e) = Inl err \<longrightarrow>
     0 < rle_retry_in_ms err \<and>
     rle_reason err =
       (if \<exists>s\<in>set ss. \<not> cooldown_over e (now_or now_ms wall) s then COOLDOWN
        else if \<exists>s\<in>set ss. \<not> interval_over e (now_or now_ms wall) s then MIN_INTERVAL
        else BUDGET_EXCEEDED))"
  (is "(?adm \<longleftrightarrow> ?all) \<and> ?errs")
proof -
  have ?errs by (simp add: rejection_reason)
  then show ?thesis using admitted_iff [of ss w now_ms wall e] by (simp add: scope_admits_def)
qed

lemma admission_decision_witness:
  "fst (try_consume_scopes [''a''] 2 (Some 5) 5 (register_bucket ''a'' None (Some 1) None (init_engine 60 1 None)))
     \<noteq> Inr ()"
proof -
  let ?e = "register_bucket ''a'' None (Some 1) None (init_engine 60 1 None)"
  have "bucket_of ?e ''a'' = Some \<lparr>bk_capacity = 1, bk_refill_per_ms = 0, bk_tokens = 1, bk_last_refill_ms = 0,
      bk_cooldown_until_ms = 0\<rparr>"
    by (simp add: register_bucket_def lookup_with_scope)
  then have "\<not> budget_covers ?e 2 5 ''a''"
    using eps_less_1 by (simp add: budget_covers_def refill_def Let_def not_le)
  then show ?thesis using admission_decision [of "[''a'']" 2 "Some 5" 5 ?e] by simp
qed

text \<open>Consumption is all or nothing. A rejected request changes no token level except by the
  refill that its budget check makes (a rejection for cooldown or interval changes nothing at
  all); an admitted one refills and charges exactly the scopes it names, once per mention, and
  leaves every other scope alone.\<close>

theorem consumption_all_or_nothing:
  "case try_consume_scopes ss w now_ms wall e of
     (Inl err, e') \<Rightarrow>
       (rle_reason err \<noteq> BUDGET_EXCEEDED \<longrightarrow> e' = e) \<and>
       (\<forall>s. dict_get (en_scopes e') s = dict_get (en_scopes e) s \<or>
          s \<in> set ss \<and> dict_get (en_scopes e') s =
            map_option (refill_scope (now_or now_ms wall)) (dict_get (en_scopes e) s))
   | (Inr _, e') \<Rightarrow>
       \<forall>s. dict_get (en_scopes e') s =
         (if s \<in> set ss
          then Some ((deduct w (now_or now_ms wall) ^^ count_list ss s)
                       (refill_scope (now_or now_ms wall) (scope_of e s)))
          else dict_get (en_scopes e) s)"
proof (cases "try_consume_scopes ss w now_ms wall e")
  case (Pair r e')
  show ?thesis
  proof (cases r)
    case (Inl err)
    with Pair show ?thesis
      using early_rejection_state [of ss w now_ms wall e err] rejected_lookup [of ss w now_ms wall e]
      by simp
  next
    case (Inr u)
    with Pair show ?thesis using admitted_lookup [of ss w now_ms wall e] by simp
  qed
qed

lemma consumption_all_or_nothing_witness:
  "case try_consume_scopes [''a''] 2 (Some 5) 5
      (register_bucket ''a'' None (Some 1) None (init_engine 60 1 None)) of
     (Inl err, e') \<Rightarrow>
       (rle_reason err \<noteq> BUDGET_EXCEEDED \<longrightarrow>
          e' = register_bucket ''a'' None (Some 1) None (init_engine 60 1 None)) \<and>
       (\<forall>s. dict_get (en_scopes e') s =
            dict_get (en_scopes (register_bucket ''a'' None (Some 1) None (init_engine 60 1 None))) s \<or>
          s \<in> set [''a''] \<and> dict_get (en_scopes e') s =
            map_option (refill_scope (now_or (Some 5) 5))
              (dict_get (en_scopes (register_bucket ''a'' None (Some 1) None (init_engine 60 1 None))) s))
   | (Inr _, e') \<Rightarrow>
       \<forall>s. dict_get (en_scopes e') s =
         (if s \<in> set [''a'']
          then Some ((deduct 2 (now_or (Some 5) 5) ^^ count_list [''a''] s)
                       (refill_scope (now_or (Some 5) 5)
                          (scope_of (register_bucket ''a'' None (Some 1) None (init_engine 60 1 None)) s)))
          else dict_get (en_scopes (register_bucket ''a'' None (Some 1) None (init_engine 60 1 None))) s)"
  by (rule consumption_all_or_nothing)

text \<open>A recorded 429 holds. After \<open>record_rate_limit_for_scopes\<close> with a retry time, whatever
  events follow (further requests, backoffs, shorter cooldowns, registrations of other buckets),
  a request through one of those scopes before the retry time has passed is rejected with
  COOLDOWN.\<close>

theorem recorded_rate_limit_holds:
  assumes "has_bucket s e" and "s \<in> set ss" and "0 < retry_after"
    and "list_all (keeps_bucket s) xs"
    and "e' = foldl rl_step (snd (record_rate_limit_for_scopes ss retry_after now e)) xs"
    and "s \<in> set ss'" and "later < now + retry_after"
  shows "\<exists>err. fst (try_consume_scopes ss' w (Some later) later e') = Inl err \<and> rle_reason err = COOLDOWN"
proof -
  let ?e1 = "snd (record_rate_limit_for_scopes ss retry_after now e)"
  have e1: "has_bucket s ?e1 \<and> now + retry_after \<le> cooldown_until s ?e1"
    using apply_cooldown_until [OF assms(1,2)] assms(3) by (simp add: record_rate_limit_for_scopes_def)
  with assms(4) have "has_bucket s e' \<and> cooldown_until s ?e1 \<le> cooldown_until s e'"
    unfolding assms(5) by (simp add: cooldown.run_inv cooldown.run_rank)
  with e1 assms(6,7) show ?thesis by (intro cooling_request_rejected) auto
qed

lemma recorded_rate_limit_holds_witness:
  "\<exists>err. fst (try_consume_scopes [''a'', ''b''] 1 (Some 150) 150
       (foldl rl_step (snd (record_rate_limit_for_scopes [''a''] 100 60
           (register_bucket ''a'' None (Some 9) None (init_engine 60 1 None))))
         [Apply_Cooldown [''a''] 1 61, Try_Consume_Scopes [''a''] 1 99])) = Inl err \<and>
     rle_reason err = COOLDOWN"
  by (rule recorded_rate_limit_holds [where s = "''a''", OF _ _ _ _ refl])
     (simp_all add: has_bucket_def register_bucket_def lookup_with_scope)

text \<open>Backoff delays. Without a retry time the recording returns a delay between 0 and the
  engine's maximum, each further failure of a scope never gets a shorter delay than the one
  before, and from failure 20 on the delay is constant.\<close>

theorem backoff_delay_bounds:
  assumes "0 \<le> en_backoff_initial_ms e" and "0 \<le> en_backoff_max_ms e"
  shows "0 \<le> fst (record_rate_limit_for_scopes ss 0 now e) \<and>
     fst (record_rate_limit_for_scopes ss 0 now e) \<le> en_backoff_max_ms e \<and>
     failure_backoff_ms e n \<le> failure_backoff_ms e (n + k) \<and>
     failure_backoff_ms e (20 + k) = failure_backoff_ms e 20"
  using backoff_loop_delay [OF assms(2) assms(2), of ss now] backoff_loop_delay [of e 0 ss now]
    failure_backoff_mono [OF assms(1), of n "n + k"] assms
  by (simp add: record_rate_limit_for_scopes_def apply_backoff_def Let_def failure_backoff_ms_def or_num_def)

lemma backoff_delay_bounds_witness:
  "0 \<le> fst (record_rate_limit_for_scopes [''a''] 0 7 (init_engine 60 1 None)) \<and>
     fst (record_rate_limit_for_scopes [''a''] 0 7 (init_engine 60 1 None))
       \<le> en_backoff_max_ms (init_engine 60 1 None) \<and>
     failure_backoff_ms (init_engine 60 1 None) 1 \<le> failure_backoff_ms (init_engine 60 1 None) (1 + 1) \<and>
     failure_backoff_ms (init_engine 60 1 None) (20 + 1) = failure_backoff_ms (init_engine 60 1 None) 20"
  by (rule backoff_delay_bounds)
     (simp_all add: init_engine_def DEFAULT_BACKOFF_INITIAL_MS_def DEFAULT_BACKOFF_MAX_MS_def)

text \<open>Hot reload is atomic. A refresh either leaves the runtime exactly as it was, or the file
  was readable, its digest new and its text parsed, and then both the configuration and the
  engine are those of the new text; a second refresh of the same file changes nothing.\<close>

theorem refresh_atomic:
  assumes "rt' = runtime_refresh file hash parse rt"
  shows "(rt' = rt \<or>
      (\<exists>m path raw c. rt_config_manager rt = Some m \<and> cm_path m = Some path \<and> file path = Some raw \<and>
         hash raw \<noteq> cm_last_hash m \<and> parse raw = Some c \<and>
         rt_config_manager rt' = Some (m\<lparr>cm_config := c, cm_last_raw := raw, cm_last_hash := hash raw\<rparr>) \<and>
         rt_engine rt' = build_engine_from_config (Some c))) \<and>
     runtime_refresh file hash parse rt' = rt'"
  unfolding assms
  by (auto simp: runtime_refresh_def config_refresh_def Let_def split: option.splits)

lemma refresh_atomic_witness:
  "\<exists>rt'. rt' = runtime_refresh (\<lambda>_. Some ''x'') (\<lambda>s. s) (\<lambda>_. Some built_in_defaults)
        (new_runtime None (Some \<lparr>cm_path = Some ''p'', cm_last_raw = [], cm_last_hash = [],
           cm_config = built_in_defaults\<rparr>)) \<and>
     runtime_refresh (\<lambda>_. Some ''x'') (\<lambda>s. s) (\<lambda>_. Some built_in_defaults) rt' = rt'"
  using refresh_atomic [OF refl, of "\<lambda>_. Some ''x''" "\<lambda>s. s" "\<lambda>_. Some built_in_defaults"
      "new_runtime None (Some \<lparr>cm_path = Some ''p'', cm_last_raw = [], cm_last_hash = [],
           cm_config = built_in_defaults\<rparr>)"] by blast

end
