(* ===== verification/Backoff.thy ===== *)
theory Backoff
  imports Rate_Limit
begin

text \<open>
  \<open>lightfee/marketdata/resilience.py\<close>: exponential backoff with jitter for reconnects, the
  connection health flag and the rate-limit status test. The law that the three backoff
  routines of the program share (this file's two and the rate limiter's) is a locale.
\<close>

section \<open>Backoff\<close>

record failure_backoff =
  fb_initial_ms :: int
  fb_max_ms :: int
  fb_failures :: int
  fb_jitter_salt :: int

text \<open>The dataclass constructor with its \<open>__post_init__\<close>.\<close>

definition new_failure_backoff :: "int \<Rightarrow> int \<Rightarrow> int \<Rightarrow> int \<Rightarrow> failure_backoff" where
  "new_failure_backoff initial_ms max_ms failures salt =
     \<lparr>fb_initial_ms = max initial_ms 1, fb_max_ms = max max_ms (max initial_ms 1),
      fb_failures = failures, fb_jitter_salt = salt\<rparr>"

definition on_failure :: "failure_backoff \<Rightarrow> int \<times> failure_backoff" where
  "on_failure b =
     (let shift = min (fb_failures b) 20;
          multiplier = push_bit (nat shift) 1;
          delay = min (fb_initial_ms b * multiplier) (fb_max_ms b)
      in (delay, b\<lparr>fb_failures := fb_failures b + 1\<rparr>))"

definition jitter_delay :: "int \<Rightarrow> int \<Rightarrow> int \<Rightarrow> int" where
  "jitter_delay base_ms failures salt =
     (if base_ms \<le> 1 then base_ms
      else
        let spread = max (base_ms div 5) 1;
            mix = salt * 0x9E3779B97F4A7C15 + failures * 0xA0761D6478BD642F;
            offset = mix mod (spread * 2 + 1)
        in max (base_ms - spread + offset) 1)"

definition on_failure_with_jitter :: "failure_backoff \<Rightarrow> int \<times> failure_backoff" where
  "on_failure_with_jitter b =
     (let (base, b) = on_failure b
      in (jitter_delay base (fb_failures b) (fb_jitter_salt b), b))"

definition on_success :: "failure_backoff \<Rightarrow> failure_backoff" where
  "on_success b = b\<lparr>fb_failures := 0\<rparr>"

definition backoff_delay :: "int \<Rightarrow> int \<Rightarrow> int \<Rightarrow> int" where
  "backoff_delay initial_ms max_ms failures =
     (let shift = min failures 20
      in min (initial_ms * push_bit (nat shift) 1) max_ms)"

definition compute_backoff_ms :: "int \<Rightarrow> int \<Rightarrow> int \<Rightarrow> int" where
  "compute_backoff_ms initial_ms max_ms failures =
     (if failures \<le> 0 then 0
      else let base = backoff_delay initial_ms max_ms failures
           in jitter_delay base failures 0x55AA)"

section \<open>Connection health\<close>

record connection_health =
  ch_consecutive_failures :: int
  ch_last_success_ms :: "int option"
  ch_last_failure_ms :: "int option"
  ch_unhealthy_since_ms :: "int option"
  ch_last_error :: "string option"

definition new_connection_health :: connection_health where
  "new_connection_health = \<lparr>ch_consecutive_failures = 0, ch_last_success_ms = None,
     ch_last_failure_ms = None, ch_unhealthy_since_ms = None, ch_last_error = None\<rparr>"

definition record_success :: "int \<Rightarrow> connection_health \<Rightarrow> connection_health" where
  "record_success now h = h\<lparr>ch_consecutive_failures := 0, ch_last_success_ms := Some now,
     ch_unhealthy_since_ms := None, ch_last_error := None\<rparr>"

definition record_failure :: "int \<Rightarrow> int \<Rightarrow> string \<Rightarrow> connection_health \<Rightarrow> connection_health" where
  "record_failure now unhealthy_after_failures error h =
     (let h = h\<lparr>ch_consecutive_failures := ch_consecutive_failures h + 1,
                ch_last_failure_ms := Some now, ch_last_error := Some error\<rparr>
      in if unhealthy_after_failures > 0 \<and> ch_consecutive_failures h \<ge> unhealthy_after_failures \<and>
            ch_unhealthy_since_ms h = None
         then h\<lparr>ch_unhealthy_since_ms := Some now\<rparr> else h)"

definition is_unhealthy :: "connection_health \<Rightarrow> bool" where
  "is_unhealthy h \<longleftrightarrow> ch_unhealthy_since_ms h \<noteq> None"

definition is_rate_limited_status :: "int \<Rightarrow> bool" where
  "is_rate_limited_status http_status \<longleftrightarrow> http_status \<in> {429, 418}"

section \<open>The law of capped doubling\<close>

locale capped_backoff =
  fixes delay :: "nat \<Rightarrow> int" and initial :: int and cap :: int
  assumes delay_eq: "delay n = min (initial * 2 ^ min n 20) cap"
    and initial_pos: "0 < initial" and cap_ge: "initial \<le> cap"
begin

lemma le_cap: "delay n \<le> cap"
  by (simp add: delay_eq)

lemma ge_initial: "initial \<le> delay n"
proof -
  have "initial * 1 \<le> initial * 2 ^ min n 20" using initial_pos by (intro mult_left_mono) auto
  then show ?thesis using cap_ge by (simp add: delay_eq)
qed

lemma mono: "n \<le> m \<Longrightarrow> delay n \<le> delay m"
proof -
  assume "n \<le> m"
  then have "(2::int) ^ min n 20 \<le> 2 ^ min m 20" by (intro power_increasing) auto
  then have "initial * 2 ^ min n 20 \<le> initial * 2 ^ min m 20"
    using initial_pos by (intro mult_left_mono) auto
  then show ?thesis by (auto simp: delay_eq)
qed

lemma doubles: "n < 20 \<Longrightarrow> delay (Suc n) = min (2 * delay n) cap"
  using initial_pos cap_ge by (auto simp: delay_eq min_def)

end

lemma failure_backoff_capped:
  "0 < en_backoff_initial_ms e \<Longrightarrow> en_backoff_initial_ms e \<le> en_backoff_max_ms e \<Longrightarrow>
     capped_backoff (failure_backoff_ms e) (en_backoff_initial_ms e) (en_backoff_max_ms e)"
  by unfold_locales (simp_all add: failure_backoff_ms_def Let_def push_bit_eq_mult)

interpretation rate_limit_delay: capped_backoff "failure_backoff_ms (init_engine w m d)"
    DEFAULT_BACKOFF_INITIAL_MS DEFAULT_BACKOFF_MAX_MS for w m d
  using failure_backoff_capped [of "init_engine w m d"]
  by (simp add: init_engine_def DEFAULT_BACKOFF_INITIAL_MS_def DEFAULT_BACKOFF_MAX_MS_def)

lemma min_int_nat: "nat (min (int n) 20) = min n 20"
  by (simp add: min_def)

interpretation reconnect_delay: capped_backoff "\<lambda>n. backoff_delay (max i 1) (max m (max i 1)) (int n)"
    "max i 1" "max m (max i 1)" for i m
  by unfold_locales (simp_all add: backoff_delay_def Let_def min_int_nat push_bit_eq_mult)

section \<open>Runs of failures\<close>

text \<open>The delays of \<open>n\<close> failures in a row.\<close>

fun failure_run :: "nat \<Rightarrow> failure_backoff \<Rightarrow> int list \<times> failure_backoff" where
  "failure_run 0 b = ([], b)"
| "failure_run (Suc n) b =
     (let (d, b) = on_failure b; (ds, b) = failure_run n b in (d # ds, b))"

lemma failure_run_delays:
  assumes "0 \<le> fb_failures b"
  shows "failure_run n b =
     (map (\<lambda>k. backoff_delay (fb_initial_ms b) (fb_max_ms b) (fb_failures b + int k)) [0..<n],
      b\<lparr>fb_failures := fb_failures b + int n\<rparr>)"
  using assms
proof (induction n arbitrary: b)
  case 0
  then show ?case by simp
next
  case (Suc n)
  have "map (\<lambda>k. backoff_delay i m (f + 1 + int k)) [0..<n] =
      map (\<lambda>k. backoff_delay i m (f + int k)) [Suc 0..<Suc n]" for i m f
    by (simp add: map_Suc_upt [symmetric] comp_def algebra_simps del: upt_Suc map_Suc_upt)
  moreover have "[0..<Suc n] = 0 # [Suc 0..<Suc n]" by (rule upt_conv_Cons) simp
  ultimately show ?case
    using Suc.prems Suc.IH [of "b\<lparr>fb_failures := fb_failures b + 1\<rparr>"]
    by (simp add: on_failure_def backoff_delay_def Let_def del: upt_Suc)
qed

lemma jitter_delay_bounds:
  assumes "1 < base"
  shows "max 1 (base - max (base div 5) 1) \<le> jitter_delay base failures salt \<and>
     jitter_delay base failures salt \<le> base + max (base div 5) 1"
proof -
  let ?s = "max (base div 5) 1" and ?x = "salt * 0x9E3779B97F4A7C15 + failures * 0xA0761D6478BD642F"
  define r where "r = ?x mod (?s * 2 + 1)"
  have "0 \<le> r" "r < ?s * 2 + 1" unfolding r_def by (rule pos_mod_sign; simp) (rule pos_mod_bound; simp)
  moreover have "jitter_delay base failures salt = max (base - ?s + r) 1"
    using assms by (simp add: jitter_delay_def Let_def r_def)
  ultimately show ?thesis using assms by linarith
qed

lemma jitter_delay_near:
  assumes "1 \<le> base"
  shows "1 \<le> jitter_delay base failures salt \<and>
     \<bar>jitter_delay base failures salt - base\<bar> \<le> max (base div 5) 1"
proof (cases "base = 1")
  case True
  then show ?thesis by (simp add: jitter_delay_def)
next
  case False
  with assms have "1 < base" by simp
  from jitter_delay_bounds [OF this, of failures salt] show ?thesis by linarith
qed

section \<open>Runs of the health flag\<close>

datatype health_event = Success int | Failure int string

fun health_step :: "int \<Rightarrow> connection_health \<Rightarrow> health_event \<Rightarrow> connection_health" where
  "health_step k h (Success t) = record_success t h"
| "health_step k h (Failure t err) = record_failure t k err h"

text \<open>The times of the failures since the last success, oldest first.\<close>

fun streak_step :: "int list \<Rightarrow> health_event \<Rightarrow> int list" where
  "streak_step ts (Success t) = []"
| "streak_step ts (Failure t err) = ts @ [t]"

definition health_matches :: "nat \<Rightarrow> int list \<Rightarrow> connection_health \<Rightarrow> bool" where
  "health_matches k ts h \<longleftrightarrow> ch_consecutive_failures h = int (length ts) \<and>
     ch_unhealthy_since_ms h = (if k \<le> length ts then Some (ts ! (k - 1)) else None)"

lemma health_step_matches:
  assumes "0 < k" and "health_matches k ts h"
  shows "health_matches k (streak_step ts x) (health_step (int k) h x)"
proof (cases x)
  case (Success t)
  with assms show ?thesis by (simp add: health_matches_def record_success_def)
next
  case (Failure t err)
  have "k \<le> length ts + 1 \<longleftrightarrow> k \<le> length ts \<or> k = length ts + 1" by linarith
  with Failure assms show ?thesis
    by (auto simp: health_matches_def record_failure_def Let_def nth_append)
qed

lemma health_run_matches:
  "0 < k \<Longrightarrow> health_matches k ts h \<Longrightarrow>
     health_matches k (foldl streak_step ts xs) (foldl (health_step (int k)) h xs)"
  by (induction xs arbitrary: ts h) (simp_all add: health_step_matches)

section \<open>Properties\<close>

text \<open>Reconnect delays. A new backoff gives, failure after failure, delays that start at its
  initial value, double up to twenty times and are capped, hence never fall; after a success they
  start again; with jitter a delay stays within the larger of a fifth of it and 1 ms, and at
  least 1 ms.\<close>

theorem reconnect_delays:
  assumes "b = new_failure_backoff i m 0 salt" and "k < n" and "k' \<le> k"
  shows "fst (failure_run n b) ! k = min (max i 1 * 2 ^ min k 20) (max m (max i 1)) \<and>
     fst (failure_run n b) ! k' \<le> fst (failure_run n b) ! k \<and>
     fst (failure_run n (on_success (snd (failure_run n b)))) = fst (failure_run n b) \<and>
     (let d = backoff_delay (max i 1) (max m (max i 1)) (int k)
      in 1 \<le> jitter_delay d failures salt \<and> \<bar>jitter_delay d failures salt - d\<bar> \<le> max (d div 5) 1)"
proof -
  let ?D = "\<lambda>k. backoff_delay (max i 1) (max m (max i 1)) (int k)"
  have run: "failure_run n b = (map ?D [0..<n], b\<lparr>fb_failures := int n\<rparr>)"
    using failure_run_delays [of b n] by (simp add: assms(1) new_failure_backoff_def)
  have "on_success (snd (failure_run n b)) = on_success b"
    unfolding run by (simp add: on_success_def)
  then have "on_success (snd (failure_run n b)) = b"
    by (simp add: on_success_def assms(1) new_failure_backoff_def)
  then have again: "fst (failure_run n (on_success (snd (failure_run n b)))) = fst (failure_run n b)"
    by (simp only:)
  have "1 \<le> ?D k" using reconnect_delay.ge_initial [of i m k] by linarith
  note near = jitter_delay_near [OF this, of failures salt]
  have nth: "fst (failure_run n b) ! j = ?D j" if "j \<le> k" for j
    using that assms(2) by (simp add: run)
  show ?thesis
    using nth [OF order_refl] nth [OF assms(3)] again near reconnect_delay.delay_eq [of i m k]
      reconnect_delay.mono [OF assms(3), of i m] by (simp only: Let_def simp_thms)
qed

lemma reconnect_delays_witness:
  "fst (failure_run 3 (new_failure_backoff 100 300 0 7)) ! 2 = min (max 100 1 * 2 ^ min 2 20) (max 300 (max 100 1)) \<and>
     fst (failure_run 3 (new_failure_backoff 100 300 0 7)) ! 1
       \<le> fst (failure_run 3 (new_failure_backoff 100 300 0 7)) ! 2 \<and>
     fst (failure_run 3 (on_success (snd (failure_run 3 (new_failure_backoff 100 300 0 7)))))
       = fst (failure_run 3 (new_failure_backoff 100 300 0 7)) \<and>
     (let d = backoff_delay (max 100 1) (max 300 (max 100 1)) (int 2)
      in 1 \<le> jitter_delay d 3 7 \<and> \<bar>jitter_delay d 3 7 - d\<bar> \<le> max (d div 5) 1)"
  by (rule reconnect_delays [OF refl]) simp_all

text \<open>The health flag counts consecutive failures. With a positive threshold k, after any
  sequence of successes and failures the connection is unhealthy exactly when at least k
  failures followed the last success, and it is so since the k-th of them.\<close>

theorem unhealthy_after_k_consecutive:
  assumes "0 < k" and "ts = foldl streak_step [] xs"
    and "h = foldl (health_step (int k)) new_connection_health xs"
  shows "(is_unhealthy h \<longleftrightarrow> k \<le> length ts) \<and>
     ch_unhealthy_since_ms h = (if k \<le> length ts then Some (ts ! (k - 1)) else None)"
  using health_run_matches [of k "[]" new_connection_health xs] assms
  by (simp add: health_matches_def new_connection_health_def is_unhealthy_def)

lemma unhealthy_after_k_consecutive_witness:
  "let xs = [Failure 1 ''e'', Success 2, Failure 3 ''e'', Failure 4 ''e'', Failure 5 ''e''];
       h = foldl (health_step (int 2)) new_connection_health xs
   in is_unhealthy h \<and> ch_unhealthy_since_ms h = Some 4"
  using unhealthy_after_k_consecutive [of 2 _ "[Failure 1 ''e'', Success 2, Failure 3 ''e'', Failure 4 ''e'', Failure 5 ''e'']",
      OF _ refl refl]
  by (simp add: Let_def)

end
