(* ===== verification/L2_Book.thy ===== *)
theory L2_Book
  imports Prelude
begin

text \<open>
  \<open>lightfee/marketdata/l2.py\<close>: the local level-2 order book of one instrument. A book keeps
  its two sides as lists of price levels, best first, and is fed by snapshots and deltas; it
  has a life cycle (cold, bootstrapping, hot, degraded, \<dots>) and a raw-text copy of the levels
  over which exchanges compute checksums.

  Prices and quantities are reals (no infinities), the texts of fault reasons and event details
  are the constructors of a datatype that carry the numbers the f-strings print, and CRC-32 and
  the float parser are arguments (\<open>crc32\<close>, \<open>to_float\<close>).
\<close>

section \<open>Data\<close>

datatype l2_book_status = COLD | BOOTSTRAPPING | HOT | DEGRADED | REBUILDING | SUSPENDED | RESUME_WAITING

datatype l2_pool_assignment = HOT_EXEC | WARM | RETAINED | DROPPED

datatype local_l2_update_kind = SNAPSHOT | DELTA | ZERO_DELETE | RESUME | REBUILD

datatype local_l2_event_kind =
    BEST_BID_UPDATED | BEST_ASK_UPDATED | SPREAD_CHANGED | MID_PRICE_CHANGED | DEPTH_CHANGED
  | SEQUENCE_GAP | CHECKSUM_MISMATCH | STALE | STATUS_TRANSITION | REBUILD_REQUIRED
  | RESUME_EVENT | RESUMED | BOOK_CLEARED

record price_level =
  pl_price :: real
  pl_quantity :: real

text \<open>What the fault reasons and event details say.\<close>

datatype incoming = Incoming_Prev int | Incoming_Sequence int

datatype l2_text =
    No_Text
  | Book_Empty_Side_Bid
  | Book_Empty_Side_Ask
  | Non_Positive_Top real real
  | Crossed_Or_Locked_Book real real
  | Stale_Update int incoming
  | Sequence_Gap_Fault int
  | Gap_Detail int int int
  | Small_Gap_Detail int
  | Checksum_Detail int int

record local_l2_event =
  ev_venue :: string
  ev_symbol :: string
  ev_kind :: local_l2_event_kind
  ev_observed_at_ms :: int
  ev_sequence :: int
  ev_detail :: l2_text
  ev_bid :: real
  ev_ask :: real
  ev_mid_price :: real

record local_l2_update_result =
  ur_applied :: bool
  ur_events :: "local_l2_event list"
  ur_fault_reason :: l2_text
  ur_rebuild_required :: bool

type_synonym raw_level = "real \<times> real \<times> string \<times> string"

record local_l2_book =
  lb_venue :: string
  lb_symbol :: string
  lb_bids :: "price_level list"
  lb_asks :: "price_level list"
  lb_status :: l2_book_status
  lb_pool :: l2_pool_assignment
  lb_observed_at_ms :: int
  lb_bootstrap_started_ms :: int
  lb_degrade_count :: int
  lb_last_error :: string
  lb_last_update_id :: int
  lb_sequence :: int
  lb_checksum :: int
  lb_raw_checksum_bids :: "raw_level list"
  lb_raw_checksum_asks :: "raw_level list"
  lb_last_snapshot_ms :: int
  lb_last_delta_ms :: int
  lb_resume_waiting_until_ms :: int
  lb_runtime_suspended_until_ms :: int
  lb_source :: string
  lb_fault_reason :: string
  lb_pending_snapshot_bridge :: bool
  lb_max_consecutive_degradations :: int
  lb_stall_timeout_ms :: int
  lb_max_depth :: int
  lb_stale_age_ms :: int
  lb_max_sequence_gap :: int

definition new_book :: "string \<Rightarrow> string \<Rightarrow> local_l2_book" where
  "new_book venue symbol =
     \<lparr>lb_venue = venue, lb_symbol = symbol, lb_bids = [], lb_asks = [], lb_status = COLD,
      lb_pool = DROPPED, lb_observed_at_ms = 0, lb_bootstrap_started_ms = 0, lb_degrade_count = 0,
      lb_last_error = [], lb_last_update_id = 0, lb_sequence = 0, lb_checksum = 0,
      lb_raw_checksum_bids = [], lb_raw_checksum_asks = [], lb_last_snapshot_ms = 0,
      lb_last_delta_ms = 0, lb_resume_waiting_until_ms = 0, lb_runtime_suspended_until_ms = 0,
      lb_source = [], lb_fault_reason = [], lb_pending_snapshot_bridge = False,
      lb_max_consecutive_degradations = 3, lb_stall_timeout_ms = 60000, lb_max_depth = 50,
      lb_stale_age_ms = 5000, lb_max_sequence_gap = 0\<rparr>"

section \<open>Helpers\<close>

text \<open>Python's sort is stable, also with \<open>reverse=True\<close>.\<close>

definition sort_bids :: "price_level list \<Rightarrow> price_level list" where
  "sort_bids levels = sort_key (\<lambda>x. - pl_price x) levels"

definition sort_asks :: "price_level list \<Rightarrow> price_level list" where
  "sort_asks levels = sort_key pl_price levels"

definition book_structure_fault :: "price_level list \<Rightarrow> price_level list \<Rightarrow> l2_text" where
  "book_structure_fault bids asks =
     (case bids of
        [] \<Rightarrow> Book_Empty_Side_Bid
      | bid # _ \<Rightarrow>
          (case asks of
             [] \<Rightarrow> Book_Empty_Side_Ask
           | ask # _ \<Rightarrow>
               let best_bid = pl_price bid; best_ask = pl_price ask
               in if best_bid \<le> 0 \<or> best_ask \<le> 0 then Non_Positive_Top best_bid best_ask
                  else if best_bid \<ge> best_ask then Crossed_Or_Locked_Book best_bid best_ask
                  else No_Text))"

definition make_event ::
  "local_l2_book \<Rightarrow> local_l2_event_kind \<Rightarrow> int \<Rightarrow> int \<Rightarrow> local_l2_event" where
  "make_event book kind now sequence =
     \<lparr>ev_venue = lb_venue book, ev_symbol = lb_symbol book, ev_kind = kind, ev_observed_at_ms = now,
      ev_sequence = sequence, ev_detail = No_Text, ev_bid = 0, ev_ask = 0, ev_mid_price = 0\<rparr>"

datatype side = Bid_Side | Ask_Side

definition merge_price_map :: "price_level list \<Rightarrow> price_level list \<Rightarrow> (real, real) dict" where
  "merge_price_map existing incoming =
     fold (\<lambda>lvl m. if pl_quantity lvl \<le> 0 then dict_pop (pl_price lvl) m
                   else dict_put (pl_price lvl) (pl_quantity lvl) m) incoming
       (fold (\<lambda>lvl m. dict_put (pl_price lvl) (pl_quantity lvl) m) existing [])"

definition merge_levels :: "price_level list \<Rightarrow> price_level list \<Rightarrow> side \<Rightarrow> int \<Rightarrow> price_level list" where
  "merge_levels existing incoming side max_depth =
     (let price_map = merge_price_map existing incoming;
          merged = map (\<lambda>(p, q). \<lparr>pl_price = p, pl_quantity = q\<rparr>) price_map;
          merged = (case side of Bid_Side \<Rightarrow> sort_bids merged | Ask_Side \<Rightarrow> sort_asks merged)
      in if max_depth > 0 then take (nat max_depth) merged else merged)"

section \<open>Queries\<close>

definition best_bid :: "local_l2_book \<Rightarrow> real" where
  "best_bid b = (case lb_bids b of [] \<Rightarrow> 0 | l # _ \<Rightarrow> pl_price l)"

definition best_ask :: "local_l2_book \<Rightarrow> real" where
  "best_ask b = (case lb_asks b of [] \<Rightarrow> 0 | l # _ \<Rightarrow> pl_price l)"

definition mid_price :: "local_l2_book \<Rightarrow> real" where
  "mid_price b =
     (let bb = best_bid b; ba = best_ask b in if bb > 0 \<and> ba > 0 then (bb + ba) / 2 else 0)"

definition spread_bps :: "local_l2_book \<Rightarrow> real" where
  "spread_bps b =
     (let bb = best_bid b; ba = best_ask b in if bb > 0 \<and> ba > 0 then (ba - bb) / bb * 10000 else 0)"

text \<open>A slice \<open>xs[:d]\<close>: a negative bound counts from the end.\<close>

definition py_slice_to :: "int \<Rightarrow> 'a list \<Rightarrow> 'a list" where
  "py_slice_to d xs = (if d \<ge> 0 then take (nat d) xs else take (length xs - nat (- d)) xs)"

definition depth_bid :: "int \<Rightarrow> local_l2_book \<Rightarrow> price_level list" where
  "depth_bid depth b = py_slice_to depth (lb_bids b)"

definition depth_ask :: "int \<Rightarrow> local_l2_book \<Rightarrow> price_level list" where
  "depth_ask depth b = py_slice_to depth (lb_asks b)"

definition quantity_at_price :: "side \<Rightarrow> real \<Rightarrow> local_l2_book \<Rightarrow> real" where
  "quantity_at_price side price b =
     (let levels = (case side of Bid_Side \<Rightarrow> lb_bids b | Ask_Side \<Rightarrow> lb_asks b)
      in case find (\<lambda>lvl. pl_price lvl = price) levels of Some lvl \<Rightarrow> pl_quantity lvl | None \<Rightarrow> 0)"

definition cumulative_bid_quantity :: "real \<Rightarrow> int \<Rightarrow> local_l2_book \<Rightarrow> real" where
  "cumulative_bid_quantity from_price depth b =
     (let d = (if depth \<noteq> 0 then depth else int (length (lb_bids b)))
      in sum_list (map pl_quantity (filter (\<lambda>lvl. pl_price lvl \<ge> from_price) (py_slice_to d (lb_bids b)))))"

definition cumulative_ask_quantity :: "real \<Rightarrow> int \<Rightarrow> local_l2_book \<Rightarrow> real" where
  "cumulative_ask_quantity to_price depth b =
     (let d = (if depth \<noteq> 0 then depth else int (length (lb_asks b)))
      in sum_list (map pl_quantity (filter (\<lambda>lvl. pl_price lvl \<le> to_price) (py_slice_to d (lb_asks b)))))"

text \<open>The loop of \<open>_walk_levels\<close>; the accumulators are \<open>filled_quote\<close> and \<open>cost_basis\<close>.\<close>

fun walk_loop :: "price_level list \<Rightarrow> real \<Rightarrow> real \<Rightarrow> real \<Rightarrow> real \<times> real" where
  "walk_loop [] target filled cost = (filled, cost)"
| "walk_loop (lvl # ls) target filled cost =
     (let level_quote = pl_price lvl * pl_quantity lvl
      in if level_quote \<le> 0 then walk_loop ls target filled cost
         else
           let taken = min level_quote (target - filled);
               filled = filled + taken;
               cost = cost + taken * pl_price lvl
           in if filled \<ge> target then (filled, cost) else walk_loop ls target filled cost)"

definition walk_levels :: "price_level list \<Rightarrow> real \<Rightarrow> real \<times> real" where
  "walk_levels levels target_quote =
     (if levels = [] \<or> target_quote \<le> 0 then (0, 0)
      else
        let (filled_quote, cost_basis) = walk_loop levels target_quote 0 0
        in if filled_quote \<le> 0 then (0, 0) else (filled_quote, cost_basis / filled_quote))"

definition vwap_buy :: "real \<Rightarrow> local_l2_book \<Rightarrow> real \<times> real" where
  "vwap_buy target_quote b = walk_levels (lb_asks b) target_quote"

definition vwap_sell :: "real \<Rightarrow> local_l2_book \<Rightarrow> real \<times> real" where
  "vwap_sell target_quote b = walk_levels (lb_bids b) target_quote"

definition has_crossed_book :: "local_l2_book \<Rightarrow> bool" where
  "has_crossed_book b \<longleftrightarrow> best_bid b > 0 \<and> best_ask b > 0 \<and> best_bid b \<ge> best_ask b"

section \<open>Applying updates\<close>

definition top_events :: "local_l2_book \<Rightarrow> int \<Rightarrow> int \<Rightarrow> local_l2_event list" where
  "top_events b now sequence =
     (case lb_bids b of [] \<Rightarrow> []
      | l # _ \<Rightarrow> [(make_event b BEST_BID_UPDATED now sequence)\<lparr>ev_bid := pl_price l\<rparr>]) @
     (case lb_asks b of [] \<Rightarrow> []
      | l # _ \<Rightarrow> [(make_event b BEST_ASK_UPDATED now sequence)\<lparr>ev_ask := pl_price l\<rparr>])"

definition apply_snapshot ::
  "price_level list \<Rightarrow> price_level list \<Rightarrow> int \<Rightarrow> int \<Rightarrow> int \<Rightarrow> int \<Rightarrow> local_l2_book
     \<Rightarrow> local_l2_update_result \<times> local_l2_book" where
  "apply_snapshot bids asks sequence checksum now max_depth b =
     (let depth = (if max_depth \<noteq> 0 then max_depth else lb_max_depth b);
          next_bids = (if depth > 0 then take (nat depth) (sort_bids bids) else sort_bids bids);
          next_asks = (if depth > 0 then take (nat depth) (sort_asks asks) else sort_asks asks);
          fault = book_structure_fault next_bids next_asks
      in if fault \<noteq> No_Text
         then (\<lparr>ur_applied = False,
                ur_events = [(make_event b REBUILD_REQUIRED now sequence)\<lparr>ev_detail := fault\<rparr>],
                ur_fault_reason = fault, ur_rebuild_required = True\<rparr>, b)
         else
           let b = b\<lparr>lb_bids := next_bids, lb_asks := next_asks, lb_sequence := sequence,
                     lb_last_update_id := (if sequence > 0 then sequence else lb_last_update_id b),
                     lb_checksum := checksum, lb_last_snapshot_ms := now, lb_observed_at_ms := now\<rparr>
           in (\<lparr>ur_applied = True, ur_events = top_events b now sequence,
                ur_fault_reason = No_Text, ur_rebuild_required = False\<rparr>, b))"

definition not_applied ::
  "local_l2_event list \<Rightarrow> l2_text \<Rightarrow> bool \<Rightarrow> local_l2_update_result" where
  "not_applied events fault rebuild =
     \<lparr>ur_applied = False, ur_events = events, ur_fault_reason = fault, ur_rebuild_required = rebuild\<rparr>"

text \<open>The part of \<open>apply_delta\<close> after the sequence checks.\<close>

definition merge_delta ::
  "price_level list \<Rightarrow> price_level list \<Rightarrow> int \<Rightarrow> int \<Rightarrow> int \<Rightarrow> local_l2_event list \<Rightarrow> local_l2_book
     \<Rightarrow> local_l2_update_result \<times> local_l2_book" where
  "merge_delta bids asks sequence now max_depth events b =
     (let depth = (if max_depth \<noteq> 0 then max_depth else lb_max_depth b);
          next_bids = merge_levels (lb_bids b) bids Bid_Side depth;
          next_asks = merge_levels (lb_asks b) asks Ask_Side depth;
          fault = book_structure_fault next_bids next_asks
      in if fault \<noteq> No_Text
         then (not_applied (events @ [(make_event b REBUILD_REQUIRED now sequence)\<lparr>ev_detail := fault\<rparr>])
                 fault True, b)
         else
           let b = b\<lparr>lb_bids := next_bids, lb_asks := next_asks, lb_sequence := sequence,
                     lb_last_update_id := (if sequence > 0 then sequence else lb_last_update_id b),
                     lb_last_delta_ms := now, lb_observed_at_ms := now\<rparr>;
               mid = mid_price b
           in (\<lparr>ur_applied = True,
                ur_events = events @ top_events b now sequence @
                  (if mid > 0 then [(make_event b MID_PRICE_CHANGED now sequence)\<lparr>ev_mid_price := mid\<rparr>] else []),
                ur_fault_reason = No_Text, ur_rebuild_required = False\<rparr>, b))"

definition apply_delta ::
  "price_level list \<Rightarrow> price_level list \<Rightarrow> int \<Rightarrow> int \<Rightarrow> int \<Rightarrow> int \<Rightarrow> local_l2_book
     \<Rightarrow> local_l2_update_result \<times> local_l2_book" where
  "apply_delta bids asks sequence previous_sequence now max_depth b =
     (let prev_seq = previous_sequence;
          current = lb_sequence b;
          same_sequence_refresh = (current > 0 \<and> sequence = current \<and> prev_seq = current)
      in if current > 0 \<and> sequence > 0 \<and> sequence \<le> current \<and> \<not> same_sequence_refresh \<and>
            prev_seq \<noteq> current
         then (not_applied []
                 (Stale_Update current
                    (if prev_seq > 0 then Incoming_Prev prev_seq else Incoming_Sequence sequence))
                 False, b)
         else if current > 0 \<and> prev_seq > 0 \<and> prev_seq \<noteq> current
         then
           let gap = prev_seq - current
           in if gap < 0 then (not_applied [] (Stale_Update current (Incoming_Prev prev_seq)) False, b)
              else if gap > 0 \<and> (lb_max_sequence_gap b \<le> 0 \<or> gap > lb_max_sequence_gap b)
              then (not_applied
                      [(make_event b SEQUENCE_GAP now sequence)\<lparr>ev_detail := Gap_Detail gap current prev_seq\<rparr>]
                      (Sequence_Gap_Fault gap) True, b)
              else merge_delta bids asks sequence now max_depth
                     (if gap > 0
                      then [(make_event b SEQUENCE_GAP now sequence)\<lparr>ev_detail := Small_Gap_Detail gap\<rparr>]
                      else []) b
         else merge_delta bids asks sequence now max_depth [] b)"

definition clear_book :: "int \<Rightarrow> local_l2_book \<Rightarrow> local_l2_event list \<times> local_l2_book" where
  "clear_book now b =
     (let b = b\<lparr>lb_bids := [], lb_asks := [], lb_observed_at_ms := now\<rparr>
      in ([make_event b BOOK_CLEARED now (lb_sequence b)], b))"

section \<open>The raw-text checksum book\<close>

type_synonym raw_update = "string list"

definition raw_checksum_level :: "(string \<Rightarrow> real option) \<Rightarrow> raw_update \<Rightarrow> raw_level option" where
  "raw_checksum_level to_float level =
     (case level of
        price_text # quantity_text # _ \<Rightarrow>
          (case (to_float price_text, to_float quantity_text) of
             (Some price, Some quantity) \<Rightarrow>
               if price > 0 then Some (price, quantity, price_text, quantity_text) else None
           | _ \<Rightarrow> None)
      | _ \<Rightarrow> None)"

definition sort_raw :: "bool \<Rightarrow> raw_level list \<Rightarrow> raw_level list" where
  "sort_raw descending levels = sort_key (\<lambda>l. if descending then - fst l else fst l) levels"

definition sanitize_raw_checksum_side ::
  "(string \<Rightarrow> real option) \<Rightarrow> raw_update list \<Rightarrow> bool \<Rightarrow> int \<Rightarrow> raw_level list" where
  "sanitize_raw_checksum_side to_float levels descending max_depth =
     (let parsed = filter (\<lambda>item. fst (snd item) > 0)
                     (List.map_filter (raw_checksum_level to_float) levels)
      in py_slice_to max_depth (sort_raw descending parsed))"

definition merge_raw_checksum_side ::
  "(string \<Rightarrow> real option) \<Rightarrow> raw_level list \<Rightarrow> raw_update list \<Rightarrow> bool \<Rightarrow> int \<Rightarrow> raw_level list" where
  "merge_raw_checksum_side to_float existing incoming descending max_depth =
     (let by_price = fold (\<lambda>level m. dict_put (fst level) level m) existing [];
          by_price = fold
            (\<lambda>raw m. case raw_checksum_level to_float raw of
                       None \<Rightarrow> m
                     | Some parsed \<Rightarrow>
                         if fst (snd parsed) \<le> 0 then dict_pop (fst parsed) m
                         else dict_put (fst parsed) parsed m) incoming by_price
      in py_slice_to max_depth (sort_raw descending (map snd by_price)))"

definition apply_raw_checksum_update ::
  "(string \<Rightarrow> real option) \<Rightarrow> raw_update list \<Rightarrow> raw_update list \<Rightarrow> local_l2_update_kind \<Rightarrow> int
     \<Rightarrow> local_l2_book \<Rightarrow> local_l2_book" where
  "apply_raw_checksum_update to_float bids asks update_kind max_depth b =
     (let depth = max 1 max_depth
      in if update_kind = SNAPSHOT
         then b\<lparr>lb_raw_checksum_bids := sanitize_raw_checksum_side to_float bids True depth,
                lb_raw_checksum_asks := sanitize_raw_checksum_side to_float asks False depth\<rparr>
         else b\<lparr>lb_raw_checksum_bids :=
                  merge_raw_checksum_side to_float (lb_raw_checksum_bids b) bids True depth,
                lb_raw_checksum_asks :=
                  merge_raw_checksum_side to_float (lb_raw_checksum_asks b) asks False depth\<rparr>)"

definition raw_part :: "raw_level list \<Rightarrow> nat \<Rightarrow> string list" where
  "raw_part levels i =
     (if i < length levels
      then (case levels ! i of (_, _, price_text, quantity_text) \<Rightarrow> [price_text @ '':'' @ quantity_text])
      else [])"

fun join_colon :: "string list \<Rightarrow> string" where
  "join_colon [] = []"
| "join_colon [s] = s"
| "join_colon (s # t # ss) = s @ '':'' @ join_colon (t # ss)"

definition compute_raw_checksum :: "(string \<Rightarrow> int) \<Rightarrow> local_l2_book \<Rightarrow> int" where
  "compute_raw_checksum crc32 b =
     (if lb_raw_checksum_bids b = [] \<or> lb_raw_checksum_asks b = [] then 0
      else
        let parts = concat (map (\<lambda>i. raw_part (lb_raw_checksum_bids b) i @ raw_part (lb_raw_checksum_asks b) i) [0..<25]);
            checksum = crc32 (join_colon parts) mod 2 ^ 32
        in if checksum \<ge> 2 ^ 31 then checksum - 2 ^ 32 else checksum)"

definition verify_raw_checksum ::
  "(string \<Rightarrow> int) \<Rightarrow> int \<Rightarrow> int \<Rightarrow> local_l2_book \<Rightarrow> local_l2_update_result" where
  "verify_raw_checksum crc32 expected now b =
     (let actual = compute_raw_checksum crc32 b
      in if actual \<noteq> 0 \<and> expected \<noteq> 0 \<and> actual \<noteq> expected
         then \<lparr>ur_applied = True,
               ur_events = [(make_event b CHECKSUM_MISMATCH now (lb_sequence b))
                              \<lparr>ev_detail := Checksum_Detail expected actual\<rparr>],
               ur_fault_reason = Checksum_Detail expected actual, ur_rebuild_required = False\<rparr>
         else \<lparr>ur_applied = True, ur_events = [], ur_fault_reason = No_Text,
               ur_rebuild_required = False\<rparr>)"

section \<open>Age and readiness\<close>

definition is_stale :: "int \<Rightarrow> int \<Rightarrow> local_l2_book \<Rightarrow> bool" where
  "is_stale max_age_ms now b \<longleftrightarrow>
     (if lb_observed_at_ms b \<le> 0 then True else now - lb_observed_at_ms b > max_age_ms)"

definition is_healthy :: "local_l2_book \<Rightarrow> bool" where
  "is_healthy b \<longleftrightarrow> lb_status b \<in> {HOT, BOOTSTRAPPING}"

definition is_ready :: "int \<Rightarrow> int \<Rightarrow> local_l2_book \<Rightarrow> bool" where
  "is_ready max_age_ms now b \<longleftrightarrow> lb_status b = HOT \<and> \<not> is_stale max_age_ms now b"

fun valid_levels :: "bool \<Rightarrow> real option \<Rightarrow> price_level list \<Rightarrow> bool" where
  "valid_levels descending previous [] = True"
| "valid_levels descending previous (lvl # ls) =
     (if pl_price lvl \<le> 0 \<or> pl_quantity lvl \<le> 0 then False
      else if (case previous of
                 None \<Rightarrow> False
               | Some p \<Rightarrow> \<not> (if descending then p > pl_price lvl else p < pl_price lvl))
      then False
      else valid_levels descending (Some (pl_price lvl)) ls)"

definition valid_side :: "bool \<Rightarrow> price_level list \<Rightarrow> bool" where
  "valid_side descending levels \<longleftrightarrow> levels \<noteq> [] \<and> valid_levels descending None levels"

definition has_valid_execution_structure :: "local_l2_book \<Rightarrow> bool" where
  "has_valid_execution_structure b \<longleftrightarrow>
     valid_side True (lb_bids b) \<and> valid_side False (lb_asks b) \<and> best_bid b < best_ask b"

definition execution_snapshot_is_valid :: "int \<Rightarrow> int \<Rightarrow> local_l2_book \<Rightarrow> bool" where
  "execution_snapshot_is_valid max_age_ms now b \<longleftrightarrow>
     \<not> is_stale max_age_ms now b \<and> has_valid_execution_structure b"

definition book_age_ms :: "int \<Rightarrow> local_l2_book \<Rightarrow> int" where
  "book_age_ms now b = (if lb_observed_at_ms b \<le> 0 then 0 else now - lb_observed_at_ms b)"

definition check_stall :: "int \<Rightarrow> local_l2_book \<Rightarrow> bool" where
  "check_stall now b \<longleftrightarrow>
     (if lb_observed_at_ms b = 0 then False else now - lb_observed_at_ms b > lb_stall_timeout_ms b)"

definition resume_waiting_remaining_ms :: "int \<Rightarrow> local_l2_book \<Rightarrow> int" where
  "resume_waiting_remaining_ms now b =
     (if lb_resume_waiting_until_ms b \<le> 0 then 0 else max 0 (lb_resume_waiting_until_ms b - now))"

section \<open>Life cycle\<close>

definition transition_to_bootstrapping :: "int \<Rightarrow> local_l2_book \<Rightarrow> local_l2_book" where
  "transition_to_bootstrapping now b =
     (if lb_status b \<in> {COLD, REBUILDING, RESUME_WAITING}
      then b\<lparr>lb_status := BOOTSTRAPPING, lb_bootstrap_started_ms := now\<rparr> else b)"

definition transition_to_hot :: "local_l2_book \<Rightarrow> local_l2_book" where
  "transition_to_hot b =
     (if lb_status b \<in> {BOOTSTRAPPING, REBUILDING, DEGRADED, RESUME_WAITING}
      then b\<lparr>lb_status := HOT, lb_fault_reason := []\<rparr> else b)"

definition transition_to_degraded :: "string \<Rightarrow> local_l2_book \<Rightarrow> local_l2_book" where
  "transition_to_degraded error b =
     (let b = b\<lparr>lb_status := DEGRADED, lb_degrade_count := lb_degrade_count b + 1,
                lb_last_error := error, lb_fault_reason := error\<rparr>
      in if lb_degrade_count b \<ge> lb_max_consecutive_degradations b
         then b\<lparr>lb_status := SUSPENDED\<rparr> else b)"

definition transition_to_rebuilding :: "local_l2_book \<Rightarrow> local_l2_book" where
  "transition_to_rebuilding b =
     (if lb_status b \<in> {DEGRADED, SUSPENDED, HOT, BOOTSTRAPPING}
      then b\<lparr>lb_status := REBUILDING\<rparr> else b)"

definition transition_to_suspended :: "string \<Rightarrow> local_l2_book \<Rightarrow> local_l2_book" where
  "transition_to_suspended reason b =
     (let b = b\<lparr>lb_status := SUSPENDED\<rparr>
      in if reason \<noteq> [] then b\<lparr>lb_fault_reason := reason\<rparr> else b)"

definition transition_to_resume_waiting :: "int \<Rightarrow> local_l2_book \<Rightarrow> local_l2_book" where
  "transition_to_resume_waiting until_ms b =
     b\<lparr>lb_status := RESUME_WAITING, lb_resume_waiting_until_ms := until_ms\<rparr>"

section \<open>Pools\<close>

fun promote_loop ::
  "int \<Rightarrow> int \<Rightarrow> int \<Rightarrow> (string, local_l2_book) dict \<Rightarrow> int \<times> (string, local_l2_book) dict" where
  "promote_loop max_hot hot_count promoted [] = (promoted, [])"
| "promote_loop max_hot hot_count promoted ((k, book) # books) =
     (if hot_count \<ge> max_hot then (promoted, (k, book) # books)
      else if lb_pool book = WARM \<and> lb_status book = HOT
      then (let (n, rest) = promote_loop max_hot (hot_count + 1) (promoted + 1) books
            in (n, (k, book\<lparr>lb_pool := HOT_EXEC\<rparr>) # rest))
      else (let (n, rest) = promote_loop max_hot hot_count promoted books
            in (n, (k, book) # rest)))"

definition promote_warm_to_hot ::
  "(string, local_l2_book) dict \<Rightarrow> int \<Rightarrow> int \<times> (string, local_l2_book) dict" where
  "promote_warm_to_hot books max_hot =
     (let hot_count = int (length (filter (\<lambda>(_, b). lb_pool b = HOT_EXEC) books))
      in promote_loop max_hot hot_count 0 books)"

section \<open>Sides\<close>

text \<open>
  The two sides differ only in the key by which their levels are ordered, best first: the
  negated price for bids, the price for asks.
\<close>

abbreviation prices :: "price_level list \<Rightarrow> real list" where
  "prices ls \<equiv> map pl_price ls"

locale price_side =
  fixes key :: "real \<Rightarrow> real"
  assumes key_inj: "key x = key y \<longleftrightarrow> x = y"
begin

abbreviation ordered :: "price_level list \<Rightarrow> bool" where
  "ordered ls \<equiv> sorted_wrt (\<lambda>a b. key (pl_price a) < key (pl_price b)) ls"

lemma sort_ordered:
  assumes "distinct (prices ls)"
  shows "ordered (sort_key (\<lambda>x. key (pl_price x)) ls)"
proof -
  let ?s = "sort_key (\<lambda>x. key (pl_price x)) ls"
  have "inj_on key (set (prices ls))" by (simp add: inj_on_def key_inj)
  with assms have "distinct (map key (prices ls))" by (simp only: distinct_map)
  then have "distinct (map (\<lambda>x. key (pl_price x)) ls)" by (simp add: comp_def)
  moreover have "mset (map (\<lambda>x. key (pl_price x)) ?s) = mset (map (\<lambda>x. key (pl_price x)) ls)"
    by (simp add: mset_map)
  ultimately have "distinct (map (\<lambda>x. key (pl_price x)) ?s)" by (metis mset_eq_imp_distinct_iff)
  moreover have "sorted (map (\<lambda>x. key (pl_price x)) ?s)" by (rule sorted_sort_key)
  ultimately have "sorted_wrt (<) (map (\<lambda>x. key (pl_price x)) ?s)" by (simp add: strict_sorted_iff)
  then show ?thesis by (simp add: sorted_wrt_map)
qed

lemma ordered_take: "ordered ls \<Longrightarrow> ordered (take n ls)"
  by (rule sorted_wrt_take)

lemma ordered_distinct: "ordered ls \<Longrightarrow> distinct (prices ls)"
  by (induction ls) (auto dest: bspec)

lemma head_best: "ordered (l # ls) \<Longrightarrow> x \<in> set (l # ls) \<Longrightarrow> key (pl_price l) \<le> key (pl_price x)"
  by auto

end

interpretation bid: price_side uminus
  by unfold_locales simp

interpretation ask: price_side "\<lambda>x. x"
  by unfold_locales simp

section \<open>Levels as a map from prices to quantities\<close>

definition level_map :: "price_level list \<Rightarrow> real \<rightharpoonup> real" where
  "level_map ls = fold (\<lambda>l m. m(pl_price l \<mapsto> pl_quantity l)) ls Map.empty"

text \<open>What a delta says: zero (or less) deletes the price, anything else sets it.\<close>

definition update_levels :: "price_level list \<Rightarrow> (real \<rightharpoonup> real) \<Rightarrow> real \<rightharpoonup> real" where
  "update_levels ls m =
     fold (\<lambda>l m. if pl_quantity l \<le> 0 then m(pl_price l := None) else m(pl_price l \<mapsto> pl_quantity l)) ls m"

lemma map_of_put: "map_of (dict_put k v d) = (map_of d)(k \<mapsto> v)"
  by (rule update_conv')

lemma map_of_pop: "map_of (dict_pop k d) = (map_of d)(k := None)"
  by (rule delete_conv')

lemma map_of_fold_put:
  "map_of (fold (\<lambda>l m. dict_put (pl_price l) (pl_quantity l) m) ls d) =
     fold (\<lambda>l m. m(pl_price l \<mapsto> pl_quantity l)) ls (map_of d)"
  by (induction ls arbitrary: d) (simp_all add: map_of_put)

lemma map_of_merge: "map_of (merge_price_map existing incoming) = update_levels incoming (level_map existing)"
proof -
  have "map_of (fold (\<lambda>lvl m. if pl_quantity lvl \<le> 0 then dict_pop (pl_price lvl) m
        else dict_put (pl_price lvl) (pl_quantity lvl) m) incoming d) = update_levels incoming (map_of d)" for d
    unfolding update_levels_def
    by (induction incoming arbitrary: d) (simp_all add: map_of_put map_of_pop)
  then show ?thesis by (simp add: merge_price_map_def map_of_fold_put level_map_def)
qed

lemma distinct_merge: "distinct (map fst (merge_price_map existing incoming))"
proof -
  have put: "distinct (map fst d) \<Longrightarrow>
      distinct (map fst (fold (\<lambda>l m. dict_put (pl_price l) (pl_quantity l) m) ls d))" for ls and d :: "(real, real) dict"
    by (induction ls arbitrary: d) (simp_all add: distinct_update)
  have del: "distinct (map fst d) \<Longrightarrow>
      distinct (map fst (fold (\<lambda>lvl m. if pl_quantity lvl \<le> 0 then dict_pop (pl_price lvl) m
        else dict_put (pl_price lvl) (pl_quantity lvl) m) ls d))" for ls and d :: "(real, real) dict"
    by (induction ls arbitrary: d) (simp_all add: distinct_update distinct_delete)
  show ?thesis unfolding merge_price_map_def by (intro del put) simp
qed

lemma level_map_append:
  "fold (\<lambda>l m. m(pl_price l \<mapsto> pl_quantity l)) ls m p =
     (case level_map ls p of None \<Rightarrow> m p | Some q \<Rightarrow> Some q)"
proof (induction ls arbitrary: m rule: rev_induct)
  case Nil
  then show ?case by (simp add: level_map_def)
next
  case (snoc l ls)
  then show ?case by (simp add: level_map_def)
qed

lemma level_map_Some_iff:
  "distinct (prices ls) \<Longrightarrow>
     level_map ls p = Some q \<longleftrightarrow> (\<exists>l\<in>set ls. pl_price l = p \<and> pl_quantity l = q)"
proof (induction ls rule: rev_induct)
  case Nil
  then show ?case by (simp add: level_map_def)
next
  case (snoc l ls)
  then show ?case by (auto simp: level_map_def image_iff)
qed

lemma level_map_mset:
  assumes "mset ls = mset ls'" and "distinct (prices ls)"
  shows "level_map ls = level_map ls'"
proof
  fix p
  have "mset (prices ls) = mset (prices ls')" using assms(1) by (metis mset_map)
  with assms(2) have "distinct (prices ls')" by (metis mset_eq_imp_distinct_iff)
  moreover have "set ls = set ls'" using assms(1) by (rule mset_eq_setD)
  ultimately show "level_map ls p = level_map ls' p"
    using level_map_Some_iff [OF assms(2), of p] level_map_Some_iff [of ls' p] by (metis option.exhaust)
qed

section \<open>Merging\<close>

definition side_key :: "side \<Rightarrow> real \<Rightarrow> real" where
  "side_key s = (case s of Bid_Side \<Rightarrow> uminus | Ask_Side \<Rightarrow> (\<lambda>x. x))"

interpretation any_side: price_side "side_key s" for s
  by unfold_locales (simp add: side_key_def split: side.split)

abbreviation side_ordered :: "side \<Rightarrow> price_level list \<Rightarrow> bool" where
  "side_ordered s ls \<equiv> sorted_wrt (\<lambda>a b. side_key s (pl_price a) < side_key s (pl_price b)) ls"

definition as_levels :: "(real, real) dict \<Rightarrow> price_level list" where
  "as_levels = map (\<lambda>(p, q). \<lparr>pl_price = p, pl_quantity = q\<rparr>)"

lemma prices_as_levels [simp]: "prices (as_levels d) = map fst d"
  by (simp add: as_levels_def comp_def case_prod_beta')

lemma set_as_levels: "l \<in> set (as_levels d) \<longleftrightarrow> (pl_price l, pl_quantity l) \<in> set d"
  by (cases l) (force simp: as_levels_def image_iff)

lemma level_map_as_levels: "distinct (map fst d) \<Longrightarrow> level_map (as_levels d) = map_of d"
proof
  fix p assume d: "distinct (map fst d)"
  have "level_map (as_levels d) p = Some q \<longleftrightarrow> map_of d p = Some q" for q
  proof -
    have "(\<exists>l\<in>set (as_levels d). pl_price l = p \<and> pl_quantity l = q) \<longleftrightarrow> (p, q) \<in> set d"
      by (auto simp: set_as_levels intro!: bexI [of _ "\<lparr>pl_price = p, pl_quantity = q\<rparr>"])
    with d show ?thesis by (simp add: level_map_Some_iff)
  qed
  then show "level_map (as_levels d) p = map_of d p" by (metis option.exhaust)
qed

lemma merge_levels_full:
  "merge_levels existing incoming s d =
     (let full = sort_key (\<lambda>x. side_key s (pl_price x)) (as_levels (merge_price_map existing incoming))
      in if d > 0 then take (nat d) full else full)"
  by (cases s) (simp_all add: merge_levels_def as_levels_def Let_def sort_bids_def sort_asks_def side_key_def)

lemma merge_levels_take: "0 < d \<Longrightarrow> merge_levels existing incoming s d = take (nat d) (merge_levels existing incoming s 0)"
  by (simp add: merge_levels_full Let_def)

lemma merge_levels_ordered: "side_ordered s (merge_levels existing incoming s d)"
  using any_side.sort_ordered [of "as_levels (merge_price_map existing incoming)" s] distinct_merge
  by (simp add: merge_levels_full Let_def sorted_wrt_take)

lemma merge_levels_map: "level_map (merge_levels existing incoming s 0) = update_levels incoming (level_map existing)"
proof -
  let ?m = "merge_price_map existing incoming"
  have "distinct (prices (sort_key (\<lambda>x. side_key s (pl_price x)) (as_levels ?m)))"
    by (rule any_side.ordered_distinct, rule any_side.sort_ordered) (simp add: distinct_merge)
  then have "level_map (merge_levels existing incoming s 0) = level_map (as_levels ?m)"
    unfolding merge_levels_full Let_def by (simp add: level_map_mset)
  then show ?thesis by (simp add: level_map_as_levels distinct_merge map_of_merge)
qed

lemma merge_levels_set:
  "set (merge_levels existing incoming s d) \<subseteq> set (merge_levels existing incoming s 0)"
  by (auto simp: merge_levels_full Let_def dest: in_set_takeD)

lemma fold_level_map_from:
  "fold (\<lambda>l m. m(pl_price l \<mapsto> pl_quantity l)) ls m p = Some q \<Longrightarrow>
     m p = Some q \<or> (\<exists>l\<in>set ls. pl_price l = p \<and> pl_quantity l = q)"
  by (induction ls arbitrary: m) (simp, fastforce split: if_splits)

lemma update_levels_from:
  "update_levels ls m p = Some q \<Longrightarrow>
     m p = Some q \<or> (\<exists>l\<in>set ls. pl_price l = p \<and> pl_quantity l = q \<and> 0 < q)"
  unfolding update_levels_def
  by (induction ls arbitrary: m) (fastforce split: if_splits)+

lemma merge_levels_from:
  assumes "l \<in> set (merge_levels existing incoming s d)"
  shows "(\<exists>e\<in>set existing. pl_price e = pl_price l \<and> pl_quantity e = pl_quantity l) \<or>
     (\<exists>i\<in>set incoming. pl_price i = pl_price l \<and> pl_quantity i = pl_quantity l \<and> 0 < pl_quantity l)"
proof -
  have l: "l \<in> set (merge_levels existing incoming s 0)" using assms merge_levels_set by blast
  have "distinct (prices (merge_levels existing incoming s 0))"
    by (rule any_side.ordered_distinct, rule merge_levels_ordered)
  with l have "level_map (merge_levels existing incoming s 0) (pl_price l) = Some (pl_quantity l)"
    by (auto simp: level_map_Some_iff)
  then have "update_levels incoming (level_map existing) (pl_price l) = Some (pl_quantity l)"
    by (simp add: merge_levels_map)
  then show ?thesis
    using update_levels_from [of incoming "level_map existing" "pl_price l" "pl_quantity l"]
      fold_level_map_from [of existing Map.empty "pl_price l" "pl_quantity l"]
    by (auto simp: level_map_def)
qed

section \<open>Valid sides and books\<close>

lemma valid_levels_iff:
  "valid_levels d prev ls \<longleftrightarrow>
     (\<forall>l\<in>set ls. 0 < pl_price l \<and> 0 < pl_quantity l) \<and>
     sorted_wrt (\<lambda>a b. if d then pl_price b < pl_price a else pl_price a < pl_price b) ls \<and>
     (case prev of None \<Rightarrow> True
      | Some p \<Rightarrow> (\<forall>l\<in>set ls. if d then pl_price l < p else p < pl_price l))"
proof (induction ls arbitrary: prev)
  case Nil
  then show ?case by (simp split: option.split)
next
  case (Cons l ls)
  show ?case
    using Cons.IH [of "Some (pl_price l)"] by (cases d) (auto split: option.splits dest: order.strict_trans)
qed

lemma valid_side_bid:
  "valid_side True ls \<longleftrightarrow> ls \<noteq> [] \<and> side_ordered Bid_Side ls \<and> (\<forall>l\<in>set ls. 0 < pl_price l \<and> 0 < pl_quantity l)"
  by (auto simp: valid_side_def valid_levels_iff side_key_def)

lemma valid_side_ask:
  "valid_side False ls \<longleftrightarrow> ls \<noteq> [] \<and> side_ordered Ask_Side ls \<and> (\<forall>l\<in>set ls. 0 < pl_price l \<and> 0 < pl_quantity l)"
  by (auto simp: valid_side_def valid_levels_iff side_key_def)

definition levels_ok :: "price_level list \<Rightarrow> bool" where
  "levels_ok ls \<longleftrightarrow> (\<forall>l\<in>set ls. 0 < pl_price l \<and> 0 < pl_quantity l)"

definition snapshot_side_ok :: "price_level list \<Rightarrow> bool" where
  "snapshot_side_ok ls \<longleftrightarrow> levels_ok ls \<and> distinct (prices ls)"

definition book_ok :: "local_l2_book \<Rightarrow> bool" where
  "book_ok b \<longleftrightarrow> lb_bids b = [] \<and> lb_asks b = [] \<or> has_valid_execution_structure b"

lemma book_ok_sides:
  assumes "book_ok b"
  shows "levels_ok (lb_bids b)" and "levels_ok (lb_asks b)"
  using assms
  by (auto simp: book_ok_def has_valid_execution_structure_def valid_side_bid valid_side_ask levels_ok_def)

lemma no_fault_iff:
  "book_structure_fault bids asks = No_Text \<longleftrightarrow>
     bids \<noteq> [] \<and> asks \<noteq> [] \<and> 0 < pl_price (hd bids) \<and> 0 < pl_price (hd asks) \<and> pl_price (hd bids) < pl_price (hd asks)"
  by (cases bids; cases asks) (auto simp: book_structure_fault_def Let_def)

lemma no_fault_valid:
  assumes "book_structure_fault bids asks = No_Text"
    and "side_ordered Bid_Side bids" and "side_ordered Ask_Side asks" and "levels_ok bids" and "levels_ok asks"
    and "lb_bids b = bids" and "lb_asks b = asks"
  shows "has_valid_execution_structure b"
  using assms
  by (auto simp: no_fault_iff has_valid_execution_structure_def valid_side_bid valid_side_ask levels_ok_def
      best_bid_def best_ask_def split: list.split)

lemma merge_levels_ok:
  assumes "levels_ok existing" and "\<forall>l\<in>set incoming. 0 < pl_price l"
  shows "levels_ok (merge_levels existing incoming s d)"
  unfolding levels_ok_def
proof
  fix l assume "l \<in> set (merge_levels existing incoming s d)"
  from merge_levels_from [OF this] assms show "0 < pl_price l \<and> 0 < pl_quantity l"
    unfolding levels_ok_def by metis
qed

lemma sort_bids_key: "sort_bids ls = sort_key (\<lambda>x. side_key Bid_Side (pl_price x)) ls"
  by (simp add: sort_bids_def side_key_def)

lemma sort_asks_key: "sort_asks ls = sort_key (\<lambda>x. side_key Ask_Side (pl_price x)) ls"
  by (simp add: sort_asks_def side_key_def)

lemma snapshot_side:
  assumes "snapshot_side_ok ls"
  shows "side_ordered Bid_Side (sort_bids ls)" and "side_ordered Ask_Side (sort_asks ls)"
    and "levels_ok (take n (sort_bids ls))" and "levels_ok (take n (sort_asks ls))"
    and "levels_ok (sort_bids ls)" and "levels_ok (sort_asks ls)"
  using assms
  by (auto simp: snapshot_side_ok_def levels_ok_def sort_bids_key sort_asks_key any_side.sort_ordered
      dest: in_set_takeD)

section \<open>Outcomes of updates\<close>

lemma apply_snapshot_cases:
  assumes "apply_snapshot bids asks sequence checksum now max_depth b = (r, b')"
  obtains (rejected) "\<not> ur_applied r" "b' = b" "ur_rebuild_required r"
  | (applied) nb na where "ur_applied r" "book_structure_fault nb na = No_Text"
      "nb = (let depth = (if max_depth \<noteq> 0 then max_depth else lb_max_depth b)
             in if depth > 0 then take (nat depth) (sort_bids bids) else sort_bids bids)"
      "na = (let depth = (if max_depth \<noteq> 0 then max_depth else lb_max_depth b)
             in if depth > 0 then take (nat depth) (sort_asks asks) else sort_asks asks)"
      "b' = b\<lparr>lb_bids := nb, lb_asks := na, lb_sequence := sequence,
              lb_last_update_id := (if sequence > 0 then sequence else lb_last_update_id b),
              lb_checksum := checksum, lb_last_snapshot_ms := now, lb_observed_at_ms := now\<rparr>"
proof -
  let ?depth = "if max_depth \<noteq> 0 then max_depth else lb_max_depth b"
  let ?nb = "if ?depth > 0 then take (nat ?depth) (sort_bids bids) else sort_bids bids"
  let ?na = "if ?depth > 0 then take (nat ?depth) (sort_asks asks) else sort_asks asks"
  show thesis
  proof (cases "book_structure_fault ?nb ?na = No_Text")
    case True
    from assms have "ur_applied r" "b' = b\<lparr>lb_bids := ?nb, lb_asks := ?na, lb_sequence := sequence,
              lb_last_update_id := (if sequence > 0 then sequence else lb_last_update_id b),
              lb_checksum := checksum, lb_last_snapshot_ms := now, lb_observed_at_ms := now\<rparr>"
      using True by (auto simp: apply_snapshot_def Let_def)
    then show thesis using True by (intro applied [of ?nb ?na]) (simp_all add: Let_def)
  next
    case False
    with assms show thesis by (intro rejected) (auto simp: apply_snapshot_def Let_def)
  qed
qed

definition delta_depth :: "int \<Rightarrow> local_l2_book \<Rightarrow> int" where
  "delta_depth max_depth b = (if max_depth \<noteq> 0 then max_depth else lb_max_depth b)"

text \<open>The sequence checks of a delta, as one condition.\<close>

definition delta_in_sequence :: "int \<Rightarrow> int \<Rightarrow> local_l2_book \<Rightarrow> bool" where
  "delta_in_sequence sequence prev b \<longleftrightarrow>
     lb_sequence b \<le> 0 \<or> prev = lb_sequence b \<or>
     (if prev > 0
      then (sequence \<le> 0 \<or> lb_sequence b < sequence) \<and> lb_sequence b < prev \<and>
           prev - lb_sequence b \<le> lb_max_sequence_gap b
      else sequence \<le> 0 \<or> lb_sequence b < sequence)"

definition delta_valid :: "price_level list \<Rightarrow> price_level list \<Rightarrow> int \<Rightarrow> local_l2_book \<Rightarrow> bool" where
  "delta_valid bids asks max_depth b \<longleftrightarrow>
     book_structure_fault (merge_levels (lb_bids b) bids Bid_Side (delta_depth max_depth b))
       (merge_levels (lb_asks b) asks Ask_Side (delta_depth max_depth b)) = No_Text"

definition delta_result :: "price_level list \<Rightarrow> price_level list \<Rightarrow> int \<Rightarrow> int \<Rightarrow> int \<Rightarrow> local_l2_book \<Rightarrow> local_l2_book" where
  "delta_result bids asks sequence now max_depth b =
     b\<lparr>lb_bids := merge_levels (lb_bids b) bids Bid_Side (delta_depth max_depth b),
       lb_asks := merge_levels (lb_asks b) asks Ask_Side (delta_depth max_depth b),
       lb_sequence := sequence,
       lb_last_update_id := (if sequence > 0 then sequence else lb_last_update_id b),
       lb_last_delta_ms := now, lb_observed_at_ms := now\<rparr>"

lemma merge_delta_outcome:
  "ur_applied (fst (merge_delta bids asks sequence now max_depth evs b)) = delta_valid bids asks max_depth b"
  "snd (merge_delta bids asks sequence now max_depth evs b) =
     (if delta_valid bids asks max_depth b then delta_result bids asks sequence now max_depth b else b)"
  "ur_rebuild_required (fst (merge_delta bids asks sequence now max_depth evs b)) =
     (\<not> delta_valid bids asks max_depth b)"
  unfolding merge_delta_def delta_valid_def delta_result_def delta_depth_def Let_def
  by (simp_all add: not_applied_def)

lemma apply_delta_outcome:
  "ur_applied (fst (apply_delta bids asks sequence prev now max_depth b)) =
     (delta_in_sequence sequence prev b \<and> delta_valid bids asks max_depth b)"
  "snd (apply_delta bids asks sequence prev now max_depth b) =
     (if delta_in_sequence sequence prev b \<and> delta_valid bids asks max_depth b
      then delta_result bids asks sequence now max_depth b else b)"
  "ur_rebuild_required (fst (apply_delta bids asks sequence prev now max_depth b)) =
     (if delta_in_sequence sequence prev b then \<not> delta_valid bids asks max_depth b
      else (sequence \<le> 0 \<or> lb_sequence b < sequence) \<and> lb_sequence b < prev)"
  unfolding apply_delta_def delta_in_sequence_def Let_def
  by (auto simp: merge_delta_outcome not_applied_def)

section \<open>Runs of book operations\<close>

datatype book_op =
    Snapshot "price_level list" "price_level list" int int int int
  | Delta "price_level list" "price_level list" int int int int
  | Raw_Update "(string \<Rightarrow> real option)" "raw_update list" "raw_update list" local_l2_update_kind int
  | Clear int
  | To_Bootstrapping int
  | To_Hot
  | To_Degraded string
  | To_Rebuilding
  | To_Suspended string
  | To_Resume_Waiting int

fun book_step :: "local_l2_book \<Rightarrow> book_op \<Rightarrow> local_l2_book" where
  "book_step b (Snapshot bids asks sequence checksum now depth) =
     snd (apply_snapshot bids asks sequence checksum now depth b)"
| "book_step b (Delta bids asks sequence prev now depth) = snd (apply_delta bids asks sequence prev now depth b)"
| "book_step b (Raw_Update to_float bids asks kind depth) = apply_raw_checksum_update to_float bids asks kind depth b"
| "book_step b (Clear now) = snd (clear_book now b)"
| "book_step b (To_Bootstrapping now) = transition_to_bootstrapping now b"
| "book_step b To_Hot = transition_to_hot b"
| "book_step b (To_Degraded error) = transition_to_degraded error b"
| "book_step b To_Rebuilding = transition_to_rebuilding b"
| "book_step b (To_Suspended reason) = transition_to_suspended reason b"
| "book_step b (To_Resume_Waiting until) = transition_to_resume_waiting until b"

text \<open>What an exchange sends: positive prices, a snapshot with distinct prices and positive sizes.\<close>

fun book_op_ok :: "book_op \<Rightarrow> bool" where
  "book_op_ok (Snapshot bids asks _ _ _ _) \<longleftrightarrow> snapshot_side_ok bids \<and> snapshot_side_ok asks"
| "book_op_ok (Delta bids asks _ _ _ _) \<longleftrightarrow>
     list_all (\<lambda>l. 0 < pl_price l) bids \<and> list_all (\<lambda>l. 0 < pl_price l) asks"
| "book_op_ok _ \<longleftrightarrow> True"

lemma book_ok_cong: "lb_bids b' = lb_bids b \<Longrightarrow> lb_asks b' = lb_asks b \<Longrightarrow> book_ok b' = book_ok b"
  by (simp add: book_ok_def has_valid_execution_structure_def best_bid_def best_ask_def)

lemma transitions_keep_sides [frame_simps]:
  "lb_bids (transition_to_bootstrapping now b) = lb_bids b" "lb_asks (transition_to_bootstrapping now b) = lb_asks b"
  "lb_bids (transition_to_hot b) = lb_bids b" "lb_asks (transition_to_hot b) = lb_asks b"
  "lb_bids (transition_to_degraded err b) = lb_bids b" "lb_asks (transition_to_degraded err b) = lb_asks b"
  "lb_bids (transition_to_rebuilding b) = lb_bids b" "lb_asks (transition_to_rebuilding b) = lb_asks b"
  "lb_bids (transition_to_suspended reason b) = lb_bids b" "lb_asks (transition_to_suspended reason b) = lb_asks b"
  "lb_bids (transition_to_resume_waiting until b) = lb_bids b" "lb_asks (transition_to_resume_waiting until b) = lb_asks b"
  "lb_bids (apply_raw_checksum_update to_float bs as kind depth b) = lb_bids b"
  "lb_asks (apply_raw_checksum_update to_float bs as kind depth b) = lb_asks b"
  by (simp_all add: transition_to_bootstrapping_def transition_to_hot_def transition_to_degraded_def
      transition_to_rebuilding_def transition_to_suspended_def transition_to_resume_waiting_def
      apply_raw_checksum_update_def Let_def)

lemma book_ok_snapshot:
  assumes b: "book_ok b" and ok: "snapshot_side_ok bids" "snapshot_side_ok asks"
  shows "book_ok (snd (apply_snapshot bids asks sequence checksum now depth b))"
proof (cases "apply_snapshot bids asks sequence checksum now depth b")
  case (Pair r b')
  then show ?thesis
  proof (cases rule: apply_snapshot_cases)
    case rejected
    with b Pair show ?thesis by simp
  next
    case (applied nb na)
    have "side_ordered Bid_Side nb" "side_ordered Ask_Side na" "levels_ok nb" "levels_ok na"
      using snapshot_side [OF ok(1)] snapshot_side [OF ok(2)]
      by (simp_all add: applied(3,4) Let_def sorted_wrt_take)
    then have "has_valid_execution_structure b'"
      using no_fault_valid [OF applied(2), of b'] applied(5) by simp
    with Pair show ?thesis by (simp add: book_ok_def)
  qed
qed

lemma book_ok_delta:
  assumes b: "book_ok b" and ok: "\<forall>l\<in>set bids. 0 < pl_price l" "\<forall>l\<in>set asks. 0 < pl_price l"
  shows "book_ok (snd (apply_delta bids asks sequence prev now depth b))"
proof (cases "delta_in_sequence sequence prev b \<and> delta_valid bids asks depth b")
  case False
  then have "snd (apply_delta bids asks sequence prev now depth b) = b"
    by (simp only: apply_delta_outcome if_False)
  with b show ?thesis by simp
next
  case True
  have "has_valid_execution_structure (delta_result bids asks sequence now depth b)"
    using True [unfolded delta_valid_def] merge_levels_ordered merge_levels_ok book_ok_sides [OF b] ok
    by (intro no_fault_valid) (auto simp: delta_result_def)
  with True show ?thesis by (simp add: apply_delta_outcome book_ok_def)
qed

lemma book_step_ok: "book_ok b \<Longrightarrow> book_op_ok x \<Longrightarrow> book_ok (book_step b x)"
proof (cases x)
  case (Clear now)
  then show ?thesis by (simp add: clear_book_def Let_def book_ok_def)
qed (auto simp: book_ok_snapshot book_ok_delta list_all_iff frame_simps cong: book_ok_cong
       intro: book_ok_cong [THEN iffD2])

interpretation book: event_system book_step book_ok "\<lambda>_. book_op_ok"
  by unfold_locales (rule book_step_ok)

lemma book_ok_new: "book_ok (new_book venue symbol)"
  by (simp add: book_ok_def new_book_def)

section \<open>Replaying linked deltas\<close>

record l2_delta =
  dl_bids :: "price_level list"
  dl_asks :: "price_level list"
  dl_sequence :: int
  dl_previous :: int
  dl_now :: int

text \<open>Feed deltas, keeping those that were applied.\<close>

fun replay :: "l2_delta list \<Rightarrow> local_l2_book \<Rightarrow> l2_delta list \<times> local_l2_book" where
  "replay [] b = ([], b)"
| "replay (d # ds) b =
     (let (r, b) = apply_delta (dl_bids d) (dl_asks d) (dl_sequence d) (dl_previous d) (dl_now d) 0 b;
          (applied, b) = replay ds b
      in (if ur_applied r then d # applied else applied, b))"

fun linked :: "int \<Rightarrow> l2_delta list \<Rightarrow> bool" where
  "linked s [] = True"
| "linked s (d # ds) = (dl_previous d = s \<and> linked (dl_sequence d) ds)"

definition last_sequence :: "int \<Rightarrow> l2_delta list \<Rightarrow> int" where
  "last_sequence s ds = (if ds = [] then s else dl_sequence (last ds))"

definition strict_book :: "local_l2_book \<Rightarrow> bool" where
  "strict_book b \<longleftrightarrow> 0 < lb_sequence b \<and> lb_max_sequence_gap b \<le> 0 \<and> lb_max_depth b = 0"

lemma replay_content:
  assumes "strict_book b" and "\<forall>d\<in>set ds. 0 < dl_sequence d \<and> 0 < dl_previous d"
  shows "linked (lb_sequence b) (fst (replay ds b)) \<and>
     lb_sequence (snd (replay ds b)) = last_sequence (lb_sequence b) (fst (replay ds b)) \<and>
     level_map (lb_bids (snd (replay ds b))) =
       fold (\<lambda>d. update_levels (dl_bids d)) (fst (replay ds b)) (level_map (lb_bids b)) \<and>
     level_map (lb_asks (snd (replay ds b))) =
       fold (\<lambda>d. update_levels (dl_asks d)) (fst (replay ds b)) (level_map (lb_asks b))"
  using assms
proof (induction ds arbitrary: b)
  case Nil
  then show ?case by (simp add: last_sequence_def)
next
  case (Cons d ds)
  let ?step = "apply_delta (dl_bids d) (dl_asks d) (dl_sequence d) (dl_previous d) (dl_now d) 0 b"
  note outcome = apply_delta_outcome [of "dl_bids d" "dl_asks d" "dl_sequence d" "dl_previous d" "dl_now d" 0 b]
  show ?case
  proof (cases "ur_applied (fst ?step)")
    case False
    then have "snd ?step = b" using outcome by (metis (full_types))
    with False Cons show ?thesis by (simp add: case_prod_beta' Let_def)
  next
    case True
    then have seq: "delta_in_sequence (dl_sequence d) (dl_previous d) b"
      and b': "snd ?step = delta_result (dl_bids d) (dl_asks d) (dl_sequence d) (dl_now d) 0 b"
      using outcome by (metis (full_types))+
    have prev: "dl_previous d = lb_sequence b"
      using seq Cons.prems by (auto simp: delta_in_sequence_def strict_book_def)
    have strict: "strict_book (snd ?step)"
      using Cons.prems by (simp add: b' delta_result_def strict_book_def)
    have sides: "level_map (lb_bids (snd ?step)) = update_levels (dl_bids d) (level_map (lb_bids b))"
      "level_map (lb_asks (snd ?step)) = update_levels (dl_asks d) (level_map (lb_asks b))"
      "lb_sequence (snd ?step) = dl_sequence d"
      using Cons.prems by (simp_all add: b' delta_result_def strict_book_def delta_depth_def merge_levels_map)
    have "\<forall>d\<in>set ds. 0 < dl_sequence d \<and> 0 < dl_previous d" using Cons.prems(2) by simp
    from Cons.IH [OF strict this] True prev sides show ?thesis
      by (simp add: case_prod_beta' Let_def last_sequence_def)
  qed
qed

section \<open>Walking the levels\<close>

definition positive_quote :: "price_level list \<Rightarrow> real" where
  "positive_quote ls = sum_list (map (\<lambda>l. max 0 (pl_price l * pl_quantity l)) ls)"

lemma positive_quote_nonneg: "0 \<le> positive_quote ls"
  unfolding positive_quote_def by (rule sum_list_nonneg) auto

lemma walk_loop_filled:
  "filled < target \<Longrightarrow> fst (walk_loop ls target filled cost) = min target (filled + positive_quote ls)"
proof (induction ls arbitrary: filled cost)
  case Nil
  then show ?case by (simp add: positive_quote_def)
next
  case (Cons l ls)
  show ?case
  proof (cases "pl_price l * pl_quantity l \<le> 0")
    case True
    with Cons show ?thesis by (simp add: positive_quote_def Let_def max_def)
  next
    case False
    with Cons positive_quote_nonneg [of ls] show ?thesis
      by (auto simp: positive_quote_def Let_def min_def)
  qed
qed

lemma walk_loop_cost:
  assumes "\<forall>l\<in>set ls. lo \<le> pl_price l \<and> pl_price l \<le> hi"
  shows "filled < target \<Longrightarrow>
     lo * (fst (walk_loop ls target filled cost) - filled) \<le> snd (walk_loop ls target filled cost) - cost \<and>
     snd (walk_loop ls target filled cost) - cost \<le> hi * (fst (walk_loop ls target filled cost) - filled)"
  using assms
proof (induction ls arbitrary: filled cost)
  case Nil
  then show ?case by simp
next
  case (Cons l ls)
  let ?q = "pl_price l * pl_quantity l" and ?t = "min (pl_price l * pl_quantity l) (target - filled)"
  show ?case
  proof (cases "?q \<le> 0")
    case True
    with Cons show ?thesis by (simp add: Let_def)
  next
    case False
    then have t: "0 \<le> ?t" using Cons.prems(1) by simp
    have lo: "lo * ?t \<le> ?t * pl_price l" and hi: "?t * pl_price l \<le> hi * ?t"
      using mult_right_mono [OF _ t, of lo "pl_price l"] mult_right_mono [OF _ t, of "pl_price l" hi]
        Cons.prems(2) by (simp_all add: mult.commute)
    show ?thesis
    proof (cases "filled + ?t \<ge> target")
      case True
      with False lo hi show ?thesis by (simp add: Let_def)
    next
      case not: False
      let ?r = "walk_loop ls target (filled + ?t) (cost + ?t * pl_price l)"
      have "lo * (fst ?r - (filled + ?t)) \<le> snd ?r - (cost + ?t * pl_price l) \<and>
          snd ?r - (cost + ?t * pl_price l) \<le> hi * (fst ?r - (filled + ?t))"
        using not Cons.prems by (intro Cons.IH) auto
      moreover have "walk_loop (l # ls) target filled cost = ?r"
        using False not by (simp only: walk_loop.simps Let_def if_False)
      ultimately show ?thesis using lo hi by (simp add: algebra_simps)
    qed
  qed
qed

text \<open>The base quantity that the walked quote buys, and with it the average execution price.\<close>

fun walk_base :: "price_level list \<Rightarrow> real \<Rightarrow> real \<Rightarrow> real \<Rightarrow> real" where
  "walk_base [] target filled base = base"
| "walk_base (l # ls) target filled base =
     (let level_quote = pl_price l * pl_quantity l
      in if level_quote \<le> 0 then walk_base ls target filled base
         else
           let taken = min level_quote (target - filled)
           in if filled + taken \<ge> target then base + taken / pl_price l
              else walk_base ls target (filled + taken) (base + taken / pl_price l))"

lemma harmonic_step:
  fixes c :: real
  assumes "f\<^sup>2 \<le> c * d" and "0 \<le> c" and "0 \<le> d" and "0 \<le> f" and "0 < p" and "0 \<le> t"
  shows "(f + t)\<^sup>2 \<le> (c + t * p) * (d + t / p)"
proof -
  let ?s = "c / p + d * p"
  have s: "0 \<le> ?s" using assms by simp
  have "(2 * f)\<^sup>2 \<le> 4 * (c * d)" using assms(1) by (simp add: power2_eq_square)
  also have "\<dots> = 4 * ((c / p) * (d * p))" using assms(5) by simp
  also have "\<dots> \<le> ?s\<^sup>2" using zero_le_power2 [of "c / p - d * p"] by (simp add: power2_eq_square algebra_simps)
  finally have "2 * f \<le> ?s" using s by (rule power2_le_imp_le)
  then have "t * (2 * f) \<le> t * ?s" using assms(6) by (rule mult_left_mono)
  moreover have "(c + t * p) * (d + t / p) = c * d + t * ?s + t\<^sup>2"
    using assms(5) by (simp add: power2_eq_square field_simps)
  moreover have "(f + t)\<^sup>2 = f\<^sup>2 + t * (2 * f) + t\<^sup>2" by (simp add: power2_eq_square algebra_simps)
  ultimately show ?thesis using assms(1) by linarith
qed

lemma walk_base_mean:
  assumes "\<forall>l\<in>set ls. 0 < pl_price l"
  shows "filled\<^sup>2 \<le> cost * base \<Longrightarrow> 0 \<le> cost \<Longrightarrow> 0 \<le> base \<Longrightarrow> 0 \<le> filled \<Longrightarrow> filled < target \<Longrightarrow>
     (fst (walk_loop ls target filled cost))\<^sup>2 \<le> snd (walk_loop ls target filled cost) * walk_base ls target filled base"
  using assms
proof (induction ls arbitrary: filled cost base)
  case Nil
  then show ?case by simp
next
  case (Cons l ls)
  let ?q = "pl_price l * pl_quantity l" and ?t = "min (pl_price l * pl_quantity l) (target - filled)"
  have p: "0 < pl_price l" using Cons.prems by simp
  show ?case
  proof (cases "?q \<le> 0")
    case True
    with Cons show ?thesis by (simp add: Let_def)
  next
    case False
    then have t: "0 \<le> ?t" using Cons.prems by simp
    have step: "(filled + ?t)\<^sup>2 \<le> (cost + ?t * pl_price l) * (base + ?t / pl_price l)"
      using Cons.prems p t by (intro harmonic_step)
    show ?thesis
    proof (cases "filled + ?t \<ge> target")
      case True
      with False step show ?thesis by (simp add: Let_def)
    next
      case not: False
      have "0 \<le> cost + ?t * pl_price l" "0 \<le> base + ?t / pl_price l" "0 \<le> filled + ?t"
        using Cons.prems t p by simp_all
      moreover have "walk_loop (l # ls) target filled cost = walk_loop ls target (filled + ?t) (cost + ?t * pl_price l)"
        and "walk_base (l # ls) target filled base = walk_base ls target (filled + ?t) (base + ?t / pl_price l)"
        using False not by (simp_all only: walk_loop.simps walk_base.simps Let_def if_False)
      ultimately show ?thesis using Cons.IH [OF step] not Cons.prems(6) by simp
    qed
  qed
qed

section \<open>Promotion\<close>

abbreviation hot_exec_count :: "(string, local_l2_book) dict \<Rightarrow> int" where
  "hot_exec_count books \<equiv> int (length (filter (\<lambda>(_, b). lb_pool b = HOT_EXEC) books))"

definition promotable :: "local_l2_book \<Rightarrow> bool" where
  "promotable b \<longleftrightarrow> lb_pool b = WARM \<and> lb_status b = HOT"

lemma promote_loop_spec:
  "promote_loop max_hot hot promoted books = (n, books') \<Longrightarrow>
     promoted \<le> n \<and> hot_exec_count books' = hot_exec_count books + (n - promoted) \<and>
     hot + (n - promoted) \<le> max hot max_hot \<and>
     list_all2 (\<lambda>(k, b) (k', b'). k' = k \<and> (b' = b \<or> promotable b \<and> b' = b\<lparr>lb_pool := HOT_EXEC\<rparr>)) books books' \<and>
     (hot + (n - promoted) < max_hot \<longrightarrow> list_all (\<lambda>(_, b). \<not> promotable b) books')"
proof (induction max_hot hot promoted books arbitrary: n books' rule: promote_loop.induct)
  case (1 max_hot hot promoted)
  then show ?case by auto
next
  case (2 max_hot hot promoted k book books)
  show ?case
  proof (cases "hot \<ge> max_hot")
    case True
    with 2(3) show ?thesis
      by (auto simp: list_all2_same intro!: list.rel_refl)
  next
    case less: False
    show ?thesis
    proof (cases "lb_pool book = WARM \<and> lb_status book = HOT")
      case True
      obtain m rest where m: "promote_loop max_hot (hot + 1) (promoted + 1) books = (m, rest)"
        by (cases "promote_loop max_hot (hot + 1) (promoted + 1) books")
      with 2(3) less True have "n = m" "books' = (k, book\<lparr>lb_pool := HOT_EXEC\<rparr>) # rest" by simp_all
      with 2(1) [OF less True m] less True show ?thesis by (auto simp: promotable_def)
    next
      case False
      obtain m rest where m: "promote_loop max_hot hot promoted books = (m, rest)"
        by (cases "promote_loop max_hot hot promoted books")
      with 2(3) less False have "n = m" "books' = (k, book) # rest" by auto
      with 2(2) [OF less False m] less False show ?thesis by (auto simp: promotable_def)
    qed
  qed
qed

section \<open>Degradations\<close>

fun is_degrade :: "book_op \<Rightarrow> bool" where
  "is_degrade (To_Degraded _) = True"
| "is_degrade _ = False"

lemma book_step_degrade_count:
  "lb_degrade_count (book_step b x) = lb_degrade_count b + (if is_degrade x then 1 else 0) \<and>
   lb_max_consecutive_degradations (book_step b x) = lb_max_consecutive_degradations b"
proof (cases x)
  case (Snapshot bids asks sequence checksum now depth)
  then show ?thesis by (simp add: apply_snapshot_def Let_def)
next
  case (Delta bids asks sequence prev now depth)
  then show ?thesis by (simp add: apply_delta_outcome delta_result_def)
qed (simp_all add: apply_raw_checksum_update_def clear_book_def transition_to_bootstrapping_def
      transition_to_hot_def transition_to_degraded_def transition_to_rebuilding_def
      transition_to_suspended_def transition_to_resume_waiting_def Let_def)

lemma book_run_degrade_count:
  "lb_degrade_count (foldl book_step b xs) = lb_degrade_count b + int (length (filter is_degrade xs)) \<and>
   lb_max_consecutive_degradations (foldl book_step b xs) = lb_max_consecutive_degradations b"
  by (induction xs arbitrary: b) (simp_all add: book_step_degrade_count)

lemma book_step_status:
  "lb_status (book_step b x) =
     (case x of
        To_Bootstrapping _ \<Rightarrow> if lb_status b \<in> {COLD, REBUILDING, RESUME_WAITING} then BOOTSTRAPPING else lb_status b
      | To_Hot \<Rightarrow> if lb_status b \<in> {BOOTSTRAPPING, REBUILDING, DEGRADED, RESUME_WAITING} then HOT else lb_status b
      | To_Degraded _ \<Rightarrow>
          if lb_degrade_count b + 1 \<ge> lb_max_consecutive_degradations b then SUSPENDED else DEGRADED
      | To_Rebuilding \<Rightarrow> if lb_status b \<in> {DEGRADED, SUSPENDED, HOT, BOOTSTRAPPING} then REBUILDING else lb_status b
      | To_Suspended _ \<Rightarrow> SUSPENDED
      | To_Resume_Waiting _ \<Rightarrow> RESUME_WAITING
      | _ \<Rightarrow> lb_status b)"
proof (cases x)
  case (Snapshot bids asks sequence checksum now depth)
  then show ?thesis by (simp add: apply_snapshot_def Let_def)
next
  case (Delta bids asks sequence prev now depth)
  then show ?thesis by (simp add: apply_delta_outcome delta_result_def)
qed (simp_all add: apply_raw_checksum_update_def clear_book_def transition_to_bootstrapping_def
      transition_to_hot_def transition_to_degraded_def transition_to_rebuilding_def
      transition_to_suspended_def transition_to_resume_waiting_def Let_def)

section \<open>The raw book\<close>

definition raw_level_ok :: "(string \<Rightarrow> real option) \<Rightarrow> raw_level \<Rightarrow> bool" where
  "raw_level_ok to_float l \<longleftrightarrow>
     (case l of (p, q, pt, qt) \<Rightarrow> to_float pt = Some p \<and> to_float qt = Some q \<and> 0 < p \<and> 0 < q)"

lemma raw_checksum_level_ok:
  "raw_checksum_level to_float raw = Some l \<Longrightarrow> 0 < fst (snd l) \<Longrightarrow> raw_level_ok to_float l"
  by (auto simp: raw_checksum_level_def raw_level_ok_def split: list.splits option.splits if_splits)

definition raw_side_ok :: "(string \<Rightarrow> real option) \<Rightarrow> bool \<Rightarrow> raw_level list \<Rightarrow> bool" where
  "raw_side_ok to_float descending ls \<longleftrightarrow>
     (\<forall>l\<in>set ls. raw_level_ok to_float l) \<and> sorted (map (\<lambda>l. if descending then - fst l else fst l) ls)"

lemma py_slice_to_pos: "0 < d \<Longrightarrow> py_slice_to d xs = take (nat d) xs"
  by (simp add: py_slice_to_def)

lemma sort_raw_take_ok:
  assumes "\<forall>l\<in>set ls. raw_level_ok to_float l"
  shows "raw_side_ok to_float descending (take n (sort_raw descending ls))"
  using assms sorted_sort_key [of "\<lambda>l. if descending then - fst l else fst l" ls]
  by (auto simp: raw_side_ok_def sort_raw_def take_map [symmetric] sorted_wrt_take dest: in_set_takeD)

lemma sanitize_ok:
  "0 < d \<Longrightarrow> raw_side_ok to_float descending (sanitize_raw_checksum_side to_float levels descending d)"
  unfolding sanitize_raw_checksum_side_def Let_def
  by (simp only: py_slice_to_pos, rule sort_raw_take_ok)
     (auto simp: List.map_filter_def intro: raw_checksum_level_ok)

lemma snd_set_update: "snd ` set (dict_put k v d) \<subseteq> insert v (snd ` set d)"
  by (induction d) (auto split: if_splits)

lemma snd_set_delete: "snd ` set (dict_pop k d) \<subseteq> snd ` set d"
  by (auto simp: AList.delete_eq)

lemma raw_merge_values:
  assumes "\<forall>l\<in>snd ` set d. raw_level_ok to_float l"
  shows "\<forall>l\<in>snd ` set (fold (\<lambda>raw m. case raw_checksum_level to_float raw of
                       None \<Rightarrow> m
                     | Some parsed \<Rightarrow>
                         if fst (snd parsed) \<le> 0 then dict_pop (fst parsed) m
                         else dict_put (fst parsed) parsed m) raws d). raw_level_ok to_float l"
  using assms
proof (induction raws arbitrary: d)
  case Nil
  then show ?case by simp
next
  case (Cons raw raws)
  show ?case
  proof (cases "raw_checksum_level to_float raw")
    case None
    with Cons show ?thesis by simp
  next
    case (Some l)
    let ?d = "if fst (snd l) \<le> 0 then dict_pop (fst l) d else dict_put (fst l) l d"
    have "\<forall>x\<in>snd ` set ?d. raw_level_ok to_float x"
    proof (cases "fst (snd l) \<le> 0")
      case True
      then show ?thesis using Cons.prems snd_set_delete [of "fst l" d] by (simp only: if_True) blast
    next
      case False
      then have "raw_level_ok to_float l" using raw_checksum_level_ok [OF Some] by simp
      with False show ?thesis
        using Cons.prems snd_set_update [of "fst l" l d] by (simp only: if_False) blast
    qed
    from Cons.IH [OF this] Some show ?thesis by simp
  qed
qed

lemma raw_merge_existing:
  "snd ` set (fold (\<lambda>level m. dict_put (fst level) level m) existing d) \<subseteq> set existing \<union> snd ` set d"
proof (induction existing arbitrary: d)
  case Nil
  then show ?case by simp
next
  case (Cons l ls)
  from Cons.IH [of "dict_put (fst l) l d"] snd_set_update [of "fst l" l d] show ?case by auto
qed

lemma merge_raw_ok:
  assumes "0 < d" and "raw_side_ok to_float descending existing"
  shows "raw_side_ok to_float descending (merge_raw_checksum_side to_float existing incoming descending d)"
proof -
  have "\<forall>l\<in>snd ` set (fold (\<lambda>level m. dict_put (fst level) level m) existing []). raw_level_ok to_float l"
    using raw_merge_existing [of existing "[]"] assms(2) by (auto simp: raw_side_ok_def)
  from raw_merge_values [OF this, of incoming] show ?thesis
    unfolding merge_raw_checksum_side_def Let_def
    by (simp only: py_slice_to_pos [OF assms(1)]) (rule sort_raw_take_ok, simp)
qed

definition to_signed32 :: "int \<Rightarrow> int" where
  "to_signed32 x = (if x \<ge> 2 ^ 31 then x - 2 ^ 32 else x)"

lemma to_signed32_range: "- (2 ^ 31) \<le> to_signed32 (x mod 2 ^ 32) \<and> to_signed32 (x mod 2 ^ 32) < 2 ^ 31"
proof -
  have "0 \<le> x mod 4294967296" "x mod 4294967296 < 4294967296" by simp_all
  then show ?thesis by (auto simp: to_signed32_def)
qed

lemma compute_raw_checksum_range:
  "- (2 ^ 31) \<le> compute_raw_checksum crc32 b \<and> compute_raw_checksum crc32 b < 2 ^ 31"
  unfolding compute_raw_checksum_def Let_def to_signed32_def [symmetric]
  using to_signed32_range by (cases "lb_raw_checksum_bids b = [] \<or> lb_raw_checksum_asks b = []") simp_all

section \<open>Properties\<close>

text \<open>C8: The book never shows a broken structure. From a new book, after any sequence of
  snapshots, deltas, raw updates, clears and life-cycle transitions with well-formed exchange
  data, the book is either empty on both sides or passes the execution check: both sides
  non-empty, bids strictly falling, asks strictly rising, prices and quantities positive, best
  bid below best ask; in particular it is never crossed.\<close>

theorem book_never_broken:
  assumes "list_all book_op_ok xs" and "b = foldl book_step (new_book venue symbol) xs"
  shows "(lb_bids b = [] \<and> lb_asks b = [] \<or> has_valid_execution_structure b) \<and> \<not> has_crossed_book b"
proof -
  have "book_ok b" unfolding assms(2) by (rule book.run_inv [OF book_ok_new]) (use assms(1) in simp)
  then show ?thesis
    by (auto simp: book_ok_def has_crossed_book_def has_valid_execution_structure_def best_bid_def)
qed

abbreviation lvl :: "real \<Rightarrow> real \<Rightarrow> price_level" where
  "lvl p q \<equiv> \<lparr>pl_price = p, pl_quantity = q\<rparr>"

lemma book_never_broken_witness:
  "let b = foldl book_step (new_book ''x'' ''y'')
        [Snapshot [lvl 10 1, lvl 11 2] [lvl 12 1] 5 0 1 0, Delta [lvl 13 1] [] 6 5 2 0, To_Degraded ''e'']
   in (lb_bids b = [] \<and> lb_asks b = [] \<or> has_valid_execution_structure b) \<and> \<not> has_crossed_book b"
  unfolding Let_def
  by (rule book_never_broken [OF _ refl]) (simp add: snapshot_side_ok_def levels_ok_def)

text \<open>What an applied delta does to a side. Read as a map from prices to quantities, the side
  becomes the old map overridden by the delta (a quantity of zero or less deletes the price, the
  last entry for a price wins); it is stored strictly best first, and with a positive depth the
  best levels of that full merge are kept.\<close>

theorem merge_is_override:
  "level_map (merge_levels existing incoming s 0) = update_levels incoming (level_map existing) \<and>
   sorted_wrt (\<lambda>a b. if s = Bid_Side then pl_price b < pl_price a else pl_price a < pl_price b)
     (merge_levels existing incoming s d) \<and>
   merge_levels existing incoming s d =
     (if 0 < d then take (nat d) (merge_levels existing incoming s 0) else merge_levels existing incoming s 0)"
proof -
  have "sorted_wrt (\<lambda>a b. if s = Bid_Side then pl_price b < pl_price a else pl_price a < pl_price b)
     (merge_levels existing incoming s d)"
    using merge_levels_ordered [of s existing incoming d] by (cases s) (simp_all add: side_key_def)
  moreover have "merge_levels existing incoming s d = merge_levels existing incoming s 0" if "\<not> 0 < d"
    using that by (simp add: merge_levels_full)
  ultimately show ?thesis using merge_levels_take [of d existing incoming s] merge_levels_map by simp
qed

text \<open>Sequence discipline of deltas. A delta is applied exactly when it is in sequence (no
  current sequence, or linked to it, or, when newer, unlinked or within the tolerated gap) and
  the merged book is sound; otherwise the book is left untouched, and a rebuild is asked for
  exactly when a newer update shows a gap or the merged book would be broken, never for a stale
  update.\<close>

theorem delta_discipline:
  "(ur_applied (fst (apply_delta bids asks sequence prev now depth b)) \<longleftrightarrow>
      delta_in_sequence sequence prev b \<and> delta_valid bids asks depth b) \<and>
   snd (apply_delta bids asks sequence prev now depth b) =
     (if ur_applied (fst (apply_delta bids asks sequence prev now depth b))
      then delta_result bids asks sequence now depth b else b) \<and>
   (ur_rebuild_required (fst (apply_delta bids asks sequence prev now depth b)) \<longleftrightarrow>
      (if delta_in_sequence sequence prev b then \<not> delta_valid bids asks depth b
       else (sequence \<le> 0 \<or> lb_sequence b < sequence) \<and> lb_sequence b < prev))"
  using apply_delta_outcome [of bids asks sequence prev now depth b] by simp

text \<open>C22: Replay under strict continuity. From a synchronised book without depth limit, feeding
  any stream of numbered, linked deltas applies a subsequence in which each delta links to the
  one before it, and the book is then exactly the starting book overridden by those deltas in
  order; everything else in the stream leaves no trace.\<close>

theorem replay_is_linked_override:
  assumes "strict_book b" and "\<forall>d\<in>set ds. 0 < dl_sequence d \<and> 0 < dl_previous d"
    and "replay ds b = (applied, b')"
  shows "linked (lb_sequence b) applied \<and> lb_sequence b' = last_sequence (lb_sequence b) applied \<and>
     level_map (lb_bids b') = fold (\<lambda>d. update_levels (dl_bids d)) applied (level_map (lb_bids b)) \<and>
     level_map (lb_asks b') = fold (\<lambda>d. update_levels (dl_asks d)) applied (level_map (lb_asks b))"
  using replay_content [OF assms(1,2)] assms(3) by simp

lemma replay_is_linked_override_witness:
  "let b = (new_book ''x'' ''y'')\<lparr>lb_sequence := 7, lb_max_depth := 0, lb_bids := [lvl 10 1], lb_asks := [lvl 11 1]\<rparr>;
       ds = [\<lparr>dl_bids = [lvl 9 1], dl_asks = [], dl_sequence = 8, dl_previous = 7, dl_now = 1\<rparr>,
             \<lparr>dl_bids = [lvl 9 2], dl_asks = [], dl_sequence = 10, dl_previous = 9, dl_now = 2\<rparr>];
       (applied, b') = replay ds b
   in linked (lb_sequence b) applied \<and> lb_sequence b' = last_sequence (lb_sequence b) applied \<and>
     level_map (lb_bids b') = fold (\<lambda>d. update_levels (dl_bids d)) applied (level_map (lb_bids b)) \<and>
     level_map (lb_asks b') = fold (\<lambda>d. update_levels (dl_asks d)) applied (level_map (lb_asks b))"
  unfolding Let_def case_prod_beta'
  by (rule replay_is_linked_override [OF _ _ prod.collapse [symmetric]]) (simp_all add: strict_book_def new_book_def)

text \<open>The life cycle. A step makes a book HOT only through \<open>transition_to_hot\<close> from
  BOOTSTRAPPING, REBUILDING, DEGRADED or RESUME_WAITING; a SUSPENDED book leaves only for
  REBUILDING, RESUME_WAITING or another degradation; and degradations are counted over the whole
  life of the book, recoveries in between do not reset the count: with the default threshold the
  third one ever suspends the book, as does every later one.\<close>

theorem book_life_cycle:
  "(lb_status (book_step b x) = HOT \<longrightarrow> lb_status b = HOT \<or>
      x = To_Hot \<and> lb_status b \<in> {BOOTSTRAPPING, REBUILDING, DEGRADED, RESUME_WAITING}) \<and>
   (lb_status b = SUSPENDED \<longrightarrow> lb_status (book_step b x) \<in> {SUSPENDED, REBUILDING, RESUME_WAITING, DEGRADED}) \<and>
   lb_status (book_step (foldl book_step (new_book venue symbol) xs) (To_Degraded err)) =
     (if length (filter is_degrade xs) \<ge> 2 then SUSPENDED else DEGRADED)"
proof (intro conjI)
  show "lb_status (book_step b x) = HOT \<longrightarrow> lb_status b = HOT \<or>
      x = To_Hot \<and> lb_status b \<in> {BOOTSTRAPPING, REBUILDING, DEGRADED, RESUME_WAITING}"
    by (cases x) (auto simp: book_step_status simp del: book_step.simps split: if_splits)
  show "lb_status b = SUSPENDED \<longrightarrow> lb_status (book_step b x) \<in> {SUSPENDED, REBUILDING, RESUME_WAITING, DEGRADED}"
    by (cases x) (auto simp: book_step_status simp del: book_step.simps split: if_splits)
  show "lb_status (book_step (foldl book_step (new_book venue symbol) xs) (To_Degraded err)) =
     (if length (filter is_degrade xs) \<ge> 2 then SUSPENDED else DEGRADED)"
    using book_run_degrade_count [of "new_book venue symbol" xs]
    by (auto simp: book_step_status new_book_def simp del: book_step.simps)
qed

lemma book_life_cycle_witness:
  "lb_status (book_step (foldl book_step (new_book ''x'' ''y'') [To_Degraded ''a'', To_Hot, To_Degraded ''b'', To_Hot])
     (To_Degraded ''c'')) = SUSPENDED"
  using book_life_cycle [of "new_book ''x'' ''y''" To_Hot "''x''" "''y''"
      "[To_Degraded ''a'', To_Hot, To_Degraded ''b'', To_Hot]" "''c''"] by simp

text \<open>Walking the book. For a positive target quote and positive prices, the filled quote is
  the target or all that the levels hold, whichever is less; the price returned lies between the
  best and the worst level price, and it is never below the average execution price (quote over
  base) of the same fill.\<close>

theorem walk_levels_price:
  assumes "0 < target" and "\<forall>l\<in>set ls. 0 < pl_price l \<and> lo \<le> pl_price l \<and> pl_price l \<le> hi"
    and "walk_levels ls target = (filled, price)" and "0 < positive_quote ls"
  shows "filled = min target (positive_quote ls) \<and> lo \<le> price \<and> price \<le> hi \<and>
     filled \<le> price * walk_base ls target 0 0"
proof -
  obtain f c where fc: "walk_loop ls target 0 0 = (f, c)" by (cases "walk_loop ls target 0 0")
  have f: "f = min target (positive_quote ls)"
    using walk_loop_filled [of 0 target ls 0] assms(1) fc by simp
  have pos: "0 < f" using f assms(1,4) by simp
  have "ls \<noteq> []" using assms(4) by (auto simp: positive_quote_def)
  then have res: "filled = f" "price = c / f"
    using assms(1,3) fc pos by (auto simp: walk_levels_def)
  have "lo * f \<le> c \<and> c \<le> hi * f"
    using walk_loop_cost [of ls lo hi 0 target 0] assms(1,2) fc by simp
  moreover have "f\<^sup>2 \<le> c * walk_base ls target 0 0"
    using walk_base_mean [of ls 0 0 0 target] assms(1,2) fc by simp
  ultimately show ?thesis
    using pos f by (simp add: res field_simps power2_eq_square)
qed

lemma walk_levels_price_witness:
  "10 = min 10 (positive_quote [lvl 2 4, lvl 4 9]) \<and> (2::real) \<le> 24 / 10 \<and> (24 / 10 :: real) \<le> 4 \<and>
     10 \<le> 24 / 10 * walk_base [lvl 2 4, lvl 4 9] 10 0 0"
  by (rule walk_levels_price [of 10 "[lvl 2 4, lvl 4 9]" 2 4])
     (simp_all add: walk_levels_def Let_def positive_quote_def)

text \<open>Promotion. \<open>promote_warm_to_hot\<close> turns only WARM books with status HOT into HOT_EXEC,
  changes nothing else of any book, returns how many it turned, never brings the number of
  HOT_EXEC books above the limit (nor above what it was), and stops below the limit only when no
  candidate is left.\<close>

theorem promotion_fills_the_pool:
  assumes "promote_warm_to_hot books max_hot = (n, books')"
  shows "0 \<le> n \<and> hot_exec_count books' = hot_exec_count books + n \<and>
     hot_exec_count books' \<le> max (hot_exec_count books) max_hot \<and>
     list_all2 (\<lambda>(k, b) (k', b'). k' = k \<and> (b' = b \<or> promotable b \<and> b' = b\<lparr>lb_pool := HOT_EXEC\<rparr>)) books books' \<and>
     (hot_exec_count books' < max_hot \<longrightarrow> list_all (\<lambda>(_, b). \<not> promotable b) books')"
  using promote_loop_spec [of max_hot "hot_exec_count books" 0 books n books'] assms
  by (simp add: promote_warm_to_hot_def Let_def)

lemma promotion_fills_the_pool_witness:
  "\<exists>n books'. promote_warm_to_hot
       [(''a'', (new_book ''v'' ''a'')\<lparr>lb_pool := WARM, lb_status := HOT\<rparr>), (''b'', new_book ''v'' ''b'')] 3 = (n, books') \<and>
     n = 1 \<and> hot_exec_count books' \<le> 3"
proof -
  let ?books = "[(''a'', (new_book ''v'' ''a'')\<lparr>lb_pool := WARM, lb_status := HOT\<rparr>), (''b'', new_book ''v'' ''b'')]"
  have "promote_warm_to_hot ?books 3 =
      (1, [(''a'', (new_book ''v'' ''a'')\<lparr>lb_pool := HOT_EXEC, lb_status := HOT\<rparr>), (''b'', new_book ''v'' ''b'')])"
    by (simp add: promote_warm_to_hot_def new_book_def)
  from promotion_fills_the_pool [OF this] this show ?thesis by (simp add: new_book_def)
qed

text \<open>The raw checksum book keeps wire texts. After any update, every retained level carries
  the exchange's own price and quantity strings, which parse to its positive price and quantity,
  and each side is sorted best first; the checksum verdict is a mismatch exactly when both values
  are non-zero and differ, and the computed checksum is a signed 32-bit number.\<close>

theorem raw_checksum_book:
  assumes "raw_side_ok to_float True (lb_raw_checksum_bids b)" and "raw_side_ok to_float False (lb_raw_checksum_asks b)"
    and "b' = apply_raw_checksum_update to_float bids asks kind depth b"
  shows "raw_side_ok to_float True (lb_raw_checksum_bids b') \<and> raw_side_ok to_float False (lb_raw_checksum_asks b') \<and>
     - (2 ^ 31) \<le> compute_raw_checksum crc32 b' \<and> compute_raw_checksum crc32 b' < 2 ^ 31 \<and>
     (ur_fault_reason (verify_raw_checksum crc32 expected now b') \<noteq> No_Text \<longleftrightarrow>
        compute_raw_checksum crc32 b' \<noteq> 0 \<and> expected \<noteq> 0 \<and> compute_raw_checksum crc32 b' \<noteq> expected)"
proof -
  have signed: "- (2 ^ 31) \<le> compute_raw_checksum crc32 b' \<and> compute_raw_checksum crc32 b' < 2 ^ 31"
    by (rule compute_raw_checksum_range)
  have "ur_fault_reason (verify_raw_checksum crc32 expected now b') \<noteq> No_Text \<longleftrightarrow>
        compute_raw_checksum crc32 b' \<noteq> 0 \<and> expected \<noteq> 0 \<and> compute_raw_checksum crc32 b' \<noteq> expected"
    by (simp add: verify_raw_checksum_def Let_def)
  with signed show ?thesis
    using assms by (auto simp: apply_raw_checksum_update_def Let_def sanitize_ok merge_raw_ok)
qed

lemma raw_checksum_book_witness:
  "let f = (\<lambda>s. if s = ''1'' then Some 1 else if s = ''2'' then Some 2 else None);
       b' = apply_raw_checksum_update f [[''1'', ''2''], [''x'', ''1'']] [[''2'', ''1'']] SNAPSHOT 5 (new_book ''v'' ''s'')
   in raw_side_ok f True (lb_raw_checksum_bids b') \<and> raw_side_ok f False (lb_raw_checksum_asks b') \<and>
     - (2 ^ 31) \<le> compute_raw_checksum (\<lambda>_. 3000000000) b' \<and> compute_raw_checksum (\<lambda>_. 3000000000) b' < 2 ^ 31 \<and>
     (ur_fault_reason (verify_raw_checksum (\<lambda>_. 3000000000) 7 1 b') \<noteq> No_Text \<longleftrightarrow>
        compute_raw_checksum (\<lambda>_. 3000000000) b' \<noteq> 0 \<and> (7::int) \<noteq> 0 \<and> compute_raw_checksum (\<lambda>_. 3000000000) b' \<noteq> 7)"
  unfolding Let_def
  by (rule raw_checksum_book [OF _ _ refl, of _ "new_book ''v'' ''s''"])
     (simp_all add: raw_side_ok_def new_book_def)

end
