(* ===== verification/Liquidity.thy ===== *)
theory Liquidity
  imports L2_Book
begin

text \<open>
  \<open>lightfee/marketdata/liquidity.py\<close>: the liquidity that execution sees, taken from a local book,
  with its estimates; \<open>lightfee/marketdata/local_book.py\<close>: the queries over all local books; and
  \<open>lightfee/marketdata/freshness.py\<close>: which venues have fresh market data.
\<close>

section \<open>Execution liquidity\<close>

record liquidity_level =
  lv_price :: real
  lv_size :: real

datatype execution_liquidity_source = TRUE_L2 | TOP_BOOK | CACHED | NO_SOURCE

datatype fallback_reason = No_Reason | Book_Not_Ready l2_book_status int | Given_Reason string

record execution_liquidity =
  el_symbol :: string
  el_venue :: string
  el_bids :: "liquidity_level list"
  el_asks :: "liquidity_level list"
  el_observed_at_ms :: int
  el_source :: execution_liquidity_source
  el_fallback_reason :: fallback_reason
  el_book_ready :: bool

fun liquidity_walk_loop :: "liquidity_level list \<Rightarrow> real \<Rightarrow> real \<Rightarrow> real \<Rightarrow> real \<times> real" where
  "liquidity_walk_loop [] target filled cost = (filled, cost)"
| "liquidity_walk_loop (level # ls) target filled cost =
     (let level_quote = lv_price level * lv_size level
      in if level_quote \<le> 0 then liquidity_walk_loop ls target filled cost
         else
           let taken = min level_quote (target - filled);
               filled = filled + taken;
               cost = cost + taken * lv_price level
           in if filled \<ge> target then (filled, cost) else liquidity_walk_loop ls target filled cost)"

definition liquidity_walk_levels :: "liquidity_level list \<Rightarrow> real \<Rightarrow> real \<times> real" where
  "liquidity_walk_levels levels target_quote =
     (if levels = [] \<or> target_quote \<le> 0 then (0, 0)
      else
        let (filled_quote, cost_basis) = liquidity_walk_loop levels target_quote 0 0
        in if filled_quote \<le> 0 then (0, 0) else (filled_quote, cost_basis / filled_quote))"

definition estimate_vwap_buy :: "real \<Rightarrow> execution_liquidity \<Rightarrow> real \<times> real" where
  "estimate_vwap_buy target_quote s = liquidity_walk_levels (el_asks s) target_quote"

definition estimate_vwap_sell :: "real \<Rightarrow> execution_liquidity \<Rightarrow> real \<times> real" where
  "estimate_vwap_sell target_quote s = liquidity_walk_levels (el_bids s) target_quote"

definition buy_slippage_bps :: "real \<Rightarrow> real \<Rightarrow> execution_liquidity \<Rightarrow> real" where
  "buy_slippage_bps target_quote reference_price s =
     (if reference_price \<le> 0 then 0
      else
        let (filled, avg_price) = estimate_vwap_buy target_quote s
        in if filled \<le> 0 \<or> avg_price \<le> 0 then 0 else (avg_price / reference_price - 1) * 10000)"

definition sell_slippage_bps :: "real \<Rightarrow> real \<Rightarrow> execution_liquidity \<Rightarrow> real" where
  "sell_slippage_bps target_quote reference_price s =
     (if reference_price \<le> 0 then 0
      else
        let (filled, avg_price) = estimate_vwap_sell target_quote s
        in if filled \<le> 0 \<or> avg_price \<le> 0 then 0 else (1 - avg_price / reference_price) * 10000)"

text \<open>The loop of \<open>_max_fillable\<close>: it stops at the first level beyond the limit.\<close>

fun fillable_loop :: "real \<Rightarrow> real \<Rightarrow> liquidity_level list \<Rightarrow> real \<Rightarrow> real" where
  "fillable_loop ref limit_bps [] filled = filled"
| "fillable_loop ref limit_bps (level # ls) filled =
     (let slippage = \<bar>lv_price level / ref - 1\<bar> * 10000
      in if slippage > limit_bps then filled
         else fillable_loop ref limit_bps ls (filled + lv_price level * lv_size level))"

definition max_fillable :: "liquidity_level list \<Rightarrow> real \<Rightarrow> real" where
  "max_fillable levels slippage_limit_bps =
     (case levels of [] \<Rightarrow> 0
      | first # _ \<Rightarrow>
          let ref = lv_price first
          in if ref \<le> 0 then 0 else fillable_loop ref slippage_limit_bps levels 0)"

definition chunked_l2_close_capacity :: "execution_liquidity \<Rightarrow> real \<Rightarrow> real \<Rightarrow> string \<Rightarrow> real" where
  "chunked_l2_close_capacity snapshot target_quantity max_slippage_bps close_side =
     (if close_side = ''buy'' then min target_quantity (max_fillable (el_asks snapshot) max_slippage_bps)
      else min target_quantity (max_fillable (el_bids snapshot) max_slippage_bps))"

definition as_liquidity :: "price_level \<Rightarrow> liquidity_level" where
  "as_liquidity l = \<lparr>lv_price = pl_price l, lv_size = pl_quantity l\<rparr>"

definition execution_liquidity_from_local_l2 ::
  "local_l2_book \<Rightarrow> int \<Rightarrow> int \<Rightarrow> int \<Rightarrow> bool \<Rightarrow> execution_liquidity" where
  "execution_liquidity_from_local_l2 book max_depth max_age_ms now require_ready =
     (let depth = (if max_depth \<noteq> 0 then max_depth else if lb_max_depth book \<noteq> 0 then lb_max_depth book else 50)
      in if require_ready \<and> \<not> execution_snapshot_is_valid max_age_ms now book
         then \<lparr>el_symbol = lb_symbol book, el_venue = lb_venue book, el_bids = [], el_asks = [],
               el_observed_at_ms = lb_observed_at_ms book, el_source = NO_SOURCE,
               el_fallback_reason = Book_Not_Ready (lb_status book) (book_age_ms now book), el_book_ready = False\<rparr>
         else \<lparr>el_symbol = lb_symbol book, el_venue = lb_venue book,
               el_bids = map as_liquidity (py_slice_to depth (lb_bids book)),
               el_asks = map as_liquidity (py_slice_to depth (lb_asks book)),
               el_observed_at_ms = lb_observed_at_ms book, el_source = TRUE_L2, el_fallback_reason = No_Reason,
               el_book_ready = True\<rparr>)"

definition execution_liquidity_fallback ::
  "string \<Rightarrow> string \<Rightarrow> string \<Rightarrow> execution_liquidity_source \<Rightarrow> execution_liquidity" where
  "execution_liquidity_fallback symb venue reason source =
     \<lparr>el_symbol = symb, el_venue = venue, el_bids = [], el_asks = [], el_observed_at_ms = 0, el_source = source,
      el_fallback_reason = Given_Reason reason, el_book_ready = False\<rparr>"

section \<open>Queries over the local books\<close>

text \<open>The key of a book: venue and symbol.\<close>

type_synonym book_key = "string \<times> string"

abbreviation books_of :: "(book_key, local_l2_book) dict \<Rightarrow> local_l2_book list" where
  "books_of books \<equiv> map snd books"

definition get_active_books :: "(book_key, local_l2_book) dict \<Rightarrow> int \<Rightarrow> int \<Rightarrow> local_l2_book list" where
  "get_active_books books max_age_ms now =
     filter (\<lambda>b. lb_status b = HOT \<and> now - lb_observed_at_ms b \<le> max_age_ms) (books_of books)"

definition get_ready_books :: "(book_key, local_l2_book) dict \<Rightarrow> int \<Rightarrow> int \<Rightarrow> local_l2_book list" where
  "get_ready_books books max_age_ms now = filter (is_ready max_age_ms now) (books_of books)"

definition get_books_by_pool :: "(book_key, local_l2_book) dict \<Rightarrow> l2_pool_assignment \<Rightarrow> local_l2_book list" where
  "get_books_by_pool books pool = filter (\<lambda>b. lb_pool b = pool) (books_of books)"

definition get_books_by_venue :: "(book_key, local_l2_book) dict \<Rightarrow> string \<Rightarrow> local_l2_book list" where
  "get_books_by_venue books venue = filter (\<lambda>b. lb_venue b = venue) (books_of books)"

definition get_unhealthy_books :: "(book_key, local_l2_book) dict \<Rightarrow> local_l2_book list" where
  "get_unhealthy_books books = filter (\<lambda>b. \<not> is_healthy b) (books_of books)"

definition get_stale_books :: "(book_key, local_l2_book) dict \<Rightarrow> int \<Rightarrow> int \<Rightarrow> local_l2_book list" where
  "get_stale_books books max_age_ms now = filter (is_stale max_age_ms now) (books_of books)"

definition get_resume_waiting_books :: "(book_key, local_l2_book) dict \<Rightarrow> local_l2_book list" where
  "get_resume_waiting_books books = filter (\<lambda>b. lb_status b = RESUME_WAITING) (books_of books)"

text \<open>\<open>counts[k] = counts.get(k, 0) + 1\<close> over a list of keys.\<close>

definition count_keys :: "'k list \<Rightarrow> ('k, int) dict" where
  "count_keys ks = foldl (\<lambda>counts k. dict_put k ((case dict_get counts k of None \<Rightarrow> 0 | Some n \<Rightarrow> n) + 1) counts) [] ks"

definition count_by_status :: "(book_key, local_l2_book) dict \<Rightarrow> (l2_book_status, int) dict" where
  "count_by_status books = count_keys (map lb_status (books_of books))"

definition count_by_pool :: "(book_key, local_l2_book) dict \<Rightarrow> (l2_pool_assignment, int) dict" where
  "count_by_pool books = count_keys (map lb_pool (books_of books))"

definition find_book :: "(book_key, local_l2_book) dict \<Rightarrow> string \<Rightarrow> string \<Rightarrow> local_l2_book option" where
  "find_book books venue symb = dict_get books (venue, symb)"

definition books_for_symbol :: "(book_key, local_l2_book) dict \<Rightarrow> string \<Rightarrow> local_l2_book list" where
  "books_for_symbol books symb = filter (\<lambda>b. lb_symbol b = symb) (books_of books)"

definition hot_exec_ready_count :: "(book_key, local_l2_book) dict \<Rightarrow> int \<Rightarrow> int \<Rightarrow> int" where
  "hot_exec_ready_count books max_age_ms now =
     int (length (filter (\<lambda>b. lb_pool b = HOT_EXEC \<and> is_ready max_age_ms now b) (books_of books)))"

section \<open>Freshness\<close>

definition is_market_data_fresh :: "int \<Rightarrow> int \<Rightarrow> int \<Rightarrow> bool" where
  "is_market_data_fresh observed_at_ms max_age_ms now \<longleftrightarrow> now - observed_at_ms \<le> max_age_ms"

definition allows_candidate :: "int \<Rightarrow> int \<Rightarrow> int \<Rightarrow> bool" where
  "allows_candidate observed_at_ms max_age_ms now \<longleftrightarrow> is_market_data_fresh observed_at_ms max_age_ms now"

record market_freshness =
  mf_max_age_ms :: int
  mf_now_ms :: int
  mf_fresh_venues :: "string list"
  mf_stale_venues :: "string list"
  mf_degraded_venues :: "string list"
  mf_degraded_symbols :: "(string \<times> string) list"

definition evaluate_freshness :: "(string, int) dict \<Rightarrow> market_freshness \<Rightarrow> market_freshness" where
  "evaluate_freshness venue_observed f =
     f\<lparr>mf_fresh_venues := map fst (filter (\<lambda>(v, t). is_market_data_fresh t (mf_max_age_ms f) (mf_now_ms f)) venue_observed),
       mf_stale_venues := map fst (filter (\<lambda>(v, t). \<not> is_market_data_fresh t (mf_max_age_ms f) (mf_now_ms f)) venue_observed)\<rparr>"

definition any_stale :: "market_freshness \<Rightarrow> bool" where
  "any_stale f \<longleftrightarrow> length (mf_stale_venues f) > 0"

definition transfer_stale_venues :: "market_freshness \<Rightarrow> string list \<times> market_freshness" where
  "transfer_stale_venues f =
     (let degraded = foldl (\<lambda>d v. if v \<in> set d then d else d @ [v]) (mf_degraded_venues f) (mf_stale_venues f)
      in (degraded, f\<lparr>mf_degraded_venues := degraded, mf_stale_venues := []\<rparr>))"

definition is_venue_degraded :: "market_freshness \<Rightarrow> string \<Rightarrow> bool" where
  "is_venue_degraded f venue \<longleftrightarrow> venue \<in> set (mf_degraded_venues f)"

section \<open>Lemmas\<close>

lemma as_liquidity_simps [simp]: "lv_price (as_liquidity l) = pl_price l" "lv_size (as_liquidity l) = pl_quantity l"
  by (simp_all add: as_liquidity_def)

text \<open>The two walks of the code are one.\<close>

lemma liquidity_walk_loop_book:
  "liquidity_walk_loop (map as_liquidity ls) target filled cost = walk_loop ls target filled cost"
  by (induction ls arbitrary: filled cost) (simp_all add: Let_def)

lemma liquidity_walk_book: "liquidity_walk_levels (map as_liquidity ls) target = walk_levels ls target"
  by (simp add: liquidity_walk_levels_def walk_levels_def liquidity_walk_loop_book)

lemma ready_liquidity:
  "execution_snapshot_is_valid age now b \<Longrightarrow>
     execution_liquidity_from_local_l2 b d age now True =
       execution_liquidity_from_local_l2 b d age now False"
  by (simp add: execution_liquidity_from_local_l2_def)

lemma take_slice: "int (length ls) \<le> d \<Longrightarrow> py_slice_to d ls = ls"
  by (simp add: py_slice_to_def)

lemma walk_price_bounds:
  assumes "\<forall>l\<in>set ls. lo \<le> pl_price l \<and> pl_price l \<le> hi" "0 < target" "0 < positive_quote ls"
    and "walk_levels ls target = (f, price)"
  shows "0 < f" "lo \<le> price" "price \<le> hi"
proof -
  obtain g c where w: "walk_loop ls target 0 0 = (g, c)" by (cases "walk_loop ls target 0 0")
  have g: "0 < g" using walk_loop_filled [of 0 target ls 0] assms(2,3) w by simp
  have "ls \<noteq> []" using assms(3) by (auto simp: positive_quote_def)
  then have r: "f = g" "price = c / g" using assms(2,4) w g by (auto simp: walk_levels_def)
  have "lo * g \<le> c \<and> c \<le> hi * g" using walk_loop_cost [OF assms(1), of 0 target 0] assms(2) w by simp
  then show "0 < f" "lo \<le> price" "price \<le> hi" using g by (simp_all add: r le_divide_eq divide_le_eq)
qed

lemma positive_quote_take_pos:
  assumes "ls \<noteq> []" "levels_ok ls" "0 < n"
  shows "0 < positive_quote (take n ls)"
proof -
  obtain l rest m where x: "ls = l # rest" "n = Suc m" using assms(1,3) by (cases ls; cases n) auto
  have "0 < pl_price l * pl_quantity l" using assms(2) by (simp add: x levels_ok_def)
  then show ?thesis
    using positive_quote_nonneg [of "take m rest"] by (simp add: x positive_quote_def)
qed

text \<open>The depth that the conversion keeps.\<close>

definition kept_depth :: "int \<Rightarrow> local_l2_book \<Rightarrow> int" where
  "kept_depth d b = (if d \<noteq> 0 then d else if lb_max_depth b \<noteq> 0 then lb_max_depth b else 50)"

lemma from_book_ready:
  assumes "execution_snapshot_is_valid age now b" "0 < kept_depth d b"
  defines "s \<equiv> execution_liquidity_from_local_l2 b d age now True"
  shows "el_bids s = map as_liquidity (take (nat (kept_depth d b)) (lb_bids b))"
    and "el_asks s = map as_liquidity (take (nat (kept_depth d b)) (lb_asks b))"
    and "el_book_ready s" "el_source s = TRUE_L2"
  using assms(1,2)
  by (simp_all add: s_def execution_liquidity_from_local_l2_def Let_def kept_depth_def [symmetric] py_slice_to_def)

lemma valid_snapshot_sides:
  assumes "execution_snapshot_is_valid age now b"
  shows "lb_bids b \<noteq> []" "lb_asks b \<noteq> []" "levels_ok (lb_bids b)" "levels_ok (lb_asks b)"
    and "l \<in> set (lb_bids b) \<Longrightarrow> pl_price l \<le> best_bid b" and "l \<in> set (lb_asks b) \<Longrightarrow> best_ask b \<le> pl_price l"
proof -
  have v: "valid_side True (lb_bids b)" "valid_side False (lb_asks b)"
    using assms by (simp_all add: execution_snapshot_is_valid_def has_valid_execution_structure_def)
  then show ne: "lb_bids b \<noteq> []" "lb_asks b \<noteq> []" and "levels_ok (lb_bids b)" "levels_ok (lb_asks b)"
    by (simp_all add: valid_side_bid valid_side_ask levels_ok_def)
  show "pl_price l \<le> best_bid b" if "l \<in> set (lb_bids b)"
    using v(1) ne(1) that bid.head_best [of "hd (lb_bids b)" "tl (lb_bids b)" l]
    by (cases "lb_bids b") (auto simp: valid_side_bid best_bid_def side_key_def)
  show "best_ask b \<le> pl_price l" if "l \<in> set (lb_asks b)"
    using v(2) ne(2) that ask.head_best [of "hd (lb_asks b)" "tl (lb_asks b)" l]
    by (cases "lb_asks b") (auto simp: valid_side_ask best_ask_def side_key_def)
qed

section \<open>Properties\<close>

text \<open>What execution sees of a local book. It is ready exactly when the book is fresh and structurally valid;
  otherwise it is empty, with no source, and estimates nothing. When it is ready, the estimates over
  all levels are the book's own, and for any positive target the estimated slippage against the
  best price is not negative on either side.\<close>

theorem execution_liquidity_of_book:
  fixes b :: local_l2_book and d age now :: int
  defines "s \<equiv> execution_liquidity_from_local_l2 b d age now True"
  assumes depth: "0 < kept_depth d b" and target: "0 < target"
  shows "(el_book_ready s \<longleftrightarrow> \<not> is_stale age now b \<and> has_valid_execution_structure b) \<and>
     (if el_book_ready s
      then 0 \<le> buy_slippage_bps target (best_ask b) s \<and> 0 \<le> sell_slippage_bps target (best_bid b) s \<and>
           (int (length (lb_asks b)) \<le> kept_depth d b \<longrightarrow> estimate_vwap_buy target s = vwap_buy target b) \<and>
           (int (length (lb_bids b)) \<le> kept_depth d b \<longrightarrow> estimate_vwap_sell target s = vwap_sell target b)
      else el_source s = NO_SOURCE \<and> estimate_vwap_buy target s = (0, 0) \<and> estimate_vwap_sell target s = (0, 0))"
proof (cases "execution_snapshot_is_valid age now b")
  case False
  then show ?thesis
    by (simp add: s_def execution_liquidity_from_local_l2_def Let_def execution_snapshot_is_valid_def
        estimate_vwap_buy_def estimate_vwap_sell_def liquidity_walk_levels_def)
next
  case True
  let ?n = "nat (kept_depth d b)"
  note r = from_book_ready [OF True depth, folded s_def]
  note v = valid_snapshot_sides [OF True]
  have n: "0 < ?n" using depth by simp
  have buy: "estimate_vwap_buy target s = walk_levels (take ?n (lb_asks b)) target"
    and sell: "estimate_vwap_sell target s = walk_levels (take ?n (lb_bids b)) target"
    by (simp_all add: estimate_vwap_buy_def estimate_vwap_sell_def r liquidity_walk_book)
  have slippage_buy: "0 \<le> buy_slippage_bps target (best_ask b) s"
  proof -
    obtain f p where w: "walk_levels (take ?n (lb_asks b)) target = (f, p)" by fastforce
    have "\<forall>l\<in>set (take ?n (lb_asks b)). best_ask b \<le> pl_price l \<and> pl_price l \<le> Max (pl_price ` set (lb_asks b))"
      using v(6) by (auto dest: in_set_takeD)
    from walk_price_bounds [OF this target positive_quote_take_pos [OF v(2,4) n] w]
    show ?thesis by (auto simp: buy_slippage_bps_def buy w le_divide_eq)
  qed
  have slippage_sell: "0 \<le> sell_slippage_bps target (best_bid b) s"
  proof -
    obtain f p where w: "walk_levels (take ?n (lb_bids b)) target = (f, p)" by fastforce
    have "\<forall>l\<in>set (take ?n (lb_bids b)). Min (pl_price ` set (lb_bids b)) \<le> pl_price l \<and> pl_price l \<le> best_bid b"
      using v(5) by (auto dest: in_set_takeD)
    from walk_price_bounds [OF this target positive_quote_take_pos [OF v(1,3) n] w]
    show ?thesis by (auto simp: sell_slippage_bps_def sell w divide_le_eq)
  qed
  show ?thesis
    using True r(3) slippage_buy slippage_sell buy sell
    by (auto simp: execution_snapshot_is_valid_def vwap_buy_def vwap_sell_def)
qed

definition sample_book :: local_l2_book where
  "sample_book = (new_book ''binance'' ''BTC'')\<lparr>lb_bids := [lvl 2 4], lb_asks := [lvl 3 4], lb_observed_at_ms := 5\<rparr>"

lemma execution_liquidity_of_book_witness:
  "estimate_vwap_buy 6 (execution_liquidity_from_local_l2 sample_book 10 100 50 True) = vwap_buy 6 sample_book"
proof -
  have f: "kept_depth 10 sample_book = 10" "\<not> is_stale 100 50 sample_book" "has_valid_execution_structure sample_book"
    "length (lb_asks sample_book) = 1"
    by (simp_all add: sample_book_def new_book_def kept_depth_def is_stale_def has_valid_execution_structure_def
        valid_side_def best_bid_def best_ask_def)
  show ?thesis using execution_liquidity_of_book [of 10 sample_book 6 100 50] by (simp add: f)
qed

text \<open>The close capacity compares unlike units. It caps a base quantity by the quote value that fits
  the slippage limit: above a price of 1 it grants a quantity that the level does not hold, below
  1 it refuses quantity that the level does hold.\<close>

theorem close_capacity_mixes_units:
  assumes "el_bids s = [\<lparr>lv_price = p, lv_size = q\<rparr>]" and "0 < p" and "0 < q" and "0 \<le> limit"
  shows "chunked_l2_close_capacity s target limit ''sell'' = min target (p * q) \<and>
     (1 < p \<longrightarrow> (\<exists>target. q < target \<and> chunked_l2_close_capacity s target limit ''sell'' = target)) \<and>
     (p < 1 \<longrightarrow> chunked_l2_close_capacity s q limit ''sell'' < q)"
proof -
  have "max_fillable (el_bids s) limit = p * q" using assms by (simp add: max_fillable_def)
  then have c: "chunked_l2_close_capacity s t limit ''sell'' = min t (p * q)" for t
    by (simp add: chunked_l2_close_capacity_def)
  have "q < p * q" if "1 < p" using that assms(3) by simp
  moreover have "p * q < q" if "p < 1" using that assms(3) by simp
  ultimately show ?thesis by (auto simp: c min_def)
qed

lemma close_capacity_mixes_units_witness:
  "chunked_l2_close_capacity ((execution_liquidity_fallback ''BTC'' ''okx'' ''r'' TOP_BOOK)
     \<lparr>el_bids := [\<lparr>lv_price = 100, lv_size = 1\<rparr>]\<rparr>) 10 50 ''sell'' = 10"
  using close_capacity_mixes_units [of "(execution_liquidity_fallback ''BTC'' ''okx'' ''r'' TOP_BOOK)
     \<lparr>el_bids := [\<lparr>lv_price = 100, lv_size = 1\<rparr>]\<rparr>" 100 1 50 10]
  by simp
end
