(* ===== verification/Pending_Entry.thy ===== *)
theory Pending_Entry
  imports Prelude
begin

text \<open>
  A pending entry: a maker order rests on one venue, and what it fills is hedged on the other.
  \<open>lightfee/engine/state.py\<close> (\<open>PendingEntry\<close> and its parts),
  \<open>lightfee/engine/pending_entry_lifecycle.py\<close> (the passive life cycle) and
  \<open>apply_pending_entry_hedge_progress\<close> of \<open>lightfee/engine/pending_entry_runtime.py\<close>.

  The record carries the fields that these operations read or write; the funding, edge and
  liquidity figures that an entry only transports are left out, and so is the optional
  \<open>note_hedge_fill_observed\<close> callback of the hedge progress, which no class defines. The dictionaries of evidence
  that actions carry for the journal are a datatype with the same values.
\<close>

section \<open>Parts\<close>

datatype venue = BINANCE | OKX | BYBIT | BITGET | GATE | ASTER | HYPERLIQUID

datatype order_side = BUY | SELL

datatype passive_order_state =
    PO_UNKNOWN | PO_CREATED | PO_OPEN | PO_PARTIALLY_FILLED | PO_FILLED | PO_CANCELED | PO_REJECTED | PO_EXPIRED

definition is_terminal :: "passive_order_state \<Rightarrow> bool" where
  "is_terminal s \<longleftrightarrow> s \<in> {PO_FILLED, PO_CANCELED, PO_REJECTED, PO_EXPIRED}"

definition is_active :: "passive_order_state \<Rightarrow> bool" where
  "is_active s \<longleftrightarrow> s \<in> {PO_UNKNOWN, PO_CREATED, PO_OPEN, PO_PARTIALLY_FILLED}"

record hedge_inflight =
  hi_client_order_id :: string
  hi_venue :: venue
  hi_side :: order_side
  hi_quantity :: real
  hi_attempt :: int
  hi_submitted_at_ms :: int
  hi_soft_deadline_logged :: bool

definition elapsed_ms :: "hedge_inflight \<Rightarrow> int \<Rightarrow> int" where
  "elapsed_ms h now = (if hi_submitted_at_ms h \<le> 0 then 0 else max 0 (now - hi_submitted_at_ms h))"

record pending_passive_order =
  po_order_id :: string
  po_client_order_id :: string
  po_limit_price :: "real option"
  po_target_quantity :: real
  po_accepted_at_ms :: int
  po_timeout_at_ms :: int
  po_cancel_requested_at_ms :: int
  po_last_progress_state :: passive_order_state
  po_fill_checkpoint_quantity :: real
  po_fill_checkpoint_notional_quote :: real
  po_fill_checkpoint_fee_quote :: real
  po_fill_checkpoint_last_fill_at_ms :: "int option"
  po_last_resting_quality_sample_at_ms :: "int option"

definition po_maker_completed :: "pending_passive_order \<Rightarrow> bool" where
  "po_maker_completed p \<longleftrightarrow> is_terminal (po_last_progress_state p)"

definition cancel_requested :: "pending_passive_order \<Rightarrow> bool" where
  "cancel_requested p \<longleftrightarrow> po_cancel_requested_at_ms p > 0"

definition timed_out :: "pending_passive_order \<Rightarrow> int \<Rightarrow> bool" where
  "timed_out p now \<longleftrightarrow> po_timeout_at_ms p > 0 \<and> now \<ge> po_timeout_at_ms p"

record passive_phase_state =
  ph_execution_kind :: string
  ph_preferred_maker_leg :: string
  ph_active_maker_leg :: string
  ph_phase :: string
  ph_zero_fill_cycles_in_phase :: int
  ph_cycle_attempt :: int
  ph_next_cycle_delay_ms :: "int option"
  ph_small_fill_min_notional_attempts :: int
  ph_hedge_deadline_at_ms :: "int option"
  ph_hedge_timeout_grace_deadline_at_ms :: "int option"
  ph_phase_started_at_ms :: int
  ph_cycle_started_at_ms :: int

record passive_order_manager_runtime =
  mr_cooldown_until_ms :: "int option"
  mr_consecutive_failures :: int
  mr_last_success_ms :: int
  mr_last_attempt_ms :: int
  mr_ops_budget_remaining :: int
  mr_ops_budget_reset_ms :: int
  mr_last_operation_ms :: int

record remainder_slice =
  rs_quantity :: real
  rs_notional_quote :: real
  rs_fill_at_ms :: "int option"

definition average_price :: "remainder_slice \<Rightarrow> real" where
  "average_price s = (if rs_quantity s > 0 then rs_notional_quote s / rs_quantity s else 0)"

text \<open>The candidate kept for a taker fallback: a dictionary, or an object with \<open>is_tradeable()\<close>.\<close>

record candidate =
  cd_is_tradeable :: "bool option"
  cd_blocked :: bool
  cd_blocked_reasons :: "string list"

section \<open>The entry\<close>

record pending_entry =
  pe_pending_id :: string
  pe_symbol :: string
  pe_long_venue :: venue
  pe_short_venue :: venue
  pe_target_quantity :: real
  pe_long_side :: order_side
  pe_short_side :: order_side
  pe_created_at_ms :: int
  pe_zero_fill_retry_pending :: bool
  pe_hedge_order_id :: string
  pe_maker_leg_filled :: real
  pe_hedge_leg_filled :: real
  pe_uncertain_outcome :: bool
  pe_maker_price :: real
  pe_entry_maker_leg :: string
  pe_phase_state :: "passive_phase_state option"
  pe_passive_manager_runtime :: passive_order_manager_runtime
  pe_repost_attempt_count :: int
  pe_passive_attempt_count :: int
  pe_passive_ops_total :: int
  pe_maker_remainder_slices :: "remainder_slice list"
  pe_frozen_candidate :: "candidate option"
  pe_maker_leg :: string
  pe_hedge_inflight :: "hedge_inflight option"
  pe_maker_fill_price :: real
  pe_hedge_fill_price :: real
  pe_repair_state :: string
  pe_passive_order :: "pending_passive_order option"
  pe_next_progress_poll_ms :: int

definition legacy_missing_hedge_quantity :: "pending_entry \<Rightarrow> real" where
  "legacy_missing_hedge_quantity p =
     (let balanced = min (pe_maker_leg_filled p) (pe_target_quantity p)
      in max 0 (balanced - pe_hedge_leg_filled p))"

definition remainder_quantity :: "remainder_slice list \<Rightarrow> real" where
  "remainder_quantity ss = sum_list (map (\<lambda>s. max 0 (rs_quantity s)) ss)"

definition unmatched_maker_quantity :: "pending_entry \<Rightarrow> real" where
  "unmatched_maker_quantity p =
     (if remainder_quantity (pe_maker_remainder_slices p) > 0
      then remainder_quantity (pe_maker_remainder_slices p)
      else legacy_missing_hedge_quantity p)"

definition missing_hedge_quantity :: "pending_entry \<Rightarrow> real" where
  "missing_hedge_quantity p = unmatched_maker_quantity p"

definition maker_reference_price :: "pending_entry \<Rightarrow> real" where
  "maker_reference_price p = (if pe_maker_fill_price p > 0 then pe_maker_fill_price p else pe_maker_price p)"

definition unmatched_maker_weighted_average_price :: "pending_entry \<Rightarrow> real option" where
  "unmatched_maker_weighted_average_price p =
     (let (total_quantity, total_notional_quote) =
        foldl (\<lambda>(q, n) item.
                 let quantity = max 0 (rs_quantity item)
                 in if quantity \<le> 0 then (q, n)
                    else (q + quantity, n + max 0 (average_price item) * quantity))
          (0, 0) (pe_maker_remainder_slices p)
      in if total_quantity > 0 then Some (total_notional_quote / total_quantity)
         else if legacy_missing_hedge_quantity p > 0 then Some (max 0 (maker_reference_price p))
         else None)"

definition maker_completed :: "pending_entry \<Rightarrow> bool" where
  "maker_completed p \<longleftrightarrow>
     (if pe_maker_leg_filled p \<ge> pe_target_quantity p - eps then True
      else case pe_passive_order p of Some po \<Rightarrow> po_maker_completed po | None \<Rightarrow> False)"

definition maker_passive_terminal :: "pending_entry \<Rightarrow> bool" where
  "maker_passive_terminal p \<longleftrightarrow>
     (case pe_passive_order p of Some po \<Rightarrow> is_terminal (po_last_progress_state po) | None \<Rightarrow> False)"

definition has_any_fill :: "pending_entry \<Rightarrow> bool" where
  "has_any_fill p \<longleftrightarrow> pe_maker_leg_filled p > eps \<or> pe_hedge_leg_filled p > eps"

definition push_maker_remainder_slice ::
  "real \<Rightarrow> pyfloat option \<Rightarrow> int option \<Rightarrow> pending_entry \<Rightarrow> pending_entry" where
  "push_maker_remainder_slice quantity avg_price fill_at_ms p =
     (let quantity = max 0 quantity
      in if quantity \<le> eps then p
         else
           let price = (case avg_price of
                          Some (Fin a) \<Rightarrow> if a < 0 then maker_reference_price p else a
                        | _ \<Rightarrow> maker_reference_price p);
               price = max 0 price
           in p\<lparr>pe_maker_remainder_slices := pe_maker_remainder_slices p @
                 [\<lparr>rs_quantity = quantity, rs_notional_quote = price * quantity,
                   rs_fill_at_ms = (case fill_at_ms of Some t \<Rightarrow> if t > 0 then Some t else None | None \<Rightarrow> None)\<rparr>]\<rparr>)"

text \<open>
  The loop of \<open>consume_hedge_quantity_fifo\<close>: the consumed quantity and the slices left. A slice
  that is used up is popped (the index stays), else the index moves on.
\<close>

definition reduce_slice :: "real \<Rightarrow> real \<Rightarrow> remainder_slice \<Rightarrow> remainder_slice" where
  "reduce_slice available take_quantity s =
     (let ratio = (if available > 0 then take_quantity / available else 0)
      in s\<lparr>rs_quantity := max 0 (available - take_quantity),
           rs_notional_quote := max 0 (rs_notional_quote s - rs_notional_quote s * ratio)\<rparr>)"

fun consume_loop :: "real \<Rightarrow> remainder_slice list \<Rightarrow> real \<times> remainder_slice list" where
  "consume_loop remaining [] = (0, [])"
| "consume_loop remaining (s # ss) =
     (if \<not> remaining > eps then (0, s # ss)
      else
        let available = max 0 (rs_quantity s)
        in if available \<le> eps then consume_loop remaining ss
           else
             let take_quantity = min remaining available;
                 s' = reduce_slice available take_quantity s;
                 (consumed, ss') = consume_loop (remaining - take_quantity) ss
             in (take_quantity + consumed, if rs_quantity s' \<le> eps then ss' else s' # ss'))"

definition consume_hedge_quantity_fifo :: "real \<Rightarrow> pending_entry \<Rightarrow> real \<times> pending_entry" where
  "consume_hedge_quantity_fifo hedge_quantity p =
     (let remaining = max 0 hedge_quantity
      in if remaining \<le> eps then (0, p)
         else
           let legacy = legacy_missing_hedge_quantity p;
               p = (if pe_maker_remainder_slices p = [] \<and> legacy > eps
                    then push_maker_remainder_slice legacy (Some (Fin (maker_reference_price p))) None p
                    else p);
               (consumed, ss) = consume_loop remaining (pe_maker_remainder_slices p)
           in (consumed, p\<lparr>pe_maker_remainder_slices := ss\<rparr>))"

definition startup_recovery_ready :: "pending_entry \<Rightarrow> bool" where
  "startup_recovery_ready p \<longleftrightarrow>
     pe_uncertain_outcome p \<or> maker_completed p \<or> missing_hedge_quantity p > eps \<or>
     pe_hedge_inflight p \<noteq> None \<or>
     (case pe_passive_order p of Some po \<Rightarrow> cancel_requested po | None \<Rightarrow> False)"

definition compute_lifetime_ms :: "pending_entry \<Rightarrow> int \<Rightarrow> int" where
  "compute_lifetime_ms p now = (if pe_created_at_ms p \<le> 0 then 0 else max 0 (now - pe_created_at_ms p))"

definition maker_venue :: "pending_entry \<Rightarrow> venue" where
  "maker_venue p = (if pe_maker_leg p = ''short'' then pe_short_venue p else pe_long_venue p)"

definition hedge_venue :: "pending_entry \<Rightarrow> venue" where
  "hedge_venue p = (if pe_maker_leg p = ''short'' then pe_long_venue p else pe_short_venue p)"

definition maker_side :: "pending_entry \<Rightarrow> order_side" where
  "maker_side p = (if pe_maker_leg p = ''short'' then pe_short_side p else pe_long_side p)"

definition hedge_side :: "pending_entry \<Rightarrow> order_side" where
  "hedge_side p = (if pe_maker_leg p = ''short'' then pe_long_side p else pe_short_side p)"

section \<open>Fills\<close>

record passive_progress =
  pg_state :: "passive_order_state option"
  pg_cumulative_quantity :: real
  pg_average_price :: real
  pg_observed_at_ms :: int

definition apply_pending_entry_passive_progress ::
  "passive_progress option \<Rightarrow> pending_entry \<Rightarrow> bool \<times> pending_entry" where
  "apply_pending_entry_passive_progress progress p =
     (case (pe_passive_order p, progress) of
        (Some po, Some pg) \<Rightarrow>
          let previous_quantity = pe_maker_leg_filled p;
              previous_state = po_last_progress_state po;
              po = (case pg_state pg of Some s \<Rightarrow> po\<lparr>po_last_progress_state := s\<rparr> | None \<Rightarrow> po);
              p = p\<lparr>pe_passive_order := Some po\<rparr>;
              cumulative = max 0 (pg_cumulative_quantity pg);
              target = po_target_quantity po;
              cumulative = (if target > 0 then min cumulative target else cumulative);
              updated = po_fill_checkpoint_quantity po + cumulative;
              p = (if updated > previous_quantity + eps
                   then
                     let avg = pg_average_price pg;
                         p = p\<lparr>pe_maker_leg_filled := updated\<rparr>;
                         p = (if avg > 0 then p\<lparr>pe_maker_fill_price := avg\<rparr> else p)
                     in push_maker_remainder_slice (updated - previous_quantity)
                          (if avg > 0 then Some (Fin avg) else None)
                          (if pg_observed_at_ms pg \<noteq> 0 then Some (pg_observed_at_ms pg) else None) p
                   else p)
          in (\<bar>previous_quantity - pe_maker_leg_filled p\<bar> > eps \<or> previous_state \<noteq> po_last_progress_state po, p)
      | _ \<Rightarrow> (False, p))"

definition apply_pending_entry_hedge_progress ::
  "real \<Rightarrow> real \<Rightarrow> string \<Rightarrow> pending_entry \<Rightarrow> real \<times> pending_entry" where
  "apply_pending_entry_hedge_progress new_total_quantity price order_id p =
     (let previous_quantity = pe_hedge_leg_filled p;
          target_quantity = max new_total_quantity previous_quantity;
          delta = max (target_quantity - previous_quantity) 0;
          p = (if delta > 1 / 1000000000000
               then snd (consume_hedge_quantity_fifo delta (p\<lparr>pe_hedge_leg_filled := target_quantity\<rparr>))
               else p);
          p = (if price > 0 then p\<lparr>pe_hedge_fill_price := price\<rparr> else p);
          p = (if order_id \<noteq> [] then p\<lparr>pe_hedge_order_id := order_id\<rparr> else p)
      in (delta, p))"

section \<open>The passive life cycle\<close>

datatype evidence =
    No_Evidence
  | Blocked_Reasons "string list"
  | Terminal_Evidence string "string list"
  | Remaining_Evidence real "real option option"
  | Cycle_Evidence real real int

record lifecycle_action =
  la_kind :: string
  la_reason :: string
  la_evidence :: evidence

definition action :: "string \<Rightarrow> string \<Rightarrow> evidence \<Rightarrow> lifecycle_action" where
  "action kind reason ev = \<lparr>la_kind = kind, la_reason = reason, la_evidence = ev\<rparr>"

record entry_strategy =
  st_pending_entry_phase_zero_fill_budget :: int
  st_maker_phase_max_zero_fill_cycles :: int
  st_maker_cycle_retry_delays_ms :: "int list"
  st_maker_entry_max_reposts :: int
  st_maker_entry_progress_poll_ms :: int
  st_maker_min_notional_accumulation_attempts :: int
  st_passive_small_fill_buffer_notional_quote :: real
  st_passive_small_fill_buffer_max_wait_ms :: int

definition has_pending_entry_zero_fill_retry :: "pending_entry \<Rightarrow> bool" where
  "has_pending_entry_zero_fill_retry p \<longleftrightarrow> pe_zero_fill_retry_pending p"

definition ensure_pending_entry_phase_state ::
  "int \<Rightarrow> pending_entry \<Rightarrow> passive_phase_state \<times> pending_entry" where
  "ensure_pending_entry_phase_state now p =
     (case pe_phase_state p of
        Some ph \<Rightarrow> (ph, p)
      | None \<Rightarrow>
          let maker_leg = (if pe_maker_leg p \<noteq> [] then pe_maker_leg p else ''long'');
              accepted = (case pe_passive_order p of Some po \<Rightarrow> po_accepted_at_ms po | None \<Rightarrow> 0);
              started_at_ms = (if accepted \<noteq> 0 then accepted
                               else if pe_created_at_ms p \<noteq> 0 then pe_created_at_ms p else now);
              ph = \<lparr>ph_execution_kind = ''entry'', ph_preferred_maker_leg = maker_leg,
                    ph_active_maker_leg = maker_leg, ph_phase = ''high_slippage_maker'',
                    ph_zero_fill_cycles_in_phase = 0, ph_cycle_attempt = 1,
                    ph_next_cycle_delay_ms = None, ph_small_fill_min_notional_attempts = 0,
                    ph_hedge_deadline_at_ms = None, ph_hedge_timeout_grace_deadline_at_ms = None,
                    ph_phase_started_at_ms = started_at_ms, ph_cycle_started_at_ms = started_at_ms\<rparr>
          in (ph, p\<lparr>pe_phase_state := Some ph\<rparr>))"

definition note_passive_operation :: "pending_entry \<Rightarrow> pending_entry" where
  "note_passive_operation p = p\<lparr>pe_passive_ops_total := pe_passive_ops_total p + 1\<rparr>"

definition phase_zero_fill_budget :: "entry_strategy \<Rightarrow> int" where
  "phase_zero_fill_budget st =
     (let budget = st_pending_entry_phase_zero_fill_budget st;
          budget = (if budget \<le> 0 then st_maker_phase_max_zero_fill_cycles st else budget)
      in max 1 budget)"

definition maker_cycle_retry_delay_ms :: "entry_strategy \<Rightarrow> int \<Rightarrow> int" where
  "maker_cycle_retry_delay_ms st completed_cycles =
     (let delays = st_maker_cycle_retry_delays_ms st
      in if delays = [] then 0
         else
           let index = min (max (completed_cycles - 1) 0) (int (length delays) - 1)
           in max 0 (delays ! nat index))"

definition record_pending_entry_zero_fill_cycle ::
  "entry_strategy \<Rightarrow> int \<Rightarrow> pending_entry \<Rightarrow> int \<times> pending_entry" where
  "record_pending_entry_zero_fill_cycle st now p =
     (let (ph, p) = ensure_pending_entry_phase_state now p;
          completed_cycles = ph_zero_fill_cycles_in_phase ph + 1;
          delay_ms = maker_cycle_retry_delay_ms st completed_cycles;
          ph = ph\<lparr>ph_zero_fill_cycles_in_phase := completed_cycles, ph_cycle_attempt := completed_cycles,
                  ph_next_cycle_delay_ms := Some delay_ms, ph_hedge_deadline_at_ms := None\<rparr>
      in (delay_ms, p\<lparr>pe_phase_state := Some ph, pe_repost_attempt_count := completed_cycles,
            pe_passive_attempt_count := 0, pe_next_progress_poll_ms := now + delay_ms\<rparr>))"

definition candidate_blocked :: "candidate option \<Rightarrow> bool \<times> string list" where
  "candidate_blocked c =
     (case c of
        None \<Rightarrow> (True, [])
      | Some c \<Rightarrow>
          (case cd_is_tradeable c of
             Some t \<Rightarrow> (\<not> t, cd_blocked_reasons c)
           | None \<Rightarrow> (cd_blocked c \<or> cd_blocked_reasons c \<noteq> [], cd_blocked_reasons c)))"

definition candidate_for_terminal_taker_fallback :: "pending_entry \<Rightarrow> candidate option" where
  "candidate_for_terminal_taker_fallback p = pe_frozen_candidate p"

definition terminal_recheck_is_tradeable :: "candidate option \<Rightarrow> lifecycle_action" where
  "terminal_recheck_is_tradeable c =
     (let (blocked, reasons) = candidate_blocked c
      in if blocked then action ''blocked'' ''candidate_not_tradeable_after_terminal_reprice'' (Blocked_Reasons reasons)
         else action ''tradeable'' [] No_Evidence)"

definition opposite_maker_leg :: "string \<Rightarrow> string" where
  "opposite_maker_leg maker_leg =
     (if (if maker_leg \<noteq> [] then maker_leg else ''long'') = ''long'' then ''short'' else ''long'')"

definition advance_pending_entry_zero_fill_phase ::
  "entry_strategy \<Rightarrow> int \<Rightarrow> candidate option \<Rightarrow> pending_entry \<Rightarrow> lifecycle_action \<times> pending_entry" where
  "advance_pending_entry_zero_fill_phase st now c p =
     (let (blocked, reasons) = candidate_blocked c
      in if blocked
         then (action ''finalized'' ''candidate_not_tradeable_after_zero_fill_reprice'' (Blocked_Reasons reasons), p)
         else
           let (ph, p) = ensure_pending_entry_phase_state now p
           in if ph_zero_fill_cycles_in_phase ph < phase_zero_fill_budget st
              then (action ''submit_next_cycle'' [] No_Evidence, p)
              else if ph_phase ph = ''high_slippage_maker''
              then
                let leg = (if ph_preferred_maker_leg ph \<noteq> [] then ph_preferred_maker_leg ph else pe_maker_leg p);
                    next_leg = opposite_maker_leg leg;
                    ph = ph\<lparr>ph_phase := ''low_slippage_maker'', ph_active_maker_leg := next_leg,
                            ph_zero_fill_cycles_in_phase := 0, ph_cycle_attempt := 0,
                            ph_next_cycle_delay_ms := None, ph_hedge_deadline_at_ms := None,
                            ph_phase_started_at_ms := now, ph_small_fill_min_notional_attempts := 0\<rparr>
                in (action ''submit_next_cycle'' ''phase_switched_to_low_slippage_maker'' No_Evidence,
                    p\<lparr>pe_phase_state := Some ph, pe_maker_leg := next_leg, pe_entry_maker_leg := next_leg,
                      pe_repost_attempt_count := 0, pe_passive_attempt_count := 0\<rparr>)
              else if ph_phase ph = ''low_slippage_maker''
              then
                let ph = ph\<lparr>ph_phase := ''dual_taker'', ph_next_cycle_delay_ms := None,
                            ph_hedge_deadline_at_ms := None\<rparr>
                in (action ''trigger_dual_taker'' ''maker_entry_dual_taker_after_phase_exhaustion'' No_Evidence,
                    p\<lparr>pe_phase_state := Some ph\<rparr>)
              else (action ''finalized'' ''dual_taker_phase_already_armed'' No_Evidence, p))"

definition decide_terminal_taker_fallback :: "candidate option \<Rightarrow> string \<Rightarrow> lifecycle_action" where
  "decide_terminal_taker_fallback c terminal_reason =
     (let (blocked, reasons) = candidate_blocked c
      in if blocked
         then action ''skip_fallback'' ''candidate_not_tradeable_after_terminal_reprice''
                (Terminal_Evidence terminal_reason reasons)
         else action ''fallback_to_taker'' ''maker_entry_terminal_zero_fill'' (Terminal_Evidence terminal_reason []))"

definition note_pending_entry_passive_submit :: "int \<Rightarrow> pending_entry \<Rightarrow> pending_entry" where
  "note_pending_entry_passive_submit accepted_at_ms p =
     (let rt = (pe_passive_manager_runtime p)\<lparr>mr_last_attempt_ms := accepted_at_ms,
                 mr_last_operation_ms := accepted_at_ms, mr_last_success_ms := accepted_at_ms,
                 mr_consecutive_failures := 0\<rparr>;
          p = note_passive_operation (p\<lparr>pe_passive_manager_runtime := rt\<rparr>)
      in p\<lparr>pe_passive_order := map_option
             (\<lambda>po. po\<lparr>po_last_resting_quality_sample_at_ms := Some accepted_at_ms\<rparr>) (pe_passive_order p)\<rparr>)"

definition note_pending_entry_passive_cycle_accepted ::
  "string \<Rightarrow> string \<Rightarrow> int \<Rightarrow> real option \<Rightarrow> real \<Rightarrow> int \<Rightarrow> int \<Rightarrow> pending_entry \<Rightarrow> pending_entry" where
  "note_pending_entry_passive_cycle_accepted order_id client_order_id accepted_at_ms limit_price
       target_quantity passive_attempt_count rest_timeout_ms p =
     (let checkpoint_quantity = pe_maker_leg_filled p;
          checkpoint_price = (if pe_maker_fill_price p \<noteq> 0 then pe_maker_fill_price p else pe_maker_price p);
          p = p\<lparr>pe_passive_order := Some
                 \<lparr>po_order_id = order_id, po_client_order_id = client_order_id, po_limit_price = limit_price,
                  po_target_quantity = target_quantity, po_accepted_at_ms = accepted_at_ms,
                  po_timeout_at_ms = accepted_at_ms + max 0 rest_timeout_ms,
                  po_cancel_requested_at_ms = 0, po_last_progress_state = PO_OPEN,
                  po_fill_checkpoint_quantity = checkpoint_quantity,
                  po_fill_checkpoint_notional_quote = max 0 (checkpoint_quantity * checkpoint_price),
                  po_fill_checkpoint_fee_quote = 0, po_fill_checkpoint_last_fill_at_ms = None,
                  po_last_resting_quality_sample_at_ms = None\<rparr>\<rparr>;
          p = note_pending_entry_passive_submit accepted_at_ms p;
          p = p\<lparr>pe_next_progress_poll_ms := accepted_at_ms, pe_passive_attempt_count := passive_attempt_count\<rparr>;
          (ph, p) = ensure_pending_entry_phase_state accepted_at_ms p;
          p = p\<lparr>pe_repost_attempt_count := ph_zero_fill_cycles_in_phase ph\<rparr>;
          ph = ph\<lparr>ph_cycle_attempt := ph_zero_fill_cycles_in_phase ph + 1, ph_next_cycle_delay_ms := None,
                  ph_hedge_deadline_at_ms := None, ph_cycle_started_at_ms := accepted_at_ms\<rparr>
      in p\<lparr>pe_phase_state := Some ph\<rparr>)"

definition remaining_target_quantity :: "pending_entry \<Rightarrow> real" where
  "remaining_target_quantity p = max 0 (pe_target_quantity p - pe_maker_leg_filled p)"

definition prepare_pending_entry_passive_cycle ::
  "real \<Rightarrow> pending_entry \<Rightarrow> lifecycle_action \<times> pending_entry" where
  "prepare_pending_entry_passive_cycle normalized_quantity p =
     (let remaining = remaining_target_quantity p
      in if remaining \<le> eps
         then (action ''finalized'' ''remaining_quantity_depleted'' (Remaining_Evidence remaining None), p)
         else if normalized_quantity \<le> eps
         then (action ''finalized'' ''remaining_quantity_below_minimum''
                 (Remaining_Evidence remaining (Some (Some normalized_quantity))), p)
         else
           let (ph, p) = ensure_pending_entry_phase_state 0 p
           in (action ''submit_passive_cycle'' []
                 (Cycle_Evidence remaining normalized_quantity (ph_zero_fill_cycles_in_phase ph + 1)), p))"

definition prepare_pending_entry_remainder_repost ::
  "entry_strategy \<Rightarrow> real \<Rightarrow> int \<Rightarrow> pending_entry \<Rightarrow> lifecycle_action" where
  "prepare_pending_entry_remainder_repost st normalized_quantity passive_attempt_limit p =
     (let remaining = remaining_target_quantity p
      in if pe_passive_attempt_count p \<ge> passive_attempt_limit
         then action ''finalized'' ''max_passive_attempts_reached'' (Remaining_Evidence remaining (Some None))
         else if pe_repost_attempt_count p \<ge> st_maker_entry_max_reposts st
         then action ''finalized'' ''max_reposts_reached'' (Remaining_Evidence remaining (Some None))
         else if remaining \<le> eps
         then action ''finalized'' ''remaining_quantity_depleted'' (Remaining_Evidence remaining (Some None))
         else if normalized_quantity \<le> eps
         then action ''finalized'' ''remaining_quantity_below_minimum''
                (Remaining_Evidence remaining (Some (Some normalized_quantity)))
         else action ''repost_remainder'' [] (Remaining_Evidence remaining (Some (Some normalized_quantity))))"

definition note_pending_entry_remainder_repost_accepted ::
  "string \<Rightarrow> string \<Rightarrow> int \<Rightarrow> real option \<Rightarrow> real \<Rightarrow> int \<Rightarrow> int \<Rightarrow> pending_entry \<Rightarrow> pending_entry" where
  "note_pending_entry_remainder_repost_accepted order_id client_order_id accepted_at_ms limit_price
       target_quantity passive_attempt_count rest_timeout_ms p =
     (let repost_attempt_count = pe_repost_attempt_count p + 1;
          p = note_pending_entry_passive_cycle_accepted order_id client_order_id accepted_at_ms limit_price
                target_quantity passive_attempt_count rest_timeout_ms p
      in p\<lparr>pe_repost_attempt_count := repost_attempt_count\<rparr>)"

section \<open>Consuming remainder slices\<close>

lemma eps_less_pos: "eps < x \<Longrightarrow> 0 < x"
  using eps_pos by linarith

lemma max_0_eps [simp]: "max 0 x \<le> eps \<longleftrightarrow> x \<le> eps"
  by simp

lemma remainder_quantity_simps [simp]:
  "remainder_quantity [] = 0"
  "remainder_quantity (s # ss) = max 0 (rs_quantity s) + remainder_quantity ss"
  "remainder_quantity (ss @ ts) = remainder_quantity ss + remainder_quantity ts"
  by (simp_all add: remainder_quantity_def)

lemma remainder_quantity_nonneg [simp]: "0 \<le> remainder_quantity ss"
  by (induction ss) simp_all

lemma reduce_slice_quantity [simp]: "rs_quantity (reduce_slice a t s) = max 0 (a - t)"
  by (simp add: reduce_slice_def Let_def)

lemma reduce_slice_notional:
  "0 < a \<Longrightarrow> rs_notional_quote (reduce_slice a t s) = max 0 (rs_notional_quote s * (1 - t / a))"
  by (simp add: reduce_slice_def Let_def algebra_simps)

lemma consume_loop_nothing: "\<not> eps < r \<Longrightarrow> consume_loop r ss = (0, ss)"
  by (cases ss) simp_all

lemma consume_loop_0 [simp]: "consume_loop 0 ss = (0, ss)"
  using eps_ge_0 by (intro consume_loop_nothing) linarith

text \<open>What one slice contributes, with the cases of the loop told apart.\<close>

lemma consume_loop_Cons:
  assumes "eps < r"
  obtains (dust) "rs_quantity s \<le> eps" "consume_loop r (s # ss) = consume_loop r ss"
  | (partial) "eps < rs_quantity s" "r \<le> rs_quantity s" "eps < rs_quantity s - r"
      "consume_loop r (s # ss) = (r, reduce_slice (rs_quantity s) r s # ss)"
  | (last) "eps < rs_quantity s" "r \<le> rs_quantity s" "rs_quantity s - r \<le> eps"
      "consume_loop r (s # ss) = (r, ss)"
  | (whole) "eps < rs_quantity s" "rs_quantity s < r"
      "consume_loop r (s # ss) =
         (rs_quantity s + fst (consume_loop (r - rs_quantity s) ss), snd (consume_loop (r - rs_quantity s) ss))"
proof -
  consider "rs_quantity s \<le> eps" | "eps < rs_quantity s" "r \<le> rs_quantity s" "eps < rs_quantity s - r"
    | "eps < rs_quantity s" "r \<le> rs_quantity s" "rs_quantity s - r \<le> eps"
    | "eps < rs_quantity s" "rs_quantity s < r" by linarith
  then show thesis
  proof cases
    case 1
    with assms have "consume_loop r (s # ss) = consume_loop r ss" by (simp add: Let_def)
    with 1 show thesis by (rule dust)
  next
    case 2
    with assms have "max 0 (rs_quantity s) = rs_quantity s" "min r (rs_quantity s) = r"
      by (auto dest: eps_less_pos)
    moreover have "\<not> rs_quantity s \<le> eps" "\<not> rs_quantity s - r \<le> eps" using 2 by simp_all
    ultimately have "consume_loop r (s # ss) = (r, reduce_slice (rs_quantity s) r s # ss)"
      using assms by (simp add: Let_def)
    with 2 show thesis by (rule partial)
  next
    case 3
    with assms have "max 0 (rs_quantity s) = rs_quantity s" "min r (rs_quantity s) = r"
      by (auto dest: eps_less_pos)
    moreover have "\<not> rs_quantity s \<le> eps" using 3 by simp
    ultimately have "consume_loop r (s # ss) = (r, ss)"
      using assms 3(3) by (simp add: Let_def)
    with 3 show thesis by (rule last)
  next
    case 4
    with assms have "max 0 (rs_quantity s) = rs_quantity s" "min r (rs_quantity s) = rs_quantity s"
      by (auto dest: eps_less_pos)
    moreover have "\<not> rs_quantity s \<le> eps" using 4 by simp
    ultimately have "consume_loop r (s # ss) =
         (rs_quantity s + fst (consume_loop (r - rs_quantity s) ss), snd (consume_loop (r - rs_quantity s) ss))"
      using assms by (simp add: Let_def case_prod_beta')
    with 4 show thesis by (rule whole)
  qed
qed

declare consume_loop.simps(2) [simp del]

lemma consume_loop_bounds:
  "0 \<le> r \<Longrightarrow> 0 \<le> fst (consume_loop r ss) \<and> fst (consume_loop r ss) \<le> r \<and>
     length (snd (consume_loop r ss)) \<le> length ss \<and>
     fst (consume_loop r ss) + remainder_quantity (snd (consume_loop r ss)) \<le> remainder_quantity ss \<and>
     remainder_quantity ss \<le> fst (consume_loop r ss) + remainder_quantity (snd (consume_loop r ss)) +
       eps * real (length ss - length (snd (consume_loop r ss))) \<and>
     (r - eps \<le> fst (consume_loop r ss) \<or> snd (consume_loop r ss) = [])"
proof (induction ss arbitrary: r)
  case Nil
  then show ?case by simp
next
  case (Cons s ss)
  show ?case
  proof (cases "eps < r")
    case False
    with Cons.prems show ?thesis by (simp add: consume_loop_nothing)
  next
    case True
    have e: "0 \<le> eps" by simp
    from True show ?thesis
    proof (cases rule: consume_loop_Cons [of r s ss])
      case dust
      have "real (Suc (length ss) - length (snd (consume_loop r ss))) =
          real (length ss - length (snd (consume_loop r ss))) + 1"
        using Cons.IH [OF Cons.prems] by (simp add: Suc_diff_le)
      then show ?thesis using dust Cons.IH [OF Cons.prems]
        by (cases "rs_quantity s \<le> 0"; auto simp: algebra_simps; linarith)
    next
      case partial
      with eps_less_pos [OF True] show ?thesis by (auto simp: max_def)
    next
      case last
      with eps_less_pos [OF True] show ?thesis by (auto simp: max_def)
    next
      case whole
      let ?r = "r - rs_quantity s"
      have IH: "0 \<le> fst (consume_loop ?r ss) \<and> fst (consume_loop ?r ss) \<le> ?r \<and>
         length (snd (consume_loop ?r ss)) \<le> length ss \<and>
         fst (consume_loop ?r ss) + remainder_quantity (snd (consume_loop ?r ss)) \<le> remainder_quantity ss \<and>
         remainder_quantity ss \<le> fst (consume_loop ?r ss) + remainder_quantity (snd (consume_loop ?r ss)) +
           eps * real (length ss - length (snd (consume_loop ?r ss))) \<and>
         (?r - eps \<le> fst (consume_loop ?r ss) \<or> snd (consume_loop ?r ss) = [])"
        using whole by (intro Cons.IH) simp
      then have "real (Suc (length ss) - length (snd (consume_loop ?r ss))) =
          real (length ss - length (snd (consume_loop ?r ss))) + 1"
        by (simp add: Suc_diff_le)
      with IH whole eps_less_pos [of "rs_quantity s"] show ?thesis by (auto simp: algebra_simps max_def)
    qed
  qed
qed

text \<open>First in, first out: what is left is an end of the list, its first slice possibly reduced.\<close>

lemma consume_loop_fifo:
  "\<exists>k. snd (consume_loop r ss) = drop k ss \<or>
     (k < length ss \<and> 0 < r \<and> snd (consume_loop r ss) =
        reduce_slice (rs_quantity (ss ! k)) (r - remainder_quantity (filter (\<lambda>s. eps < rs_quantity s) (take k ss))) (ss ! k)
          # drop (Suc k) ss \<and>
        eps < rs_quantity (hd (snd (consume_loop r ss))))"
proof (induction ss arbitrary: r)
  case Nil
  then show ?case by simp
next
  case (Cons s ss)
  show ?case
  proof (cases "eps < r")
    case False
    then have "snd (consume_loop r (s # ss)) = drop 0 (s # ss)" by (simp add: consume_loop_nothing)
    then show ?thesis by blast
  next
    case True
    have e: "0 < eps" by simp
    from True show ?thesis
    proof (cases rule: consume_loop_Cons [of r s ss])
      case dust
      from Cons.IH [of r] obtain k where k: "snd (consume_loop r ss) = drop k ss \<or>
         (k < length ss \<and> 0 < r \<and> snd (consume_loop r ss) =
            reduce_slice (rs_quantity (ss ! k)) (r - remainder_quantity (filter (\<lambda>s. eps < rs_quantity s) (take k ss))) (ss ! k)
              # drop (Suc k) ss \<and> eps < rs_quantity (hd (snd (consume_loop r ss))))" ..
      with dust show ?thesis by (intro exI [of _ "Suc k"]) auto
    next
      case partial
      with eps_less_pos [OF True] show ?thesis by (intro exI [of _ 0]) auto
    next
      case last
      then show ?thesis by (intro exI [of _ 1]) simp
    next
      case whole
      let ?r = "r - rs_quantity s"
      from Cons.IH [of ?r] obtain k where k: "snd (consume_loop ?r ss) = drop k ss \<or>
         (k < length ss \<and> 0 < ?r \<and> snd (consume_loop ?r ss) =
            reduce_slice (rs_quantity (ss ! k)) (?r - remainder_quantity (filter (\<lambda>s. eps < rs_quantity s) (take k ss))) (ss ! k)
              # drop (Suc k) ss \<and> eps < rs_quantity (hd (snd (consume_loop ?r ss))))" ..
      moreover have "max 0 (rs_quantity s) = rs_quantity s" using whole by (auto dest: eps_less_pos)
      ultimately show ?thesis using whole eps_less_pos [OF True] eps_less_pos [OF whole(1)]
        by (intro exI [of _ "Suc k"]) (auto simp: algebra_simps)
    qed
  qed
qed

section \<open>Fill events\<close>

lemma push_slices:
  "pe_maker_remainder_slices (push_maker_remainder_slice q avg t p) =
     pe_maker_remainder_slices p @
       (if q \<le> eps then []
        else [\<lparr>rs_quantity = q,
               rs_notional_quote = max 0 (case avg of Some (Fin a) \<Rightarrow> if a < 0 then maker_reference_price p else a
                                          | _ \<Rightarrow> maker_reference_price p) * q,
               rs_fill_at_ms = (case t of Some t \<Rightarrow> if t > 0 then Some t else None | None \<Rightarrow> None)\<rparr>])"
proof -
  have "max 0 q = q" if "\<not> q \<le> eps" using that eps_less_pos [of q] by simp
  then show ?thesis by (simp add: push_maker_remainder_slice_def Let_def)
qed

lemma push_frame [simp]:
  "pe_maker_leg_filled (push_maker_remainder_slice q avg t p) = pe_maker_leg_filled p"
  "pe_hedge_leg_filled (push_maker_remainder_slice q avg t p) = pe_hedge_leg_filled p"
  "pe_passive_order (push_maker_remainder_slice q avg t p) = pe_passive_order p"
  "pe_target_quantity (push_maker_remainder_slice q avg t p) = pe_target_quantity p"
  "pe_phase_state (push_maker_remainder_slice q avg t p) = pe_phase_state p"
  by (simp_all add: push_maker_remainder_slice_def Let_def)

lemma consume_frame [simp]:
  "pe_maker_leg_filled (snd (consume_hedge_quantity_fifo q p)) = pe_maker_leg_filled p"
  "pe_hedge_leg_filled (snd (consume_hedge_quantity_fifo q p)) = pe_hedge_leg_filled p"
  "pe_target_quantity (snd (consume_hedge_quantity_fifo q p)) = pe_target_quantity p"
  by (simp_all add: consume_hedge_quantity_fifo_def Let_def case_prod_beta')

text \<open>The quantity an order progress reports, capped by the order's target.\<close>

definition reported_quantity :: "passive_progress \<Rightarrow> pending_passive_order \<Rightarrow> real" where
  "reported_quantity pg po =
     po_fill_checkpoint_quantity po +
       (if po_target_quantity po > 0 then min (max 0 (pg_cumulative_quantity pg)) (po_target_quantity po)
        else max 0 (pg_cumulative_quantity pg))"

lemma apply_progress_none:
  "pe_passive_order p = None \<Longrightarrow> apply_pending_entry_passive_progress pg p = (False, p)"
  by (simp add: apply_pending_entry_passive_progress_def)

definition note_state :: "passive_progress \<Rightarrow> pending_passive_order \<Rightarrow> pending_passive_order" where
  "note_state pg po = (case pg_state pg of Some s \<Rightarrow> po\<lparr>po_last_progress_state := s\<rparr> | None \<Rightarrow> po)"

lemma note_state_simps [simp]:
  "po_fill_checkpoint_quantity (note_state pg po) = po_fill_checkpoint_quantity po"
  "po_target_quantity (note_state pg po) = po_target_quantity po"
  "note_state pg (note_state pg po) = note_state pg po"
  "reported_quantity pg (note_state pg po) = reported_quantity pg po"
  by (simp_all add: note_state_def reported_quantity_def split: option.split)

text \<open>The operation with its two outcomes told apart: new fill or none.\<close>

lemma apply_progress_eq:
  assumes "pe_passive_order p = Some po"
  shows "snd (apply_pending_entry_passive_progress (Some pg) p) =
     (if reported_quantity pg po > pe_maker_leg_filled p + eps
      then push_maker_remainder_slice (reported_quantity pg po - pe_maker_leg_filled p)
             (if pg_average_price pg > 0 then Some (Fin (pg_average_price pg)) else None)
             (if pg_observed_at_ms pg \<noteq> 0 then Some (pg_observed_at_ms pg) else None)
             (p\<lparr>pe_passive_order := Some (note_state pg po), pe_maker_leg_filled := reported_quantity pg po,
                pe_maker_fill_price := (if pg_average_price pg > 0 then pg_average_price pg else pe_maker_fill_price p)\<rparr>)
      else p\<lparr>pe_passive_order := Some (note_state pg po)\<rparr>)"
proof -
  have r: "po_fill_checkpoint_quantity po + (if po_target_quantity po > 0
      then min (max 0 (pg_cumulative_quantity pg)) (po_target_quantity po) else max 0 (pg_cumulative_quantity pg))
      = reported_quantity pg po" by (simp add: reported_quantity_def)
  show ?thesis
    unfolding apply_pending_entry_passive_progress_def assms Let_def option.case prod.case snd_conv
      note_state_def [symmetric] note_state_simps r
    by simp
qed

lemma apply_progress_flag:
  assumes "pe_passive_order p = Some po"
  shows "fst (apply_pending_entry_passive_progress (Some pg) p) \<longleftrightarrow>
     reported_quantity pg po > pe_maker_leg_filled p + eps \<or>
     po_last_progress_state po \<noteq> po_last_progress_state (note_state pg po)"
proof -
  have r: "po_fill_checkpoint_quantity po + (if po_target_quantity po > 0
      then min (max 0 (pg_cumulative_quantity pg)) (po_target_quantity po) else max 0 (pg_cumulative_quantity pg))
      = reported_quantity pg po" by (simp add: reported_quantity_def)
  have "eps < \<bar>m - r\<bar>" if "m + eps < r" for m r :: real using that by simp
  then show ?thesis
    unfolding apply_pending_entry_passive_progress_def assms Let_def option.case prod.case fst_conv
      note_state_def [symmetric] note_state_simps r
    by simp
qed

lemma apply_progress_fields:
  assumes "pe_passive_order p = Some po"
  shows "pe_maker_leg_filled (snd (apply_pending_entry_passive_progress (Some pg) p)) =
      (if reported_quantity pg po > pe_maker_leg_filled p + eps then reported_quantity pg po
       else pe_maker_leg_filled p)"
    and "pe_hedge_leg_filled (snd (apply_pending_entry_passive_progress (Some pg) p)) = pe_hedge_leg_filled p"
    and "pe_target_quantity (snd (apply_pending_entry_passive_progress (Some pg) p)) = pe_target_quantity p"
    and "pe_passive_order (snd (apply_pending_entry_passive_progress (Some pg) p)) = Some (note_state pg po)"
    and "remainder_quantity (pe_maker_remainder_slices (snd (apply_pending_entry_passive_progress (Some pg) p))) =
      remainder_quantity (pe_maker_remainder_slices p) +
      (if reported_quantity pg po > pe_maker_leg_filled p + eps
       then reported_quantity pg po - pe_maker_leg_filled p else 0)"
    and "length (pe_maker_remainder_slices (snd (apply_pending_entry_passive_progress (Some pg) p))) =
      length (pe_maker_remainder_slices p) +
      (if reported_quantity pg po > pe_maker_leg_filled p + eps then 1 else 0)"
  using eps_less_pos [of "reported_quantity pg po - pe_maker_leg_filled p"]
  by (simp_all add: apply_progress_eq [OF assms] push_slices)

section \<open>Runs of fills\<close>

datatype fill_event =
    Maker_Progress passive_progress
  | Hedge_Progress real real string
  | Cycle_Accepted string string int "real option" real int int
  | Remainder_Reposted string string int "real option" real int int
  | Zero_Fill_Cycle entry_strategy int
  | Advance_Phase entry_strategy int "candidate option"

fun fill_step :: "pending_entry \<Rightarrow> fill_event \<Rightarrow> pending_entry" where
  "fill_step p (Maker_Progress pg) = snd (apply_pending_entry_passive_progress (Some pg) p)"
| "fill_step p (Hedge_Progress new_total price oid) = snd (apply_pending_entry_hedge_progress new_total price oid p)"
| "fill_step p (Cycle_Accepted oid coid t limit target att rest) =
     note_pending_entry_passive_cycle_accepted oid coid t limit target att rest p"
| "fill_step p (Remainder_Reposted oid coid t limit target att rest) =
     note_pending_entry_remainder_repost_accepted oid coid t limit target att rest p"
| "fill_step p (Zero_Fill_Cycle st now) = snd (record_pending_entry_zero_fill_cycle st now p)"
| "fill_step p (Advance_Phase st now c) = snd (advance_pending_entry_zero_fill_phase st now c p)"

text \<open>The step with a count of the maker fills that were reported so far.\<close>

fun counted_step :: "nat \<times> pending_entry \<Rightarrow> fill_event \<Rightarrow> nat \<times> pending_entry" where
  "counted_step (n, p) x = (case x of Maker_Progress _ \<Rightarrow> n + 1 | _ \<Rightarrow> n, fill_step p x)"

abbreviation slices :: "pending_entry \<Rightarrow> remainder_slice list" where
  "slices \<equiv> pe_maker_remainder_slices"

text \<open>
  Every unhedged fill is in a slice, up to the dust that popped slices may have left: at most
  \<open>eps\<close> per slice that is no longer there.
\<close>

fun exposure_covered :: "nat \<times> pending_entry \<Rightarrow> bool" where
  "exposure_covered (n, p) \<longleftrightarrow> length (slices p) \<le> n + 1 \<and>
     pe_maker_leg_filled p - pe_hedge_leg_filled p
       \<le> remainder_quantity (slices p) + eps * (real n - real (length (slices p)))"

lemma ensure_phase_frame [simp]:
  "pe_maker_leg_filled (snd (ensure_pending_entry_phase_state now p)) = pe_maker_leg_filled p"
  "pe_hedge_leg_filled (snd (ensure_pending_entry_phase_state now p)) = pe_hedge_leg_filled p"
  "slices (snd (ensure_pending_entry_phase_state now p)) = slices p"
  "pe_target_quantity (snd (ensure_pending_entry_phase_state now p)) = pe_target_quantity p"
  by (simp_all add: ensure_pending_entry_phase_state_def Let_def split: option.split)

lemma passive_submit_frame [simp]:
  "pe_maker_leg_filled (note_pending_entry_passive_submit t p) = pe_maker_leg_filled p"
  "pe_hedge_leg_filled (note_pending_entry_passive_submit t p) = pe_hedge_leg_filled p"
  "slices (note_pending_entry_passive_submit t p) = slices p"
  "pe_target_quantity (note_pending_entry_passive_submit t p) = pe_target_quantity p"
  by (simp_all add: note_pending_entry_passive_submit_def note_passive_operation_def Let_def)

lemma lifecycle_frame [simp]:
  "pe_maker_leg_filled (note_pending_entry_passive_cycle_accepted oid coid t l target att rest p) = pe_maker_leg_filled p"
  "pe_hedge_leg_filled (note_pending_entry_passive_cycle_accepted oid coid t l target att rest p) = pe_hedge_leg_filled p"
  "slices (note_pending_entry_passive_cycle_accepted oid coid t l target att rest p) = slices p"
  "pe_maker_leg_filled (snd (record_pending_entry_zero_fill_cycle st now p)) = pe_maker_leg_filled p"
  "pe_hedge_leg_filled (snd (record_pending_entry_zero_fill_cycle st now p)) = pe_hedge_leg_filled p"
  "slices (snd (record_pending_entry_zero_fill_cycle st now p)) = slices p"
  "pe_maker_leg_filled (snd (advance_pending_entry_zero_fill_phase st now c p)) = pe_maker_leg_filled p"
  "pe_hedge_leg_filled (snd (advance_pending_entry_zero_fill_phase st now c p)) = pe_hedge_leg_filled p"
  "slices (snd (advance_pending_entry_zero_fill_phase st now c p)) = slices p"
  by (simp_all add: note_pending_entry_passive_cycle_accepted_def record_pending_entry_zero_fill_cycle_def
      advance_pending_entry_zero_fill_phase_def Let_def case_prod_beta')

lemma repost_frame [simp]:
  "pe_maker_leg_filled (note_pending_entry_remainder_repost_accepted oid coid t l target att rest p) = pe_maker_leg_filled p"
  "pe_hedge_leg_filled (note_pending_entry_remainder_repost_accepted oid coid t l target att rest p) = pe_hedge_leg_filled p"
  "slices (note_pending_entry_remainder_repost_accepted oid coid t l target att rest p) = slices p"
  by (simp_all add: note_pending_entry_remainder_repost_accepted_def Let_def)

text \<open>Consumption: the slices it starts from, and what it leaves of them.\<close>

definition seeded_slices :: "pending_entry \<Rightarrow> remainder_slice list" where
  "seeded_slices p =
     slices (if slices p = [] \<and> legacy_missing_hedge_quantity p > eps
             then push_maker_remainder_slice (legacy_missing_hedge_quantity p) (Some (Fin (maker_reference_price p))) None p
             else p)"

lemma consume_slices:
  "eps < q \<Longrightarrow> slices (snd (consume_hedge_quantity_fifo q p)) = snd (consume_loop q (seeded_slices p)) \<and>
     fst (consume_hedge_quantity_fifo q p) = fst (consume_loop q (seeded_slices p))"
  using eps_less_pos [of q]
  by (simp add: consume_hedge_quantity_fifo_def seeded_slices_def Let_def case_prod_beta')

lemma consume_nothing: "q \<le> eps \<Longrightarrow> consume_hedge_quantity_fifo q p = (0, p)"
  by (simp add: consume_hedge_quantity_fifo_def Let_def)

lemma seeded_slices_cases:
  "seeded_slices p = slices p \<or> slices p = [] \<and> length (seeded_slices p) \<le> 1"
  by (simp add: seeded_slices_def push_slices)

definition hedge_delta :: "real \<Rightarrow> pending_entry \<Rightarrow> real" where
  "hedge_delta new_total p = max (max new_total (pe_hedge_leg_filled p) - pe_hedge_leg_filled p) 0"

lemma hedge_progress_fields:
  "fst (apply_pending_entry_hedge_progress new_total price oid p) = hedge_delta new_total p"
  "pe_maker_leg_filled (snd (apply_pending_entry_hedge_progress new_total price oid p)) = pe_maker_leg_filled p"
  "pe_target_quantity (snd (apply_pending_entry_hedge_progress new_total price oid p)) = pe_target_quantity p"
  "pe_hedge_leg_filled (snd (apply_pending_entry_hedge_progress new_total price oid p)) =
     (if hedge_delta new_total p > 1 / 1000000000000 then new_total else pe_hedge_leg_filled p)"
  "slices (snd (apply_pending_entry_hedge_progress new_total price oid p)) =
     (if hedge_delta new_total p > 1 / 1000000000000
      then slices (snd (consume_hedge_quantity_fifo (hedge_delta new_total p) (p\<lparr>pe_hedge_leg_filled := new_total\<rparr>)))
      else slices p)"
  by (auto simp: apply_pending_entry_hedge_progress_def Let_def hedge_delta_def max_def)

lemma exposure_hedge_step:
  assumes "exposure_covered (n, p)"
  shows "exposure_covered (n, snd (apply_pending_entry_hedge_progress new_total price oid p))"
proof (cases "hedge_delta new_total p > 1 / 1000000000000")
  case False
  with assms show ?thesis by (simp add: hedge_progress_fields)
next
  case True
  let ?d = "hedge_delta new_total p" and ?p = "p\<lparr>pe_hedge_leg_filled := new_total\<rparr>"
  have d: "new_total = pe_hedge_leg_filled p + ?d" using True by (auto simp: hedge_delta_def max_def split: if_splits)
  let ?ss' = "slices (snd (consume_hedge_quantity_fifo ?d ?p))"
  have "length ?ss' \<le> n + 1 \<and>
     pe_maker_leg_filled p - new_total \<le> remainder_quantity ?ss' + eps * (real n - real (length ?ss'))"
  proof (cases "?d \<le> eps")
    case True
    with assms d \<open>?d > 1 / 1000000000000\<close> show ?thesis by (simp add: consume_nothing)
  next
    case False
    let ?ss = "seeded_slices ?p"
    have ss': "?ss' = snd (consume_loop ?d ?ss)" using consume_slices [of ?d ?p] False by simp
    have b: "fst (consume_loop ?d ?ss) \<le> ?d" "length ?ss' \<le> length ?ss"
      "remainder_quantity ?ss \<le> fst (consume_loop ?d ?ss) + remainder_quantity ?ss' +
          eps * real (length ?ss - length ?ss')"
      using consume_loop_bounds [of ?d ?ss] eps_less_pos [of ?d] False unfolding ss' by linarith+
    have len: "real (length ?ss - length ?ss') = real (length ?ss) - real (length ?ss')"
      using b(2) by (simp add: of_nat_diff)
    from seeded_slices_cases [of ?p] show ?thesis
    proof
      assume "?ss = slices ?p"
      then have "?ss = slices p" by simp
      with assms b d len show ?thesis by (simp add: algebra_simps)
    next
      assume empty: "slices ?p = [] \<and> length ?ss \<le> 1"
      then have "length ?ss' \<le> 1" using b(2) by simp
      then have "eps * real (length ?ss') \<le> eps" by simp
      moreover have "0 \<le> remainder_quantity ?ss'" by simp
      moreover have "pe_maker_leg_filled p - pe_hedge_leg_filled p \<le> eps * real n"
        using assms empty by simp
      ultimately have "pe_maker_leg_filled p - new_total \<le> remainder_quantity ?ss' + (eps * real n - eps * real (length ?ss'))"
        using d False by linarith
      with \<open>length ?ss' \<le> 1\<close> show ?thesis by (simp add: algebra_simps)
    qed
  qed
  with True show ?thesis by (simp add: hedge_progress_fields)
qed

lemma exposure_maker_step:
  assumes "exposure_covered (n, p)"
  shows "exposure_covered (n + 1, snd (apply_pending_entry_passive_progress (Some pg) p))"
proof (cases "pe_passive_order p")
  case None
  with assms show ?thesis by (simp add: apply_progress_none algebra_simps)
next
  case (Some po)
  with assms show ?thesis
    by (simp add: apply_progress_fields [OF Some] algebra_simps)
qed

lemma counted_step_covered:
  assumes "exposure_covered s"
  shows "exposure_covered (counted_step s x)"
proof (cases s)
  case (Pair n p)
  with assms have np: "exposure_covered (n, p)" by simp
  show ?thesis
  proof (cases x)
    case (Maker_Progress pg)
    with Pair exposure_maker_step [OF np, of pg] show ?thesis
      by (simp only: counted_step.simps fill_step.simps fill_event.case)
  next
    case (Hedge_Progress new_total price oid)
    with Pair exposure_hedge_step [OF np, of new_total price oid] show ?thesis
      by (simp only: counted_step.simps fill_step.simps fill_event.case)
  qed (use Pair np in simp_all)
qed

interpretation exposure: event_system counted_step exposure_covered "\<lambda>_ _. True"
  by unfold_locales (rule counted_step_covered)

lemma counted_run:
  "foldl counted_step (n, p) xs =
     (n + length (filter (\<lambda>x. case x of Maker_Progress _ \<Rightarrow> True | _ \<Rightarrow> False) xs), foldl fill_step p xs)"
  by (induction xs arbitrary: n p) (simp_all split: fill_event.split)

lemma fill_step_monotone:
  "pe_maker_leg_filled p \<le> pe_maker_leg_filled (fill_step p x) \<and>
   pe_hedge_leg_filled p \<le> pe_hedge_leg_filled (fill_step p x)"
proof (cases x)
  case (Maker_Progress pg)
  then show ?thesis
    by (cases "pe_passive_order p") (simp_all add: apply_progress_none apply_progress_fields)
next
  case (Hedge_Progress new_total price oid)
  then show ?thesis by (simp add: hedge_progress_fields) (simp add: hedge_delta_def max_def split: if_splits)
qed simp_all

interpretation maker_filled: ranked_system fill_step "\<lambda>_. True" "\<lambda>_ _. True" pe_maker_leg_filled
  by unfold_locales (simp_all add: fill_step_monotone)

interpretation hedge_filled: ranked_system fill_step "\<lambda>_. True" "\<lambda>_ _. True" pe_hedge_leg_filled
  by unfold_locales (simp_all add: fill_step_monotone)

section \<open>Zero-fill rounds\<close>

text \<open>A round: a maker cycle ends without a fill, and the phase is advanced.\<close>

definition zero_fill_round ::
  "entry_strategy \<Rightarrow> int \<Rightarrow> candidate option \<Rightarrow> pending_entry \<Rightarrow> lifecycle_action \<times> pending_entry" where
  "zero_fill_round st now c p =
     advance_pending_entry_zero_fill_phase st now c (snd (record_pending_entry_zero_fill_cycle st now p))"

fun zero_fill_rounds ::
  "nat \<Rightarrow> entry_strategy \<Rightarrow> int \<Rightarrow> candidate option \<Rightarrow> pending_entry \<Rightarrow> pending_entry" where
  "zero_fill_rounds 0 st now c p = p"
| "zero_fill_rounds (Suc n) st now c p = snd (zero_fill_round st now c (zero_fill_rounds n st now c p))"

definition phase_after :: "entry_strategy \<Rightarrow> string \<Rightarrow> nat \<Rightarrow> pending_entry \<Rightarrow> bool" where
  "phase_after st leg k p \<longleftrightarrow>
     (\<exists>ph. pe_phase_state p = Some ph \<and> ph_preferred_maker_leg ph = leg \<and>
       (if int k < phase_zero_fill_budget st
        then ph_phase ph = ''high_slippage_maker'' \<and> ph_zero_fill_cycles_in_phase ph = int k \<and> pe_maker_leg p = leg
        else (if int k < 2 * phase_zero_fill_budget st then ph_phase ph = ''low_slippage_maker''
              else ph_phase ph = ''dual_taker'') \<and>
          ph_zero_fill_cycles_in_phase ph = int k - phase_zero_fill_budget st \<and>
          pe_maker_leg p = opposite_maker_leg leg))"

lemma phase_budget_pos: "1 \<le> phase_zero_fill_budget st"
  by (simp add: phase_zero_fill_budget_def Let_def)

lemma zero_fill_round_phase:
  assumes p: "phase_after st leg k p" and leg: "leg \<noteq> []" and c: "\<not> fst (candidate_blocked c)"
  shows "phase_after st leg (Suc k) (snd (zero_fill_round st now c p)) \<and>
     la_kind (fst (zero_fill_round st now c p)) =
       (if int (Suc k) < 2 * phase_zero_fill_budget st then ''submit_next_cycle''
        else if int (Suc k) = 2 * phase_zero_fill_budget st then ''trigger_dual_taker'' else ''finalized'')"
proof -
  obtain r where cb: "candidate_blocked c = (False, r)" using c by (cases "candidate_blocked c") auto
  obtain ph where ph: "pe_phase_state p = Some ph" "ph_preferred_maker_leg ph = leg"
    using p by (auto simp: phase_after_def)
  let ?B = "phase_zero_fill_budget st"
  have B: "1 \<le> ?B" by (rule phase_budget_pos)
  consider "int k + 1 < ?B" | "int k + 1 = ?B" | "?B \<le> int k" "int k + 1 < 2 * ?B"
    | "?B \<le> int k" "int k + 1 = 2 * ?B" | "2 * ?B \<le> int k" by linarith
  then show ?thesis
  proof cases
    case 5
    with p ph leg cb B show ?thesis
      by (simp add: zero_fill_round_def record_pending_entry_zero_fill_cycle_def Let_def action_def
          ensure_pending_entry_phase_state_def advance_pending_entry_zero_fill_phase_def phase_after_def)
  qed (use p ph leg cb B in \<open>simp add: zero_fill_round_def record_pending_entry_zero_fill_cycle_def Let_def
        ensure_pending_entry_phase_state_def advance_pending_entry_zero_fill_phase_def phase_after_def action_def\<close>)+
qed

lemma zero_fill_rounds_phase:
  "phase_after st leg 0 p \<Longrightarrow> leg \<noteq> [] \<Longrightarrow> \<not> fst (candidate_blocked c) \<Longrightarrow>
     phase_after st leg k (zero_fill_rounds k st now c p)"
  by (induction k) (simp_all add: zero_fill_round_phase)


section \<open>Properties\<close>

definition fresh_entry :: "pending_entry \<Rightarrow> bool" where
  "fresh_entry p \<longleftrightarrow> pe_maker_leg_filled p = 0 \<and> pe_hedge_leg_filled p = 0 \<and> slices p = []"

abbreviation maker_reports :: "fill_event list \<Rightarrow> nat" where
  "maker_reports xs \<equiv> length (filter (\<lambda>x. case x of Maker_Progress _ \<Rightarrow> True | _ \<Rightarrow> False) xs)"

text \<open>C2: No exposure is lost. From a fresh entry, whatever maker progress, hedge progress, new
  cycles, reposts and phase changes follow in whatever order, the quantity still to be hedged
  covers the difference between what the maker leg and the hedge leg filled, up to 1e-9 per
  maker report; and neither leg's filled quantity ever falls.\<close>

theorem unhedged_exposure_is_tracked:
  assumes "fresh_entry p0" and "p = foldl fill_step p0 xs"
  shows "pe_maker_leg_filled p - pe_hedge_leg_filled p \<le> missing_hedge_quantity p + eps * real (maker_reports xs) \<and>
     pe_maker_leg_filled p \<le> pe_maker_leg_filled (foldl fill_step p ys) \<and>
     pe_hedge_leg_filled p \<le> pe_hedge_leg_filled (foldl fill_step p ys)"
proof -
  have "exposure_covered (0, p0)" using assms(1) by (simp add: fresh_entry_def)
  then have "exposure_covered (foldl counted_step (0, p0) xs)" by (rule exposure.run_inv) simp
  then have cov: "pe_maker_leg_filled p - pe_hedge_leg_filled p
      \<le> remainder_quantity (slices p) + eps * (real (maker_reports xs) - real (length (slices p)))"
    by (simp add: counted_run assms(2))
  have "eps * (real (maker_reports xs) - real (length (slices p))) \<le> eps * real (maker_reports xs)"
    by (intro mult_left_mono) simp_all
  moreover have "remainder_quantity (slices p) \<le> missing_hedge_quantity p"
    using remainder_quantity_nonneg [of "slices p"]
    by (auto simp: missing_hedge_quantity_def unmatched_maker_quantity_def legacy_missing_hedge_quantity_def Let_def)
  ultimately have "pe_maker_leg_filled p - pe_hedge_leg_filled p \<le> missing_hedge_quantity p + eps * real (maker_reports xs)"
    using cov by linarith
  then show ?thesis using maker_filled.run_rank [of p ys] hedge_filled.run_rank [of p ys] by simp
qed

definition sample_entry :: pending_entry where
  "sample_entry = \<lparr>pe_pending_id = ''p1'', pe_symbol = ''BTC'', pe_long_venue = BINANCE, pe_short_venue = OKX,
     pe_target_quantity = 5, pe_long_side = BUY, pe_short_side = SELL, pe_created_at_ms = 1,
     pe_zero_fill_retry_pending = False, pe_hedge_order_id = [], pe_maker_leg_filled = 0,
     pe_hedge_leg_filled = 0, pe_uncertain_outcome = False, pe_maker_price = 10, pe_entry_maker_leg = ''long'',
     pe_phase_state = None, pe_passive_manager_runtime =
       \<lparr>mr_cooldown_until_ms = None, mr_consecutive_failures = 0, mr_last_success_ms = 0, mr_last_attempt_ms = 0,
        mr_ops_budget_remaining = 0, mr_ops_budget_reset_ms = 0, mr_last_operation_ms = 0\<rparr>,
     pe_repost_attempt_count = 0, pe_passive_attempt_count = 0, pe_passive_ops_total = 0,
     pe_maker_remainder_slices = [], pe_frozen_candidate = None, pe_maker_leg = ''long'',
     pe_hedge_inflight = None, pe_maker_fill_price = 0, pe_hedge_fill_price = 0, pe_repair_state = [],
     pe_passive_order = None, pe_next_progress_poll_ms = 0\<rparr>"

lemma unhedged_exposure_is_tracked_witness:
  "let xs = [Cycle_Accepted ''o'' ''c'' 5 None 5 1 6000,
             Maker_Progress \<lparr>pg_state = None, pg_cumulative_quantity = 2, pg_average_price = 10, pg_observed_at_ms = 6\<rparr>,
             Hedge_Progress 1 10 ''h''];
       p = foldl fill_step sample_entry xs
   in pe_maker_leg_filled p - pe_hedge_leg_filled p \<le> missing_hedge_quantity p + eps * real (maker_reports xs) \<and>
     pe_maker_leg_filled p \<le> pe_maker_leg_filled (foldl fill_step p [Hedge_Progress 2 10 ''h'']) \<and>
     pe_hedge_leg_filled p \<le> pe_hedge_leg_filled (foldl fill_step p [Hedge_Progress 2 10 ''h''])"
  unfolding Let_def
  by (rule unhedged_exposure_is_tracked [OF _ refl]) (simp add: fresh_entry_def sample_entry_def)

text \<open>Hedge consumption is first in, first out and conserves quantity. The consumed quantity
  is between 0 and what is asked; consumed plus what is left accounts for what was there up to
  1e-9 per popped slice; the request is served up to 1e-9 unless no slice is left; and the slices
  left are an end of the old list with at most its first slice reduced.\<close>

theorem consumption_is_fifo:
  assumes "eps < q" and "consume_hedge_quantity_fifo q p = (consumed, p')"
  shows "0 \<le> consumed \<and> consumed \<le> q \<and>
     consumed + remainder_quantity (slices p') \<le> remainder_quantity (seeded_slices p) \<and>
     remainder_quantity (seeded_slices p) \<le> consumed + remainder_quantity (slices p') +
       eps * real (length (seeded_slices p) - length (slices p')) \<and>
     (q - eps \<le> consumed \<or> slices p' = []) \<and>
     (\<exists>k. slices p' = drop k (seeded_slices p) \<or>
        (\<exists>t. k < length (seeded_slices p) \<and>
           slices p' = reduce_slice (rs_quantity (seeded_slices p ! k)) t (seeded_slices p ! k) # drop (Suc k) (seeded_slices p)))"
proof -
  have c: "consumed = fst (consume_loop q (seeded_slices p))" "slices p' = snd (consume_loop q (seeded_slices p))"
    using consume_slices [OF assms(1), of p] assms(2) by simp_all
  have "0 \<le> q" using eps_less_pos [OF assms(1)] by simp
  from consume_loop_bounds [OF this, of "seeded_slices p"] consume_loop_fifo [of q "seeded_slices p"]
  show ?thesis unfolding c [symmetric] by blast
qed

lemma consumption_is_fifo_witness:
  "let p = sample_entry\<lparr>pe_maker_remainder_slices := [\<lparr>rs_quantity = 1, rs_notional_quote = 10, rs_fill_at_ms = None\<rparr>,
                 \<lparr>rs_quantity = 3, rs_notional_quote = 33, rs_fill_at_ms = Some 4\<rparr>]\<rparr>
   in 0 \<le> fst (consume_hedge_quantity_fifo 2 p) \<and> fst (consume_hedge_quantity_fifo 2 p) \<le> 2 \<and>
      (2 - eps \<le> fst (consume_hedge_quantity_fifo 2 p) \<or> slices (snd (consume_hedge_quantity_fifo 2 p)) = [])"
proof -
  have "eps < (2::real)" using eps_less_1 by linarith
  from consumption_is_fifo [OF this prod.collapse [symmetric]] show ?thesis unfolding Let_def by blast
qed

text \<open>Maker progress is idempotent and bounded. Reporting the same progress twice in a row
  changes nothing the second time (and says so); the filled quantity never exceeds the order's
  checkpoint plus its target unless it already did; and the slices grow by exactly the newly
  filled quantity.\<close>

theorem maker_progress_idempotent:
  assumes "pe_passive_order p = Some po" and "p' = snd (apply_pending_entry_passive_progress (Some pg) p)"
  shows "apply_pending_entry_passive_progress (Some pg) p' = (False, p') \<and>
     (0 < po_target_quantity po \<longrightarrow> pe_maker_leg_filled p'
        \<le> max (pe_maker_leg_filled p) (po_fill_checkpoint_quantity po + po_target_quantity po)) \<and>
     remainder_quantity (slices p') - remainder_quantity (slices p) = pe_maker_leg_filled p' - pe_maker_leg_filled p"
proof -
  note f = apply_progress_fields [OF assms(1), of pg, folded assms(2)]
  have po: "pe_passive_order p' = Some (note_state pg po)" by (rule f(4))
  have no: "\<not> reported_quantity pg (note_state pg po) > pe_maker_leg_filled p' + eps"
    using f(1) eps_ge_0 by (auto simp: not_less)
  have "snd (apply_pending_entry_passive_progress (Some pg) p') = p'"
    using apply_progress_eq [OF po, of pg] no po by simp
  moreover have "\<not> fst (apply_pending_entry_passive_progress (Some pg) p')"
    using apply_progress_flag [OF po, of pg] no by simp
  ultimately have "apply_pending_entry_passive_progress (Some pg) p' = (False, p')"
    by (metis prod.collapse)
  moreover have "0 < po_target_quantity po \<Longrightarrow>
      reported_quantity pg po \<le> po_fill_checkpoint_quantity po + po_target_quantity po"
    by (simp add: reported_quantity_def)
  ultimately show ?thesis using f(1,5) by auto
qed

lemma maker_progress_idempotent_witness:
  "let p = note_pending_entry_passive_cycle_accepted ''o'' ''c'' 5 None 5 1 6000 sample_entry;
       pg = \<lparr>pg_state = Some PO_PARTIALLY_FILLED, pg_cumulative_quantity = 2, pg_average_price = 10, pg_observed_at_ms = 6\<rparr>;
       p' = snd (apply_pending_entry_passive_progress (Some pg) p)
   in apply_pending_entry_passive_progress (Some pg) p' = (False, p')"
proof -
  let ?p = "note_pending_entry_passive_cycle_accepted ''o'' ''c'' 5 None 5 1 6000 sample_entry"
  obtain po where "pe_passive_order ?p = Some po"
    by (simp add: note_pending_entry_passive_cycle_accepted_def note_pending_entry_passive_submit_def
        note_passive_operation_def sample_entry_def ensure_pending_entry_phase_state_def Let_def)
  from maker_progress_idempotent [OF this refl] show ?thesis unfolding Let_def by blast
qed

text \<open>C32: The zero-fill phases end. With a tradeable candidate, an entry whose maker cycles never
  fill stays on its preferred leg for the configured number of rounds (at least one), then on the
  opposite leg for as many, then triggers the dual taker, exactly once, in round
  2 * budget; every later round finalizes.\<close>

theorem zero_fill_phases_end:
  assumes "pe_phase_state p = None" and "pe_maker_leg p \<noteq> []" and "\<not> fst (candidate_blocked c)"
  shows "la_kind (fst (zero_fill_round st now c (zero_fill_rounds k st now c p))) =
       (if int (Suc k) < 2 * phase_zero_fill_budget st then ''submit_next_cycle''
        else if int (Suc k) = 2 * phase_zero_fill_budget st then ''trigger_dual_taker'' else ''finalized'') \<and>
     pe_maker_leg (zero_fill_rounds k st now c p) =
       (if int k < phase_zero_fill_budget st then pe_maker_leg p else opposite_maker_leg (pe_maker_leg p))"
proof -
  let ?p = "snd (ensure_pending_entry_phase_state now p)"
  have first_round: "zero_fill_round st now c ?p = zero_fill_round st now c p"
    by (simp add: zero_fill_round_def record_pending_entry_zero_fill_cycle_def
          ensure_pending_entry_phase_state_def assms(1) Let_def)
  have same: "zero_fill_rounds (Suc j) st now c ?p = zero_fill_rounds (Suc j) st now c p" for j
  proof (induction j)
    case 0
    then show ?case by (simp add: first_round)
  next
    case (Suc j)
    show ?case by (subst (1 2) zero_fill_rounds.simps(2)) (simp only: Suc.IH)
  qed
  have start: "phase_after st (pe_maker_leg p) 0 ?p"
    using assms(1,2) phase_budget_pos [of st]
    by (simp add: phase_after_def ensure_pending_entry_phase_state_def Let_def)
  have round: "zero_fill_round st now c (zero_fill_rounds k st now c ?p) = zero_fill_round st now c (zero_fill_rounds k st now c p)"
    using same first_round by (cases k) (simp_all only: zero_fill_rounds.simps(1))
  have leg: "pe_maker_leg (zero_fill_rounds k st now c ?p) = pe_maker_leg (zero_fill_rounds k st now c p)"
  proof (cases k)
    case 0
    then show ?thesis by (simp add: ensure_pending_entry_phase_state_def assms(1) Let_def)
  next
    case (Suc j)
    show ?thesis unfolding Suc same ..
  qed
  note after = zero_fill_rounds_phase [OF start assms(2,3), of k now]
  have "pe_maker_leg (zero_fill_rounds k st now c (snd (ensure_pending_entry_phase_state now p))) =
       (if int k < phase_zero_fill_budget st then pe_maker_leg p else opposite_maker_leg (pe_maker_leg p))"
    using after unfolding phase_after_def by (cases "int k < phase_zero_fill_budget st") auto
  with zero_fill_round_phase [OF after assms(2,3), of now, THEN conjunct2] show ?thesis
    unfolding round leg by (rule conjI)
qed

definition sample_strategy :: entry_strategy where
  "sample_strategy = \<lparr>st_pending_entry_phase_zero_fill_budget = 2, st_maker_phase_max_zero_fill_cycles = 0,
     st_maker_cycle_retry_delays_ms = [100], st_maker_entry_max_reposts = 3, st_maker_entry_progress_poll_ms = 1,
     st_maker_min_notional_accumulation_attempts = 1, st_passive_small_fill_buffer_notional_quote = 0,
     st_passive_small_fill_buffer_max_wait_ms = 1\<rparr>"

definition sample_candidate :: candidate where
  "sample_candidate = \<lparr>cd_is_tradeable = Some True, cd_blocked = False, cd_blocked_reasons = []\<rparr>"

lemma zero_fill_phases_end_witness:
  "la_kind (fst (zero_fill_round sample_strategy 9 (Some sample_candidate)
       (zero_fill_rounds 3 sample_strategy 9 (Some sample_candidate) sample_entry))) = ''trigger_dual_taker'' \<and>
   pe_maker_leg (zero_fill_rounds 3 sample_strategy 9 (Some sample_candidate) sample_entry) = ''short''"
proof -
  have "phase_zero_fill_budget sample_strategy = 2" by (simp add: phase_zero_fill_budget_def sample_strategy_def)
  moreover have "\<not> fst (candidate_blocked (Some sample_candidate))"
    by (simp add: candidate_blocked_def sample_candidate_def)
  moreover have "pe_phase_state sample_entry = None" "pe_maker_leg sample_entry = ''long''"
    by (simp_all add: sample_entry_def)
  ultimately show ?thesis
    using zero_fill_phases_end [of sample_entry "Some sample_candidate" sample_strategy 9 3]
    by (simp add: opposite_maker_leg_def)
qed

text \<open>Seeding counts the hedge twice. An entry with maker fills but no remainder slices (such
  as one whose fills were set by reconciliation) records the new hedge quantity first and then
  seeds its slices from the gap that is left, from which it consumes the same quantity again:
  after a hedge of d the quantity still to be hedged is d less than the true gap.\<close>

theorem legacy_seed_consumes_twice:
  assumes "slices p = []" and "eps < d" and "2 * d + eps < min (pe_maker_leg_filled p) (pe_target_quantity p) - pe_hedge_leg_filled p"
    and "p' = snd (apply_pending_entry_hedge_progress (pe_hedge_leg_filled p + d) price oid p)"
  shows "pe_hedge_leg_filled p' = pe_hedge_leg_filled p + d \<and>
     missing_hedge_quantity p' = min (pe_maker_leg_filled p) (pe_target_quantity p) - pe_hedge_leg_filled p' - d"
proof -
  let ?h = "pe_hedge_leg_filled p + d" and ?m = "min (pe_maker_leg_filled p) (pe_target_quantity p)"
  let ?q = "?m - ?h"
  have e: "1 / 1000000000000 < eps" by (simp add: eps_def)
  have d: "0 < d" "1 / 1000000000000 < d" using eps_less_pos [OF assms(2)] assms(2) e by linarith+
  have hd: "hedge_delta ?h p = d" using d by (simp add: hedge_delta_def)
  have q: "eps < ?q" "0 < ?q" using assms(3) d eps_less_pos [of ?q] by linarith+
  have legacy: "legacy_missing_hedge_quantity (p\<lparr>pe_hedge_leg_filled := ?h\<rparr>) = ?q"
    using q(2) by (simp add: legacy_missing_hedge_quantity_def Let_def)
  obtain n where seed: "seeded_slices (p\<lparr>pe_hedge_leg_filled := ?h\<rparr>) =
      [\<lparr>rs_quantity = ?q, rs_notional_quote = n, rs_fill_at_ms = None\<rparr>]"
    using assms(1) legacy q(1) by (simp add: seeded_slices_def push_slices)
  have left: "eps < ?q - d" using assms(3) by simp
  have "snd (consume_loop d [\<lparr>rs_quantity = ?q, rs_notional_quote = n, rs_fill_at_ms = None\<rparr>]) =
      [reduce_slice ?q d \<lparr>rs_quantity = ?q, rs_notional_quote = n, rs_fill_at_ms = None\<rparr>]"
    by (rule consume_loop_Cons [OF assms(2), of "\<lparr>rs_quantity = ?q, rs_notional_quote = n, rs_fill_at_ms = None\<rparr>" "[]"])
       (use q(1) left in simp_all)
  moreover have "slices p' = snd (consume_loop d (seeded_slices (p\<lparr>pe_hedge_leg_filled := ?h\<rparr>)))"
    using consume_slices [OF assms(2)] hd d(2) by (simp add: assms(4) hedge_progress_fields)
  ultimately have "remainder_quantity (slices p') = ?q - d"
    using seed eps_less_pos [OF left] by simp
  moreover have "pe_hedge_leg_filled p' = ?h" using hd d(2) by (simp add: assms(4) hedge_progress_fields)
  ultimately show ?thesis
    using eps_less_pos [OF left] by (simp add: missing_hedge_quantity_def unmatched_maker_quantity_def)
qed

lemma legacy_seed_consumes_twice_witness:
  "let p = sample_entry\<lparr>pe_maker_leg_filled := 5\<rparr>;
       p' = snd (apply_pending_entry_hedge_progress (pe_hedge_leg_filled p + 2) 10 ''h'' p)
   in pe_hedge_leg_filled p' = pe_hedge_leg_filled p + 2 \<and>
     missing_hedge_quantity p' = min (pe_maker_leg_filled p) (pe_target_quantity p) - pe_hedge_leg_filled p' - 2"
  unfolding Let_def
  by (rule legacy_seed_consumes_twice [OF _ _ _ refl]) (simp_all add: sample_entry_def eps_def)

end
