(* ===== verification/Hedge_Delta.thy ===== *)
theory Hedge_Delta
  imports Pending_Entry
begin

text \<open>
  \<open>lightfee/engine/pending_entry_hedge_delta.py\<close>: whether the unhedged part of a pending entry
  is hedged now, buffered, accumulated or given up, and the adaptive deadline of a hedge order.
  Arguments that the code tests with \<open>math.isfinite\<close> are \<open>pyfloat\<close>; the journal evidence is a
  record and a datatype with the same values.
\<close>

section \<open>Data\<close>

datatype hedge_deadline_status = HEALTHY | SOFT_BREACHED | HARD_BREACHED

datatype delta_evidence_extra =
    No_Extra
  | Chunk_Evidence pyfloat
  | Accumulation_Evidence int int real real bool
  | Buffer_Evidence real real int int

record delta_evidence =
  de_entry_id :: string
  de_symbol :: string
  de_missing_hedge_quantity :: real
  de_releasable_quantity :: real
  de_normalized_quantity :: real
  de_terminal_or_canceling :: bool
  de_extra :: delta_evidence_extra

record hedge_delta_decision =
  hd_kind :: string
  hd_reason :: string
  hd_releasable_quantity :: real
  hd_normalized_quantity :: real
  hd_next_progress_poll_ms :: "int option"
  hd_event :: string
  hd_evidence :: "delta_evidence option"

record deadline_decision =
  dd_effective_soft_deadline_ms :: int
  dd_effective_hard_deadline_ms :: int
  dd_status :: hedge_deadline_status
  dd_extension_ms :: int

section \<open>Helpers\<close>

definition finite_positive :: "pyfloat \<Rightarrow> real" where
  "finite_positive x = (case x of Fin r \<Rightarrow> if r \<le> eps then 0 else r | _ \<Rightarrow> 0)"


definition releasable_hedge_quantity :: "pyfloat \<Rightarrow> pyfloat \<Rightarrow> real" where
  "releasable_hedge_quantity unmatched_quantity min_hedgeable_chunk =
     (let unmatched = finite_positive unmatched_quantity
      in if unmatched \<le> eps then 0
         else case min_hedgeable_chunk of
                Fin chunk \<Rightarrow>
                  if chunk \<le> eps then unmatched
                  else
                    let whole_chunks = \<lfloor>unmatched / chunk\<rfloor>
                    in if whole_chunks \<le> 0 then 0 else of_int whole_chunks * chunk
              | _ \<Rightarrow> unmatched)"



definition missing_hedge :: "pending_entry \<Rightarrow> real" where
  "missing_hedge p = finite_positive (Fin (missing_hedge_quantity p))"




section \<open>The decision before a hedge is submitted\<close>





section \<open>The adaptive deadline\<close>

definition adaptive_hedge_deadline_extension_ms :: "real \<Rightarrow> bool \<Rightarrow> bool \<Rightarrow> bool \<Rightarrow> int \<Rightarrow> int" where
  "adaptive_hedge_deadline_extension_ms hedge_notional_quote quote_fresh has_execution_progress reconciled base_hard =
     (if \<not> quote_fresh then 0
      else if reconciled \<and> \<not> has_execution_progress then 0
      else
        let notional = max 0 hedge_notional_quote;
            base_extension_ms = (if notional \<le> 50 then 800 else if notional \<le> 150 then 400
                                 else if notional \<le> 300 then 200 else 0)
        in if base_extension_ms = 0 then 0
           else
             let progress_bonus_ms = (if has_execution_progress then 250 else 0);
                 reconciled_bonus_ms = (if reconciled \<and> has_execution_progress then 100 else 0);
                 execution_cap_ms = max 0 base_hard div 2
             in min (base_extension_ms + progress_bonus_ms + reconciled_bonus_ms) execution_cap_ms)"

definition adaptive_entry_hedge_deadline_decision ::
  "int \<Rightarrow> int \<Rightarrow> int \<Rightarrow> real \<Rightarrow> bool \<Rightarrow> bool \<Rightarrow> bool \<Rightarrow> deadline_decision" where
  "adaptive_entry_hedge_deadline_decision hedge_elapsed_ms base_soft_deadline_ms base_hard_deadline_ms
       hedge_notional_quote quote_fresh has_execution_progress reconciled =
     (let base_soft = max 0 base_soft_deadline_ms;
          base_hard = max 0 base_hard_deadline_ms;
          extension_ms = adaptive_hedge_deadline_extension_ms hedge_notional_quote quote_fresh
                           has_execution_progress reconciled base_hard;
          effective_hard = max (base_hard + extension_ms) (max base_soft 1);
          effective_soft = min (base_soft + extension_ms div 2) effective_hard;
          elapsed = max 0 hedge_elapsed_ms;
          status = (if elapsed > effective_hard then HARD_BREACHED
                    else if elapsed > effective_soft then SOFT_BREACHED else HEALTHY)
      in \<lparr>dd_effective_soft_deadline_ms = effective_soft, dd_effective_hard_deadline_ms = effective_hard,
          dd_status = status, dd_extension_ms = extension_ms\<rparr>)"

definition note_pending_entry_hedge_submitted ::
  "int \<Rightarrow> int \<Rightarrow> int \<Rightarrow> real \<Rightarrow> bool \<Rightarrow> pending_entry \<Rightarrow> deadline_decision \<times> pending_entry" where
  "note_pending_entry_hedge_submitted submitted_at_ms base_soft base_hard hedge_notional_quote quote_fresh p =
     (let decision = adaptive_entry_hedge_deadline_decision 0 base_soft base_hard hedge_notional_quote
                       quote_fresh False False;
          (ph, p) = ensure_pending_entry_phase_state submitted_at_ms p;
          existing = ph_hedge_deadline_at_ms ph
      in if existing = None \<or> the existing \<le> 0
         then (decision, p\<lparr>pe_phase_state := Some (ph\<lparr>ph_hedge_deadline_at_ms :=
                 Some (submitted_at_ms + dd_effective_hard_deadline_ms decision)\<rparr>)\<rparr>)
         else (decision, p))"

definition note_pending_entry_hedge_filled :: "pending_entry \<Rightarrow> pending_entry" where
  "note_pending_entry_hedge_filled p =
     (let (ph, p) = ensure_pending_entry_phase_state 0 p
      in p\<lparr>pe_phase_state := Some (ph\<lparr>ph_hedge_deadline_at_ms := None, ph_small_fill_min_notional_attempts := 0\<rparr>)\<rparr>)"

definition plain_decision :: "string \<Rightarrow> string \<Rightarrow> string \<Rightarrow> hedge_delta_decision" where
  "plain_decision kind reason event =
     \<lparr>hd_kind = kind, hd_reason = reason, hd_releasable_quantity = 0, hd_normalized_quantity = 0,
      hd_next_progress_poll_ms = None, hd_event = event, hd_evidence = None\<rparr>"

definition decide_pending_entry_hedge_submit_error :: "bool \<Rightarrow> deadline_decision \<Rightarrow> hedge_delta_decision" where
  "decide_pending_entry_hedge_submit_error may_have_created_exposure dd =
     (if dd_status dd = HARD_BREACHED
      then plain_decision (if may_have_created_exposure then ''fail_closed_abort'' else ''spread_timeout'')
             ''entry_hedge_deadline_breached'' ''execution.hedge_deadline_breached''
      else plain_decision ''abort_and_flatten'' ''entry_hedge_submit_error'' [])"

definition decide_pending_entry_hedge_deadline_timeout :: "deadline_decision \<Rightarrow> pending_entry \<Rightarrow> hedge_delta_decision" where
  "decide_pending_entry_hedge_deadline_timeout dd p =
     (if dd_status dd \<noteq> HARD_BREACHED
      then plain_decision ''keep_pending'' ''hedge_deadline_not_breached'' []
      else if missing_hedge p > eps
      then plain_decision ''spread_timeout'' ''entry_hedge_deadline_breached_with_unmatched_maker''
             ''execution.hedge_deadline_breached''
      else plain_decision ''keep_pending'' ''entry_hedge_deadline_breached_without_unmatched_maker''
             ''execution.hedge_deadline_breached'')"

section \<open>Lemmas\<close>

lemma finite_positive_cases:
  "finite_positive x = 0 \<or> (\<exists>r. x = Fin r \<and> eps < r \<and> finite_positive x = r)"
  by (cases x) (auto simp: finite_positive_def)

lemma releasable_bounds:
  assumes "eps < u"
  shows "0 \<le> releasable_hedge_quantity (Fin u) c \<and> releasable_hedge_quantity (Fin u) c \<le> u \<and>
     (case c of
        Fin chunk \<Rightarrow> if chunk \<le> eps then releasable_hedge_quantity (Fin u) c = u
          else u - releasable_hedge_quantity (Fin u) c < chunk \<and>
               (\<exists>k::int. releasable_hedge_quantity (Fin u) c = of_int k * chunk)
      | _ \<Rightarrow> releasable_hedge_quantity (Fin u) c = u)"
proof (cases c)
  case (Fin chunk)
  show ?thesis
  proof (cases "chunk \<le> eps")
    case True
    with Fin assms eps_less_pos [OF assms] show ?thesis
      by (simp add: releasable_hedge_quantity_def finite_positive_def Let_def)
  next
    case False
    then have chunk: "0 < chunk" using eps_less_pos by auto
    have u: "0 < u" by (rule eps_less_pos [OF assms])
    have k0: "0 \<le> \<lfloor>u / chunk\<rfloor>" using chunk u by simp
    have "releasable_hedge_quantity (Fin u) c = of_int \<lfloor>u / chunk\<rfloor> * chunk"
    proof (cases "\<lfloor>u / chunk\<rfloor> \<le> 0")
      case True
      with k0 have "\<lfloor>u / chunk\<rfloor> = 0" by linarith
      with Fin False assms show ?thesis
        by (simp only: releasable_hedge_quantity_def finite_positive_def Let_def pyfloat.case) simp
    next
      case pos: False
      with Fin False assms show ?thesis
        by (simp only: releasable_hedge_quantity_def finite_positive_def Let_def pyfloat.case) simp
    qed
    moreover have "of_int \<lfloor>u / chunk\<rfloor> * chunk \<le> u" using floor_divide_lower [OF chunk, of u] by simp
    moreover have "u < (of_int \<lfloor>u / chunk\<rfloor> + 1) * chunk" using floor_divide_upper [OF chunk, of u] by simp
    ultimately show ?thesis using Fin False chunk k0 by (auto simp: algebra_simps)
  qed
qed (use assms eps_less_pos [OF assms] in \<open>simp_all add: releasable_hedge_quantity_def finite_positive_def Let_def\<close>)

lemma extension_bounds:
  "0 \<le> adaptive_hedge_deadline_extension_ms n fresh prog rec (max 0 h) \<and>
   2 * adaptive_hedge_deadline_extension_ms n fresh prog rec (max 0 h) \<le> max 0 h \<and>
   adaptive_hedge_deadline_extension_ms n fresh prog rec (max 0 h) \<le> 1150"
  by (auto simp: adaptive_hedge_deadline_extension_ms_def Let_def)



section \<open>Properties\<close>

text \<open>What is released for hedging never exceeds the unhedged quantity, is a whole number of
  hedgeable chunks and leaves less than one chunk behind; without a usable chunk size everything
  is released.\<close>

theorem released_in_chunks:
  assumes "eps < u"
  shows "releasable_hedge_quantity (Fin u) c \<le> u \<and> 0 \<le> releasable_hedge_quantity (Fin u) c \<and>
     (case c of
        Fin chunk \<Rightarrow> if chunk \<le> eps then releasable_hedge_quantity (Fin u) c = u
          else u - releasable_hedge_quantity (Fin u) c < chunk \<and>
               (\<exists>k::int. releasable_hedge_quantity (Fin u) c = of_int k * chunk)
      | _ \<Rightarrow> releasable_hedge_quantity (Fin u) c = u)"
  using releasable_bounds [OF assms, of c] by blast

lemma released_in_chunks_witness:
  "releasable_hedge_quantity (Fin 7) (Fin 2) \<le> 7 \<and> 0 \<le> releasable_hedge_quantity (Fin 7) (Fin 2) \<and>
     7 - releasable_hedge_quantity (Fin 7) (Fin 2) < 2 \<and>
     (\<exists>k::int. releasable_hedge_quantity (Fin 7) (Fin 2) = of_int k * 2)"
proof -
  have "eps < (7::real)" "\<not> (2::real) \<le> eps" using eps_less_1 by linarith+
  then show ?thesis using released_in_chunks [of 7 "Fin 2"] by simp
qed



text \<open>The adaptive hedge deadline. The soft deadline never comes after the hard one, the hard
  one is positive and never earlier than the configured one, the extension is at most half of the
  configured hard deadline and at most 1150 ms, and the status only gets worse as time passes:
  healthy up to the soft deadline, soft up to the hard one, hard after it.\<close>

theorem adaptive_deadline_bounds:
  assumes "d = adaptive_entry_hedge_deadline_decision t s h n fresh prog rec"
  shows "dd_effective_soft_deadline_ms d \<le> dd_effective_hard_deadline_ms d \<and>
     1 \<le> dd_effective_hard_deadline_ms d \<and> h \<le> dd_effective_hard_deadline_ms d \<and>
     0 \<le> dd_extension_ms d \<and> 2 * dd_extension_ms d \<le> max 0 h \<and> dd_extension_ms d \<le> 1150 \<and>
     dd_status d = (if t \<le> dd_effective_soft_deadline_ms d then HEALTHY
        else if t \<le> dd_effective_hard_deadline_ms d then SOFT_BREACHED else HARD_BREACHED)"
proof -
  note ext = extension_bounds [of n fresh prog rec h]
  define x where "x = adaptive_hedge_deadline_extension_ms n fresh prog rec (max 0 h)"
  define hard where "hard = max (max 0 h + x) (max (max 0 s) 1)"
  define soft where "soft = min (max 0 s + x div 2) hard"
  have x: "0 \<le> x" "2 * x \<le> max 0 h" "x \<le> 1150" using ext by (simp_all add: x_def)
  then have hard: "1 \<le> hard" "h \<le> hard" by (simp_all add: hard_def)
  have "0 \<le> x div 2" using x by simp
  then have soft: "0 \<le> soft" "soft \<le> hard" using hard(1) by (simp_all add: soft_def)
  have d: "d = \<lparr>dd_effective_soft_deadline_ms = soft, dd_effective_hard_deadline_ms = hard,
      dd_status = (if max 0 t > hard then HARD_BREACHED else if max 0 t > soft then SOFT_BREACHED else HEALTHY),
      dd_extension_ms = x\<rparr>"
    by (simp only: assms adaptive_entry_hedge_deadline_decision_def Let_def x_def hard_def soft_def)
  have "(max 0 t > hard) = (t > hard)" "(max 0 t > soft) = (t > soft)" using hard soft by linarith+
  then show ?thesis using x hard soft by (auto simp: d)
qed

lemma adaptive_deadline_bounds_witness:
  "let d = adaptive_entry_hedge_deadline_decision 900 500 1000 100 True True False
   in dd_effective_soft_deadline_ms d \<le> dd_effective_hard_deadline_ms d \<and> dd_extension_ms d \<le> 1150"
  unfolding Let_def using adaptive_deadline_bounds [OF refl, of 900 500 1000 100 True True False] by blast

end
