(* ===== verification/Terminalizer.thy ===== *)
theory Terminalizer
  imports Pending_Entry
begin

text \<open>
  \<open>lightfee/engine/pending_entry_terminalizer.py\<close>: the authority that says whether a pending entry
  may be removed from the engine's store, from its recorded fills and what the exchanges report.
  The reported quantities are \<open>pyfloat\<close>: the code maps a value that is not a number to 0.
\<close>

section \<open>Data\<close>

record live_truth =
  lt_available :: bool
  lt_has_live_open_order :: bool
  lt_has_live_position :: bool
  lt_error :: string
  lt_positive_fill_requires_live_position :: bool
  lt_live_long_quantity :: pyfloat
  lt_live_short_quantity :: pyfloat
  lt_live_balanced_quantity :: pyfloat

definition default_truth :: live_truth where
  "default_truth = \<lparr>lt_available = True, lt_has_live_open_order = False, lt_has_live_position = False,
     lt_error = [], lt_positive_fill_requires_live_position = False, lt_live_long_quantity = Fin 0,
     lt_live_short_quantity = Fin 0, lt_live_balanced_quantity = Fin 0\<rparr>"

record terminal_decision =
  td_outcome :: string
  td_reason :: string
  td_terminal :: bool
  td_allows_pending_removal :: bool
  td_healthy :: bool
  td_operator_block_required :: bool
  td_matched_quantity :: real
  td_residual_quantity :: real
  td_contains_positive_fill_evidence :: bool
  td_live_long_quantity :: pyfloat
  td_live_short_quantity :: pyfloat
  td_live_balanced_quantity :: pyfloat

section \<open>Helpers\<close>

text \<open>\<open>_quantity\<close>: negative values and NaN count as 0; infinity stays.\<close>

fun quantity :: "pyfloat \<Rightarrow> pyfloat" where
  "quantity (Fin r) = Fin (max r 0)"
| "quantity PosInf = PosInf"
| "quantity NegInf = Fin 0"
| "quantity NaN = Fin 0"

abbreviation fill_quantity :: "real \<Rightarrow> real" where
  "fill_quantity r \<equiv> max r 0"

text \<open>\<open>x + 1e-9 >= m\<close> for a quantity that may be infinite.\<close>

fun covers :: "pyfloat \<Rightarrow> real \<Rightarrow> bool" where
  "covers (Fin r) m \<longleftrightarrow> r + eps \<ge> m"
| "covers PosInf m \<longleftrightarrow> True"
| "covers NegInf m \<longleftrightarrow> False"
| "covers NaN m \<longleftrightarrow> False"

definition passive_order_cancel_requested :: "pending_passive_order option \<Rightarrow> bool" where
  "passive_order_cancel_requested po = (case po of None \<Rightarrow> False | Some o' \<Rightarrow> cancel_requested o')"

text \<open>The enum's value, lower case.\<close>

fun state_name :: "passive_order_state \<Rightarrow> string" where
  "state_name PO_UNKNOWN = ''unknown''"
| "state_name PO_CREATED = ''created''"
| "state_name PO_OPEN = ''open''"
| "state_name PO_PARTIALLY_FILLED = ''partially_filled''"
| "state_name PO_FILLED = ''filled''"
| "state_name PO_CANCELED = ''canceled''"
| "state_name PO_REJECTED = ''rejected''"
| "state_name PO_EXPIRED = ''expired''"

definition passive_order_state_value :: "pending_passive_order option \<Rightarrow> string" where
  "passive_order_state_value po =
     (case po of None \<Rightarrow> [] | Some o' \<Rightarrow> state_name (po_last_progress_state o'))"

text \<open>The two shapes of decision: an entry is kept, or it is terminal.\<close>

definition keep :: "string \<Rightarrow> string \<Rightarrow> bool \<Rightarrow> real \<Rightarrow> real \<Rightarrow> bool \<Rightarrow> terminal_decision" where
  "keep outcome reason block matched residual positive =
     \<lparr>td_outcome = outcome, td_reason = reason, td_terminal = False, td_allows_pending_removal = False,
      td_healthy = False, td_operator_block_required = block, td_matched_quantity = matched,
      td_residual_quantity = residual, td_contains_positive_fill_evidence = positive,
      td_live_long_quantity = Fin 0, td_live_short_quantity = Fin 0, td_live_balanced_quantity = Fin 0\<rparr>"

definition remove :: "string \<Rightarrow> string \<Rightarrow> real \<Rightarrow> real \<Rightarrow> bool \<Rightarrow> terminal_decision" where
  "remove outcome reason matched residual positive =
     \<lparr>td_outcome = outcome, td_reason = reason, td_terminal = True, td_allows_pending_removal = True,
      td_healthy = True, td_operator_block_required = False, td_matched_quantity = matched,
      td_residual_quantity = residual, td_contains_positive_fill_evidence = positive,
      td_live_long_quantity = Fin 0, td_live_short_quantity = Fin 0, td_live_balanced_quantity = Fin 0\<rparr>"

definition with_live :: "pyfloat \<Rightarrow> pyfloat \<Rightarrow> pyfloat \<Rightarrow> terminal_decision \<Rightarrow> terminal_decision" where
  "with_live l s b d = d\<lparr>td_live_long_quantity := l, td_live_short_quantity := s, td_live_balanced_quantity := b\<rparr>"

section \<open>The decisions\<close>

definition missing_truth_reason :: "live_truth \<Rightarrow> string" where
  "missing_truth_reason t = (if lt_error t \<noteq> [] then lt_error t else ''exchange_truth_unavailable'')"

definition decide :: "pending_entry \<Rightarrow> live_truth option \<Rightarrow> terminal_decision" where
  "decide p live_truth =
     (let t = (case live_truth of Some t \<Rightarrow> t | None \<Rightarrow> default_truth);
          maker_filled = fill_quantity (pe_maker_leg_filled p);
          hedge_filled = fill_quantity (pe_hedge_leg_filled p);
          matched = max (min maker_filled hedge_filled) 0;
          residual = \<bar>maker_filled - hedge_filled\<bar>;
          has_positive_fill = (maker_filled > eps \<or> hedge_filled > eps);
          long = quantity (lt_live_long_quantity t);
          short = quantity (lt_live_short_quantity t);
          balanced = quantity (lt_live_balanced_quantity t);
          requires = (lt_positive_fill_requires_live_position t \<and> matched > eps)
      in if \<not> lt_available t
         then keep ''deferred_missing_live_truth'' (missing_truth_reason t) True matched residual has_positive_fill
         else if lt_has_live_open_order t
         then keep ''deferred_live_open_order'' ''live_maker_order_requires_owner_or_terminal_evidence''
                False matched residual has_positive_fill
         else if lt_has_live_position t \<and> \<not> has_positive_fill
         then keep ''deferred_live_position'' ''live_position_truth_blocks_zero_fill_terminality''
                False matched residual False
         else if requires \<and> has_positive_fill \<and> \<not> covers balanced matched
         then with_live long short balanced
                (keep ''positive_fill_live_truth_conflict''
                   (if lt_has_live_position t then ''positive_fill_conflicts_with_live_unmatched_truth''
                    else ''positive_fill_conflicts_with_live_flat_truth'')
                   True matched residual True)
         else if \<not> has_positive_fill
         then remove ''passive_unfilled'' ''zero_fill_with_no_live_artifact'' 0 0 False
         else
           let balanced = (if requires \<and> covers balanced matched then Fin matched else balanced)
           in if matched > eps
              then with_live long short balanced
                     (remove (if residual > eps then ''open_position_with_residual'' else ''open_position'')
                        ''positive_fill_terminalized_with_matched_exposure'' matched residual True)
              else with_live long short balanced
                     (remove ''unmatched_residual_cleanup'' ''positive_fill_without_matched_hedge''
                        0 residual True))"

definition decide_supervision_stale_clear ::
  "pending_entry \<Rightarrow> live_truth option \<Rightarrow> bool \<Rightarrow> terminal_decision" where
  "decide_supervision_stale_clear p live_truth passive_progress_found =
     (let t = (case live_truth of Some t \<Rightarrow> t | None \<Rightarrow> default_truth);
          maker_filled = fill_quantity (pe_maker_leg_filled p);
          hedge_filled = fill_quantity (pe_hedge_leg_filled p);
          has_positive_fill = (maker_filled > eps \<or> hedge_filled > eps)
      in if \<not> lt_available t
         then keep ''deferred_missing_live_truth'' (missing_truth_reason t) True 0 0 has_positive_fill
         else if lt_has_live_open_order t
         then keep ''deferred_live_open_order'' ''live_maker_order_requires_owner_or_terminal_evidence''
                False 0 0 has_positive_fill
         else if lt_has_live_position t
         then keep ''deferred_live_position'' ''live_position_truth_blocks_supervision_stale_clear''
                False 0 0 has_positive_fill
         else if has_positive_fill
         then keep ''deferred_positive_fill_evidence'' ''positive_fill_blocks_supervision_stale_clear''
                False (max (min maker_filled hedge_filled) 0) \<bar>maker_filled - hedge_filled\<bar> True
         else if pe_hedge_inflight p \<noteq> None
         then keep ''deferred_hedge_inflight'' ''hedge_inflight_blocks_supervision_stale_clear'' False 0 0 False
         else if passive_order_cancel_requested (pe_passive_order p)
         then keep ''deferred_cancel_requested'' ''cancel_requested_blocks_supervision_stale_clear'' False 0 0 False
         else if passive_order_state_value (pe_passive_order p) \<noteq> ''open''
         then keep ''deferred_passive_progress'' ''passive_order_not_resting'' False 0 0 False
         else if passive_progress_found
         then keep ''deferred_passive_progress'' ''passive_progress_still_exists'' False 0 0 False
         else remove ''supervision_passive_unfilled'' ''zero_fill_resting_progress_absent_no_live_artifact'' 0 0 False)"

text \<open>\<open>remove_if_allowed\<close>: whether the entry was let go, and the store.\<close>

definition remove_if_allowed ::
  "string \<Rightarrow> terminal_decision \<Rightarrow> (string, pending_entry) dict \<Rightarrow> bool \<times> (string, pending_entry) dict" where
  "remove_if_allowed entry_id decision entries =
     (if \<not> td_allows_pending_removal decision then (False, entries)
      else (True, dict_pop entry_id entries))"

section \<open>Lemmas\<close>

abbreviation truth_of :: "live_truth option \<Rightarrow> live_truth" where
  "truth_of t \<equiv> (case t of Some t \<Rightarrow> t | None \<Rightarrow> default_truth)"

lemma keep_simps [simp]:
  "td_outcome (keep oc r b m q e) = oc" "td_terminal (keep oc r b m q e) = False"
  "td_allows_pending_removal (keep oc r b m q e) = False" "td_healthy (keep oc r b m q e) = False"
  "td_operator_block_required (keep oc r b m q e) = b" "td_matched_quantity (keep oc r b m q e) = m"
  "td_residual_quantity (keep oc r b m q e) = q" "td_contains_positive_fill_evidence (keep oc r b m q e) = e"
  by (simp_all add: keep_def)

lemma remove_simps [simp]:
  "td_outcome (remove oc r m q e) = oc" "td_terminal (remove oc r m q e) = True"
  "td_allows_pending_removal (remove oc r m q e) = True" "td_healthy (remove oc r m q e) = True"
  "td_operator_block_required (remove oc r m q e) = False" "td_matched_quantity (remove oc r m q e) = m"
  "td_residual_quantity (remove oc r m q e) = q" "td_contains_positive_fill_evidence (remove oc r m q e) = e"
  by (simp_all add: remove_def)

lemma with_live_simps [simp]:
  "td_outcome (with_live l s b d) = td_outcome d" "td_terminal (with_live l s b d) = td_terminal d"
  "td_allows_pending_removal (with_live l s b d) = td_allows_pending_removal d"
  "td_healthy (with_live l s b d) = td_healthy d"
  "td_operator_block_required (with_live l s b d) = td_operator_block_required d"
  "td_matched_quantity (with_live l s b d) = td_matched_quantity d"
  "td_residual_quantity (with_live l s b d) = td_residual_quantity d"
  "td_contains_positive_fill_evidence (with_live l s b d) = td_contains_positive_fill_evidence d"
  by (simp_all add: with_live_def)

lemma positive_fill_iff: "(fill_quantity m > eps \<or> fill_quantity h > eps) \<longleftrightarrow> m > eps \<or> h > eps"
  using eps_pos by (auto simp: max_def)

lemma state_name_open [simp]: "state_name s = ''open'' \<longleftrightarrow> s = PO_OPEN"
  by (cases s) auto

lemma resting_iff:
  "passive_order_state_value po = ''open'' \<and> \<not> passive_order_cancel_requested po \<longleftrightarrow>
     (\<exists>o'. po = Some o' \<and> po_last_progress_state o' = PO_OPEN \<and> \<not> cancel_requested o')"
  by (cases po) (auto simp: passive_order_state_value_def passive_order_cancel_requested_def)

lemmas fill_facts = has_any_fill_def positive_fill_iff [symmetric]

lemma decide_flags:
  "td_terminal (decide p t) = td_allows_pending_removal (decide p t) \<and>
   td_healthy (decide p t) = td_allows_pending_removal (decide p t)"
  unfolding decide_def Let_def
  by (simp only: if_distrib [of td_terminal] if_distrib [of td_healthy] if_distrib [of td_allows_pending_removal]
      keep_simps remove_simps with_live_simps simp_thms)

lemma stale_clear_flags:
  "td_terminal (decide_supervision_stale_clear p t f) = td_allows_pending_removal (decide_supervision_stale_clear p t f) \<and>
   td_healthy (decide_supervision_stale_clear p t f) = td_allows_pending_removal (decide_supervision_stale_clear p t f)"
  unfolding decide_supervision_stale_clear_def Let_def
  by (simp only: if_distrib [of td_terminal] if_distrib [of td_healthy] if_distrib [of td_allows_pending_removal]
      keep_simps remove_simps simp_thms)

lemma matched_iff:
  "max (min (fill_quantity m) (fill_quantity h)) 0 > eps \<longleftrightarrow> m > eps \<and> h > eps"
  using eps_pos by (auto simp: max_def min_def)

lemma matched_eq: "m > eps \<Longrightarrow> h > eps \<Longrightarrow> max (min (fill_quantity m) (fill_quantity h)) 0 = min m h"
  using eps_pos by (auto simp: max_def min_def)

lemma decide_removal_iff:
  "td_allows_pending_removal (decide p lt) \<longleftrightarrow>
     lt_available (truth_of lt) \<and> \<not> lt_has_live_open_order (truth_of lt) \<and>
     (lt_has_live_position (truth_of lt) \<longrightarrow> has_any_fill p) \<and>
     (lt_positive_fill_requires_live_position (truth_of lt) \<and> eps < pe_maker_leg_filled p \<and> eps < pe_hedge_leg_filled p \<longrightarrow>
        covers (quantity (lt_live_balanced_quantity (truth_of lt))) (min (pe_maker_leg_filled p) (pe_hedge_leg_filled p)))"
proof (cases "eps < pe_maker_leg_filled p \<and> eps < pe_hedge_leg_filled p")
  case True
  then show ?thesis
    by (simp add: decide_def Let_def positive_fill_iff matched_eq has_any_fill_def)
next
  case False
  then show ?thesis
    by (simp add: decide_def Let_def positive_fill_iff matched_iff has_any_fill_def)
qed

lemma stale_clear_removal_iff:
  "td_allows_pending_removal (decide_supervision_stale_clear p lt found) \<longleftrightarrow>
     lt_available (truth_of lt) \<and> \<not> lt_has_live_open_order (truth_of lt) \<and> \<not> lt_has_live_position (truth_of lt) \<and>
     \<not> has_any_fill p \<and> pe_hedge_inflight p = None \<and> \<not> found \<and>
     (\<exists>po. pe_passive_order p = Some po \<and> po_last_progress_state po = PO_OPEN \<and> \<not> cancel_requested po)"
  by (simp only: resting_iff [symmetric])
     (simp add: decide_supervision_stale_clear_def Let_def has_any_fill_def positive_fill_iff)

lemma remove_if_allowed_get:
  "dict_get (snd (remove_if_allowed i d es)) j =
     (if td_allows_pending_removal d \<and> j = i then None else dict_get es j)"
  by (simp add: remove_if_allowed_def)

section \<open>Properties\<close>

text \<open>C5: When the terminalizer lets a pending entry go. Given exchange truth, exactly when that truth
  is available, no order of the entry rests on an exchange, a live position is explained by a recorded
  fill (more than 1e-9 on a leg), and (where matched fills must be visible as a live position) the
  reported balanced position, read as a number of at least 0, covers the matched quantity up to 1e-9.
  Called without any exchange truth it always lets the entry go: the parameter's default counts as an
  available report that nothing is live. The decision is terminal and healthy exactly when the entry
  may be removed.\<close>

theorem removal_conditions:
  "(td_allows_pending_removal (decide p lt) \<longleftrightarrow>
     (case lt of
        None \<Rightarrow> True
      | Some t \<Rightarrow>
          lt_available t \<and> \<not> lt_has_live_open_order t \<and>
          (lt_has_live_position t \<longrightarrow> eps < pe_maker_leg_filled p \<or> eps < pe_hedge_leg_filled p) \<and>
          (lt_positive_fill_requires_live_position t \<and> eps < pe_maker_leg_filled p \<and> eps < pe_hedge_leg_filled p \<longrightarrow>
             covers (quantity (lt_live_balanced_quantity t)) (min (pe_maker_leg_filled p) (pe_hedge_leg_filled p))))) \<and>
   td_terminal (decide p lt) = td_allows_pending_removal (decide p lt) \<and>
   td_healthy (decide p lt) = td_allows_pending_removal (decide p lt)"
proof (intro conjI)
  show "td_allows_pending_removal (decide p lt) \<longleftrightarrow>
     (case lt of
        None \<Rightarrow> True
      | Some t \<Rightarrow>
          lt_available t \<and> \<not> lt_has_live_open_order t \<and>
          (lt_has_live_position t \<longrightarrow> eps < pe_maker_leg_filled p \<or> eps < pe_hedge_leg_filled p) \<and>
          (lt_positive_fill_requires_live_position t \<and> eps < pe_maker_leg_filled p \<and> eps < pe_hedge_leg_filled p \<longrightarrow>
             covers (quantity (lt_live_balanced_quantity t)) (min (pe_maker_leg_filled p) (pe_hedge_leg_filled p))))"
    by (cases lt) (simp_all add: decide_removal_iff default_truth_def has_any_fill_def)
qed (use decide_flags in blast)+

lemma removal_conditions_witness:
  "\<not> td_allows_pending_removal (decide (sample_entry\<lparr>pe_maker_leg_filled := 3, pe_hedge_leg_filled := 2\<rparr>)
     (Some (default_truth\<lparr>lt_positive_fill_requires_live_position := True, lt_live_balanced_quantity := Fin 1\<rparr>))) \<and>
   td_allows_pending_removal (decide (sample_entry\<lparr>pe_maker_leg_filled := 3, pe_hedge_leg_filled := 2\<rparr>) None)"
proof -
  have e: "eps < (2::real)" "eps < (3::real)" "\<not> (1::real) \<le> eps" using eps_less_1 by linarith+
  show ?thesis
    using removal_conditions [of "sample_entry\<lparr>pe_maker_leg_filled := 3, pe_hedge_leg_filled := 2\<rparr>"
       "Some (default_truth\<lparr>lt_positive_fill_requires_live_position := True, lt_live_balanced_quantity := Fin 1\<rparr>)"]
      removal_conditions [of "sample_entry\<lparr>pe_maker_leg_filled := 3, pe_hedge_leg_filled := 2\<rparr>" None]
    by (simp add: default_truth_def e)
qed

text \<open>C21: What a terminal decision says about the fills of an entry. It is \<open>passive_unfilled\<close> exactly
  when nothing was filled; with both legs filled it is an open position of the matched quantity, with
  a residual exactly when the legs differ by more than 1e-9, and matched plus residual quantity is
  the larger leg; with one leg filled all of that leg is residual to be cleaned up.\<close>

theorem terminal_outcome_accounts_for_fills:
  assumes "td_terminal (decide p lt)" and "0 \<le> pe_maker_leg_filled p" and "0 \<le> pe_hedge_leg_filled p"
  defines "d \<equiv> decide p lt" and "m \<equiv> pe_maker_leg_filled p" and "h \<equiv> pe_hedge_leg_filled p"
  shows "(td_outcome d = ''passive_unfilled'' \<longleftrightarrow> \<not> has_any_fill p) \<and>
     (has_any_fill p \<longrightarrow>
        (if eps < m \<and> eps < h
         then td_outcome d = (if eps < \<bar>m - h\<bar> then ''open_position_with_residual'' else ''open_position'') \<and>
              td_matched_quantity d = min m h \<and> td_matched_quantity d + td_residual_quantity d = max m h
         else td_outcome d = ''unmatched_residual_cleanup'' \<and> td_matched_quantity d = 0 \<and>
              td_residual_quantity d = \<bar>m - h\<bar>))"
proof -
  have t: "lt_available (truth_of lt)" "\<not> lt_has_live_open_order (truth_of lt)"
    "lt_has_live_position (truth_of lt) \<longrightarrow> has_any_fill p"
    and live: "lt_positive_fill_requires_live_position (truth_of lt) \<and> eps < m \<and> eps < h \<longrightarrow>
        covers (quantity (lt_live_balanced_quantity (truth_of lt))) (min m h)"
    using assms(1) decide_flags [of p lt] by (simp_all add: decide_removal_iff m_def h_def)
  have pos: "fill_quantity m = m" "fill_quantity h = h" using assms(2,3) by (simp_all add: m_def h_def)
  have sum: "min m h + \<bar>m - h\<bar> = max m h" by linarith
  show ?thesis
  proof (cases "has_any_fill p")
    case False
    with t have "d = remove ''passive_unfilled'' ''zero_fill_with_no_live_artifact'' 0 0 False"
      unfolding d_def decide_def Let_def has_any_fill_def using matched_iff [of m h]
      by (simp add: positive_fill_iff m_def h_def)
    with False show ?thesis by simp
  next
    case any: True
    then have fill: "eps < fill_quantity m \<or> eps < fill_quantity h"
      by (simp only: has_any_fill_def pos m_def [symmetric] h_def [symmetric])
    show ?thesis
    proof (cases "eps < m \<and> eps < h")
      case True
      with t live any fill show ?thesis
        unfolding d_def decide_def Let_def m_def [symmetric] h_def [symmetric]
        by (simp add: pos matched_eq [unfolded pos] matched_iff sum)
    next
      case False
      with t any fill show ?thesis
        unfolding d_def decide_def Let_def m_def [symmetric] h_def [symmetric]
        using matched_iff [of m h] by (simp add: pos) blast
    qed
  qed
qed

lemma terminal_outcome_accounts_for_fills_witness:
  "td_outcome (decide (sample_entry\<lparr>pe_maker_leg_filled := 3, pe_hedge_leg_filled := 2\<rparr>) None)
     = ''open_position_with_residual''"
proof -
  let ?p = "sample_entry\<lparr>pe_maker_leg_filled := 3, pe_hedge_leg_filled := 2\<rparr>"
  have e: "eps < (2::real)" "eps < (3::real)" "eps < (1::real)" using eps_less_1 by linarith+
  have "td_terminal (decide ?p None)"
    using decide_flags [of ?p None] by (simp add: decide_removal_iff default_truth_def e)
  then show ?thesis
    using terminal_outcome_accounts_for_fills [of ?p None] by (simp add: has_any_fill_def e)
qed

text \<open>Clearing a stale entry is narrower than terminalizing it. Supervision removes an entry only
  if nothing was filled, no hedge is in flight, the maker order rests uncancelled, its progress
  could not be found, and the exchanges report neither an order nor a position; whenever it does, the
  general decision on the same truth removes it too, as unfilled. Applied to the store, no entry with
  a fill and no other entry is ever lost.\<close>

theorem stale_clear_is_narrow:
  "(td_allows_pending_removal (decide_supervision_stale_clear p lt found) \<longleftrightarrow>
     lt_available (truth_of lt) \<and> \<not> lt_has_live_open_order (truth_of lt) \<and> \<not> lt_has_live_position (truth_of lt) \<and>
     \<not> has_any_fill p \<and> pe_hedge_inflight p = None \<and> \<not> found \<and>
     (\<exists>po. pe_passive_order p = Some po \<and> po_last_progress_state po = PO_OPEN \<and> \<not> cancel_requested po)) \<and>
   (td_allows_pending_removal (decide_supervision_stale_clear p lt found) \<longrightarrow>
      td_allows_pending_removal (decide p lt) \<and> td_outcome (decide p lt) = ''passive_unfilled'') \<and>
   (dict_get es i = Some p \<longrightarrow> dict_get es j = Some q \<longrightarrow> j \<noteq> i \<or> has_any_fill q \<longrightarrow>
      dict_get (snd (remove_if_allowed i (decide_supervision_stale_clear p lt found) es)) j = Some q)"
proof -
  let ?a = "td_allows_pending_removal (decide_supervision_stale_clear p lt found)"
  have general: "td_allows_pending_removal (decide p lt) \<and> td_outcome (decide p lt) = ''passive_unfilled''" if ?a
  proof -
    note c = that [unfolded stale_clear_removal_iff]
    then have n: "\<not> (eps < pe_maker_leg_filled p)" "\<not> (eps < pe_hedge_leg_filled p)"
      by (simp_all add: has_any_fill_def)
    with c have "td_allows_pending_removal (decide p lt)" by (simp add: decide_removal_iff)
    moreover have "td_outcome (decide p lt) = ''passive_unfilled''"
      using c n by (simp add: decide_def Let_def positive_fill_iff)
    ultimately show ?thesis by blast
  qed
  moreover have "dict_get (snd (remove_if_allowed i (decide_supervision_stale_clear p lt found) es)) j = Some q"
    if "dict_get es i = Some p" "dict_get es j = Some q" "j \<noteq> i \<or> has_any_fill q"
    using that stale_clear_removal_iff [of p lt found] by (auto simp: remove_if_allowed_get)
  ultimately show ?thesis using stale_clear_removal_iff [of p lt found] by blast
qed

lemma stale_clear_is_narrow_witness:
  "dict_get (snd (remove_if_allowed ''a'' (decide_supervision_stale_clear (sample_entry\<lparr>pe_maker_leg_filled := 3\<rparr>) None False)
      [(''a'', sample_entry\<lparr>pe_maker_leg_filled := 3\<rparr>)])) ''a'' = Some (sample_entry\<lparr>pe_maker_leg_filled := 3\<rparr>)"
proof -
  have e: "eps < (3::real)" using eps_less_1 by linarith
  show ?thesis
    by (rule stale_clear_is_narrow [of "sample_entry\<lparr>pe_maker_leg_filled := 3\<rparr>" None False "[(''a'', sample_entry\<lparr>pe_maker_leg_filled := 3\<rparr>)]" "''a''" "''a''" "sample_entry\<lparr>pe_maker_leg_filled := 3\<rparr>",
          THEN conjunct2, THEN conjunct2, rule_format]) (simp_all add: has_any_fill_def e)
qed
end
