(* ===== verification/Passive_Orders.thy ===== *)
theory Passive_Orders
  imports Prelude
begin

text \<open>
  Management of a resting maker order: \<open>lightfee/engine/passive_order_manager.py\<close> (budget of
  operations as a token bucket, cooldown after failures, the decision to hold, amend or replace),
  the sequence of calls that the maker event lane of \<open>lightfee/engine/passive_maker_runtime.py\<close>
  makes on a manager, and the older decision of \<open>lightfee/engine/passive_maker.py\<close>.
\<close>

section \<open>Data\<close>

datatype passive_skip_reason =
    BELOW_REPRICE_THRESHOLD | MIN_AMEND_INTERVAL_NOT_ELAPSED | OPS_BUDGET_EXCEEDED
  | FOLLOW_MARKET_REPRICE_DISABLED | MISSING_BOOK_DATA

datatype passive_replace_reason = TIMEOUT | LARGE_DEVIATION | AMEND_UNSUPPORTED | AMEND_FAILED

datatype passive_cooldown_reason = CONSECUTIVE_FAILURES_EXCEEDED | ACTIVE_COOLDOWN

datatype decision_type = HOLD | PLACE | AMEND | CANCEL_REPLACE | COOLDOWN | COMPLETE

record manager_decision =
  md_kind :: decision_type
  md_price :: real
  md_quantity :: real
  md_new_price :: real
  md_new_quantity :: "real option"
  md_until_ms :: int
  md_skip_reason :: "passive_skip_reason option"
  md_replace_reason :: "passive_replace_reason option"
  md_cooldown_reason :: "passive_cooldown_reason option"

definition decision :: "decision_type \<Rightarrow> manager_decision" where
  "decision kind = \<lparr>md_kind = kind, md_price = 0, md_quantity = 0, md_new_price = 0, md_new_quantity = None,
     md_until_ms = 0, md_skip_reason = None, md_replace_reason = None, md_cooldown_reason = None\<rparr>"

record manager_profile =
  mp_reprice_threshold_ticks :: int
  mp_cancel_replace_threshold_ticks :: int
  mp_min_amend_interval_ms :: int
  mp_reprice_threshold_bps :: real
  mp_cancel_replace_threshold_bps :: real
  mp_ops_bucket_capacity :: real
  mp_ops_bucket_refill_per_sec :: real
  mp_working_timeout_ms :: int
  mp_max_ops_per_sec :: int
  mp_max_consecutive_failures :: int
  mp_failure_cooldown_ms :: int
  mp_follow_market_reprice_enabled :: bool
  mp_prefer_amend_over_cancel :: bool

definition default_profile :: manager_profile where
  "default_profile = \<lparr>mp_reprice_threshold_ticks = 2, mp_cancel_replace_threshold_ticks = 5,
     mp_min_amend_interval_ms = 300, mp_reprice_threshold_bps = 2, mp_cancel_replace_threshold_bps = 6,
     mp_ops_bucket_capacity = 8, mp_ops_bucket_refill_per_sec = 8, mp_working_timeout_ms = 3000,
     mp_max_ops_per_sec = 8, mp_max_consecutive_failures = 5, mp_failure_cooldown_ms = 5000,
     mp_follow_market_reprice_enabled = True, mp_prefer_amend_over_cancel = True\<rparr>"

record decision_input =
  di_tick_size :: real
  di_reference_mid_price :: "real option"
  di_target_price :: "real option"
  di_current_price :: "real option"
  di_resting_since_ms :: "int option"
  di_target_quantity :: real
  di_supports_amend :: bool

record passive_manager =
  pm_profile :: manager_profile
  pm_last_action_at_ms :: "int option"
  pm_last_refill_at_ms :: "int option"
  pm_tokens :: real
  pm_consecutive_failures :: int
  pm_cooldown_until_ms :: "int option"

section \<open>Distances and thresholds\<close>

definition positive_price :: "real option \<Rightarrow> bool" where
  "positive_price p = (case p of None \<Rightarrow> False | Some x \<Rightarrow> x > 0)"

definition passive_price_distance_bps :: "real option \<Rightarrow> real option \<Rightarrow> real option \<Rightarrow> real option" where
  "passive_price_distance_bps current_price target_price reference_mid_price =
     (if positive_price current_price \<and> positive_price target_price \<and> positive_price reference_mid_price
      then Some (\<bar>the current_price - the target_price\<bar> / the reference_mid_price * 10000) else None)"

definition passive_tick_distance :: "real option \<Rightarrow> real option \<Rightarrow> real \<Rightarrow> real option" where
  "passive_tick_distance current_price target_price tick_size =
     (if tick_size \<le> 0 then None
      else if positive_price current_price \<and> positive_price target_price
      then Some (\<bar>the current_price - the target_price\<bar> / tick_size) else None)"

definition threshold_bps :: "real \<Rightarrow> int \<Rightarrow> real \<Rightarrow> real option \<Rightarrow> real option" where
  "threshold_bps configured_bps threshold_ticks tick_size reference_mid_price =
     (if positive_price reference_mid_price \<and> tick_size > 0
      then Some (max configured_bps (of_int threshold_ticks * tick_size / the reference_mid_price * 10000))
      else if configured_bps \<ge> 0 then Some configured_bps else None)"

text \<open>\<open>a is not None and b is not None and a < b\<close>.\<close>

definition opt_less :: "real option \<Rightarrow> real option \<Rightarrow> bool" where
  "opt_less a b = (case a of None \<Rightarrow> False | Some x \<Rightarrow> (case b of None \<Rightarrow> False | Some y \<Rightarrow> x < y))"

section \<open>The bucket of operations\<close>

definition effective_capacity :: "manager_profile \<Rightarrow> real" where
  "effective_capacity p = min (mp_ops_bucket_capacity p) (of_int (max (mp_max_ops_per_sec p) 1))"

definition effective_refill_per_sec :: "manager_profile \<Rightarrow> real" where
  "effective_refill_per_sec p = min (mp_ops_bucket_refill_per_sec p) (of_int (max (mp_max_ops_per_sec p) 1))"

definition new_manager :: "manager_profile \<Rightarrow> passive_manager" where
  "new_manager p = \<lparr>pm_profile = p, pm_last_action_at_ms = None, pm_last_refill_at_ms = None,
     pm_tokens = effective_capacity p, pm_consecutive_failures = 0, pm_cooldown_until_ms = None\<rparr>"

definition refill_ops_bucket :: "int \<Rightarrow> passive_manager \<Rightarrow> passive_manager" where
  "refill_ops_bucket now m =
     (let capacity = effective_capacity (pm_profile m);
          refill_per_sec = effective_refill_per_sec (pm_profile m);
          tokens = (case pm_last_refill_at_ms m of
                      Some l \<Rightarrow>
                        let elapsed = max 0 (now - l)
                        in min capacity (pm_tokens m + of_int elapsed * refill_per_sec / 1000)
                    | None \<Rightarrow> capacity)
      in m\<lparr>pm_tokens := tokens, pm_last_refill_at_ms := Some now\<rparr>)"

definition note_operation :: "int \<Rightarrow> passive_manager \<Rightarrow> passive_manager" where
  "note_operation now m =
     (let m = refill_ops_bucket now m
      in m\<lparr>pm_tokens := (if pm_tokens m \<ge> 1 then pm_tokens m - 1 else 0), pm_last_action_at_ms := Some now\<rparr>)"

definition note_success :: "int \<Rightarrow> passive_manager \<Rightarrow> passive_manager" where
  "note_success now m =
     (refill_ops_bucket now m)\<lparr>pm_consecutive_failures := 0, pm_last_action_at_ms := Some now,
        pm_cooldown_until_ms := None\<rparr>"

definition note_failure :: "int \<Rightarrow> passive_manager \<Rightarrow> passive_manager" where
  "note_failure now m =
     (let m = refill_ops_bucket now m;
          m = m\<lparr>pm_consecutive_failures := pm_consecutive_failures m + 1, pm_last_action_at_ms := Some now\<rparr>
      in if pm_consecutive_failures m \<ge> mp_max_consecutive_failures (pm_profile m)
         then m\<lparr>pm_cooldown_until_ms := Some (now + mp_failure_cooldown_ms (pm_profile m))\<rparr>
         else m)"

definition is_in_cooldown :: "passive_manager \<Rightarrow> int \<Rightarrow> bool" where
  "is_in_cooldown m now = (case pm_cooldown_until_ms m of None \<Rightarrow> False | Some u \<Rightarrow> now < u)"

record manager_runtime =
  rt_last_action_at_ms :: "int option"
  rt_ops_window_started_at_ms :: "int option"
  rt_ops_in_window :: int
  rt_ops_bucket_last_refill_at_ms :: "int option"
  rt_ops_bucket_tokens :: real
  rt_consecutive_failures :: int
  rt_cooldown_until_ms :: "int option"

definition runtime_dict :: "passive_manager \<Rightarrow> manager_runtime" where
  "runtime_dict m =
     \<lparr>rt_last_action_at_ms = pm_last_action_at_ms m, rt_ops_window_started_at_ms = pm_last_refill_at_ms m,
      rt_ops_in_window = \<lfloor>max 0 (effective_capacity (pm_profile m) - pm_tokens m)\<rfloor>,
      rt_ops_bucket_last_refill_at_ms = pm_last_refill_at_ms m, rt_ops_bucket_tokens = pm_tokens m,
      rt_consecutive_failures = pm_consecutive_failures m, rt_cooldown_until_ms = pm_cooldown_until_ms m\<rparr>"

section \<open>The decision\<close>

definition hold :: "passive_skip_reason \<Rightarrow> manager_decision" where
  "hold r = (decision HOLD)\<lparr>md_skip_reason := Some r\<rparr>"

definition cancel_replace :: "real \<Rightarrow> real \<Rightarrow> passive_replace_reason \<Rightarrow> manager_decision" where
  "cancel_replace price q r = (decision CANCEL_REPLACE)\<lparr>md_new_price := price, md_new_quantity := Some q,
     md_replace_reason := Some r\<rparr>"

text \<open>The part of \<open>decide\<close> after a resting order has been found not to have timed out.\<close>

definition reprice_decision :: "decision_input \<Rightarrow> real \<Rightarrow> int \<Rightarrow> passive_manager \<Rightarrow> manager_decision" where
  "reprice_decision i target_price now m =
     (let p = pm_profile m;
          tick_dist = passive_tick_distance (di_current_price i) (di_target_price i) (di_tick_size i);
          bps_dist = passive_price_distance_bps (di_current_price i) (di_target_price i) (di_reference_mid_price i);
          below_reprice =
            (opt_less bps_dist (threshold_bps (mp_reprice_threshold_bps p) (mp_reprice_threshold_ticks p)
               (di_tick_size i) (di_reference_mid_price i)) \<or>
             opt_less tick_dist (Some (of_int (mp_reprice_threshold_ticks p))))
      in if below_reprice then hold BELOW_REPRICE_THRESHOLD
         else if \<not> mp_follow_market_reprice_enabled p then hold FOLLOW_MARKET_REPRICE_DISABLED
         else if (case pm_last_action_at_ms m of None \<Rightarrow> False
                  | Some a \<Rightarrow> now - a < mp_min_amend_interval_ms p)
         then hold MIN_AMEND_INTERVAL_NOT_ELAPSED
         else
           let below_cancel_replace =
             (opt_less bps_dist (threshold_bps (mp_cancel_replace_threshold_bps p) (mp_cancel_replace_threshold_ticks p)
                (di_tick_size i) (di_reference_mid_price i)) \<or>
              opt_less tick_dist (Some (of_int (mp_cancel_replace_threshold_ticks p))))
           in if di_supports_amend i \<and> mp_prefer_amend_over_cancel p \<and> below_cancel_replace
              then (decision AMEND)\<lparr>md_new_price := target_price, md_new_quantity := Some (di_target_quantity i)\<rparr>
              else if pm_tokens m < 2 then hold OPS_BUDGET_EXCEEDED
              else cancel_replace target_price (di_target_quantity i)
                     (if di_supports_amend i then LARGE_DEVIATION else AMEND_UNSUPPORTED))"

definition decide_action :: "decision_input \<Rightarrow> int \<Rightarrow> passive_manager \<Rightarrow> manager_decision" where
  "decide_action i now m =
     (if pm_tokens m < 1 then hold OPS_BUDGET_EXCEEDED
      else case di_target_price i of
        None \<Rightarrow> hold MISSING_BOOK_DATA
      | Some target_price \<Rightarrow>
          if \<not> target_price > 0 then hold MISSING_BOOK_DATA
          else if di_tick_size i \<le> 0 then hold MISSING_BOOK_DATA
          else if di_current_price i = None
          then (decision PLACE)\<lparr>md_price := target_price, md_quantity := di_target_quantity i\<rparr>
          else if (case di_resting_since_ms i of None \<Rightarrow> False
                   | Some r \<Rightarrow> now - r \<ge> mp_working_timeout_ms (pm_profile m))
          then cancel_replace target_price (di_target_quantity i) TIMEOUT
          else reprice_decision i target_price now m)"

definition decide_passive :: "decision_input \<Rightarrow> int \<Rightarrow> passive_manager \<Rightarrow> manager_decision \<times> passive_manager" where
  "decide_passive i now m =
     (if is_in_cooldown m now
      then ((decision COOLDOWN)\<lparr>md_until_ms := the (pm_cooldown_until_ms m), md_cooldown_reason := Some ACTIVE_COOLDOWN\<rparr>, m)
      else
        let m = refill_ops_bucket now (m\<lparr>pm_cooldown_until_ms := None\<rparr>)
        in (decide_action i now m, m))"

section \<open>The maker event lane\<close>

text \<open>
  What \<open>_maybe_tick_maker_event_local_l2\<close> does with a manager on one wake-up of an entry: decide, take
  one operation for an amendment and two for a replacement before calling the venue, and note
  whether the call succeeded (\<open>ok\<close>). Returns the number of operations sent.
\<close>

definition operations :: "decision_type \<Rightarrow> nat" where
  "operations k = (case k of AMEND \<Rightarrow> 1 | CANCEL_REPLACE \<Rightarrow> 2 | _ \<Rightarrow> 0)"

definition lane_step :: "decision_input \<Rightarrow> int \<Rightarrow> bool \<Rightarrow> passive_manager \<Rightarrow> nat \<times> passive_manager" where
  "lane_step i now ok m =
     (let (d, m) = decide_passive i now m; n = operations (md_kind d)
      in if n = 0 then (0, m)
         else let m = (note_operation now ^^ n) m
              in (n, if ok then note_success now m else note_failure now m))"

section \<open>The older decision\<close>

datatype maker_decision = M_PLACE | M_HOLD | M_AMEND | M_CANCEL_REPLACE | M_COOLDOWN | M_BUDGET_EXCEEDED

datatype passive_phase = HIGH_SLIPPAGE_MAKER | LOW_SLIPPAGE_MAKER | DUAL_TAKER

record passive_maker_state =
  ms_phase :: passive_phase
  ms_zero_fill_cycles :: int
  ms_max_zero_fill_cycles :: int
  ms_consecutive_failures :: int
  ms_ops_tokens :: real
  ms_cooling_down_until_ms :: int

definition decide_passive_action ::
  "real option \<Rightarrow> real option \<Rightarrow> int \<Rightarrow> int \<Rightarrow> real \<Rightarrow> int \<Rightarrow> int \<Rightarrow> int \<Rightarrow> bool \<Rightarrow> passive_maker_state
     \<Rightarrow> maker_decision \<times> string" where
  "decide_passive_action current_price target_price reprice_threshold_ticks cancel_replace_threshold_ticks
       tick_size min_amend_interval_ms last_action_ms now prefer_amend s =
     (if ms_cooling_down_until_ms s > now then (M_COOLDOWN, ''cooling_down'')
      else if ms_ops_tokens s \<le> 0 then (M_BUDGET_EXCEEDED, ''ops_budget_exhausted'')
      else if current_price = None \<or> target_price = None \<or> tick_size \<le> 0 then (M_HOLD, ''missing_book_data'')
      else
        let distance_ticks = \<bar>the current_price - the target_price\<bar> / tick_size
        in if distance_ticks < of_int reprice_threshold_ticks then (M_HOLD, ''within_reprice_threshold'')
           else if now - last_action_ms < min_amend_interval_ms then (M_HOLD, ''min_amend_interval'')
           else if distance_ticks < of_int cancel_replace_threshold_ticks \<and> prefer_amend
           then (M_AMEND, ''amend_within_cancel_replace_threshold'')
           else (M_CANCEL_REPLACE, ''large_deviation''))"

section \<open>The bucket\<close>

lemma ops_refill_simps [simp]:
  "pm_profile (refill_ops_bucket t m) = pm_profile m"
  "pm_last_refill_at_ms (refill_ops_bucket t m) = Some t"
  "pm_cooldown_until_ms (refill_ops_bucket t m) = pm_cooldown_until_ms m"
  "pm_consecutive_failures (refill_ops_bucket t m) = pm_consecutive_failures m"
  "pm_last_action_at_ms (refill_ops_bucket t m) = pm_last_action_at_ms m"
  by (simp_all add: refill_ops_bucket_def Let_def)

definition credit_at :: "passive_manager \<Rightarrow> int \<Rightarrow> real" where
  "credit_at m t = pm_tokens (refill_ops_bucket t m)"

definition rate_of :: "passive_manager \<Rightarrow> real" where
  "rate_of m = effective_refill_per_sec (pm_profile m) / 1000"

text \<open>A manager whose bucket is within its bounds, with non-negative settings.\<close>

definition manager_ok :: "passive_manager \<Rightarrow> bool" where
  "manager_ok m \<longleftrightarrow> 0 \<le> pm_tokens m \<and> pm_tokens m \<le> effective_capacity (pm_profile m) \<and> 0 \<le> rate_of m"

definition refilled_before :: "passive_manager \<Rightarrow> int \<Rightarrow> bool" where
  "refilled_before m t = (case pm_last_refill_at_ms m of None \<Rightarrow> True | Some l \<Rightarrow> l \<le> t)"

lemma credit_cooldown [simp]: "credit_at (m\<lparr>pm_cooldown_until_ms := c\<rparr>) t = credit_at m t"
  by (cases "pm_last_refill_at_ms m") (simp_all add: credit_at_def refill_ops_bucket_def Let_def)

lemma credit_Some:
  "pm_last_refill_at_ms m = Some l \<Longrightarrow>
     credit_at m t = min (effective_capacity (pm_profile m)) (pm_tokens m + rate_of m * of_int (max 0 (t - l)))"
  by (simp add: credit_at_def rate_of_def refill_ops_bucket_def Let_def mult.commute)

lemma credit_None: "pm_last_refill_at_ms m = None \<Longrightarrow> credit_at m t = effective_capacity (pm_profile m)"
  by (simp add: credit_at_def refill_ops_bucket_def Let_def)

lemma credit_bounds:
  assumes "manager_ok m"
  shows "0 \<le> credit_at m t" "credit_at m t \<le> effective_capacity (pm_profile m)"
proof -
  have "0 \<le> rate_of m * of_int (max 0 (t - l))" for l
    using assms by (simp add: manager_ok_def)
  then show "0 \<le> credit_at m t"
    using assms by (cases "pm_last_refill_at_ms m")
      (auto simp: credit_Some credit_None manager_ok_def intro: order_trans)
  show "credit_at m t \<le> effective_capacity (pm_profile m)"
    by (cases "pm_last_refill_at_ms m") (simp_all add: credit_Some credit_None)
qed

lemma credit_same: "manager_ok m \<Longrightarrow> pm_last_refill_at_ms m = Some t \<Longrightarrow> credit_at m t = pm_tokens m"
  by (simp add: credit_Some manager_ok_def)

lemma credit_grows:
  assumes "manager_ok m" "refilled_before m s" "s \<le> t"
  shows "credit_at m t \<le> credit_at m s + rate_of m * of_int (t - s)"
proof (cases "pm_last_refill_at_ms m")
  case None
  then show ?thesis using assms by (simp add: credit_None manager_ok_def)
next
  case (Some l)
  then have "l \<le> s" using assms(2) by (simp add: refilled_before_def)
  then have "rate_of m * of_int (max 0 (t - l)) = rate_of m * of_int (max 0 (s - l)) + rate_of m * of_int (t - s)"
    using assms(3) by (simp add: algebra_simps)
  moreover have "0 \<le> rate_of m * of_int (t - s)" using assms(1,3) by (simp add: manager_ok_def)
  ultimately show ?thesis using Some by (simp add: credit_Some)
qed

lemma ops_refill_ok: "manager_ok m \<Longrightarrow> manager_ok (refill_ops_bucket t m)"
  using credit_bounds [of m t] by (simp add: manager_ok_def credit_at_def rate_of_def)

lemma refill_again:
  "manager_ok m \<Longrightarrow> pm_last_refill_at_ms m = Some t \<Longrightarrow> refill_ops_bucket t m = m"
  using credit_same [of m t] by (simp add: credit_at_def refill_ops_bucket_def Let_def manager_ok_def)

lemma note_operation_tokens:
  assumes "manager_ok m" "pm_last_refill_at_ms m = Some t" "1 \<le> pm_tokens m"
  shows "note_operation t m = m\<lparr>pm_tokens := pm_tokens m - 1, pm_last_action_at_ms := Some t\<rparr>"
    and "manager_ok (note_operation t m)"
  using assms by (simp_all add: note_operation_def Let_def refill_again)
    (simp add: manager_ok_def rate_of_def)

lemma note_operations_tokens:
  "manager_ok m \<Longrightarrow> pm_last_refill_at_ms m = Some t \<Longrightarrow> real n \<le> pm_tokens m \<Longrightarrow>
     pm_tokens ((note_operation t ^^ n) m) = pm_tokens m - n \<and> manager_ok ((note_operation t ^^ n) m) \<and>
     pm_last_refill_at_ms ((note_operation t ^^ n) m) = Some t \<and> pm_profile ((note_operation t ^^ n) m) = pm_profile m"
proof (induction n)
  case 0
  then show ?case by simp
next
  case (Suc n)
  let ?m = "(note_operation t ^^ n) m"
  have IH: "pm_tokens ?m = pm_tokens m - n" "manager_ok ?m" "pm_last_refill_at_ms ?m = Some t" "pm_profile ?m = pm_profile m"
    using Suc by simp_all
  moreover have "1 \<le> pm_tokens ?m" using IH(1) Suc.prems(3) by simp
  ultimately show ?case using note_operation_tokens [of ?m t] by simp
qed

lemma note_result_bucket:
  assumes "manager_ok m" "pm_last_refill_at_ms m = Some t"
  shows "pm_tokens (note_success t m) = pm_tokens m" "pm_last_refill_at_ms (note_success t m) = Some t"
    "pm_profile (note_success t m) = pm_profile m"
    "pm_tokens (note_failure t m) = pm_tokens m" "pm_last_refill_at_ms (note_failure t m) = Some t"
    "pm_profile (note_failure t m) = pm_profile m"
  using assms by (simp_all add: note_success_def note_failure_def Let_def refill_again)

section \<open>What the lane does to the bucket\<close>

lemma decision_kind [simp]:
  "md_kind (hold r) = HOLD" "md_kind (cancel_replace p q s) = CANCEL_REPLACE"
  "md_kind ((decision k)\<lparr>md_new_price := a, md_new_quantity := b\<rparr>) = k"
  "md_kind ((decision k)\<lparr>md_price := c, md_quantity := d\<rparr>) = k"
  by (simp_all add: hold_def cancel_replace_def decision_def)

lemma reprice_affordable:
  "1 \<le> pm_tokens m \<Longrightarrow> real (operations (md_kind (reprice_decision i p now m))) \<le> pm_tokens m"
  by (simp add: reprice_decision_def Let_def operations_def)

lemma decide_action_affordable:
  assumes "di_resting_since_ms i = None" "0 \<le> pm_tokens m"
  shows "real (operations (md_kind (decide_action i now m))) \<le> pm_tokens m"
  using assms reprice_affordable [of m i _ now]
  by (simp add: decide_action_def operations_def split: option.split)

lemma lane_step_bucket:
  assumes m: "manager_ok m" and i: "di_resting_since_ms i = None" and r: "refilled_before m now"
    and step: "lane_step i now ok m = (n, m')"
  shows "(n = 0 \<and> m' = m) \<or>
    (pm_tokens m' = credit_at m now - n \<and> real n \<le> credit_at m now \<and>
     pm_last_refill_at_ms m' = Some now \<and> pm_profile m' = pm_profile m)"
proof (cases "is_in_cooldown m now")
  case True
  with step show ?thesis by (simp add: lane_step_def decide_passive_def decision_def operations_def)
next
  case False
  define b where "b = refill_ops_bucket now (m\<lparr>pm_cooldown_until_ms := None\<rparr>)"
  define k where "k = operations (md_kind (decide_action i now b))"
  have ok0: "manager_ok (m\<lparr>pm_cooldown_until_ms := None\<rparr>)" using m by (simp add: manager_ok_def rate_of_def)
  have b: "manager_ok b" "pm_last_refill_at_ms b = Some now" "pm_profile b = pm_profile m"
    using ops_refill_ok [OF ok0] by (simp_all add: b_def)
  have tok: "pm_tokens b = credit_at m now"
    using credit_cooldown [where m = m and c = None and t = now] by (simp add: b_def credit_at_def)
  have k: "real k \<le> pm_tokens b"
    using decide_action_affordable [OF i] b(1) by (simp add: k_def manager_ok_def)
  have s: "lane_step i now ok m = (if k = 0 then (0, b) else
      (k, if ok then note_success now ((note_operation now ^^ k) b) else note_failure now ((note_operation now ^^ k) b)))"
    using False by (simp add: lane_step_def decide_passive_def Let_def b_def k_def)
  note ops = note_operations_tokens [OF b(1,2) k]
  show ?thesis
  proof (cases "k = 0")
    case True
    then show ?thesis using s step b tok k by simp
  next
    case n0: False
    with s step have "n = k" "m' = (if ok then note_success now ((note_operation now ^^ k) b)
        else note_failure now ((note_operation now ^^ k) b))" by simp_all
    with ops k b(3) tok show ?thesis by (simp add: note_result_bucket)
  qed
qed

type_synonym lane_event = "decision_input \<times> int \<times> bool"

fun lane_next :: "passive_manager \<Rightarrow> lane_event \<Rightarrow> passive_manager" where
  "lane_next m (i, now, ok) = snd (lane_step i now ok m)"

fun lane_sent :: "passive_manager \<Rightarrow> lane_event \<Rightarrow> real" where
  "lane_sent m (i, now, ok) = real (fst (lane_step i now ok m))"

text \<open>The lane never passes a resting time; clock readings do not go back.\<close>

fun lane_admissible :: "int \<Rightarrow> int \<Rightarrow> passive_manager \<Rightarrow> lane_event \<Rightarrow> bool" where
  "lane_admissible u v m (i, now, ok) \<longleftrightarrow>
     di_resting_since_ms i = None \<and> u \<le> now \<and> now \<le> v \<and> refilled_before m now"

text \<open>What can still be sent until \<open>v\<close>: what the bucket holds now and its refill.\<close>

definition allowance :: "int \<Rightarrow> int \<Rightarrow> passive_manager \<Rightarrow> real" where
  "allowance u v m =
     (let s = (case pm_last_refill_at_ms m of None \<Rightarrow> u | Some l \<Rightarrow> max u l)
      in credit_at m s + rate_of m * of_int (v - s))"

lemma allowance_pays:
  assumes m: "manager_ok m" and e: "lane_admissible u v m (i, now, ok)"
    and step: "lane_step i now ok m = (n, m')"
  shows "manager_ok m' \<and> pm_profile m' = pm_profile m \<and> allowance u v m' + real n \<le> allowance u v m"
proof -
  from e have i: "di_resting_since_ms i = None" and t: "u \<le> now" "now \<le> v" and r: "refilled_before m now"
    by simp_all
  from lane_step_bucket [OF m i r step] show ?thesis
  proof (elim disjE conjE)
    assume "n = 0" "m' = m"
    then show ?thesis using m by simp
  next
    assume a: "pm_tokens m' = credit_at m now - real n" "real n \<le> credit_at m now"
      "pm_last_refill_at_ms m' = Some now" "pm_profile m' = pm_profile m"
    have rate: "rate_of m' = rate_of m" using a(4) by (simp add: rate_of_def)
    have m': "manager_ok m'"
      using a m credit_bounds [OF m, of now] by (simp add: manager_ok_def rate)
    define s where "s = (case pm_last_refill_at_ms m of None \<Rightarrow> u | Some l \<Rightarrow> max u l)"
    have s: "refilled_before m s" "s \<le> now"
      using t r by (auto simp: s_def refilled_before_def split: option.splits)
    have "allowance u v m' + real n = credit_at m now + rate_of m * of_int (v - now)"
      using a(1,3) credit_same [OF m' a(3)] t by (simp add: allowance_def Let_def rate max_def)
    also have "\<dots> \<le> credit_at m s + rate_of m * of_int (now - s) + rate_of m * of_int (v - now)"
      using credit_grows [OF m s] by simp
    also have "\<dots> = allowance u v m" by (simp add: allowance_def s_def Let_def algebra_simps)
    finally show ?thesis using m' a(4) by simp
  qed
qed

lemma lane_step_refilled:
  assumes "manager_ok m" "lane_admissible u v m (i, now, ok)" "lane_step i now ok m = (n, m')" "now \<le> t"
  shows "refilled_before m' t"
  using lane_step_bucket [OF assms(1) _ _ assms(3)] assms(2,4) by (auto simp: refilled_before_def split: option.splits)

interpretation lane: metered_system lane_next
    "\<lambda>m. manager_ok m \<and> pm_profile m = p \<and> refilled_before m v" "lane_admissible u v"
    "allowance u v" lane_sent "\<lambda>_ _. 0" for u v p
proof unfold_locales
  fix m e
  assume m: "manager_ok m \<and> pm_profile m = p \<and> refilled_before m v" and e: "lane_admissible u v m e"
  obtain i now ok where x: "e = (i, now, ok)" by (cases e)
  obtain n m' where st: "lane_step i now ok m = (n, m')" by (cases "lane_step i now ok m")
  have "manager_ok m' \<and> pm_profile m' = pm_profile m \<and> allowance u v m' + real n \<le> allowance u v m"
    using m e by (intro allowance_pays [OF _ _ st]) (simp_all add: x)
  moreover have "refilled_before m' v"
    using m e lane_step_refilled [OF _ _ st, of u v v] by (simp add: x)
  ultimately show "manager_ok (lane_next m e) \<and> pm_profile (lane_next m e) = p \<and> refilled_before (lane_next m e) v"
    and "allowance u v (lane_next m e) + lane_sent m e \<le> allowance u v m + 0"
    using m by (simp_all add: x st)
qed

lemma allowance_bounds:
  assumes "manager_ok m" "u \<le> v"
  shows "refilled_before m u \<Longrightarrow> allowance u v m \<le> effective_capacity (pm_profile m) + rate_of m * of_int (v - u)"
    and "refilled_before m v \<Longrightarrow> 0 \<le> allowance u v m"
proof -
  define s where "s = (case pm_last_refill_at_ms m of None \<Rightarrow> u | Some l \<Rightarrow> max u l)"
  have a: "allowance u v m = credit_at m s + rate_of m * of_int (v - s)" by (simp add: allowance_def s_def Let_def)
  show "allowance u v m \<le> effective_capacity (pm_profile m) + rate_of m * of_int (v - u)" if "refilled_before m u"
  proof -
    have "s = u" using that by (auto simp: s_def refilled_before_def split: option.splits)
    then show ?thesis using credit_bounds [OF assms(1), of u] by (simp add: a)
  qed
  show "0 \<le> allowance u v m" if "refilled_before m v"
  proof -
    have "s \<le> v" using that assms(2) by (auto simp: s_def refilled_before_def split: option.splits)
    then show ?thesis using credit_bounds [OF assms(1), of s] assms(1) by (simp add: a manager_ok_def)
  qed
qed

lemma admissible_run:
  assumes "manager_ok m" "u \<le> v" "refilled_before m u"
    and "sorted (map (\<lambda>(i, now, ok). now) es)"
    and "\<forall>(i, now, ok) \<in> set es. di_resting_since_ms i = None \<and> u \<le> now \<and> now \<le> v"
  shows "run_ok lane_next (lane_admissible u v) m es"
proof -
  have "\<forall>u'. u \<le> u' \<longrightarrow> manager_ok m \<longrightarrow> refilled_before m u' \<longrightarrow> (\<forall>(i, now, ok) \<in> set es. u' \<le> now) \<longrightarrow>
      run_ok lane_next (lane_admissible u v) m es"
    using assms(4,5)
  proof (induction es arbitrary: m)
    case Nil
    then show ?case by simp
  next
    case (Cons e es)
    obtain i now ok where x: "e = (i, now, ok)" by (cases e)
    show ?case
    proof (intro allI impI)
      fix u' assume u': "u \<le> u'" and m: "manager_ok m" and r: "refilled_before m u'"
        and es: "\<forall>(i, now, ok) \<in> set (e # es). u' \<le> now"
      obtain n m' where st: "lane_step i now ok m = (n, m')" by (cases "lane_step i now ok m")
      have "u' \<le> now" using es x by simp
      then have "refilled_before m now" using r by (auto simp: refilled_before_def split: option.splits)
      with Cons.prems x have adm: "lane_admissible u v m (i, now, ok)" by simp
      have m': "manager_ok m'" using allowance_pays [OF m adm st] by blast
      have "\<forall>(i', t, ok') \<in> set es. now \<le> t" using Cons.prems(1) x by fastforce
      moreover have "refilled_before m' now" by (rule lane_step_refilled [OF m adm st order.refl])
      moreover have "u \<le> now" using u' \<open>u' \<le> now\<close> by simp
      ultimately have "run_ok lane_next (lane_admissible u v) m' es"
        using Cons.IH [of m'] Cons.prems m' by simp
      then show "run_ok lane_next (lane_admissible u v) m (e # es)" using adm st x by simp
    qed
  qed
  moreover have "\<forall>(i, now, ok) \<in> set es. u \<le> now" using assms(5) by auto
  ultimately show ?thesis using assms(1,3) by blast
qed

section \<open>Properties\<close>

text \<open>C23: The rate at which the maker lane sends order operations. Whatever the market does and however
  the calls end, over any window from \<open>u\<close> to \<open>v\<close> milliseconds the lane sends, for one entry,
  at most the bucket's capacity plus what is refilled in that time, an amendment counting as one operation
  and a replacement as two; capacity and refill are both capped by \<open>max_ops_per_sec\<close>.\<close>

theorem passive_operations_rate_limited:
  assumes "manager_ok m" and "refilled_before m u" and "u \<le> v"
    and "sorted (map (\<lambda>(i, now, ok). now) es)"
    and "\<forall>(i, now, ok) \<in> set es. di_resting_since_ms i = None \<and> u \<le> now \<and> now \<le> v"
  shows "run_sum lane_next lane_sent m es
      \<le> effective_capacity (pm_profile m) + effective_refill_per_sec (pm_profile m) * of_int (v - u) / 1000"
proof -
  have r: "refilled_before m v"
    using assms(2,3) by (auto simp: refilled_before_def split: option.splits)
  note run = admissible_run [OF assms(1,3,2,4,5)]
  have inv: "manager_ok m \<and> pm_profile m = pm_profile m \<and> refilled_before m v" using assms(1) r by blast
  let ?fin = "foldl lane_next m es"
  have "manager_ok ?fin" "refilled_before ?fin v" using lane.run_inv [OF inv run] by blast+
  then have "0 \<le> allowance u v ?fin" using allowance_bounds(2) assms(3) by blast
  moreover have "run_sum lane_next (\<lambda>_ _. 0) m es = 0" by (induction es arbitrary: m) auto
  moreover note lane.run_charge_le [OF inv run] allowance_bounds(1) [OF assms(1,3,2)]
  ultimately show ?thesis by (simp add: rate_of_def)
qed

definition sample_input :: "real \<Rightarrow> decision_input" where
  "sample_input target = \<lparr>di_tick_size = 1, di_reference_mid_price = None, di_target_price = Some target,
     di_current_price = Some 100, di_resting_since_ms = None, di_target_quantity = 1, di_supports_amend = True\<rparr>"

lemma passive_operations_rate_limited_witness:
  "run_sum lane_next lane_sent (new_manager default_profile) [(sample_input 110, 0, True), (sample_input 103, 500, True)] \<le> 12"
  using passive_operations_rate_limited [of "new_manager default_profile" 0 500
      "[(sample_input 110, 0, True), (sample_input 103, 500, True)]"]
  by (simp add: manager_ok_def rate_of_def refilled_before_def new_manager_def default_profile_def
      effective_capacity_def effective_refill_per_sec_def sample_input_def)

lemma decide_kind_cooldown: "md_kind (fst (decide_passive i now m)) = COOLDOWN \<longleftrightarrow> is_in_cooldown m now"
proof -
  have "md_kind (decide_action i now b) \<noteq> COOLDOWN" for b
    by (simp add: decide_action_def reprice_decision_def Let_def split: option.split)
  then show ?thesis by (simp add: decide_passive_def Let_def decision_def)
qed

lemma note_failures:
  defines "fails m ts \<equiv> fold note_failure ts m"
  shows "pm_profile (fails m ts) = pm_profile m"
    and "pm_consecutive_failures (fails m ts) = pm_consecutive_failures m + int (length ts)"
    and "ts \<noteq> [] \<Longrightarrow> mp_max_consecutive_failures (pm_profile m) \<le> pm_consecutive_failures m + int (length ts) \<Longrightarrow>
      pm_cooldown_until_ms (fails m ts) = Some (List.last ts + mp_failure_cooldown_ms (pm_profile m))"
    and "pm_consecutive_failures m + int (length ts) < mp_max_consecutive_failures (pm_profile m) \<Longrightarrow>
      pm_cooldown_until_ms (fails m ts) = pm_cooldown_until_ms m"
  unfolding fails_def
  by (induction ts arbitrary: m) (auto simp: note_failure_def Let_def)

text \<open>The failure cooldown. When the failures in a row reach the configured maximum, every decision
  until the last failure's time plus the cooldown is COOLDOWN and no later one is; fewer failures
  after a success never start a cooldown.\<close>

theorem failures_start_cooldown:
  assumes "ts \<noteq> []" and "0 \<le> pm_consecutive_failures m"
  shows "(mp_max_consecutive_failures (pm_profile m) \<le> int (length ts) \<longrightarrow>
        (md_kind (fst (decide_passive i now (fold note_failure ts m))) = COOLDOWN \<longleftrightarrow>
           now < List.last ts + mp_failure_cooldown_ms (pm_profile m))) \<and>
     (int (length ts) < mp_max_consecutive_failures (pm_profile m) \<longrightarrow>
        md_kind (fst (decide_passive i now (fold note_failure ts (note_success t m)))) \<noteq> COOLDOWN)"
proof -
  have "pm_consecutive_failures (note_success t m) = 0" "pm_cooldown_until_ms (note_success t m) = None"
    "pm_profile (note_success t m) = pm_profile m"
    by (simp_all add: note_success_def)
  with assms show ?thesis
    using note_failures(3) [of ts m] note_failures(4) [of "note_success t m" ts]
    by (simp add: decide_kind_cooldown is_in_cooldown_def)
qed

lemma failures_start_cooldown_witness:
  "md_kind (fst (decide_passive (sample_input 110) 5003
     (fold note_failure [1, 2, 3, 4, 5] (new_manager default_profile)))) = COOLDOWN"
  using failures_start_cooldown [of "[1, 2, 3, 4, 5]" "new_manager default_profile" "sample_input 110" 5003]
  by (simp add: new_manager_def default_profile_def)

section \<open>Bands of the price distance\<close>

text \<open>The band of a threshold: its ticks in basis points, or the configured basis points if wider.\<close>

definition band_bps :: "real \<Rightarrow> int \<Rightarrow> real \<Rightarrow> real \<Rightarrow> real" where
  "band_bps configured_bps ticks tick_size mid = max configured_bps (of_int ticks * tick_size / mid * 10000)"

lemma ticks_in_bps:
  assumes "0 < tick" "0 < (mid::real)"
  shows "x / tick < of_int n \<longleftrightarrow> x / mid * 10000 < of_int n * tick / mid * 10000"
  using assms by (simp add: divide_less_eq divide_strict_right_mono field_simps)

lemma within_band:
  assumes "0 < c" "0 < p" "0 < mid" "0 < tick"
  shows "opt_less (passive_price_distance_bps (Some c) (Some p) (Some mid)) (threshold_bps b n tick (Some mid)) \<or>
      opt_less (passive_tick_distance (Some c) (Some p) tick) (Some (of_int n)) \<longleftrightarrow>
    \<bar>c - p\<bar> / mid * 10000 < band_bps b n tick mid"
  using assms ticks_in_bps [of tick mid "\<bar>c - p\<bar>" n]
  by (auto simp: opt_less_def passive_price_distance_bps_def passive_tick_distance_def threshold_bps_def
      positive_price_def band_bps_def less_max_iff_disj)

lemma within_ticks:
  assumes "0 < c" "0 < p" "0 < tick"
  shows "opt_less (passive_price_distance_bps (Some c) (Some p) None) x \<or>
      opt_less (passive_tick_distance (Some c) (Some p) tick) (Some (of_int n)) \<longleftrightarrow> \<bar>c - p\<bar> / tick < of_int n"
  using assms
  by (simp add: opt_less_def passive_price_distance_bps_def passive_tick_distance_def positive_price_def)

definition interval_elapsed :: "passive_manager \<Rightarrow> int \<Rightarrow> bool" where
  "interval_elapsed m now = (case pm_last_action_at_ms m of None \<Rightarrow> True
     | Some a \<Rightarrow> mp_min_amend_interval_ms (pm_profile m) \<le> now - a)"

lemma not_elapsed:
  "(case pm_last_action_at_ms m of None \<Rightarrow> False | Some a \<Rightarrow> now - a < mp_min_amend_interval_ms (pm_profile m))
     \<longleftrightarrow> \<not> interval_elapsed m now"
  by (auto simp: interval_elapsed_def split: option.split)

lemma decide_passive_live:
  assumes "\<not> is_in_cooldown m now" "1 \<le> credit_at m now" "di_target_price i = Some p" "0 < p" "0 < di_tick_size i"
    "di_current_price i = Some c" "di_resting_since_ms i = None"
  shows "fst (decide_passive i now m) = reprice_decision i p now (refill_ops_bucket now (m\<lparr>pm_cooldown_until_ms := None\<rparr>))"
    and "pm_tokens (refill_ops_bucket now (m\<lparr>pm_cooldown_until_ms := None\<rparr>)) = credit_at m now"
proof -
  show tok: "pm_tokens (refill_ops_bucket now (m\<lparr>pm_cooldown_until_ms := None\<rparr>)) = credit_at m now"
    using credit_cooldown [where m = m and c = None and t = now] by (simp only: credit_at_def)
  show "fst (decide_passive i now m) = reprice_decision i p now (refill_ops_bucket now (m\<lparr>pm_cooldown_until_ms := None\<rparr>))"
    using assms by (simp add: decide_passive_def Let_def decide_action_def tok)
qed

text \<open>The repricing bands. With a reference price, a live manager holds the order while its distance
  from the target, in basis points, is inside the reprice band (the wider of the configured basis
  points and ticks); outside it amends inside the cancel-replace band and replaces beyond, the latter
  only with two operations in the bucket; and it waits for the minimal interval between actions.\<close>

theorem reprice_bands:
  fixes m :: passive_manager and i :: decision_input
  defines "q \<equiv> pm_profile m"
  assumes live: "\<not> is_in_cooldown m now" "1 \<le> credit_at m now" and rest: "di_resting_since_ms i = None"
    and i: "di_target_price i = Some p" "di_current_price i = Some c" "di_reference_mid_price i = Some mid"
      "di_tick_size i = tick" "di_supports_amend i"
    and pos: "0 < p" "0 < c" "0 < mid" "0 < tick"
    and q: "mp_follow_market_reprice_enabled q" "mp_prefer_amend_over_cancel q"
  shows "md_kind (fst (decide_passive i now m)) =
    (if \<bar>c - p\<bar> / mid * 10000 < band_bps (mp_reprice_threshold_bps q) (mp_reprice_threshold_ticks q) tick mid
        \<or> \<not> interval_elapsed m now then HOLD
     else if \<bar>c - p\<bar> / mid * 10000 < band_bps (mp_cancel_replace_threshold_bps q) (mp_cancel_replace_threshold_ticks q) tick mid
     then AMEND
     else if credit_at m now < 2 then HOLD else CANCEL_REPLACE)"
proof -
  define b where "b = refill_ops_bucket now (m\<lparr>pm_cooldown_until_ms := None\<rparr>)"
  have tick: "0 < di_tick_size i" using i(4) pos(4) by simp
  note live = decide_passive_live [OF live i(1) pos(1) tick i(2) rest, folded b_def]
  have b: "pm_profile b = q" "pm_last_action_at_ms b = pm_last_action_at_ms m" by (simp_all add: b_def q_def)
  have w: "(case pm_last_action_at_ms m of None \<Rightarrow> False | Some a \<Rightarrow> now - a < mp_min_amend_interval_ms q)
      \<longleftrightarrow> \<not> interval_elapsed m now"
    unfolding q_def by (rule not_elapsed)
  show ?thesis
    using q by (simp add: live reprice_decision_def Let_def i b w within_band [OF pos(2,1,3,4)] del: times_divide_eq_left)
qed

lemma reprice_bands_witness:
  "md_kind (fst (decide_passive ((sample_input 103)\<lparr>di_reference_mid_price := Some 100\<rparr>) 500 (new_manager default_profile))) = AMEND"
  using reprice_bands [of "new_manager default_profile" 500 "(sample_input 103)\<lparr>di_reference_mid_price := Some 100\<rparr>" 103 100 100 1]
  by (simp add: new_manager_def default_profile_def sample_input_def is_in_cooldown_def credit_at_def
      refill_ops_bucket_def effective_capacity_def band_bps_def interval_elapsed_def)

fun same_kind :: "decision_type \<Rightarrow> maker_decision \<Rightarrow> bool" where
  "same_kind HOLD M_HOLD = True"
| "same_kind AMEND M_AMEND = True"
| "same_kind CANCEL_REPLACE M_CANCEL_REPLACE = True"
| "same_kind COOLDOWN M_COOLDOWN = True"
| "same_kind _ _ = False"

lemma same_kind_eq [simp]:
  "same_kind k M_HOLD \<longleftrightarrow> k = HOLD" "same_kind k M_AMEND \<longleftrightarrow> k = AMEND"
  "same_kind k M_CANCEL_REPLACE \<longleftrightarrow> k = CANCEL_REPLACE" "same_kind k M_COOLDOWN \<longleftrightarrow> k = COOLDOWN"
  by (cases k; simp)+

text \<open>The older state that corresponds to a manager.\<close>

definition legacy_state :: "passive_manager \<Rightarrow> int \<Rightarrow> passive_maker_state" where
  "legacy_state m now = \<lparr>ms_phase = HIGH_SLIPPAGE_MAKER, ms_zero_fill_cycles = 0, ms_max_zero_fill_cycles = 3,
     ms_consecutive_failures = pm_consecutive_failures m, ms_ops_tokens = credit_at m now,
     ms_cooling_down_until_ms = (case pm_cooldown_until_ms m of None \<Rightarrow> 0 | Some u \<Rightarrow> u)\<rparr>"

text \<open>The older decision agrees with the manager's where both apply: with no reference price, positive
  prices, a previous action and at least two operations in the bucket, \<open>decide_passive_action\<close> on the
  manager's settings gives the manager's kind of decision.\<close>

theorem legacy_decision_agrees:
  fixes m :: passive_manager and i :: decision_input
  defines "q \<equiv> pm_profile m"
  assumes now: "0 \<le> now" and credit: "2 \<le> credit_at m now" and last: "pm_last_action_at_ms m = Some a"
    and i: "di_target_price i = Some p" "di_current_price i = Some c" "di_reference_mid_price i = None"
      "di_resting_since_ms i = None" "di_supports_amend i"
    and pos: "0 < p" "0 < c" "0 < di_tick_size i" and q: "mp_follow_market_reprice_enabled q"
  shows "same_kind (md_kind (fst (decide_passive i now m)))
     (fst (decide_passive_action (Some c) (Some p) (mp_reprice_threshold_ticks q) (mp_cancel_replace_threshold_ticks q)
        (di_tick_size i) (mp_min_amend_interval_ms q) a now (mp_prefer_amend_over_cancel q) (legacy_state m now)))"
proof (cases "is_in_cooldown m now")
  case True
  then show ?thesis
    using decide_kind_cooldown [of i now m]
    by (auto simp: decide_passive_action_def legacy_state_def is_in_cooldown_def split: option.splits)
next
  case False
  define b where "b = refill_ops_bucket now (m\<lparr>pm_cooldown_until_ms := None\<rparr>)"
  have one: "1 \<le> credit_at m now" using credit by simp
  note live = decide_passive_live [OF False one i(1) pos(1,3) i(2,4), folded b_def]
  have b: "pm_profile b = q" "pm_last_action_at_ms b = Some a" by (simp_all add: b_def q_def last)
  have cool: "\<not> ms_cooling_down_until_ms (legacy_state m now) > now" "ms_ops_tokens (legacy_state m now) = credit_at m now"
    using False now by (auto simp: legacy_state_def is_in_cooldown_def split: option.splits)
  show ?thesis
    using q credit pos i(5)
    by (simp add: live reprice_decision_def decide_passive_action_def Let_def i b cool within_ticks)
qed

lemma legacy_decision_agrees_witness:
  "same_kind (md_kind (fst (decide_passive (sample_input 103) 500 (note_success 0 (new_manager default_profile))))) M_AMEND"
  using legacy_decision_agrees [of 500 "note_success 0 (new_manager default_profile)" 0 "sample_input 103" 103 100]
  by (simp add: new_manager_def default_profile_def sample_input_def credit_at_def note_success_def legacy_state_def
      refill_ops_bucket_def effective_capacity_def decide_passive_action_def effective_refill_per_sec_def)
end
