(* ===== verification/Execution_Planner.thy ===== *)
theory Execution_Planner
  imports Prelude
begin

text \<open>
  How a target quantity is cut into the part offered as maker first and the part left for later:
  \<open>lightfee/engine/execution_planner.py\<close> and the step arithmetic of \<open>lightfee/core/money.py\<close>.

  Arguments that the code tests with \<open>math.isfinite\<close> are \<open>pyfloat\<close>. The quotient of two finite
  floats is taken to be finite. A division by zero and the floor of a NaN raise, which is the
  \<open>Inl\<close> side. The steps of \<open>common_executable_quantity_step\<close> are decimals, hence rationals.
\<close>

section \<open>Step arithmetic\<close>

definition normalize_order_quantity :: "pyfloat \<Rightarrow> pyfloat \<Rightarrow> real" where
  "normalize_order_quantity quantity step =
     (case quantity of Fin q \<Rightarrow>
        (case step of Fin s \<Rightarrow>
           if q \<le> 0 \<or> s \<le> 0 then 0
           else let units = \<lfloor>q / s + eps\<rfloor> in if units \<le> 0 then 0 else of_int units * s
         | _ \<Rightarrow> 0)
      | _ \<Rightarrow> 0)"

definition compute_notional_drift_pct :: "real \<Rightarrow> real \<Rightarrow> real" where
  "compute_notional_drift_pct requested_notional executable_notional =
     (if requested_notional \<le> 0 then 0
      else \<bar>executable_notional - requested_notional\<bar> / requested_notional * 100)"

definition quantities_match :: "real \<Rightarrow> real \<Rightarrow> bool" where
  "quantities_match left right \<longleftrightarrow> \<bar>left - right\<bar> \<le> eps"

definition effective_entry_leg_notional_floor :: "real \<Rightarrow> real option \<Rightarrow> real" where
  "effective_entry_leg_notional_floor global_min exchange_min =
     (case exchange_min of None \<Rightarrow> max global_min 0 | Some e \<Rightarrow> max (max global_min e) 0)"

definition align_quantity_down_to_chunk :: "pyfloat \<Rightarrow> pyfloat \<Rightarrow> real" where
  "align_quantity_down_to_chunk quantity chunk =
     (case quantity of Fin q \<Rightarrow>
        if q \<le> 0 then 0
        else (case chunk of Fin c \<Rightarrow>
                if c \<le> eps then max q 0
                else let whole_chunks = \<lfloor>q / c\<rfloor> in if whole_chunks \<le> 0 then 0 else of_int whole_chunks * c
              | _ \<Rightarrow> max q 0)
      | _ \<Rightarrow> 0)"

definition align_quantity_up_to_step :: "pyfloat \<Rightarrow> pyfloat \<Rightarrow> real" where
  "align_quantity_up_to_step quantity step =
     (case quantity of Fin q \<Rightarrow>
        if q \<le> 0 then 0
        else (case step of Fin s \<Rightarrow> if s \<le> 1 / 1000000000000 then q else of_int \<lceil>q / s\<rceil> * s | _ \<Rightarrow> q)
      | _ \<Rightarrow> 0)"

subsection \<open>The common step\<close>

text \<open>\<open>Fraction.limit_denominator\<close>: the continued fraction is followed while the denominator fits.\<close>

function limit_loop :: "int \<Rightarrow> int \<Rightarrow> int \<Rightarrow> int \<Rightarrow> int \<Rightarrow> int \<Rightarrow> int \<Rightarrow> int \<times> int \<times> int \<times> int \<times> int" where
  "limit_loop bound p0 q0 p1 q1 n d =
     (if d \<le> 0 then (p0, q0, p1, q1, d)
      else
        let a = n div d; q2 = q0 + a * q1
        in if q2 > bound then (p0, q0, p1, q1, d)
           else limit_loop bound p1 q1 (p0 + a * p1) q2 d (n - a * d))"
  by pat_completeness auto
termination
  by (relation "measure (\<lambda>(bound, p0, q0, p1, q1, n, d). nat d)")
     (auto simp: minus_div_mult_eq_mod)

declare limit_loop.simps [simp del]

definition limit_denominator :: "int \<Rightarrow> rat \<Rightarrow> rat" where
  "limit_denominator bound x =
     (let (n, den) = quotient_of x
      in if den \<le> bound then x
         else
           let (p0, q0, p1, q1, d) = limit_loop bound 0 1 1 0 n den;
               k = (bound - q0) div q1
           in if 2 * d * (q0 + k * q1) \<le> den then Fract p1 q1 else Fract (p0 + k * p1) (q0 + k * q1))"

text \<open>\<open>None\<close> is a step that is not finite.\<close>

primrec collect_fractions :: "rat option list \<Rightarrow> rat list option" where
  "collect_fractions [] = Some []"
| "collect_fractions (s # ss) =
     (case s of None \<Rightarrow> None
      | Some x \<Rightarrow> if x \<le> 1 / 1000000000 then None
                  else map_option ((#) (limit_denominator 1000000000 x)) (collect_fractions ss))"

definition common_fraction :: "rat list \<Rightarrow> rat" where
  "common_fraction fractions =
     (let common_denominator = foldl (\<lambda>c f. lcm c (snd (quotient_of f))) 1 fractions;
          common_numerator = foldl (\<lambda>c f. lcm c (fst (quotient_of f) * (common_denominator div snd (quotient_of f))))
                               1 fractions
      in Fract common_numerator common_denominator)"

definition common_executable_quantity_step :: "rat option list \<Rightarrow> rat" where
  "common_executable_quantity_step steps =
     (case collect_fractions steps of None \<Rightarrow> 0
      | Some fractions \<Rightarrow> if fractions = [] then 0 else common_fraction fractions)"

section \<open>Chunks and clips\<close>

datatype planner_error = ValueError string | ZeroDivisionError

definition min_hedgeable_chunk_from_notional ::
  "real \<Rightarrow> real \<Rightarrow> real \<Rightarrow> pyfloat option \<Rightarrow> planner_error + real" where
  "min_hedgeable_chunk_from_notional min_base_quantity min_notional_quote step_base_quantity price_hint =
     (let notional_quantity =
        (if min_notional_quote > 0
         then (case price_hint of
                 Some (Fin p) \<Rightarrow>
                   if p \<le> 0 then Inl (ValueError ''price_hint required when min_notional_quote > 0'')
                   else Inr (min_notional_quote / p)
               | _ \<Rightarrow> Inl (ValueError ''price_hint required when min_notional_quote > 0''))
         else Inr 0)
      in case notional_quantity of
           Inl e \<Rightarrow> Inl e
         | Inr min_notional_quantity \<Rightarrow>
             let raw_min_quantity = max (max min_base_quantity 0) min_notional_quantity;
                 chunk = align_quantity_up_to_step (Fin raw_min_quantity) (Fin (max step_base_quantity 0))
             in if chunk \<le> eps then Inl (ValueError ''min hedgeable chunk rounded to zero'') else Inr chunk)"

definition bounded_maker_first_initial_target_quantity :: "real \<Rightarrow> real \<Rightarrow> real" where
  "bounded_maker_first_initial_target_quantity target_quantity slice_ratio =
     (let target = max target_quantity 0
      in if target \<le> eps \<or> slice_ratio \<ge> 1 - eps then target
         else
           let sliced_quantity = max (target * slice_ratio) 0
           in if sliced_quantity \<le> eps \<or> sliced_quantity \<ge> target - eps then target else sliced_quantity)"

definition maker_min_valid_clip_quantity :: "pyfloat \<Rightarrow> pyfloat option \<Rightarrow> pyfloat \<Rightarrow> real \<Rightarrow> real option" where
  "maker_min_valid_clip_quantity min_notional price_hint min_hedgeable_chunk full_target_quantity =
     (case min_notional of
        Fin n \<Rightarrow>
          if n \<le> 0 then None
          else (case price_hint of
                  Some (Fin p) \<Rightarrow>
                    if p \<le> 0 then None
                    else
                      let raw_quantity = n / p
                      in if raw_quantity \<le> eps then None
                         else (case min_hedgeable_chunk of
                                 Fin c \<Rightarrow>
                                   if c > eps
                                   then Some (min (of_int \<lceil>raw_quantity / c\<rceil> * c) (max full_target_quantity raw_quantity))
                                   else Some raw_quantity
                               | _ \<Rightarrow> Some raw_quantity)
                | _ \<Rightarrow> None)
      | _ \<Rightarrow> None)"

section \<open>The plan\<close>

datatype execution_route = PASSIVE_INCREMENTAL | FALLBACK_TO_STANDARD | REJECTED

record entry_plan =
  ep_route :: execution_route
  ep_full_target_quantity :: real
  ep_initial_maker_target_quantity :: real
  ep_maker_min_valid_clip_quantity :: "real option"
  ep_reason :: "string option"

definition plan :: "execution_route \<Rightarrow> real \<Rightarrow> real \<Rightarrow> real option \<Rightarrow> string option \<Rightarrow> entry_plan" where
  "plan route full initial clip reason =
     \<lparr>ep_route = route, ep_full_target_quantity = full, ep_initial_maker_target_quantity = initial,
      ep_maker_min_valid_clip_quantity = clip, ep_reason = reason\<rparr>"

text \<open>The full target and the first maker quantity; the left side is a rejection.\<close>

definition initial_targets :: "real \<Rightarrow> real \<Rightarrow> pyfloat \<Rightarrow> string + real \<times> real" where
  "initial_targets target_quantity slice_ratio min_hedgeable_chunk =
     (let unaligned = Inr (max target_quantity 0, bounded_maker_first_initial_target_quantity target_quantity slice_ratio)
      in case min_hedgeable_chunk of
           Fin c \<Rightarrow>
             if c \<le> eps then unaligned
             else
               let full_chunks = \<lfloor>target_quantity / c\<rfloor>
               in if full_chunks \<le> 0 then Inl ''target_below_min_hedgeable_chunk''
                  else
                    let full = of_int full_chunks * c;
                        raw_initial = bounded_maker_first_initial_target_quantity full slice_ratio;
                        initial_chunks = \<lfloor>raw_initial / c\<rfloor>
                    in Inr (full, if initial_chunks \<le> 0 then min c full else min (of_int initial_chunks * c) full)
         | _ \<Rightarrow> unaligned)"

text \<open>\<open>math.floor(x / chunk) * chunk\<close> with Python's division, floor and infinities.\<close>

fun floor_chunks :: "real \<Rightarrow> pyfloat \<Rightarrow> planner_error + pyfloat" where
  "floor_chunks x (Fin c) = (if c = 0 then Inl ZeroDivisionError else Inr (Fin (of_int \<lfloor>x / c\<rfloor> * c)))"
| "floor_chunks x PosInf = Inr NaN"
| "floor_chunks x NegInf = Inr NaN"
| "floor_chunks x NaN = Inl (ValueError ''cannot convert float NaN to integer'')"

fun at_least :: "pyfloat \<Rightarrow> real \<Rightarrow> bool" where
  "at_least (Fin r) y \<longleftrightarrow> r \<ge> y"
| "at_least PosInf y \<longleftrightarrow> True"
| "at_least _ y \<longleftrightarrow> False"

fun finite_part :: "pyfloat \<Rightarrow> real" where
  "finite_part (Fin r) = r"
| "finite_part _ = 0"

text \<open>
  The check that what is left for the hedge side reaches its minimum: the new maker quantity, or
  \<open>None\<close> for the fallback \<open>hedge_remainder_below_min_notional\<close>.
\<close>

definition hedge_adjusted_initial ::
  "real \<Rightarrow> real \<Rightarrow> pyfloat \<Rightarrow> real option \<Rightarrow> real \<Rightarrow> planner_error + real option" where
  "hedge_adjusted_initial full initial min_hedgeable_chunk maker_min_clip hedge_min_clip =
     (let hedge_remainder = max (full - initial) 0;
          maker_min_clip_value = (case maker_min_clip of None \<Rightarrow> 0 | Some m \<Rightarrow> m)
      in if hedge_remainder \<le> eps
         then if full - hedge_min_clip \<ge> eps
              then (case floor_chunks (full - hedge_min_clip) min_hedgeable_chunk of
                      Inl e \<Rightarrow> Inl e
                    | Inr reduced_maker \<Rightarrow>
                        Inr (if at_least reduced_maker (maker_min_clip_value - eps)
                             then Some (max (finite_part reduced_maker) 0) else None))
              else Inr None
         else if hedge_remainder < hedge_min_clip - eps
         then if full - hedge_min_clip \<ge> maker_min_clip_value - eps
              then (case floor_chunks (full - hedge_min_clip) min_hedgeable_chunk of
                      Inl e \<Rightarrow> Inl e
                    | Inr reduced_maker \<Rightarrow>
                        Inr (if at_least reduced_maker eps then Some (finite_part reduced_maker) else None))
              else Inr None
         else Inr (Some initial))"

definition plan_incremental_entry_execution ::
  "pyfloat \<Rightarrow> real \<Rightarrow> pyfloat \<Rightarrow> pyfloat \<Rightarrow> pyfloat option \<Rightarrow> pyfloat \<Rightarrow> pyfloat \<Rightarrow> pyfloat option
     \<Rightarrow> planner_error + execution_route \<times> entry_plan" where
  "plan_incremental_entry_execution target_quantity slice_ratio min_hedgeable_chunk maker_min_notional
       maker_price_hint max_initial_clip_ratio hedge_min_notional hedge_price_hint =
     (let rejected = (\<lambda>reason. Inr (REJECTED, plan REJECTED 0 0 None (Some reason)));
          target = (case target_quantity of Fin t \<Rightarrow> t | _ \<Rightarrow> 0)
      in if target \<le> eps then rejected ''target_quantity_not_positive''
         else case initial_targets target slice_ratio min_hedgeable_chunk of
           Inl reason \<Rightarrow> rejected reason
         | Inr (full, initial) \<Rightarrow>
             let maker_min_clip = maker_min_valid_clip_quantity maker_min_notional maker_price_hint min_hedgeable_chunk full;
                 effective_max_ratio =
                   min (case max_initial_clip_ratio of Fin r \<Rightarrow> if r > 0 then r else 8 / 10 | _ \<Rightarrow> 8 / 10) 1;
                 clip_too_large = (case maker_min_clip of None \<Rightarrow> False | Some clip \<Rightarrow> clip > full + eps);
                 clip_too_close = (case maker_min_clip of None \<Rightarrow> False | Some clip \<Rightarrow> clip / full > effective_max_ratio + eps);
                 initial' = (case maker_min_clip of None \<Rightarrow> initial | Some clip \<Rightarrow> max initial clip)
             in if clip_too_large
                then Inr (REJECTED, plan REJECTED full 0 maker_min_clip (Some ''maker_min_clip_exceeds_full_target''))
                else if clip_too_close
                then Inr (FALLBACK_TO_STANDARD, plan FALLBACK_TO_STANDARD full (the maker_min_clip) maker_min_clip
                       (Some ''maker_min_clip_too_close_to_full_target''))
                else
                  let adjusted =
                    (case maker_min_valid_clip_quantity hedge_min_notional hedge_price_hint min_hedgeable_chunk full of
                       None \<Rightarrow> Inr (Some initial')
                     | Some hedge_min_clip \<Rightarrow>
                         hedge_adjusted_initial full initial' min_hedgeable_chunk maker_min_clip hedge_min_clip)
                  in case adjusted of
                       Inl e \<Rightarrow> Inl e
                     | Inr None \<Rightarrow> Inr (FALLBACK_TO_STANDARD, plan FALLBACK_TO_STANDARD full initial' maker_min_clip
                                          (Some ''hedge_remainder_below_min_notional''))
                     | Inr (Some q) \<Rightarrow> Inr (PASSIVE_INCREMENTAL, plan PASSIVE_INCREMENTAL full q maker_min_clip None))"

definition plan_entry_execution ::
  "pyfloat \<Rightarrow> real \<Rightarrow> real \<Rightarrow> real \<Rightarrow> pyfloat \<Rightarrow> pyfloat \<Rightarrow> planner_error + execution_route \<times> real \<times> string" where
  "plan_entry_execution target_quantity price_hint min_notional_quote maker_min_clip hedge_chunk max_initial_clip_ratio =
     (let price = (if price_hint > 0 then Some (Fin price_hint) else None);
          maker_notional_from_clip = (if price_hint > 0 then maker_min_clip * price_hint else 0);
          effective_maker_notional = max min_notional_quote maker_notional_from_clip
      in case plan_incremental_entry_execution target_quantity (5 / 10) hedge_chunk (Fin effective_maker_notional)
                price max_initial_clip_ratio (Fin min_notional_quote) price of
           Inl e \<Rightarrow> Inl e
         | Inr (route, p) \<Rightarrow>
             Inr (route, ep_initial_maker_target_quantity p, case ep_reason p of None \<Rightarrow> [] | Some r \<Rightarrow> r))"

section \<open>Lemmas\<close>

lemma eps_less_trans: "eps < x \<Longrightarrow> 0 < x"
  by (rule less_trans [OF eps_pos])

lemma floor_grid:
  assumes "0 < (c::real)"
  shows "0 \<le> x - of_int \<lfloor>x / c\<rfloor> * c" "x - of_int \<lfloor>x / c\<rfloor> * c < c"
  using floor_divide_lower [OF assms, of x] floor_divide_upper [OF assms, of x] by (simp_all add: algebra_simps)

lemma floor_of_multiple [simp]: "0 < (c::real) \<Longrightarrow> \<lfloor>of_int k * c / c\<rfloor> = k"
  by simp

lemma multiple_pos: "0 < (c::real) \<Longrightarrow> 0 < of_int k * c \<Longrightarrow> c \<le> of_int k * c"
  by (simp add: zero_less_mult_iff)

lemma bounded_initial_bounds:
  "0 \<le> t \<Longrightarrow> 0 \<le> bounded_maker_first_initial_target_quantity t r \<and> bounded_maker_first_initial_target_quantity t r \<le> t"
  by (auto simp: bounded_maker_first_initial_target_quantity_def Let_def)

lemma clip_grid:
  assumes "maker_min_valid_clip_quantity n p (Fin c) full = Some h" "eps < c"
  shows "h < full \<Longrightarrow> \<exists>k::int. h = of_int k * c"
  using assms
  by (auto simp: maker_min_valid_clip_quantity_def Let_def min_def max_def
      split: pyfloat.splits option.splits if_splits)

lemma clip_pos:
  assumes "maker_min_valid_clip_quantity n p (Fin c) full = Some h" "eps < c"
  shows "0 < h"
proof -
  have c: "0 < c" by (rule eps_less_trans [OF assms(2)])
  have "0 < of_int \<lceil>raw / c\<rceil> * c" if "eps < raw" for raw
    using c eps_less_trans [OF that] by (simp add: zero_less_mult_iff)
  then show ?thesis
    using assms eps_less_trans
    by (auto simp: maker_min_valid_clip_quantity_def Let_def not_le less_max_iff_disj
        split: pyfloat.splits option.splits if_splits)
qed

lemma initial_targets_aligned:
  assumes "initial_targets t r (Fin c) = Inr (full, q)" "eps < c"
  shows "full = of_int \<lfloor>t / c\<rfloor> * c \<and> 1 \<le> \<lfloor>t / c\<rfloor> \<and> c \<le> q \<and> q \<le> full"
proof -
  have c: "0 < c" by (rule eps_less_trans [OF assms(2)])
  define F where "F = \<lfloor>t / c\<rfloor>"
  define raw where "raw = bounded_maker_first_initial_target_quantity (of_int F * c) r"
  have F: "1 \<le> F" and full: "full = of_int F * c"
    and q: "q = (if \<lfloor>raw / c\<rfloor> \<le> 0 then min c full else min (of_int \<lfloor>raw / c\<rfloor> * c) full)"
    using assms by (auto simp: initial_targets_def Let_def F_def raw_def split: if_splits)
  have "c \<le> full" using F c by (simp add: full)
  moreover have "c \<le> of_int \<lfloor>raw / c\<rfloor> * c" if "\<not> \<lfloor>raw / c\<rfloor> \<le> 0" using that c by simp
  ultimately show ?thesis using F full q by (auto simp: F_def)
qed

lemma hedge_adjusted_minimums:
  assumes res: "hedge_adjusted_initial full i (Fin c) clip h = Inr (Some q)"
    and c: "eps < c" and full: "full = of_int F * c" and i: "c \<le> i" "i \<le> full + eps"
    and h: "h < full \<Longrightarrow> \<exists>k::int. h = of_int k * c" and h_pos: "0 < h"
    and clip: "\<And>m. clip = Some m \<Longrightarrow> m \<le> i"
  shows "c \<le> q \<and> q \<le> full + eps \<and> h - eps \<le> full - q \<and> (\<forall>m. clip = Some m \<longrightarrow> m - eps \<le> q)"
proof -
  have c0: "0 < c" "c \<noteq> 0" using eps_less_trans [OF c] by simp_all
  let ?r = "of_int \<lfloor>(full - h) / c\<rfloor> * c"
  let ?m = "case clip of None \<Rightarrow> 0 | Some m \<Rightarrow> m"
  have reduced: "q = full - h \<and> c \<le> q" if r: "q = ?r" "0 < q" "h < full"
  proof -
    from h [OF r(3)] obtain k :: int where "h = of_int k * c" by blast
    then have "full - h = of_int (F - k) * c" by (simp add: full algebra_simps)
    then show ?thesis using r multiple_pos [OF c0(1), of "F - k"] floor_of_multiple [OF c0(1), of "F - k"] by simp
  qed
  have r_le: "?r \<le> full - h" using floor_grid(1) [OF c0(1), of "full - h"] by simp
  consider (one) "max (full - i) 0 \<le> eps" "eps \<le> full - h" "?m - eps \<le> ?r" "q = max ?r 0"
    | (two) "\<not> max (full - i) 0 \<le> eps" "max (full - i) 0 < h - eps" "?m - eps \<le> full - h" "eps \<le> ?r" "q = ?r"
    | (keep) "\<not> max (full - i) 0 \<le> eps" "\<not> max (full - i) 0 < h - eps" "q = i"
    using res c0 by (auto simp: hedge_adjusted_initial_def Let_def split: if_splits)
  then show ?thesis
  proof cases
    case one
    have hf: "h < full" using one(2) eps_pos by linarith
    from h [OF hf] obtain k :: int where k: "h = of_int k * c" by blast
    then have d: "full - h = of_int (F - k) * c" by (simp add: full algebra_simps)
    then have "?r = full - h" using floor_of_multiple [OF c0(1), of "F - k"] by simp
    moreover have "0 < full - h" using hf by simp
    ultimately have qq: "q = full - h" "c \<le> q" "?r = full - h"
      using one(4) multiple_pos [OF c0(1), of "F - k"] d by simp_all
    have "q \<le> full + eps" "h - eps \<le> full - q" using qq(1) h_pos eps_pos by linarith+
    then show ?thesis using one(3) qq by auto
  next
    case two
    have "0 < q" using two(4,5) eps_pos by linarith
    moreover have "h < full" using two(4) r_le eps_pos by linarith
    ultimately have "q = full - h" "c \<le> q" using reduced two(5) by blast+
    then show ?thesis using two i by auto
  next
    case keep
    then show ?thesis using i clip by (auto simp: max_def split: if_splits)
  qed
qed

lemma plan_simps [simp]:
  "ep_route (plan a b c d e) = a" "ep_full_target_quantity (plan a b c d e) = b"
  "ep_initial_maker_target_quantity (plan a b c d e) = c" "ep_maker_min_valid_clip_quantity (plan a b c d e) = d"
  by (simp_all add: plan_def)

text \<open>What a passive plan was built from.\<close>

lemma passive_plan_cases:
  assumes run: "plan_incremental_entry_execution (Fin t) r (Fin c) mn mp mr hn hp = Inr (PASSIVE_INCREMENTAL, p)"
    and c: "eps < c"
  obtains full i clip where
    "initial_targets t r (Fin c) = Inr (full, i)" "clip = maker_min_valid_clip_quantity mn mp (Fin c) full"
    "\<And>m. clip = Some m \<Longrightarrow> m \<le> full + eps"
    "ep_full_target_quantity p = full" "ep_maker_min_valid_clip_quantity p = clip"
    "case maker_min_valid_clip_quantity hn hp (Fin c) full of
       None \<Rightarrow> ep_initial_maker_target_quantity p = (case clip of None \<Rightarrow> i | Some m \<Rightarrow> max i m)
     | Some h \<Rightarrow> hedge_adjusted_initial full (case clip of None \<Rightarrow> i | Some m \<Rightarrow> max i m) (Fin c) clip h
                  = Inr (Some (ep_initial_maker_target_quantity p))"
proof -
  obtain full i where it: "initial_targets t r (Fin c) = Inr (full, i)"
    using run by (auto simp: plan_incremental_entry_execution_def Let_def split: if_splits sum.splits)
  show ?thesis
  proof (rule that [OF it refl])
    note run' = run [unfolded plan_incremental_entry_execution_def Let_def it pyfloat.case sum.case prod.case]
    show "m \<le> full + eps" if "maker_min_valid_clip_quantity mn mp (Fin c) full = Some m" for m
      using run' that by (auto split: if_splits)
    show "ep_full_target_quantity p = full"
      "ep_maker_min_valid_clip_quantity p = maker_min_valid_clip_quantity mn mp (Fin c) full"
      "case maker_min_valid_clip_quantity hn hp (Fin c) full of
         None \<Rightarrow> ep_initial_maker_target_quantity p = (case maker_min_valid_clip_quantity mn mp (Fin c) full of None \<Rightarrow> i | Some m \<Rightarrow> max i m)
       | Some h \<Rightarrow> hedge_adjusted_initial full (case maker_min_valid_clip_quantity mn mp (Fin c) full of None \<Rightarrow> i | Some m \<Rightarrow> max i m)
              (Fin c) (maker_min_valid_clip_quantity mn mp (Fin c) full) h = Inr (Some (ep_initial_maker_target_quantity p))"
      using run' by (auto split: if_splits sum.splits option.splits)
  qed
qed

section \<open>Properties\<close>

text \<open>C19: A passive plan respects the minimums of both venues. With a usable chunk, the full target is the
  largest whole number of chunks in the requested quantity; the maker part is at least one chunk, at
  most the full target and at least the maker venue's minimal clip, and what it leaves for the rest
  reaches the hedge venue's minimal clip (all up to 1e-9).\<close>

theorem passive_plan_respects_minimums:
  assumes run: "plan_incremental_entry_execution (Fin t) r (Fin c) mn mp mr hn hp = Inr (PASSIVE_INCREMENTAL, p)"
    and c: "eps < c"
  defines "full \<equiv> ep_full_target_quantity p" and "q \<equiv> ep_initial_maker_target_quantity p"
  shows "full = of_int \<lfloor>t / c\<rfloor> * c \<and> full \<le> t \<and> t < full + c \<and> c \<le> q \<and> q \<le> full + eps \<and>
     (case maker_min_valid_clip_quantity mn mp (Fin c) full of None \<Rightarrow> True | Some m \<Rightarrow> m - eps \<le> q) \<and>
     (case maker_min_valid_clip_quantity hn hp (Fin c) full of None \<Rightarrow> True | Some h \<Rightarrow> h - eps \<le> full - q)"
proof -
  from passive_plan_cases [OF run c] obtain full' i clip where
    it: "initial_targets t r (Fin c) = Inr (full', i)" and clip: "clip = maker_min_valid_clip_quantity mn mp (Fin c) full'"
    and le: "\<And>m. clip = Some m \<Longrightarrow> m \<le> full' + eps" and f: "full = full'"
    and h: "case maker_min_valid_clip_quantity hn hp (Fin c) full' of
       None \<Rightarrow> q = (case clip of None \<Rightarrow> i | Some m \<Rightarrow> max i m)
     | Some h \<Rightarrow> hedge_adjusted_initial full' (case clip of None \<Rightarrow> i | Some m \<Rightarrow> max i m) (Fin c) clip h = Inr (Some q)"
    unfolding full_def q_def by metis
  note al = initial_targets_aligned [OF it c, folded f]
  have grid: "full \<le> t" "t < full + c"
    using al floor_grid [OF eps_less_trans [OF c], of t] by simp_all
  define j where "j = (case clip of None \<Rightarrow> i | Some m \<Rightarrow> max i m)"
  have j: "c \<le> j" "j \<le> full + eps" "\<And>m. clip = Some m \<Longrightarrow> m \<le> j"
    using al le eps_pos by (auto simp: j_def f split: option.split)
  have F: "full = of_int \<lfloor>t / c\<rfloor> * c" using al by blast
  show ?thesis
  proof (cases "maker_min_valid_clip_quantity hn hp (Fin c) full'")
    case None
    with h have "q = j" by (simp add: j_def)
    moreover have "m - eps \<le> j" if "clip = Some m" for m using j(3) [OF that] eps_pos by linarith
    ultimately show ?thesis using F grid j None clip f by (simp split: option.split)
  next
    case (Some hm)
    with h have "hedge_adjusted_initial full j (Fin c) clip hm = Inr (Some q)" by (simp add: j_def f)
    from hedge_adjusted_minimums [OF this c F j(1,2) clip_grid [OF Some [folded f] c] clip_pos [OF Some c] j(3)]
    show ?thesis using F grid Some clip f by (simp split: option.split)
  qed
qed

lemma passive_plan_respects_minimums_witness:
  "\<exists>p. plan_incremental_entry_execution (Fin 10) (1/2) (Fin 2) (Fin 0) None (Fin 1) (Fin 3) (Some (Fin 1))
        = Inr (PASSIVE_INCREMENTAL, p) \<and> ep_full_target_quantity p = 10 \<and> 2 \<le> ep_initial_maker_target_quantity p \<and>
        4 - eps \<le> 10 - ep_initial_maker_target_quantity p"
proof -
  have e: "eps < (2::real)" "\<not> (10::real) \<le> eps" "\<not> (5::real) \<le> eps" "\<not> (3::real) \<le> eps" "\<not> (2::real) \<le> eps"
      "\<not> 5 \<ge> 10 - eps" "\<not> 1 / 2 \<ge> 1 - eps" "\<not> (6::real) \<le> eps"
    using eps_less_1 by (simp_all add: eps_def)
  have clip: "maker_min_valid_clip_quantity (Fin 3) (Some (Fin 1)) (Fin 2) 10 = Some 4"
    using e by (simp add: maker_min_valid_clip_quantity_def Let_def ceiling_divide_eq_div_numeral)
  have "plan_incremental_entry_execution (Fin 10) (1/2) (Fin 2) (Fin 0) None (Fin 1) (Fin 3) (Some (Fin 1))
        = Inr (PASSIVE_INCREMENTAL, plan PASSIVE_INCREMENTAL 10 4 None None)"
    using e by (simp add: plan_incremental_entry_execution_def initial_targets_def clip
        bounded_maker_first_initial_target_quantity_def hedge_adjusted_initial_def Let_def
        maker_min_valid_clip_quantity_def [of "Fin 0"])
  moreover from passive_plan_respects_minimums [OF this e(1)]
  have "2 \<le> (4::real) \<and> 4 - eps \<le> 10 - 4" by (simp add: clip)
  ultimately show ?thesis by (intro exI [of _ "plan PASSIVE_INCREMENTAL 10 4 None None"]) simp
qed

text \<open>The planner returns. With the chunk that \<open>min_hedgeable_chunk_from_notional\<close> computes it always
  gives a route and a plan of that route; with a chunk of zero the hedge check divides by zero.\<close>

theorem planner_returns:
  "(min_hedgeable_chunk_from_notional b n s hint = Inr c \<longrightarrow>
     (\<exists>route p. plan_incremental_entry_execution t r (Fin c) mn mp mr hn hp = Inr (route, p) \<and> ep_route p = route)) \<and>
   plan_incremental_entry_execution (Fin 10) 1 (Fin 0) (Fin 0) None (Fin 1) (Fin 5) (Some (Fin 1)) = Inl ZeroDivisionError"
proof -
  have total: "\<exists>route p. plan_incremental_entry_execution t r (Fin c) mn mp mr hn hp = Inr (route, p) \<and> ep_route p = route"
    if c: "eps < c"
  proof -
    have "\<exists>o'. hedge_adjusted_initial f i (Fin c) m h = Inr o'" for f i m h
      using eps_less_trans [OF c] by (auto simp: hedge_adjusted_initial_def Let_def)
    then obtain g where g: "hedge_adjusted_initial f i (Fin c) m h = Inr (g f i m h)" for f i m h by metis
    show ?thesis
      by (simp add: plan_incremental_entry_execution_def Let_def g split: sum.split option.split)
  qed
  have "eps < c" if "min_hedgeable_chunk_from_notional b n s hint = Inr c"
    using that by (auto simp: min_hedgeable_chunk_from_notional_def Let_def split: sum.splits if_splits)
  moreover have "eps < (5::real)" "eps < (10::real)" "eps \<le> (5::real)" "\<not> (10::real) \<le> eps" "\<not> (5::real) \<le> eps"
    using eps_less_1 by linarith+
  ultimately show ?thesis using total
    by (simp add: plan_incremental_entry_execution_def initial_targets_def Let_def
        bounded_maker_first_initial_target_quantity_def maker_min_valid_clip_quantity_def hedge_adjusted_initial_def)
qed

lemma planner_returns_witness:
  "\<exists>c. min_hedgeable_chunk_from_notional 1 0 1 None = Inr c \<and>
     (\<exists>route p. plan_incremental_entry_execution (Fin 7) 1 (Fin c) (Fin 0) None (Fin 1) (Fin 0) None = Inr (route, p) \<and>
        ep_route p = route)"
proof -
  have "min_hedgeable_chunk_from_notional 1 0 1 None = Inr 1"
    by (simp add: min_hedgeable_chunk_from_notional_def align_quantity_up_to_step_def not_le)
  with planner_returns show ?thesis by blast
qed

text \<open>The hedgeable chunk reaches the venue's minimums. A computed chunk is above 1e-9, at least the
  minimal base quantity, worth at least the minimal notional at the hinted price, and (with a real step)
  the smallest such multiple of the venue's step; without a usable price a minimal notional is an error.\<close>

theorem hedgeable_chunk_meets_minimums:
  assumes "min_hedgeable_chunk_from_notional b n s hint = Inr c"
  shows "eps < c \<and> b \<le> c \<and>
     (0 < n \<longrightarrow> (\<exists>price. hint = Some (Fin price) \<and> 0 < price \<and> n \<le> c * price)) \<and>
     (1 / 1000000000000 < s \<longrightarrow> (\<exists>k::int. c = of_int k * s \<and>
        (\<forall>j::int. b \<le> of_int j * s \<and> 0 < j \<and> (\<forall>price. hint = Some (Fin price) \<and> 0 < n \<longrightarrow> n \<le> of_int j * s * price)
           \<longrightarrow> c \<le> of_int j * s)))"
proof -
  obtain q where q: "(0 < n \<and> (\<exists>price. hint = Some (Fin price) \<and> 0 < price \<and> q = n / price)) \<or> (\<not> 0 < n \<and> q = 0)"
    and c: "c = align_quantity_up_to_step (Fin (max (max b 0) q)) (Fin (max s 0))" "eps < c"
    using assms by (auto simp: min_hedgeable_chunk_from_notional_def Let_def split: if_splits option.splits pyfloat.splits)
  define raw where "raw = max (max b 0) q"
  have raw: "0 < raw"
    using c eps_pos by (auto simp: align_quantity_up_to_step_def raw_def split: if_splits)
  have c': "c = (if s \<le> 1 / 1000000000000 then raw else of_int \<lceil>raw / s\<rceil> * s)"
    using raw c(1) [folded raw_def] by (cases "s \<le> 0") (simp_all add: align_quantity_up_to_step_def)
  have "raw \<le> c"
  proof (cases "s \<le> 1 / 1000000000000")
    case False
    then have s: "0 < s" by (simp add: not_le)
    have "raw / s \<le> of_int \<lceil>raw / s\<rceil>" by simp
    with s False show ?thesis by (simp only: c' if_False pos_divide_le_eq)
  qed (simp add: c')
  then have min: "b \<le> c" "q \<le> c" by (simp_all add: raw_def)
  moreover have "\<exists>price. hint = Some (Fin price) \<and> 0 < price \<and> n \<le> c * price" if "0 < n"
    using q that min(2) by (auto simp: divide_le_eq)
  moreover have "\<exists>k::int. c = of_int k * s \<and>
        (\<forall>j::int. b \<le> of_int j * s \<and> 0 < j \<and> (\<forall>price. hint = Some (Fin price) \<and> 0 < n \<longrightarrow> n \<le> of_int j * s * price)
           \<longrightarrow> c \<le> of_int j * s)" if s: "1 / 1000000000000 < s"
  proof (intro exI [of _ "\<lceil>raw / s\<rceil>"] conjI allI impI)
    have s0: "0 < s" using s by (rule less_trans [rotated]) simp
    show "c = of_int \<lceil>raw / s\<rceil> * s" using s by (simp add: c')
    fix j :: int
    assume j: "b \<le> of_int j * s \<and> 0 < j \<and> (\<forall>price. hint = Some (Fin price) \<and> 0 < n \<longrightarrow> n \<le> of_int j * s * price)"
    have "0 \<le> of_int j * s" using j s0 by simp
    moreover have "q \<le> of_int j * s" using q j calculation by (auto simp: divide_le_eq)
    ultimately have "raw \<le> of_int j * s" using j by (simp add: raw_def)
    then have "raw / s \<le> of_int j" using s0 by (simp add: divide_le_eq)
    then have "\<lceil>raw / s\<rceil> \<le> j" by (simp add: ceiling_le_iff)
    then show "c \<le> of_int j * s" using s s0 by (simp add: c')
  qed
  ultimately show ?thesis using c(2) by blast
qed

lemma hedgeable_chunk_meets_minimums_witness:
  "min_hedgeable_chunk_from_notional 1 10 1 (Some (Fin 4)) = Inr 3 \<and> 10 \<le> 3 * (4::real)"
proof -
  have e: "\<not> (3::real) \<le> eps" using eps_less_1 by linarith
  have "\<lceil>5 / 2 :: real\<rceil> = 3" by (simp add: ceiling_unique)
  then have run: "min_hedgeable_chunk_from_notional 1 10 1 (Some (Fin 4)) = Inr 3"
    using e by (simp add: min_hedgeable_chunk_from_notional_def align_quantity_up_to_step_def Let_def)
  with hedgeable_chunk_meets_minimums [OF run] show ?thesis by auto
qed

section \<open>The common step\<close>

lemma foldl_lcm_start:
  fixes g :: "'a \<Rightarrow> int"
  shows "x dvd c \<Longrightarrow> x dvd foldl (\<lambda>c f. lcm c (g f)) c fs"
  by (induction fs arbitrary: c) auto

lemma foldl_lcm_dvd:
  fixes g :: "'a \<Rightarrow> int"
  shows "f \<in> set fs \<Longrightarrow> g f dvd foldl (\<lambda>c f. lcm c (g f)) c fs"
  by (induction fs arbitrary: c) (auto intro: foldl_lcm_start)

lemma foldl_lcm_least:
  fixes g :: "'a \<Rightarrow> int"
  shows "c dvd y \<Longrightarrow> \<forall>f\<in>set fs. g f dvd y \<Longrightarrow> foldl (\<lambda>c f. lcm c (g f)) c fs dvd y"
  by (induction fs arbitrary: c) auto

lemma foldl_lcm_pos:
  fixes g :: "'a \<Rightarrow> int"
  shows "0 < c \<Longrightarrow> \<forall>f\<in>set fs. 0 < g f \<Longrightarrow> 0 < foldl (\<lambda>c f. lcm c (g f)) c fs"
  by (induction fs arbitrary: c) (auto simp: lcm_pos_int)

lemma common_fraction_grid:
  assumes pos: "\<forall>x\<in>set fs. 0 < x"
  shows "0 < common_fraction fs"
    and "x \<in> set fs \<Longrightarrow> \<exists>k::int. common_fraction fs = of_int k * x"
    and "fs \<noteq> [] \<Longrightarrow> \<forall>x\<in>set fs. \<exists>k::int. y = of_int k * x \<Longrightarrow> \<exists>k::int. y = of_int k * common_fraction fs"
proof -
  define n where "n x = fst (quotient_of x)" for x
  define d where "d x = snd (quotient_of x)" for x
  define D where "D = foldl (\<lambda>c f. lcm c (d f)) 1 fs"
  define a where "a x = n x * (D div d x)" for x
  define N where "N = foldl (\<lambda>c f. lcm c (a f)) 1 fs"
  have d_pos: "0 < d x" for x using quotient_of_denom_pos' [of x] by (simp add: d_def)
  have x_eq: "x = of_int (n x) / of_int (d x)" for x
    using quotient_of_div [of x "n x" "d x"] by (simp add: n_def d_def)
  have D: "0 < D" unfolding D_def by (rule foldl_lcm_pos) (simp_all add: d_pos)
  have x_D: "x = of_int (a x) / of_int D" and a_pos: "0 < a x" if x: "x \<in> set fs" for x
  proof -
    have "d x dvd D" unfolding D_def by (rule foldl_lcm_dvd [OF x])
    then obtain m where m: "D = d x * m" by blast
    then have "0 < m" using D d_pos [of x] by (simp add: zero_less_mult_iff)
    have "a x = n x * m" using m d_pos [of x] by (simp add: a_def)
    then show "x = of_int (a x) / of_int D" using x_eq [of x] m \<open>0 < m\<close> by simp
    have "0 < n x" using pos x x_eq [of x] d_pos [of x] by (metis of_int_0_less_iff zero_less_divide_iff not_less_iff_gr_or_eq)
    then show "0 < a x" using \<open>a x = n x * m\<close> \<open>0 < m\<close> by simp
  qed
  have N: "0 < N" unfolding N_def by (rule foldl_lcm_pos) (simp_all add: a_pos)
  have g: "common_fraction fs = of_int N / of_int D"
    by (simp add: common_fraction_def Let_def N_def D_def a_def n_def d_def Fract_of_int_quotient)
  show "0 < common_fraction fs" using N D by (simp add: g)
  show "\<exists>k::int. common_fraction fs = of_int k * x" if x: "x \<in> set fs"
  proof -
    have "a x dvd N" unfolding N_def by (rule foldl_lcm_dvd [OF x])
    then obtain k where "N = a x * k" by blast
    then have "common_fraction fs = of_int k * (of_int (a x) / of_int D)" by (simp add: g)
    with x_D [OF x] show ?thesis by metis
  qed
  show "\<exists>k::int. y = of_int k * common_fraction fs"
    if ne: "fs \<noteq> []" and y: "\<forall>x\<in>set fs. \<exists>k::int. y = of_int k * x"
  proof -
    have each: "\<exists>k::int. y * of_int D = of_int (k * a x)" if x: "x \<in> set fs" for x
    proof -
      from y x obtain k :: int where "y = of_int k * x" by blast
      then have "y = of_int k * (of_int (a x) / of_int D)" using x_D [OF x] by metis
      then have "y * of_int D = of_int (k * a x)" using D by simp
      then show ?thesis by blast
    qed
    obtain x0 k0 where "x0 \<in> set fs" "y * of_int D = of_int (k0 * a x0)" using ne each by (metis list.set_intros(1) neq_Nil_conv)
    then obtain Y :: int where Y: "y * of_int D = of_int Y" by blast
    have "a x dvd Y" if x: "x \<in> set fs" for x
    proof -
      from each [OF x] Y obtain k where "(of_int Y :: rat) = of_int (k * a x)" by metis
      then have "Y = k * a x" by (simp only: of_int_eq_iff)
      then show ?thesis by simp
    qed
    then have "N dvd Y" unfolding N_def by (intro foldl_lcm_least) auto
    then obtain k where "Y = N * k" by blast
    then have "y * of_int D = of_int N * of_int k" using Y by simp
    then have "y = of_int k * common_fraction fs" using D by (simp add: g field_simps)
    then show ?thesis by blast
  qed
qed

lemma limit_denominator_id: "snd (quotient_of x) \<le> b \<Longrightarrow> limit_denominator b x = x"
  by (cases "quotient_of x") (simp add: limit_denominator_def)

lemma collect_fractions_all:
  "\<forall>x\<in>set xs. 1 / 1000000000 < x \<and> snd (quotient_of x) \<le> 1000000000 \<Longrightarrow>
     collect_fractions (map Some xs) = Some xs"
  by (induction xs) (auto simp: limit_denominator_id)

text \<open>The common step is the coarsest grid accepted by every leg. For steps above 1e-9 whose decimals
  have denominators up to 1e9, the result is positive, a whole multiple of every step, and every
  quantity that is a whole multiple of each step is a whole multiple of it.\<close>

theorem common_step_is_coarsest:
  assumes "xs \<noteq> []" and "\<forall>x\<in>set xs. 1 / 1000000000 < x \<and> snd (quotient_of x) \<le> 1000000000"
  defines "g \<equiv> common_executable_quantity_step (map Some xs)"
  shows "0 < g \<and> (\<forall>x\<in>set xs. \<exists>k::int. g = of_int k * x) \<and>
     (\<forall>y. (\<forall>x\<in>set xs. \<exists>k::int. y = of_int k * x) \<longrightarrow> (\<exists>k::int. y = of_int k * g))"
proof -
  have g: "g = common_fraction xs"
    using assms(1) collect_fractions_all [OF assms(2)] by (simp add: g_def common_executable_quantity_step_def)
  have "0 < x" if "x \<in> set xs" for x
    using assms(2) that by (metis less_trans zero_less_divide_1_iff zero_less_numeral)
  then have pos: "\<forall>x\<in>set xs. 0 < x" by blast
  note grid = common_fraction_grid [OF pos]
  show ?thesis using grid(1,2) grid(3) [OF assms(1)] by (simp add: g)
qed

lemma common_step_is_coarsest_witness:
  "\<exists>k::int. common_executable_quantity_step [Some (1/4), Some (1/10)] = of_int k * (1/10)"
proof -
  have q: "quotient_of (1/4) = (1, 4)" "quotient_of (1/10) = (1, 10)" by code_simp+
  show ?thesis using common_step_is_coarsest [of "[1/4, 1/10]"] by (simp add: q)
qed
end
