(* ===== verification/Exit_Decision.thy ===== *)
theory Exit_Decision
  imports Pending_Entry
begin

text \<open>
  When an open position is closed and when an entry may start: \<open>lightfee/engine/exit_decision.py\<close>,
  \<open>lightfee/engine/exit.py\<close>, \<open>lightfee/engine/funding_lifecycle.py\<close> and
  \<open>lightfee/engine/v1_lifecycle.py\<close>. The position record carries the fields that these read or
  write. A timestamp read with \<open>getattr\<close> is an option: \<open>None\<close> where it is absent or no number.
\<close>

section \<open>Data\<close>

record open_position =
  op_position_id :: string
  op_symbol :: string
  op_long_venue :: venue
  op_short_venue :: venue
  op_long_quantity :: real
  op_short_quantity :: real
  op_long_entry_price :: real
  op_short_entry_price :: real
  op_entry_notional_quote :: real
  op_captured_funding_quote :: real
  op_funding_captured :: bool
  op_funding_edge_bps_entry :: real
  op_total_funding_edge_bps_entry :: real
  op_peak_net_quote :: real
  op_current_net_quote :: real
  op_settlement_half_closed_at_ms :: int
  op_matched_quantity :: real
  op_funding_timestamp_ms :: int
  op_exit_after_first_stage :: bool
  op_opportunity_type :: string
  op_second_stage_enabled_at_entry :: bool
  op_second_funding_timestamp_ms :: int
  op_second_stage_funding_captured :: bool
  op_second_stage_funding_quote :: real

record exit_config =
  xc_settlement_remainder_close_delay_secs :: int
  xc_net_stop_loss_quote :: real
  xc_profit_take_quote :: real
  xc_trailing_drawdown_quote :: real
  xc_mark_price_delta_hard_stop_quote :: real
  xc_settlement_force_close_delay_secs :: int
  xc_post_funding_hold_secs :: int

datatype exit_reason =
    PROFIT_TAKE | NET_STOP_LOSS | TRAILING_EXIT | FIRST_STAGE_CAPTURE | SECOND_STAGE_CAPTURE
  | FUNDING_CAPTURE | SETTLEMENT_FORCE_CLOSE | MARK_PRICE_HARD_STOP | RISK_DEATH | RISK_DELEVER

section \<open>Funding times\<close>

definition positive_ms :: "int option \<Rightarrow> int" where
  "positive_ms value = (let parsed = or_num value 0 in if parsed > 0 then parsed else 0)"

definition position_positive_ms :: "int \<Rightarrow> int" where
  "position_positive_ms value = (if value \<le> 0 then 0 else value)"

record funding_times =
  ft_first_funding_timestamp_ms :: "int option"
  ft_funding_timestamp_ms :: "int option"
  ft_long_funding_timestamp_ms :: "int option"
  ft_short_funding_timestamp_ms :: "int option"

definition first_funding_ms :: "funding_times \<Rightarrow> int" where
  "first_funding_ms f =
     (let direct = positive_ms (ft_first_funding_timestamp_ms f);
          fallback = positive_ms (ft_funding_timestamp_ms f);
          leg_times = [positive_ms (ft_long_funding_timestamp_ms f), positive_ms (ft_short_funding_timestamp_ms f)];
          positives = filter (\<lambda>ts. ts > 0) leg_times
      in if direct > 0 then direct
         else if fallback > 0 then fallback
         else if positives \<noteq> [] then Min (set positives) else 0)"

text \<open>\<open>min_scan_minutes_before_funding\<close> of the strategy, \<open>None\<close> where it is missing.\<close>

definition effective_entry_min_before_ms :: "int option \<Rightarrow> int" where
  "effective_entry_min_before_ms min_scan_minutes = max (or_num min_scan_minutes 0 * 60000) 0"

record horizon_decision =
  hz_allowed :: bool
  hz_reason :: string
  hz_first_funding_timestamp_ms :: int
  hz_remaining_to_first_funding_ms :: int
  hz_effective_min_before_ms :: int
  hz_source :: string

definition entry_horizon :: "funding_times \<Rightarrow> int option \<Rightarrow> int option \<Rightarrow> string \<Rightarrow> horizon_decision" where
  "entry_horizon f now min_scan_minutes source =
     (let first_ms = first_funding_ms f;
          effective_min = effective_entry_min_before_ms min_scan_minutes;
          remaining = first_ms - max (or_num now 0) 0
      in if first_ms \<le> 0
         then \<lparr>hz_allowed = False, hz_reason = ''entry_blocked_first_funding_missing'',
               hz_first_funding_timestamp_ms = 0, hz_remaining_to_first_funding_ms = 0,
               hz_effective_min_before_ms = effective_min, hz_source = source\<rparr>
         else \<lparr>hz_allowed = \<not> remaining < effective_min,
               hz_reason = (if remaining < effective_min then ''entry_blocked_first_funding_too_close'' else []),
               hz_first_funding_timestamp_ms = first_ms, hz_remaining_to_first_funding_ms = remaining,
               hz_effective_min_before_ms = effective_min, hz_source = source\<rparr>)"

text \<open>A decision of the life cycle: the evidence is the horizon it was taken on.\<close>

record lifecycle_decision =
  ld_allowed :: bool
  ld_reason :: string
  ld_evidence :: horizon_decision

definition entry_admissibility :: "funding_times \<Rightarrow> int option \<Rightarrow> int option \<Rightarrow> string \<Rightarrow> lifecycle_decision" where
  "entry_admissibility candidate now min_scan_minutes source =
     (let horizon = entry_horizon candidate now min_scan_minutes source
      in if \<not> hz_allowed horizon then \<lparr>ld_allowed = False, ld_reason = hz_reason horizon, ld_evidence = horizon\<rparr>
         else \<lparr>ld_allowed = True, ld_reason = [], ld_evidence = horizon\<rparr>)"

definition pending_entry_viability ::
  "pending_entry \<Rightarrow> funding_times \<Rightarrow> int option \<Rightarrow> int option \<Rightarrow> lifecycle_decision" where
  "pending_entry_viability p ft now min_scan_minutes =
     (let has_positive = (pe_maker_leg_filled p > 0 \<or> pe_hedge_leg_filled p > 0);
          horizon = entry_horizon ft now min_scan_minutes ''pending_entry''
      in if \<not> hz_allowed horizon \<and> has_positive
         then \<lparr>ld_allowed = True, ld_reason = ''pending_entry_terminality_positive_fill_recovery'', ld_evidence = horizon\<rparr>
         else if \<not> hz_allowed horizon
         then \<lparr>ld_allowed = False, ld_reason = ''pending_entry_viability_first_funding_too_close'', ld_evidence = horizon\<rparr>
         else \<lparr>ld_allowed = True, ld_reason = [], ld_evidence = horizon\<rparr>)"

section \<open>Timing of a close\<close>

abbreviation aligned :: "open_position \<Rightarrow> bool" where
  "aligned p \<equiv> op_opportunity_type p = ''aligned''"

abbreviation staggered :: "open_position \<Rightarrow> bool" where
  "staggered p \<equiv> op_opportunity_type p = ''staggered''"

definition remaining_close_delay_active :: "open_position \<Rightarrow> int \<Rightarrow> int \<Rightarrow> bool" where
  "remaining_close_delay_active p now delay_ms \<longleftrightarrow>
     (let funding_ms = position_positive_ms (op_funding_timestamp_ms p);
          half_close = (op_settlement_half_closed_at_ms p > 0 \<and> now < op_settlement_half_closed_at_ms p + delay_ms)
      in if aligned p \<and> op_matched_quantity p > 0
         then (if funding_ms \<le> 0 then False else if now < funding_ms + delay_ms then True else half_close)
         else half_close)"

definition aligned_settlement_delay_elapsed :: "open_position \<Rightarrow> int \<Rightarrow> int \<Rightarrow> bool" where
  "aligned_settlement_delay_elapsed p now delay_ms \<longleftrightarrow>
     (let funding_ms = position_positive_ms (op_funding_timestamp_ms p)
      in aligned p \<and> \<not> op_matched_quantity p \<le> 0 \<and> \<not> funding_ms \<le> 0 \<and> now \<ge> funding_ms + delay_ms)"

definition force_close_due :: "open_position \<Rightarrow> exit_config \<Rightarrow> int \<Rightarrow> bool" where
  "force_close_due p config now \<longleftrightarrow>
     (let funding_ms = position_positive_ms (op_funding_timestamp_ms p);
          force_ms = xc_settlement_force_close_delay_secs config * 1000
      in aligned p \<and> \<not> op_matched_quantity p \<le> 0 \<and> \<not> funding_ms \<le> 0 \<and> now \<ge> funding_ms + force_ms)"

definition passive_close_fallback_due :: "open_position \<Rightarrow> exit_config \<Rightarrow> int \<Rightarrow> bool" where
  "passive_close_fallback_due p config now \<longleftrightarrow>
     (let base_ms =
        (if op_settlement_half_closed_at_ms p > 0 then op_settlement_half_closed_at_ms p
         else if staggered p \<and> op_second_stage_enabled_at_entry p \<and> \<not> op_exit_after_first_stage p
         then max (position_positive_ms (op_second_funding_timestamp_ms p)) (position_positive_ms (op_funding_timestamp_ms p))
         else position_positive_ms (op_funding_timestamp_ms p));
          force_ms = max (xc_settlement_force_close_delay_secs config * 1000) (xc_post_funding_hold_secs config * 1000)
      in \<not> op_matched_quantity p \<le> 0 \<and> \<not> base_ms \<le> 0 \<and> now \<ge> base_ms + force_ms)"

section \<open>Why a position is closed\<close>

text \<open>The reasons that need no market price, in the order both decisions test them.\<close>

definition funding_close_reason :: "open_position \<Rightarrow> exit_reason option" where
  "funding_close_reason p =
     (if staggered p \<and> op_funding_captured p \<and> op_exit_after_first_stage p then Some FIRST_STAGE_CAPTURE
      else if staggered p \<and> op_second_stage_enabled_at_entry p \<and> op_second_stage_funding_captured p
      then Some SECOND_STAGE_CAPTURE
      else if op_funding_captured p \<and> op_current_net_quote p \<ge> 0 \<and>
         \<not> (staggered p \<and> op_second_stage_enabled_at_entry p \<and> \<not> op_second_stage_funding_captured p)
      then Some FUNDING_CAPTURE
      else None)"

definition standard_close_reason :: "open_position \<Rightarrow> exit_config \<Rightarrow> int \<Rightarrow> exit_reason option" where
  "standard_close_reason p config now =
     (let delay_ms = xc_settlement_remainder_close_delay_secs config * 1000
      in if op_current_net_quote p \<le> - xc_net_stop_loss_quote config then Some NET_STOP_LOSS
         else if remaining_close_delay_active p now delay_ms then None
         else if aligned_settlement_delay_elapsed p now delay_ms then Some FUNDING_CAPTURE
         else if op_peak_net_quote p \<ge> xc_profit_take_quote config \<and>
            op_peak_net_quote p - op_current_net_quote p \<ge> xc_trailing_drawdown_quote config
         then Some TRAILING_EXIT
         else funding_close_reason p)"

definition stale_market_safe_close_reason :: "open_position \<Rightarrow> exit_config \<Rightarrow> int \<Rightarrow> exit_reason option" where
  "stale_market_safe_close_reason p config now =
     (let delay_ms = xc_settlement_remainder_close_delay_secs config * 1000
      in if remaining_close_delay_active p now delay_ms then None
         else if aligned_settlement_delay_elapsed p now delay_ms then Some FUNDING_CAPTURE
         else funding_close_reason p)"

record delta_monitor =
  dm_mark_price_delta_quote :: real
  dm_mark_price_delta_bps :: real
  dm_warning_stop_loss_fraction :: real
  dm_warning_triggered :: bool
  dm_hard_stop_triggered :: bool

definition position_delta_monitor :: "open_position \<Rightarrow> real \<Rightarrow> real \<Rightarrow> exit_config \<Rightarrow> delta_monitor option" where
  "position_delta_monitor p long_mark_price short_mark_price config =
     (let hard_stop_q = xc_mark_price_delta_hard_stop_quote config;
          delta_quote = \<bar>short_mark_price - long_mark_price\<bar> * op_matched_quantity p;
          hard_stop = (delta_quote \<ge> hard_stop_q);
          warning = (delta_quote \<ge> hard_stop_q * (1 / 2))
      in if \<not> warning \<and> \<not> hard_stop then None
         else Some \<lparr>dm_mark_price_delta_quote = delta_quote, dm_mark_price_delta_bps = 0,
                    dm_warning_stop_loss_fraction = 1 / 2, dm_warning_triggered = warning,
                    dm_hard_stop_triggered = hard_stop\<rparr>)"

section \<open>Capturing funding\<close>

definition paired_entry_notional_quote :: "open_position \<Rightarrow> real" where
  "paired_entry_notional_quote p =
     (if op_entry_notional_quote p > 0 then op_entry_notional_quote p
      else if op_matched_quantity p \<le> 0 \<or> op_long_entry_price p \<le> 0 \<or> op_short_entry_price p \<le> 0 then 0
      else op_matched_quantity p * (op_long_entry_price p + op_short_entry_price p) * (1 / 2))"

definition capture_first_stage :: "int \<Rightarrow> int \<Rightarrow> open_position \<Rightarrow> open_position" where
  "capture_first_stage now hold_deadline p =
     (if \<not> op_funding_captured p \<and> now \<ge> hold_deadline
      then p\<lparr>op_funding_captured := True,
             op_captured_funding_quote := paired_entry_notional_quote p * op_funding_edge_bps_entry p / 10000\<rparr>
      else p)"

definition capture_second_stage :: "int \<Rightarrow> int \<Rightarrow> int \<Rightarrow> open_position \<Rightarrow> open_position" where
  "capture_second_stage now funding_ms post_funding_hold_ms p =
     (let second_funding_ms = position_positive_ms (op_second_funding_timestamp_ms p);
          second_hold = second_funding_ms + post_funding_hold_ms
      in if op_funding_captured p \<and> op_second_stage_enabled_at_entry p \<and> \<not> op_second_stage_funding_captured p \<and>
            second_funding_ms > funding_ms \<and> now \<ge> second_hold
         then p\<lparr>op_second_stage_funding_captured := True,
                op_second_stage_funding_quote := paired_entry_notional_quote p *
                   (op_total_funding_edge_bps_entry p - op_funding_edge_bps_entry p) / 10000,
                op_peak_net_quote := max (op_peak_net_quote p) (op_current_net_quote p)\<rparr>
         else p)"

definition update_position_funding_capture_state :: "int \<Rightarrow> int \<Rightarrow> open_position \<Rightarrow> open_position" where
  "update_position_funding_capture_state now post_funding_hold_ms p =
     (let previous_total = op_captured_funding_quote p + op_second_stage_funding_quote p;
          funding_ms = position_positive_ms (op_funding_timestamp_ms p)
      in if funding_ms \<le> 0 then p
         else
           let p = capture_first_stage now (funding_ms + post_funding_hold_ms) p;
               p = capture_second_stage now funding_ms post_funding_hold_ms p;
               funding_delta = op_captured_funding_quote p + op_second_stage_funding_quote p - previous_total
           in if \<bar>funding_delta\<bar> > 0
              then
                let p = p\<lparr>op_current_net_quote := op_current_net_quote p + funding_delta\<rparr>
                in if op_current_net_quote p > op_peak_net_quote p
                   then p\<lparr>op_peak_net_quote := op_current_net_quote p\<rparr> else p
              else p)"

section \<open>Classes of reasons\<close>

text \<open>\<open>sub in s\<close> on strings.\<close>

fun py_in :: "string \<Rightarrow> string \<Rightarrow> bool" where
  "py_in sub [] \<longleftrightarrow> sub = []"
| "py_in sub (c # s) \<longleftrightarrow> py_startswith (c # s) sub \<or> py_in sub s"

definition is_delever_close_reason :: "string \<Rightarrow> bool" where
  "is_delever_close_reason reason \<longleftrightarrow> py_startswith reason ''risk_delever''"

definition is_protection_close_reason :: "string \<Rightarrow> bool" where
  "is_protection_close_reason reason \<longleftrightarrow> py_in ''single_side_protection'' reason \<or>
     py_startswith reason ''risk_protection'' \<or> py_startswith reason ''protection_''"

definition normal_close_reason_uses_passive_maker_taker :: "string option \<Rightarrow> bool" where
  "normal_close_reason_uses_passive_maker_taker reason =
     (case reason of None \<Rightarrow> False
      | Some r \<Rightarrow> r \<in> {''trailing_exit'', ''first_stage_capture'', ''second_stage_capture'', ''funding_capture'',
                      ''settlement_half_close'', ''settlement_force_close''})"

section \<open>Orders and results of a close\<close>

record close_order =
  co_venue :: venue
  co_symbol :: string
  co_side :: order_side
  co_quantity :: real
  co_reduce_only :: bool

record close_fill =
  cf_quantity :: real
  cf_price :: real
  cf_fee_quote :: "real option"

record close_execution =
  ce_position_id :: string
  ce_reason :: string
  ce_long_close_price :: real
  ce_short_close_price :: real
  ce_long_close_qty :: real
  ce_short_close_qty :: real
  ce_long_fee_quote :: real
  ce_short_fee_quote :: real
  ce_realized_price_pnl_quote :: real
  ce_funding_pnl_quote :: real
  ce_net_quote :: real

definition build_reduce_only_close_orders :: "open_position \<Rightarrow> close_order \<times> close_order" where
  "build_reduce_only_close_orders p =
     (\<lparr>co_venue = op_long_venue p, co_symbol = op_symbol p, co_side = SELL,
       co_quantity = \<bar>op_long_quantity p\<bar>, co_reduce_only = True\<rparr>,
      \<lparr>co_venue = op_short_venue p, co_symbol = op_symbol p, co_side = BUY,
       co_quantity = \<bar>op_short_quantity p\<bar>, co_reduce_only = True\<rparr>)"

definition compute_close_pnl :: "open_position \<Rightarrow> close_fill \<Rightarrow> close_fill \<Rightarrow> close_execution" where
  "compute_close_pnl p long_fill short_fill =
     (let matched_qty = min (cf_quantity long_fill) (cf_quantity short_fill);
          realized_pnl = (cf_price long_fill - op_long_entry_price p) * matched_qty +
                         (op_short_entry_price p - cf_price short_fill) * matched_qty;
          long_fee = or_num (cf_fee_quote long_fill) 0;
          short_fee = or_num (cf_fee_quote short_fill) 0
      in \<lparr>ce_position_id = op_position_id p, ce_reason = ''manual'', ce_long_close_price = cf_price long_fill,
          ce_short_close_price = cf_price short_fill, ce_long_close_qty = cf_quantity long_fill,
          ce_short_close_qty = cf_quantity short_fill, ce_long_fee_quote = long_fee, ce_short_fee_quote = short_fee,
          ce_realized_price_pnl_quote = realized_pnl, ce_funding_pnl_quote = 0,
          ce_net_quote = realized_pnl - long_fee - short_fee\<rparr>)"

section \<open>Lemmas\<close>

text \<open>The price result of the position without what funding added to it.\<close>

definition price_net :: "open_position \<Rightarrow> real" where
  "price_net p = op_current_net_quote p - (op_captured_funding_quote p + op_second_stage_funding_quote p)"

text \<open>What an update can never change, and what it can only switch on.\<close>

lemma capture_frames [simp]:
  "op_current_net_quote (capture_first_stage now h p) = op_current_net_quote p"
  "op_second_stage_funding_quote (capture_first_stage now h p) = op_second_stage_funding_quote p"
  "op_funding_timestamp_ms (capture_first_stage now h p) = op_funding_timestamp_ms p"
  "op_peak_net_quote (capture_first_stage now h p) = op_peak_net_quote p"
  "op_second_stage_funding_captured (capture_first_stage now h p) = op_second_stage_funding_captured p"
  "op_current_net_quote (capture_second_stage now f h p) = op_current_net_quote p"
  "op_captured_funding_quote (capture_second_stage now f h p) = op_captured_funding_quote p"
  "op_funding_captured (capture_second_stage now f h p) = op_funding_captured p"
  "op_funding_timestamp_ms (capture_second_stage now f h p) = op_funding_timestamp_ms p"
  by (simp_all add: capture_first_stage_def capture_second_stage_def Let_def)

lemma update_frames:
  "op_captured_funding_quote (update_position_funding_capture_state now h p) =
     (if position_positive_ms (op_funding_timestamp_ms p) \<le> 0 then op_captured_funding_quote p
      else op_captured_funding_quote (capture_first_stage now (position_positive_ms (op_funding_timestamp_ms p) + h) p))"
  "op_funding_captured (update_position_funding_capture_state now h p) =
     (if position_positive_ms (op_funding_timestamp_ms p) \<le> 0 then op_funding_captured p
      else op_funding_captured (capture_first_stage now (position_positive_ms (op_funding_timestamp_ms p) + h) p))"
  by (simp_all add: update_position_funding_capture_state_def Let_def)

lemma update_price_net: "price_net (update_position_funding_capture_state now h p) = price_net p"
  by (simp add: update_position_funding_capture_state_def Let_def price_net_def)

lemma update_captured_stays:
  assumes "op_funding_captured p"
  shows "op_funding_captured (update_position_funding_capture_state now h p)"
    "op_captured_funding_quote (update_position_funding_capture_state now h p) = op_captured_funding_quote p"
  using assms by (simp_all add: update_frames capture_first_stage_def)

lemma update_peak: "op_peak_net_quote p \<le> op_peak_net_quote (update_position_funding_capture_state now h p)"
  by (simp add: update_position_funding_capture_state_def Let_def capture_second_stage_def)

lemma capture_static [simp]:
  "op_funding_edge_bps_entry (capture_first_stage now h p) = op_funding_edge_bps_entry p"
  "paired_entry_notional_quote (capture_first_stage now h p) = paired_entry_notional_quote p"
  "op_funding_edge_bps_entry (capture_second_stage now f h p) = op_funding_edge_bps_entry p"
  "paired_entry_notional_quote (capture_second_stage now f h p) = paired_entry_notional_quote p"
  "paired_entry_notional_quote (p\<lparr>op_current_net_quote := x\<rparr>) = paired_entry_notional_quote p"
  "paired_entry_notional_quote (p\<lparr>op_peak_net_quote := x\<rparr>) = paired_entry_notional_quote p"
  by (simp_all add: capture_first_stage_def capture_second_stage_def Let_def paired_entry_notional_quote_def)

lemma update_static [simp]:
  "op_funding_timestamp_ms (update_position_funding_capture_state now h p) = op_funding_timestamp_ms p"
  "op_funding_edge_bps_entry (update_position_funding_capture_state now h p) = op_funding_edge_bps_entry p"
  "paired_entry_notional_quote (update_position_funding_capture_state now h p) = paired_entry_notional_quote p"
  by (simp_all add: update_position_funding_capture_state_def Let_def)

lemma update_current_le_peak:
  assumes "op_current_net_quote p \<le> op_peak_net_quote p"
  shows "op_current_net_quote (update_position_funding_capture_state now h p)
     \<le> op_peak_net_quote (update_position_funding_capture_state now h p)"
proof (cases "position_positive_ms (op_funding_timestamp_ms p) \<le> 0")
  case False
  define q where "q = capture_second_stage now (position_positive_ms (op_funding_timestamp_ms p)) h
      (capture_first_stage now (position_positive_ms (op_funding_timestamp_ms p) + h) p)"
  have "op_current_net_quote q \<le> op_peak_net_quote q"
    using assms by (simp add: q_def capture_second_stage_def Let_def)
  then show ?thesis
    using False by (simp add: update_position_funding_capture_state_def Let_def q_def [symmetric])
qed (simp add: assms update_position_funding_capture_state_def)

text \<open>The fee of the first stage is booked once, at its value.\<close>

definition stage_booked :: "real \<Rightarrow> open_position \<Rightarrow> bool" where
  "stage_booked n p \<longleftrightarrow> price_net p = n \<and> op_current_net_quote p \<le> op_peak_net_quote p \<and>
     (op_funding_captured p \<longrightarrow>
        op_captured_funding_quote p = paired_entry_notional_quote p * op_funding_edge_bps_entry p / 10000)"

interpretation capturing: ranked_system "\<lambda>p t. update_position_funding_capture_state t h p" "stage_booked n"
    "\<lambda>_ _. True" op_peak_net_quote for n h
proof unfold_locales
  fix p t
  assume p: "stage_booked n p"
  let ?q = "update_position_funding_capture_state t h p"
  have "op_captured_funding_quote ?q = paired_entry_notional_quote ?q * op_funding_edge_bps_entry ?q / 10000"
    if "op_funding_captured ?q"
    using that p by (auto simp: update_frames capture_first_stage_def stage_booked_def split: if_splits)
  then show "stage_booked n ?q"
    using p update_price_net [of t h p] update_current_le_peak [of p t h] by (simp add: stage_booked_def)
  show "op_peak_net_quote p \<le> op_peak_net_quote ?q" by (rule update_peak)
qed

lemma captured_after:
  "op_funding_captured (foldl (\<lambda>p t. update_position_funding_capture_state t h p) p ts) \<longleftrightarrow>
     op_funding_captured p \<or> (0 < op_funding_timestamp_ms p \<and> (\<exists>t\<in>set ts. op_funding_timestamp_ms p + h \<le> t))"
proof (induction ts arbitrary: p)
  case Nil
  show ?case by simp
next
  case (Cons t ts)
  show ?case
    by (simp add: Cons.IH) (auto simp: update_frames capture_first_stage_def position_positive_ms_def)
qed

section \<open>Properties\<close>

text \<open>C25: Funding is booked once. However often the capture state of an open position is updated, the net
  result without booked funding never changes, the peak never falls and stays at or above the current
  result; the first stage is captured exactly when an update comes at or after its funding time plus
  the hold, and what is booked for it is the paired notional times the edge, once.\<close>

theorem funding_booked_once:
  fixes p :: open_position and ts :: "int list" and h :: int
  assumes "op_current_net_quote p \<le> op_peak_net_quote p" and "\<not> op_funding_captured p"
  defines "q \<equiv> foldl (\<lambda>p t. update_position_funding_capture_state t h p) p ts"
  shows "price_net q = price_net p \<and> op_peak_net_quote p \<le> op_peak_net_quote q \<and>
     op_current_net_quote q \<le> op_peak_net_quote q \<and>
     (op_funding_captured q \<longleftrightarrow> 0 < op_funding_timestamp_ms p \<and> (\<exists>t\<in>set ts. op_funding_timestamp_ms p + h \<le> t)) \<and>
     (op_funding_captured q \<longrightarrow>
        op_captured_funding_quote q = paired_entry_notional_quote q * op_funding_edge_bps_entry q / 10000)"
proof -
  have inv: "stage_booked (price_net p) p" using assms(1,2) by (simp add: stage_booked_def)
  have ok: "run_ok (\<lambda>p t. update_position_funding_capture_state t h p) (\<lambda>_ _. True) p ts" by simp
  show ?thesis
    using capturing.run_inv [OF inv ok] capturing.run_rank [OF inv ok] captured_after [of h p ts] assms(2)
    by (simp add: q_def stage_booked_def)
qed

definition sample_position :: open_position where
  "sample_position = \<lparr>op_position_id = ''p'', op_symbol = ''BTC'', op_long_venue = BINANCE, op_short_venue = OKX,
     op_long_quantity = 1, op_short_quantity = 1, op_long_entry_price = 100, op_short_entry_price = 100,
     op_entry_notional_quote = 100, op_captured_funding_quote = 0, op_funding_captured = False,
     op_funding_edge_bps_entry = 10, op_total_funding_edge_bps_entry = 10, op_peak_net_quote = 0,
     op_current_net_quote = 0, op_settlement_half_closed_at_ms = 0, op_matched_quantity = 1,
     op_funding_timestamp_ms = 1000, op_exit_after_first_stage = False, op_opportunity_type = ''aligned'',
     op_second_stage_enabled_at_entry = False, op_second_funding_timestamp_ms = 0,
     op_second_stage_funding_captured = False, op_second_stage_funding_quote = 0\<rparr>"

lemma funding_booked_once_witness:
  "op_funding_captured (foldl (\<lambda>p t. update_position_funding_capture_state t 10 p) sample_position [900, 1010, 1020])"
  using funding_booked_once [of sample_position 10 "[900, 1010, 1020]"] by (simp add: sample_position_def)

text \<open>The order of the close reasons. The stop loss fires exactly at its threshold and before anything
  else, during the settlement delay too; otherwise nothing closes inside the delay; an aligned live
  position closes for captured funding as soon as the delay is over and never by the trailing
  exit; and without price signals the decision is the same whenever neither price rule fires.\<close>

theorem close_reason_order:
  fixes p :: open_position and config :: exit_config
  defines "delay \<equiv> xc_settlement_remainder_close_delay_secs config * 1000"
    and "stop \<equiv> op_current_net_quote p \<le> - xc_net_stop_loss_quote config"
  shows "(standard_close_reason p config now = Some NET_STOP_LOSS \<longleftrightarrow> stop) \<and>
     (\<not> stop \<and> remaining_close_delay_active p now delay \<longrightarrow> standard_close_reason p config now = None) \<and>
     (\<not> stop \<and> aligned p \<and> 0 < op_matched_quantity p \<and> 0 < op_funding_timestamp_ms p \<longrightarrow>
        standard_close_reason p config now =
          (if now < op_funding_timestamp_ms p + delay \<or>
              (0 < op_settlement_half_closed_at_ms p \<and> now < op_settlement_half_closed_at_ms p + delay)
           then None else Some FUNDING_CAPTURE)) \<and>
     (\<not> stop \<and> \<not> (xc_profit_take_quote config \<le> op_peak_net_quote p \<and>
          xc_trailing_drawdown_quote config \<le> op_peak_net_quote p - op_current_net_quote p) \<longrightarrow>
        stale_market_safe_close_reason p config now = standard_close_reason p config now) \<and>
     stale_market_safe_close_reason p config now \<in> {None, Some FUNDING_CAPTURE, Some FIRST_STAGE_CAPTURE, Some SECOND_STAGE_CAPTURE}"
proof (intro conjI impI)
  show "standard_close_reason p config now = Some NET_STOP_LOSS \<longleftrightarrow> stop"
    by (simp add: standard_close_reason_def funding_close_reason_def Let_def stop_def)
  show "standard_close_reason p config now = None" if "\<not> stop \<and> remaining_close_delay_active p now delay"
    using that by (simp add: standard_close_reason_def Let_def stop_def delay_def)
  show "standard_close_reason p config now =
          (if now < op_funding_timestamp_ms p + delay \<or>
              (0 < op_settlement_half_closed_at_ms p \<and> now < op_settlement_half_closed_at_ms p + delay)
           then None else Some FUNDING_CAPTURE)"
    if "\<not> stop \<and> aligned p \<and> 0 < op_matched_quantity p \<and> 0 < op_funding_timestamp_ms p"
    using that by (simp add: standard_close_reason_def Let_def stop_def [symmetric] delay_def [symmetric]
        remaining_close_delay_active_def aligned_settlement_delay_elapsed_def position_positive_ms_def)
  show "stale_market_safe_close_reason p config now = standard_close_reason p config now"
    if "\<not> stop \<and> \<not> (xc_profit_take_quote config \<le> op_peak_net_quote p \<and>
          xc_trailing_drawdown_quote config \<le> op_peak_net_quote p - op_current_net_quote p)"
    using that by (auto simp: standard_close_reason_def stale_market_safe_close_reason_def Let_def stop_def)
  show "stale_market_safe_close_reason p config now \<in> {None, Some FUNDING_CAPTURE, Some FIRST_STAGE_CAPTURE, Some SECOND_STAGE_CAPTURE}"
    by (simp add: stale_market_safe_close_reason_def funding_close_reason_def Let_def)
qed

definition sample_exit_config :: exit_config where
  "sample_exit_config = \<lparr>xc_settlement_remainder_close_delay_secs = 2, xc_net_stop_loss_quote = 5,
     xc_profit_take_quote = 1, xc_trailing_drawdown_quote = 1, xc_mark_price_delta_hard_stop_quote = 10,
     xc_settlement_force_close_delay_secs = 60, xc_post_funding_hold_secs = 1\<rparr>"

lemma close_reason_order_witness:
  "standard_close_reason (sample_position\<lparr>op_peak_net_quote := 9\<rparr>) sample_exit_config 3000 = Some FUNDING_CAPTURE"
  using close_reason_order [of "sample_position\<lparr>op_peak_net_quote := 9\<rparr>" sample_exit_config 3000]
  by (simp add: sample_position_def sample_exit_config_def)

text \<open>A pending entry with a fill is never called off. An entry may start exactly when its first funding
  time is known and at least the configured lead away; a pending entry stays viable exactly when that
  holds or something has been filled.\<close>

theorem viability_of_entries:
  fixes ft :: funding_times and now lead :: "int option"
  defines "in_time \<equiv> 0 < first_funding_ms ft \<and>
      effective_entry_min_before_ms lead \<le> first_funding_ms ft - max (or_num now 0) 0"
  shows "(ld_allowed (entry_admissibility ft now lead source) = in_time) \<and>
     (ld_allowed (pending_entry_viability p ft now lead) =
        (in_time \<or> 0 < pe_maker_leg_filled p \<or> 0 < pe_hedge_leg_filled p))"
  by (auto simp: entry_admissibility_def pending_entry_viability_def entry_horizon_def Let_def in_time_def)
end
