(* ===== verification/Risk_State.thy ===== *)
theory Risk_State
  imports Pending_Entry
begin

text \<open>
  The engine's life cycle and risk mode: \<open>lightfee/risk/modes.py\<close>, \<open>risk/operator.py\<close>,
  \<open>risk/health.py\<close>, \<open>risk/budgets.py\<close>, the transitions of \<open>lightfee/engine/lifecycle.py\<close> and the
  residual exposure of \<open>lightfee/engine/residual.py\<close>. Of the engine's state the record carries the
  four fields that the transitions write; of a recovery decision, the four that clearing reads.
\<close>

section \<open>Modes\<close>

datatype engine_lifecycle = BOOTING | RECONCILING | RISK_ONLY | LC_RUNNING

datatype global_risk_mode = RM_RUNNING | ENTRY_PAUSED | REDUCE_ONLY | FAIL_CLOSED

datatype engine_mode = EM_RUNNING | EM_RECOVERING | EM_FAIL_CLOSED

fun severity :: "global_risk_mode \<Rightarrow> nat" where
  "severity RM_RUNNING = 0"
| "severity ENTRY_PAUSED = 1"
| "severity REDUCE_ONLY = 2"
| "severity FAIL_CLOSED = 3"

definition at_least_mode :: "global_risk_mode \<Rightarrow> global_risk_mode \<Rightarrow> bool" where
  "at_least_mode m other \<longleftrightarrow> severity m \<ge> severity other"

definition max_mode :: "global_risk_mode \<Rightarrow> global_risk_mode \<Rightarrow> global_risk_mode" where
  "max_mode m other = (if at_least_mode m other then m else other)"

text \<open>The modes in the order of their severity.\<close>

lemma severity_inj: "severity a = severity b \<Longrightarrow> a = b"
  by (cases a; cases b) simp_all

instantiation global_risk_mode :: linorder
begin

definition less_eq_global_risk_mode :: "global_risk_mode \<Rightarrow> global_risk_mode \<Rightarrow> bool" where
  "less_eq_global_risk_mode a b \<longleftrightarrow> severity a \<le> severity b"

definition less_global_risk_mode :: "global_risk_mode \<Rightarrow> global_risk_mode \<Rightarrow> bool" where
  "less_global_risk_mode a b \<longleftrightarrow> severity a < severity b"

instance
  by standard (auto simp: less_eq_global_risk_mode_def less_global_risk_mode_def intro: severity_inj)

end

lemma max_mode_max [simp]: "max_mode a b = max a b"
  by (cases a; cases b) (simp_all add: max_mode_def at_least_mode_def max_def less_eq_global_risk_mode_def)

text \<open>The life cycle \<open>fail_closed\<close> of old snapshots is not a value of the enumeration.\<close>

definition derive_engine_mode :: "engine_lifecycle \<Rightarrow> global_risk_mode \<Rightarrow> engine_mode" where
  "derive_engine_mode lifecycle risk =
     (if risk = FAIL_CLOSED then EM_FAIL_CLOSED
      else if lifecycle \<in> {BOOTING, RECONCILING, RISK_ONLY} then EM_RECOVERING
      else if lifecycle = LC_RUNNING \<and> risk = RM_RUNNING then EM_RUNNING
      else EM_RECOVERING)"

section \<open>Operator commands\<close>

datatype operator_command = OC_PAUSE_ENTRY | OC_REDUCE_ONLY | OC_FAIL_CLOSED | OC_RECONCILE_NOW | OC_RESUME_IF_SAFE

definition apply_operator_command ::
  "operator_command \<Rightarrow> global_risk_mode \<Rightarrow> engine_lifecycle \<Rightarrow> bool \<Rightarrow> global_risk_mode \<times> engine_lifecycle" where
  "apply_operator_command command current_risk current_lifecycle has_blocking_recovery =
     (case command of
        OC_PAUSE_ENTRY \<Rightarrow> (max_mode current_risk ENTRY_PAUSED, current_lifecycle)
      | OC_REDUCE_ONLY \<Rightarrow> (max_mode current_risk REDUCE_ONLY, current_lifecycle)
      | OC_FAIL_CLOSED \<Rightarrow> (FAIL_CLOSED, RISK_ONLY)
      | OC_RESUME_IF_SAFE \<Rightarrow>
          if has_blocking_recovery then (current_risk, current_lifecycle) else (RM_RUNNING, LC_RUNNING)
      | OC_RECONCILE_NOW \<Rightarrow> (current_risk, current_lifecycle))"

section \<open>Transitions of the engine\<close>

record engine_state =
  es_lifecycle :: engine_lifecycle
  es_risk_mode :: global_risk_mode
  es_recovery_blocked_reason :: "string option"
  es_recovery_blocked_at_ms :: int

datatype recovery_decision_kind =
    RUNNING_CLEAN | RUNNING_WITH_EVIDENCE_GAP | RISK_ONLY_WAIT_FOR_TRUTH | MANAGE_OWNED_RECOVERY_WORK
  | BLOCK_OR_FLATTEN_LIVE_ARTIFACT | OPERATOR_FAIL_CLOSED_PRESERVED

record recovery_decision =
  rd_kind :: recovery_decision_kind
  rd_entry_allowed :: bool
  rd_block_reason :: "string option"
  rd_clear_previous_block :: bool

definition set_lifecycle :: "engine_lifecycle \<Rightarrow> engine_state \<Rightarrow> engine_state" where
  "set_lifecycle l s = s\<lparr>es_lifecycle := l\<rparr>"

definition set_global_risk_mode :: "global_risk_mode \<Rightarrow> engine_state \<Rightarrow> engine_state" where
  "set_global_risk_mode m s = s\<lparr>es_risk_mode := m\<rparr>"

definition enter_fail_closed :: "engine_state \<Rightarrow> engine_state" where
  "enter_fail_closed s = s\<lparr>es_lifecycle := RISK_ONLY, es_risk_mode := FAIL_CLOSED\<rparr>"

definition is_running :: "engine_state \<Rightarrow> bool" where
  "is_running s \<longleftrightarrow> es_lifecycle s = LC_RUNNING \<and> es_risk_mode s = RM_RUNNING"

definition can_enter_new_positions :: "engine_state \<Rightarrow> bool" where
  "can_enter_new_positions s \<longleftrightarrow> is_running s"

definition transition_to_reconciling :: "engine_state \<Rightarrow> engine_state" where
  "transition_to_reconciling s = set_lifecycle RECONCILING s"

definition transition_to_running :: "engine_state \<Rightarrow> engine_state" where
  "transition_to_running s = set_global_risk_mode RM_RUNNING (set_lifecycle LC_RUNNING s)"

text \<open>Optional text is false when it is missing or empty.\<close>

definition truthy :: "string option \<Rightarrow> bool" where
  "truthy s \<longleftrightarrow> (case s of None \<Rightarrow> False | Some t \<Rightarrow> t \<noteq> [])"

definition clear_risk_mode_for_recovery :: "recovery_decision option \<Rightarrow> engine_state \<Rightarrow> bool \<times> engine_state" where
  "clear_risk_mode_for_recovery core_decision s =
     (case core_decision of None \<Rightarrow> (False, s)
      | Some d \<Rightarrow>
          if truthy (rd_block_reason d) then (False, s)
          else if \<not> rd_entry_allowed d then (False, s)
          else if rd_kind d \<notin> {RUNNING_CLEAN, RUNNING_WITH_EVIDENCE_GAP} then (False, s)
          else if truthy (es_recovery_blocked_reason s) \<and> \<not> rd_clear_previous_block d then (False, s)
          else (True, s\<lparr>es_risk_mode := RM_RUNNING, es_lifecycle := LC_RUNNING,
                        es_recovery_blocked_reason := None, es_recovery_blocked_at_ms := 0\<rparr>))"

section \<open>Health lines\<close>

record health_config =
  hc_death_line_enabled :: bool
  hc_death_health_ratio :: real
  hc_delever_line_enabled :: bool
  hc_delever_health_ratio :: real
  hc_warning_line_enabled :: bool
  hc_warning_health_ratio :: real

record risk_health_view =
  rh_min_health_ratio :: pyfloat
  rh_death_condition :: bool
  rh_delever_condition :: bool
  rh_warning_condition :: bool

definition evaluate_risk_health :: "(string, real) dict \<Rightarrow> health_config \<Rightarrow> risk_health_view" where
  "evaluate_risk_health health_ratios config =
     (let ratios = map snd health_ratios
      in if ratios = []
         then \<lparr>rh_min_health_ratio = PosInf, rh_death_condition = False, rh_delever_condition = False,
               rh_warning_condition = False\<rparr>
         else
           let min_ratio = Min (set ratios)
           in \<lparr>rh_min_health_ratio = Fin min_ratio,
               rh_death_condition = (hc_death_line_enabled config \<and> min_ratio \<le> hc_death_health_ratio config),
               rh_delever_condition = (hc_delever_line_enabled config \<and> min_ratio \<le> hc_delever_health_ratio config),
               rh_warning_condition = (hc_warning_line_enabled config \<and> min_ratio \<le> hc_warning_health_ratio config)\<rparr>)"

section \<open>Budgets\<close>

record risk_budgets =
  rb_max_single_venue_exposure_quote :: real
  rb_max_symbol_exposure_quote :: real
  rb_max_global_net_exposure_quote :: real
  rb_max_concurrent_positions :: int
  rb_venue_exposures :: "(string, real) dict"
  rb_symbol_exposures :: "(string, real) dict"
  rb_position_count :: int

text \<open>Why an entry is refused; the code renders these as text with the limit or the name.\<close>

datatype budget_refusal = Max_Concurrent_Positions int | Venue_Exposure string | Symbol_Exposure string

definition exposure :: "(string, real) dict \<Rightarrow> string \<Rightarrow> real" where
  "exposure d k = (case dict_get d k of None \<Rightarrow> 0 | Some x \<Rightarrow> x)"

definition check_entry :: "string \<Rightarrow> string \<Rightarrow> real \<Rightarrow> risk_budgets \<Rightarrow> budget_refusal option" where
  "check_entry v symb notional b =
     (if rb_max_concurrent_positions b > 0 \<and> rb_position_count b \<ge> rb_max_concurrent_positions b
      then Some (Max_Concurrent_Positions (rb_max_concurrent_positions b))
      else if rb_max_single_venue_exposure_quote b > 0 \<and>
        exposure (rb_venue_exposures b) v + notional > rb_max_single_venue_exposure_quote b
      then Some (Venue_Exposure v)
      else if rb_max_symbol_exposure_quote b > 0 \<and>
        exposure (rb_symbol_exposures b) symb + notional > rb_max_symbol_exposure_quote b
      then Some (Symbol_Exposure symb)
      else None)"

definition record_entry :: "string \<Rightarrow> string \<Rightarrow> real \<Rightarrow> risk_budgets \<Rightarrow> risk_budgets" where
  "record_entry v symb notional b =
     b\<lparr>rb_position_count := rb_position_count b + 1,
       rb_venue_exposures := dict_put v (exposure (rb_venue_exposures b) v + notional) (rb_venue_exposures b),
       rb_symbol_exposures := dict_put symb (exposure (rb_symbol_exposures b) symb + notional) (rb_symbol_exposures b)\<rparr>"

definition record_exit :: "string \<Rightarrow> string \<Rightarrow> real \<Rightarrow> risk_budgets \<Rightarrow> risk_budgets" where
  "record_exit v symb notional b =
     b\<lparr>rb_position_count := max 0 (rb_position_count b - 1),
       rb_venue_exposures := dict_put v (max 0 (exposure (rb_venue_exposures b) v - notional)) (rb_venue_exposures b),
       rb_symbol_exposures := dict_put symb (max 0 (exposure (rb_symbol_exposures b) symb - notional)) (rb_symbol_exposures b)\<rparr>"

section \<open>Residual exposure\<close>

datatype residual_origin = ENTRY_OPEN | CLOSE_RESIDUAL

record residual_task =
  rx_position_id :: string
  rx_pair_id :: string
  rx_symbol :: string
  rx_long_venue :: venue
  rx_short_venue :: venue
  rx_origin :: residual_origin
  rx_exposure_venue :: venue
  rx_exposure_side :: order_side
  rx_exposure_quantity :: real
  rx_created_cycle :: int
  rx_created_at_ms :: int
  rx_deadline_ms :: int
  rx_retry_count :: int
  rx_last_attempt_at_ms :: int

record leg_fill =
  lf_venue :: venue
  lf_symbol :: string
  lf_quantity :: real

definition approx_eq :: "real \<Rightarrow> real \<Rightarrow> bool" where
  "approx_eq a b \<longleftrightarrow> \<bar>a - b\<bar> \<le> eps"

text \<open>The constructor with its defaults: creation time and deadline when they are 0 (\<open>wall\<close>: the clock).\<close>

definition new_residual_task ::
  "int \<Rightarrow> string \<Rightarrow> string \<Rightarrow> string \<Rightarrow> venue \<Rightarrow> venue \<Rightarrow> venue \<Rightarrow> order_side \<Rightarrow> real \<Rightarrow> int \<Rightarrow> int \<Rightarrow> int \<Rightarrow> residual_task" where
  "new_residual_task wall position_id pair_id symb long_venue short_venue exposure_venue exposure_side quantity
       created_cycle created_at_ms deadline_ms =
     (let created = (if created_at_ms = 0 then wall else created_at_ms);
          deadline = (if deadline_ms = 0 then created + 30000 else deadline_ms)
      in \<lparr>rx_position_id = position_id, rx_pair_id = pair_id, rx_symbol = symb, rx_long_venue = long_venue,
          rx_short_venue = short_venue, rx_origin = ENTRY_OPEN, rx_exposure_venue = exposure_venue,
          rx_exposure_side = exposure_side, rx_exposure_quantity = quantity, rx_created_cycle = created_cycle,
          rx_created_at_ms = created, rx_deadline_ms = deadline, rx_retry_count = 0, rx_last_attempt_at_ms = 0\<rparr>)"

definition increment_retry :: "int \<Rightarrow> residual_task \<Rightarrow> residual_task" where
  "increment_retry wall t = t\<lparr>rx_retry_count := rx_retry_count t + 1, rx_last_attempt_at_ms := wall\<rparr>"

definition is_exhausted :: "residual_task \<Rightarrow> bool" where
  "is_exhausted t \<longleftrightarrow> rx_retry_count t \<ge> 3"

definition split_entry_fill_residual ::
  "int \<Rightarrow> string \<Rightarrow> string \<Rightarrow> string \<Rightarrow> venue \<Rightarrow> venue \<Rightarrow> leg_fill \<Rightarrow> leg_fill \<Rightarrow> int \<Rightarrow> int \<Rightarrow> int \<Rightarrow> residual_task option" where
  "split_entry_fill_residual wall position_id pair_id symb long_venue short_venue long_fill short_fill
       created_cycle now deadline_ms =
     (let long_qty = max (lf_quantity long_fill) 0;
          short_qty = max (lf_quantity short_fill) 0
      in if approx_eq long_qty short_qty then None
         else
           let now = (if now = 0 then wall else now);
               deadline_ms = (if deadline_ms = 0 then now + 30000 else deadline_ms)
           in if long_qty > short_qty
              then Some (new_residual_task wall position_id pair_id symb long_venue short_venue long_venue SELL
                     (long_qty - short_qty) created_cycle now deadline_ms)
              else Some (new_residual_task wall position_id pair_id symb long_venue short_venue short_venue BUY
                     (short_qty - long_qty) created_cycle now deadline_ms))"

definition detect_residual :: "int \<Rightarrow> leg_fill \<Rightarrow> leg_fill \<Rightarrow> residual_task option" where
  "detect_residual wall long_fill short_fill =
     (let long_qty = max (lf_quantity long_fill) 0;
          short_qty = max (lf_quantity short_fill) 0
      in if approx_eq long_qty short_qty then None
         else if long_qty > short_qty
         then Some (new_residual_task wall [] [] (lf_symbol long_fill) (lf_venue long_fill) (lf_venue short_fill)
                (lf_venue long_fill) SELL (long_qty - short_qty) 0 0 0)
         else Some (new_residual_task wall [] [] (lf_symbol short_fill) (lf_venue long_fill) (lf_venue short_fill)
                (lf_venue short_fill) BUY (short_qty - long_qty) 0 0 0))"

section \<open>Lemmas\<close>

datatype risk_event =
    Operator operator_command bool
  | Recovery "recovery_decision option"
  | Fail_Closed
  | Start_Reconciling
  | Start_Running

fun risk_step :: "engine_state \<Rightarrow> risk_event \<Rightarrow> engine_state" where
  "risk_step s (Operator c blocking) =
     (let (m, l) = apply_operator_command c (es_risk_mode s) (es_lifecycle s) blocking
      in set_lifecycle l (set_global_risk_mode m s))"
| "risk_step s (Recovery d) = snd (clear_risk_mode_for_recovery d s)"
| "risk_step s Fail_Closed = enter_fail_closed s"
| "risk_step s Start_Reconciling = transition_to_reconciling s"
| "risk_step s Start_Running = transition_to_running s"

text \<open>What may release a restriction: a resume with no blocking recovery, the end of a reconciliation, or a
  recovery decision that allows entries, carries no block and may clear the one in force.\<close>

fun releases :: "engine_state \<Rightarrow> risk_event \<Rightarrow> bool" where
  "releases s (Operator c blocking) \<longleftrightarrow> c = OC_RESUME_IF_SAFE \<and> \<not> blocking"
| "releases s (Recovery d) \<longleftrightarrow>
     (case d of None \<Rightarrow> False
      | Some x \<Rightarrow> rd_entry_allowed x \<and> \<not> truthy (rd_block_reason x) \<and>
                  rd_kind x \<in> {RUNNING_CLEAN, RUNNING_WITH_EVIDENCE_GAP} \<and>
                  (truthy (es_recovery_blocked_reason s) \<longrightarrow> rd_clear_previous_block x))"
| "releases s Start_Running \<longleftrightarrow> True"
| "releases s _ \<longleftrightarrow> False"

lemma fail_closed_top [simp]: "m \<le> FAIL_CLOSED"
  by (cases m) (simp_all add: less_eq_global_risk_mode_def)

lemma running_bottom [simp]: "m \<le> RM_RUNNING \<longleftrightarrow> m = RM_RUNNING"
  by (cases m) (simp_all add: less_eq_global_risk_mode_def)

lemma fail_closed_le [simp]: "FAIL_CLOSED \<le> m \<longleftrightarrow> m = FAIL_CLOSED"
  by (cases m) (simp_all add: less_eq_global_risk_mode_def)

lemma step_modes [simp]:
  "es_risk_mode (set_lifecycle l s) = es_risk_mode s" "es_risk_mode (set_global_risk_mode m s) = m"
  "es_lifecycle (set_lifecycle l s) = l" "es_lifecycle (set_global_risk_mode m s) = es_lifecycle s"
  by (simp_all add: set_lifecycle_def set_global_risk_mode_def)

lemma clear_iff_releases: "fst (clear_risk_mode_for_recovery d s) \<longleftrightarrow> releases s (Recovery d)"
  by (auto simp: clear_risk_mode_for_recovery_def split: option.split)

lemma no_clear: "\<not> releases s (Recovery d) \<Longrightarrow> snd (clear_risk_mode_for_recovery d s) = s"
  by (auto simp: clear_risk_mode_for_recovery_def split: option.splits)

lemma step_without_release:
  assumes "\<not> releases s e"
  shows "es_risk_mode s \<le> es_risk_mode (risk_step s e)"
    and "can_enter_new_positions (risk_step s e) \<Longrightarrow> can_enter_new_positions s"
proof -
  have "es_risk_mode s \<le> es_risk_mode (risk_step s e) \<and> (can_enter_new_positions (risk_step s e) \<longrightarrow> can_enter_new_positions s)"
  proof (cases e)
    case (Operator c b)
    then show ?thesis using assms
      by (cases c) (auto simp: apply_operator_command_def can_enter_new_positions_def is_running_def max_def split: if_splits)
  next
    case (Recovery d)
    then show ?thesis using assms no_clear by simp
  qed (use assms in \<open>auto simp: enter_fail_closed_def transition_to_reconciling_def can_enter_new_positions_def is_running_def\<close>)
  then show "es_risk_mode s \<le> es_risk_mode (risk_step s e)"
    and "can_enter_new_positions (risk_step s e) \<Longrightarrow> can_enter_new_positions s" by blast+
qed

interpretation restriction: ranked_system risk_step "\<lambda>s. \<not> can_enter_new_positions s" "\<lambda>s e. \<not> releases s e" es_risk_mode
  by unfold_locales (use step_without_release in blast)+

lemma mode_of_running: "derive_engine_mode (es_lifecycle s) (es_risk_mode s) = EM_RUNNING \<longleftrightarrow> can_enter_new_positions s"
  by (cases "es_lifecycle s"; cases "es_risk_mode s")
     (simp_all add: derive_engine_mode_def can_enter_new_positions_def is_running_def)

text \<open>Orders as signed quantities.\<close>

fun signed_qty :: "order_side \<Rightarrow> real \<Rightarrow> real" where
  "signed_qty BUY q = q"
| "signed_qty SELL q = - q"

lemma residual_fields [simp]:
  "rx_exposure_venue (new_residual_task w pid pr s lv sv ev es q cc ca dl) = ev"
  "rx_exposure_side (new_residual_task w pid pr s lv sv ev es q cc ca dl) = es"
  "rx_exposure_quantity (new_residual_task w pid pr s lv sv ev es q cc ca dl) = q"
  "rx_retry_count (new_residual_task w pid pr s lv sv ev es q cc ca dl) = 0"
  "rx_deadline_ms (new_residual_task w pid pr s lv sv ev es q cc ca dl) =
     (if dl = 0 then (if ca = 0 then w else ca) + 30000 else dl)"
  by (simp_all add: new_residual_task_def Let_def)

section \<open>The limits of the budgets\<close>

datatype budget_event = Enter string string real | Leave string string real

fun budget_step :: "risk_budgets \<Rightarrow> budget_event \<Rightarrow> risk_budgets" where
  "budget_step b (Enter v s n) = (if check_entry v s n b = None then record_entry v s n b else b)"
| "budget_step b (Leave v s n) = record_exit v s n b"

fun budget_event_ok :: "budget_event \<Rightarrow> bool" where
  "budget_event_ok (Enter v s n) \<longleftrightarrow> True"
| "budget_event_ok (Leave v s n) \<longleftrightarrow> 0 \<le> n"

definition within_limits :: "risk_budgets \<Rightarrow> bool" where
  "within_limits b \<longleftrightarrow>
     (0 < rb_max_concurrent_positions b \<longrightarrow> rb_position_count b \<le> rb_max_concurrent_positions b) \<and>
     (0 < rb_max_single_venue_exposure_quote b \<longrightarrow>
        (\<forall>v. exposure (rb_venue_exposures b) v \<le> rb_max_single_venue_exposure_quote b)) \<and>
     (0 < rb_max_symbol_exposure_quote b \<longrightarrow>
        (\<forall>s. exposure (rb_symbol_exposures b) s \<le> rb_max_symbol_exposure_quote b))"

lemma exposure_put [simp]: "exposure (dict_put k x d) j = (if j = k then x else exposure d j)"
  by (simp add: exposure_def)

lemma record_entry_limits: "within_limits b \<Longrightarrow> check_entry v s n b = None \<Longrightarrow> within_limits (record_entry v s n b)"
  by (auto simp: within_limits_def check_entry_def record_entry_def not_less split: if_splits)

lemma released_exposure_le:
  assumes "0 < m" "\<forall>v. exposure d v \<le> m" "0 \<le> n"
  shows "max 0 (exposure d k - n) \<le> m"
  using assms(1,3) spec [OF assms(2), of k] by simp

lemma record_exit_limits: "within_limits b \<Longrightarrow> 0 \<le> n \<Longrightarrow> within_limits (record_exit v s n b)"
  by (simp add: within_limits_def record_exit_def released_exposure_le del: max.bounded_iff) auto

interpretation budgets: event_system budget_step within_limits "\<lambda>_. budget_event_ok"
proof
  fix b e assume "within_limits b" "budget_event_ok e"
  then show "within_limits (budget_step b e)"
    by (cases e) (simp_all add: record_entry_limits record_exit_limits)
qed

section \<open>Properties\<close>

text \<open>C18: Restrictions are only lifted by a release. While no event releases (a resume without blocking
  recovery, the end of a reconciliation, a recovery decision that may clear the block in force), a
  restricted engine stays restricted, its risk mode never becomes less severe, its derived mode is not
  running, and a fail-closed engine stays fail-closed, whatever operators and recovery do.\<close>

theorem restriction_needs_release:
  assumes "\<not> can_enter_new_positions s" and "run_ok risk_step (\<lambda>s e. \<not> releases s e) s es"
  defines "t \<equiv> foldl risk_step s es"
  shows "\<not> can_enter_new_positions t \<and> es_risk_mode s \<le> es_risk_mode t \<and>
     derive_engine_mode (es_lifecycle t) (es_risk_mode t) \<noteq> EM_RUNNING \<and>
     (es_risk_mode s = FAIL_CLOSED \<longrightarrow> derive_engine_mode (es_lifecycle t) (es_risk_mode t) = EM_FAIL_CLOSED)"
proof -
  have t: "\<not> can_enter_new_positions t" "es_risk_mode s \<le> es_risk_mode t"
    using restriction.run_inv [OF assms(1,2)] restriction.run_rank [OF assms(1,2)] by (simp_all add: t_def)
  then have "es_risk_mode s = FAIL_CLOSED \<longrightarrow> es_risk_mode t = FAIL_CLOSED" by auto
  with t show ?thesis using mode_of_running [of t] by (auto simp: derive_engine_mode_def)
qed

definition sample_state :: engine_state where
  "sample_state = \<lparr>es_lifecycle = LC_RUNNING, es_risk_mode = FAIL_CLOSED, es_recovery_blocked_reason = Some ''x'',
     es_recovery_blocked_at_ms = 5\<rparr>"

lemma restriction_needs_release_witness:
  "let t = foldl risk_step sample_state [Operator OC_PAUSE_ENTRY True, Operator OC_RESUME_IF_SAFE True, Start_Reconciling,
        Recovery (Some \<lparr>rd_kind = RUNNING_CLEAN, rd_entry_allowed = True, rd_block_reason = None, rd_clear_previous_block = False\<rparr>)]
   in derive_engine_mode (es_lifecycle t) (es_risk_mode t) = EM_FAIL_CLOSED"
  unfolding Let_def
  by (rule restriction_needs_release [of sample_state, THEN conjunct2, THEN conjunct2, THEN conjunct2, rule_format])
     (simp_all add: sample_state_def can_enter_new_positions_def is_running_def truthy_def apply_operator_command_def
        transition_to_reconciling_def set_lifecycle_def set_global_risk_mode_def Let_def max_def less_eq_global_risk_mode_def)

text \<open>The residual of an entry. A task is made exactly when the filled legs differ by more than 1e-9; its
  order, on the leg that was filled more, levels the legs exactly; both detections make the same order;
  and a task is exhausted after its third retry.\<close>

theorem residual_task_levels_legs:
  fixes lf sf :: leg_fill
  defines "l \<equiv> max (lf_quantity lf) 0" and "s \<equiv> max (lf_quantity sf) 0"
  shows "(split_entry_fill_residual w pid pr symb lv sv lf sf cc now dl = None \<longleftrightarrow> \<bar>l - s\<bar> \<le> eps) \<and>
     (case split_entry_fill_residual w pid pr symb lv sv lf sf cc now dl of None \<Rightarrow> True
      | Some t \<Rightarrow> rx_exposure_venue t = (if s < l then lv else sv) \<and> eps < rx_exposure_quantity t \<and>
          l - s + signed_qty (rx_exposure_side t) (rx_exposure_quantity t) = 0 \<and>
          \<not> is_exhausted (increment_retry w (increment_retry w t)) \<and>
          is_exhausted (increment_retry w (increment_retry w (increment_retry w t)))) \<and>
     map_option (\<lambda>t. (rx_exposure_side t, rx_exposure_quantity t)) (detect_residual w lf sf) =
       map_option (\<lambda>t. (rx_exposure_side t, rx_exposure_quantity t))
         (split_entry_fill_residual w pid pr symb lv sv lf sf cc now dl)"
proof -
  consider (eq) "approx_eq l s" | (long) "\<not> approx_eq l s" "s < l" | (short) "\<not> approx_eq l s" "l < s"
    by (cases "l < s"; cases "s < l") (auto simp: approx_eq_def)
  then show ?thesis
    by cases (auto simp: split_entry_fill_residual_def detect_residual_def Let_def l_def [symmetric] s_def [symmetric]
        is_exhausted_def increment_retry_def approx_eq_def)
qed
end
