(* ===== verification/Py_Value.thy ===== *)
theory Py_Value
  imports Prelude
begin

text \<open>
  Values without a static type. The persisted state, the recovery evidence and the payloads of
  the exchanges reach the engine as JSON: dictionaries read with \<open>get\<close>, objects read with
  \<open>getattr\<close>, and fields of any type. This theory models those values and the part of Python's
  standard library that reads them: truth, \<open>==\<close>, \<open>str\<close>, \<open>repr\<close>, \<open>int\<close>, \<open>float\<close> and the string
  methods.

  \<^item> Keys of dictionaries are strings, as in JSON; a dictionary is an association list in insertion
    order. Strings are sequences of 8-bit characters and \<open>lower\<close>, \<open>upper\<close> act on ASCII letters.
  \<^item> The text that \<open>repr\<close> gives for a float, and for an object, is a component of the value:
    the shortest-digits algorithm is not modelled, and every statement holds whatever the texts are.
  \<^item> \<open>PObj\<close> is an object with attributes (a dataclass instance, an enum member with its \<open>value\<close>);
    a method that the code calls without argument is the attribute holding what it returns.
\<close>

named_theorems pyval_defs \<open>definitions that read values\<close>

section \<open>Values\<close>

datatype pyval =
    PNone
  | PBool bool
  | PInt int
  | PFloat pyfloat string
  | PStr string
  | PList "pyval list"
  | PTuple "pyval list"
  | PDict "(string \<times> pyval) list"
  | PObj string "(string \<times> pyval) list"

type_synonym obj = "(string, pyval) dict"

primrec truth :: "pyval \<Rightarrow> bool" where
  "truth PNone = False"
| "truth (PBool b) = b"
| "truth (PInt i) = (i \<noteq> 0)"
| "truth (PFloat x t) = (x \<noteq> Fin 0)"
| "truth (PStr s) = (s \<noteq> [])"
| "truth (PList xs) = (xs \<noteq> [])"
| "truth (PTuple xs) = (xs \<noteq> [])"
| "truth (PDict d) = (d \<noteq> [])"
| "truth (PObj t d) = True"

text \<open>\<open>x or y\<close>.\<close>

definition py_or :: "pyval \<Rightarrow> pyval \<Rightarrow> pyval" where
  "py_or x y = (if truth x then x else y)"

lemma py_or_simps [simp]:
  "truth x \<Longrightarrow> py_or x y = x" "\<not> truth x \<Longrightarrow> py_or x y = y"
  by (simp_all add: py_or_def)

primrec py_is_none :: "pyval \<Rightarrow> bool" where
  "py_is_none PNone = True" | "py_is_none (PBool _) = False" | "py_is_none (PInt _) = False"
| "py_is_none (PFloat _ _) = False" | "py_is_none (PStr _) = False" | "py_is_none (PList _) = False"
| "py_is_none (PTuple _) = False" | "py_is_none (PDict _) = False" | "py_is_none (PObj _ _) = False"

lemma py_is_none_iff [simp]: "py_is_none v \<longleftrightarrow> v = PNone"
  by (cases v) simp_all

text \<open>\<open>d.get(k)\<close> on a dictionary, and the helper \<open>_get(obj, key, default)\<close> of the engine:
  a mapping is asked with \<open>get\<close>, everything else with \<open>getattr\<close>.\<close>

definition dget :: "obj \<Rightarrow> string \<Rightarrow> pyval" where
  "dget d k = (case dict_get d k of None \<Rightarrow> PNone | Some v \<Rightarrow> v)"

fun py_get :: "pyval \<Rightarrow> string \<Rightarrow> pyval \<Rightarrow> pyval" where
  "py_get (PDict d) k v = (case dict_get d k of None \<Rightarrow> v | Some w \<Rightarrow> w)"
| "py_get (PObj _ d) k v = (case dict_get d k of None \<Rightarrow> v | Some w \<Rightarrow> w)"
| "py_get _ k v = v"

text \<open>\<open>getattr(obj, key, default)\<close>, and the mapping in a value (empty if it is none).\<close>

fun py_getattr :: "pyval \<Rightarrow> string \<Rightarrow> pyval \<Rightarrow> pyval" where
  "py_getattr (PObj _ d) k v = (case dict_get d k of None \<Rightarrow> v | Some w \<Rightarrow> w)"
| "py_getattr _ k v = v"

fun mapping_part :: "pyval \<Rightarrow> obj" where
  "mapping_part (PDict d) = d"
| "mapping_part _ = []"

definition has_key :: "obj \<Rightarrow> string \<Rightarrow> bool" where
  "has_key d k \<longleftrightarrow> dict_get d k \<noteq> None"

lemma dget_put [simp]: "dget (dict_put k v d) j = (if j = k then v else dget d j)"
  by (simp add: dget_def)

lemma dget_pop [simp]: "dget (dict_pop k d) j = (if j = k then PNone else dget d j)"
  by (simp add: dget_def)

lemma dget_Nil [simp]: "dget [] k = PNone"
  by (simp add: dget_def)

lemma dget_Cons [simp]: "dget ((j, v) # d) k = (if j = k then v else dget d k)"
  by (simp add: dget_def)

lemma has_key_simps [simp]:
  "\<not> has_key [] k" "has_key ((j, v) # d) k \<longleftrightarrow> j = k \<or> has_key d k"
  "has_key (dict_put j v d) k \<longleftrightarrow> j = k \<or> has_key d k"
  "has_key (dict_pop j d) k \<longleftrightarrow> j \<noteq> k \<and> has_key d k"
  by (auto simp: has_key_def)

lemma dget_no_key: "\<not> has_key d k \<Longrightarrow> dget d k = PNone"
  by (simp add: has_key_def dget_def)

section \<open>Equality\<close>

text \<open>Booleans, integers and floats compare as numbers, lists and tuples element by element,
  dictionaries as sets of pairs.\<close>

primrec number_of :: "pyval \<Rightarrow> pyfloat option" where
  "number_of PNone = None"
| "number_of (PBool b) = Some (Fin (if b then 1 else 0))"
| "number_of (PInt i) = Some (Fin (of_int i))"
| "number_of (PFloat x t) = Some x"
| "number_of (PStr s) = None"
| "number_of (PList xs) = None"
| "number_of (PTuple xs) = None"
| "number_of (PDict d) = None"
| "number_of (PObj t d) = None"

definition same_number :: "pyfloat \<Rightarrow> pyval \<Rightarrow> bool" where
  "same_number x w \<longleftrightarrow> x \<noteq> NaN \<and> number_of w = Some x"

primrec py_eq :: "pyval \<Rightarrow> pyval \<Rightarrow> bool" where
  "py_eq PNone = (\<lambda>w. w = PNone)"
| "py_eq (PBool b) = same_number (Fin (if b then 1 else 0))"
| "py_eq (PInt i) = same_number (Fin (of_int i))"
| "py_eq (PFloat x t) = same_number x"
| "py_eq (PStr s) = (\<lambda>w. w = PStr s)"
| "py_eq (PList xs) = (\<lambda>w. case w of PList ys \<Rightarrow> list_all2 (\<lambda>f y. f y) (map py_eq xs) ys | _ \<Rightarrow> False)"
| "py_eq (PTuple xs) = (\<lambda>w. case w of PTuple ys \<Rightarrow> list_all2 (\<lambda>f y. f y) (map py_eq xs) ys | _ \<Rightarrow> False)"
| "py_eq (PDict d) = (\<lambda>w. case w of PDict e \<Rightarrow>
      length d = length e \<and>
      list_all (\<lambda>(k, f). case dict_get e k of None \<Rightarrow> False | Some v \<Rightarrow> f v) (map (map_prod id py_eq) d)
    | _ \<Rightarrow> False)"
| "py_eq (PObj t d) = (\<lambda>w. case w of PObj u _ \<Rightarrow> t = u | _ \<Rightarrow> False)"

lemma py_eq_str [simp]: "py_eq w (PStr s) \<longleftrightarrow> w = PStr s"
  by (cases w) (auto simp: same_number_def)

lemma py_eq_dict_get:
  assumes "py_eq (PDict d) (PDict e)" and "dict_get d k = Some v" and "distinct (map fst d)"
  shows "\<exists>w. dict_get e k = Some w \<and> py_eq v w"
proof -
  from assms(2) have "(k, v) \<in> set d" by (rule map_of_SomeD)
  with assms(1) show ?thesis
    by (auto simp: list_all_iff split: option.splits dest!: bspec [of _ _ "(k, v)"])
qed

section \<open>Strings\<close>

definition py_lower :: "string \<Rightarrow> string" where
  "py_lower s = map (\<lambda>c. let n = (of_char c :: nat) in if 65 \<le> n \<and> n \<le> 90 then char_of (n + 32) else c) s"

definition py_upper :: "string \<Rightarrow> string" where
  "py_upper s = map (\<lambda>c. let n = (of_char c :: nat) in if 97 \<le> n \<and> n \<le> 122 then char_of (n - 32) else c) s"

definition is_space :: "char \<Rightarrow> bool" where
  "is_space c = (let n = (of_char c :: nat) in 9 \<le> n \<and> n \<le> 13 \<or> 28 \<le> n \<and> n \<le> 32 \<or> n = 133 \<or> n = 160)"

definition py_strip :: "string \<Rightarrow> string" where
  "py_strip s = rev (dropWhile is_space (rev (dropWhile is_space s)))"

definition py_endswith :: "string \<Rightarrow> string \<Rightarrow> bool" where
  "py_endswith s p \<longleftrightarrow> py_startswith (rev s) (rev p)"

text \<open>\<open>p in s\<close> and \<open>s.replace(p, q)\<close> (the pattern is never empty in the sources).\<close>

fun py_contains :: "string \<Rightarrow> string \<Rightarrow> bool" where
  "py_contains p [] \<longleftrightarrow> p = []"
| "py_contains p (c # cs) \<longleftrightarrow> py_startswith (c # cs) p \<or> py_contains p cs"

fun py_replace :: "string \<Rightarrow> string \<Rightarrow> string \<Rightarrow> string" where
  "py_replace p q [] = []"
| "py_replace p q (c # cs) =
     (if p \<noteq> [] \<and> py_startswith (c # cs) p then q @ py_replace p q (drop (length p) (c # cs))
      else c # py_replace p q cs)"

lemma lower_char_idem:
  "(let n = (of_char c :: nat) in if 65 \<le> n \<and> n \<le> 90 then char_of (n + 32) else c) = d \<Longrightarrow>
   (let n = (of_char d :: nat) in if 65 \<le> n \<and> n \<le> 90 then char_of (n + 32) else d) = d"
  by (auto simp: Let_def of_char_of take_bit_nat_def split: if_splits)

lemma py_lower_idem [simp]: "py_lower (py_lower s) = py_lower s"
  unfolding py_lower_def map_map comp_def by (rule map_cong [OF refl]) (rule lower_char_idem [OF refl])

lemma py_lower_Nil [simp]: "py_lower [] = []" "py_lower s = [] \<longleftrightarrow> s = []"
  by (simp_all add: py_lower_def)

section \<open>Text of a value\<close>

definition digit_char :: "nat \<Rightarrow> char" where
  "digit_char d = char_of (48 + d)"

fun nat_text :: "nat \<Rightarrow> string" where
  "nat_text n = (if n < 10 then [digit_char n] else nat_text (n div 10) @ [digit_char (n mod 10)])"

declare nat_text.simps [simp del]

definition int_text :: "int \<Rightarrow> string" where
  "int_text i = (if i < 0 then ''-'' @ nat_text (nat (- i)) else nat_text (nat i))"

definition escape_char :: "char \<Rightarrow> string" where
  "escape_char c = (if c = CHR 0x5C then [CHR 0x5C, CHR 0x5C]
     else if c = CHR 0x0A then [CHR 0x5C, CHR ''n''] else if c = CHR 0x0D then [CHR 0x5C, CHR ''r'']
     else if c = CHR 0x09 then [CHR 0x5C, CHR ''t''] else [c])"

definition quoted :: "string \<Rightarrow> string" where
  "quoted s = (let q = (if CHR 0x27 \<in> set s \<and> CHR 0x22 \<notin> set s then CHR 0x22 else CHR 0x27)
     in [q] @ concat (map (\<lambda>c. if c = q then [CHR 0x5C, c] else escape_char c) s) @ [q])"

fun joined :: "string \<Rightarrow> string list \<Rightarrow> string" where
  "joined sep [] = []"
| "joined sep [s] = s"
| "joined sep (s # t # ss) = s @ sep @ joined sep (t # ss)"

primrec py_repr :: "pyval \<Rightarrow> string" where
  "py_repr PNone = ''None''"
| "py_repr (PBool b) = (if b then ''True'' else ''False'')"
| "py_repr (PInt i) = int_text i"
| "py_repr (PFloat x t) = t"
| "py_repr (PStr s) = quoted s"
| "py_repr (PList xs) = ''['' @ joined '', '' (map py_repr xs) @ '']''"
| "py_repr (PTuple xs) =
     ''('' @ joined '', '' (map py_repr xs) @ (if length xs = 1 then '','' else []) @ '')''"
| "py_repr (PDict d) =
     ''{'' @ joined '', '' (map (\<lambda>(k, t). quoted k @ '': '' @ t) (map (map_prod id py_repr) d)) @ ''}''"
| "py_repr (PObj t d) = t"

fun py_str :: "pyval \<Rightarrow> string" where
  "py_str (PStr s) = s"
| "py_str v = py_repr v"

text \<open>The phrase \<open>str(x or "")\<close> of the engine, and \<open>type(x).__name__\<close> of the built-in types.\<close>

definition text_of :: "pyval \<Rightarrow> string" where
  "text_of v = (if truth v then py_str v else [])"

lemma text_of_simps [simp]:
  "text_of PNone = []" "text_of (PStr s) = s" "text_of (PBool False) = []" "text_of (PInt 0) = []"
  by (simp_all add: text_of_def)

lemma text_of_str_or [simp]: "text_of (PStr (text_of v)) = text_of v"
  by simp

fun type_name :: "pyval \<Rightarrow> string" where
  "type_name PNone = ''NoneType''"
| "type_name (PBool _) = ''bool''"
| "type_name (PInt _) = ''int''"
| "type_name (PFloat _ _) = ''float''"
| "type_name (PStr _) = ''str''"
| "type_name (PList _) = ''list''"
| "type_name (PTuple _) = ''tuple''"
| "type_name (PDict _) = ''dict''"
| "type_name (PObj _ d) = text_of (dget d ''__class__'')"

section \<open>Numbers from values\<close>

datatype py_exc = Type_Error | Value_Error | Overflow_Error | Key_Error

definition char_digit :: "char \<Rightarrow> nat option" where
  "char_digit c = (let n = (of_char c :: nat) in if 48 \<le> n \<and> n \<le> 57 then Some (n - 48) else None)"

text \<open>Decimal digits, single underscores between them; the flag says that the last one was a digit.\<close>

fun scan_digits :: "nat \<Rightarrow> bool \<Rightarrow> string \<Rightarrow> nat option" where
  "scan_digits n d [] = (if d then Some n else None)"
| "scan_digits n d (c # cs) =
     (case char_digit c of
        Some k \<Rightarrow> scan_digits (10 * n + k) True cs
      | None \<Rightarrow> if c = CHR ''_'' \<and> d then scan_digits n False cs else None)"

definition signed :: "(string \<Rightarrow> 'a option) \<Rightarrow> ('a \<Rightarrow> 'a) \<Rightarrow> string \<Rightarrow> 'a option" where
  "signed f neg s =
     (case s of [] \<Rightarrow> f []
      | c # cs \<Rightarrow> if c = CHR ''-'' then map_option neg (f cs) else if c = CHR ''+'' then f cs else f (c # cs))"

definition parse_int :: "string \<Rightarrow> int option" where
  "parse_int s = signed (\<lambda>s. map_option int (scan_digits 0 False s)) uminus (py_strip s)"

text \<open>A mantissa with an optional point and an optional power of ten.\<close>

definition parse_mantissa :: "string \<Rightarrow> real option" where
  "parse_mantissa s =
     (let whole = takeWhile (\<lambda>c. c \<noteq> CHR ''.'') s;
          rest = drop (length whole) s;
          frac = drop 1 rest;
          places = length (filter (\<lambda>c. char_digit c \<noteq> None) frac)
      in if rest = [] then map_option real (scan_digits 0 False whole)
         else if whole = [] then map_option (\<lambda>f. real f / 10 ^ places) (scan_digits 0 False frac)
         else if frac = [] then map_option real (scan_digits 0 False whole)
         else (case (scan_digits 0 False whole, scan_digits 0 False frac) of
                 (Some w, Some f) \<Rightarrow> Some (real w + real f / 10 ^ places)
               | _ \<Rightarrow> None))"

definition scaled :: "real \<Rightarrow> int \<Rightarrow> real" where
  "scaled m e = (if e \<ge> 0 then m * 10 ^ nat e else m / 10 ^ nat (- e))"

definition parse_decimal :: "string \<Rightarrow> real option" where
  "parse_decimal s =
     (let m = takeWhile (\<lambda>c. c \<noteq> CHR ''e'' \<and> c \<noteq> CHR ''E'') s;
          rest = drop (length m) s
      in if rest = [] then parse_mantissa m
         else (case (parse_mantissa m, signed (\<lambda>s. map_option int (scan_digits 0 False s)) uminus (drop 1 rest)) of
                 (Some v, Some e) \<Rightarrow> Some (scaled v e)
               | _ \<Rightarrow> None))"

fun float_neg :: "pyfloat \<Rightarrow> pyfloat" where
  "float_neg (Fin r) = Fin (- r)"
| "float_neg PosInf = NegInf"
| "float_neg NegInf = PosInf"
| "float_neg NaN = NaN"

definition parse_float :: "string \<Rightarrow> pyfloat option" where
  "parse_float s =
     signed (\<lambda>s. if py_lower s \<in> {''inf'', ''infinity''} then Some PosInf
                 else if py_lower s = ''nan'' then Some NaN
                 else map_option Fin (parse_decimal s)) float_neg (py_strip s)"

text \<open>\<open>int(x)\<close> and \<open>float(x)\<close>.\<close>

definition truncated :: "real \<Rightarrow> int" where
  "truncated r = (if r \<ge> 0 then \<lfloor>r\<rfloor> else \<lceil>r\<rceil>)"

primrec py_int :: "pyval \<Rightarrow> py_exc + int" where
  "py_int PNone = Inl Type_Error"
| "py_int (PBool b) = Inr (if b then 1 else 0)"
| "py_int (PInt i) = Inr i"
| "py_int (PFloat x t) =
     (case x of Fin r \<Rightarrow> Inr (truncated r) | NaN \<Rightarrow> Inl Value_Error | _ \<Rightarrow> Inl Overflow_Error)"
| "py_int (PStr s) = (case parse_int s of None \<Rightarrow> Inl Value_Error | Some i \<Rightarrow> Inr i)"
| "py_int (PList xs) = Inl Type_Error"
| "py_int (PTuple xs) = Inl Type_Error"
| "py_int (PDict d) = Inl Type_Error"
| "py_int (PObj t d) = Inl Type_Error"

primrec py_float :: "pyval \<Rightarrow> py_exc + pyfloat" where
  "py_float PNone = Inl Type_Error"
| "py_float (PBool b) = Inr (Fin (if b then 1 else 0))"
| "py_float (PInt i) = Inr (Fin (of_int i))"
| "py_float (PFloat x t) = Inr x"
| "py_float (PStr s) = (case parse_float s of None \<Rightarrow> Inl Value_Error | Some x \<Rightarrow> Inr x)"
| "py_float (PList xs) = Inl Type_Error"
| "py_float (PTuple xs) = Inl Type_Error"
| "py_float (PDict d) = Inl Type_Error"
| "py_float (PObj t d) = Inl Type_Error"

lemma py_float_exc: "py_float v = Inl e \<Longrightarrow> e = Type_Error \<or> e = Value_Error"
  by (cases v) (auto split: option.splits)

text \<open>The finite number \<open>float(x)\<close> denotes, if it does.\<close>

definition finite_float :: "pyval \<Rightarrow> real option" where
  "finite_float v = (case py_float v of Inr (Fin r) \<Rightarrow> Some r | _ \<Rightarrow> None)"

text \<open>\<open>float(x)\<close> with errors read as \<open>nan\<close>; sums and comparisons of floats.\<close>

definition float_or_nan :: "pyval \<Rightarrow> pyfloat" where
  "float_or_nan v = (case py_float v of Inr x \<Rightarrow> x | Inl _ \<Rightarrow> NaN)"

fun float_add :: "pyfloat \<Rightarrow> pyfloat \<Rightarrow> pyfloat" where
  "float_add (Fin a) (Fin b) = Fin (a + b)"
| "float_add PosInf y = (if y \<in> {NaN, NegInf} then NaN else PosInf)"
| "float_add NegInf y = (if y \<in> {NaN, PosInf} then NaN else NegInf)"
| "float_add NaN y = NaN"
| "float_add (Fin a) y = y"

definition float_sum :: "pyfloat list \<Rightarrow> pyfloat" where
  "float_sum xs = foldl float_add (Fin 0) xs"

definition float_eq :: "pyfloat \<Rightarrow> pyfloat \<Rightarrow> bool" where
  "float_eq x y \<longleftrightarrow> x \<noteq> NaN \<and> x = y"

fun float_less :: "pyfloat \<Rightarrow> pyfloat \<Rightarrow> bool" where
  "float_less (Fin x) (Fin y) = (x < y)"
| "float_less NaN _ = False" | "float_less _ NaN = False"
| "float_less NegInf y = (y \<noteq> NegInf)" | "float_less _ NegInf = False"
| "float_less x PosInf = (x \<noteq> PosInf)" | "float_less PosInf _ = False"

fun float_le :: "pyfloat \<Rightarrow> pyfloat \<Rightarrow> bool" where
  "float_le x y = (float_less x y \<or> float_eq x y)"

text \<open>\<open>max(x, y)\<close> and \<open>min(x, y)\<close> keep the first unless the second is strictly better.\<close>

definition py_fmax :: "pyfloat \<Rightarrow> pyfloat \<Rightarrow> pyfloat" where
  "py_fmax x y = (if float_less x y then y else x)"

definition py_fmin :: "pyfloat \<Rightarrow> pyfloat \<Rightarrow> pyfloat" where
  "py_fmin x y = (if float_less y x then y else x)"

definition float_sub :: "pyfloat \<Rightarrow> pyfloat \<Rightarrow> pyfloat" where
  "float_sub x y = float_add x (float_neg y)"

fun float_above :: "real \<Rightarrow> pyfloat \<Rightarrow> bool" where
  "float_above b (Fin r) = (b < r)"
| "float_above b PosInf = True"
| "float_above b _ = False"

fun fin_part :: "pyfloat \<Rightarrow> real" where
  "fin_part (Fin r) = r"
| "fin_part _ = 0"

lemma float_sum_from:
  "\<forall>x\<in>set xs. py_isfinite x \<Longrightarrow> foldl float_add (Fin a) xs = Fin (a + sum_list (map fin_part xs))"
proof (induction xs arbitrary: a)
  case (Cons x xs)
  then obtain r where "x = Fin r" by (auto simp: py_isfinite_iff)
  with Cons show ?case by simp
qed simp

lemma float_sum_Fin: "\<forall>x\<in>set xs. py_isfinite x \<Longrightarrow> float_sum xs = Fin (sum_list (map fin_part xs))"
  by (simp add: float_sum_def float_sum_from)

text \<open>The \<open>value\<close> of an enum member, any other value itself; \<open>str(x or "").lower()\<close> of it.\<close>

definition enum_value :: "pyval \<Rightarrow> pyval" where
  "enum_value v = (case v of PObj t d \<Rightarrow> (case dict_get d ''value'' of Some w \<Rightarrow> w | None \<Rightarrow> v) | _ \<Rightarrow> v)"

definition lower_text :: "pyval \<Rightarrow> string" where
  "lower_text v = py_lower (text_of (enum_value v))"

text \<open>The elements of a collection: the values of a dictionary, a sequence, nothing for None, any
  other value alone.\<close>

fun as_items :: "pyval \<Rightarrow> pyval list" where
  "as_items PNone = []"
| "as_items (PDict d) = map snd d"
| "as_items (PList xs) = xs"
| "as_items (PTuple xs) = xs"
| "as_items v = [v]"

section \<open>Steps that may raise\<close>

text \<open>Sequencing on the sum of an error and a value, and a guard that raises.\<close>

definition bind_res :: "'e + 'a \<Rightarrow> ('a \<Rightarrow> 'e + 'b) \<Rightarrow> 'e + 'b" where
  "bind_res m f = (case m of Inl e \<Rightarrow> Inl e | Inr x \<Rightarrow> f x)"

definition require :: "bool \<Rightarrow> 'e \<Rightarrow> 'e + unit" where
  "require b e = (if b then Inr () else Inl e)"

named_theorems returns_iff \<open>when a step that may raise returns a value\<close>

lemma bind_res_simps [simp]: "bind_res (Inl e) f = Inl e" "bind_res (Inr x) f = f x"
  by (simp_all add: bind_res_def)

lemma bind_res_returns [returns_iff]: "bind_res m f = Inr y \<longleftrightarrow> (\<exists>x. m = Inr x \<and> f x = Inr y)"
  by (cases m) simp_all

lemma require_returns [returns_iff]: "require b e = Inr u \<longleftrightarrow> b"
  by (simp add: require_def)

lemma require_simps [simp]: "require True e = Inr ()" "require False e = Inl e"
  by (simp_all add: require_def)

primrec map_res :: "('a \<Rightarrow> 'e + 'b) \<Rightarrow> 'a list \<Rightarrow> 'e + 'b list" where
  "map_res f [] = Inr []"
| "map_res f (x # xs) = bind_res (f x) (\<lambda>y. bind_res (map_res f xs) (\<lambda>ys. Inr (y # ys)))"

lemma map_res_ok: "(\<And>x. x \<in> set xs \<Longrightarrow> f x = Inr (g x)) \<Longrightarrow> map_res f xs = Inr (map g xs)"
  by (induction xs) simp_all

end
