(* ===== verification/Reconciliation.thy ===== *)
theory Reconciliation
  imports Py_Value Exit_Decision "HOL-Library.List_Lexorder" "HOL-Library.Char_ord"
begin

text \<open>
  The queue of close reconciliations (\<open>engine/state.py\<close>): accounting work that outlives a closed
  position until the exchange's execution history has priced it. An item is an untyped record
  (it is persisted as JSON); its owner is the pair of its position id and its kind. The theory
  has the diagnosis of an item (identities of its legs, the quantities it owns, why its evidence
  is incomplete), the operations on the queue (normalising, enqueuing, removing, importing
  operator evidence), and the summary that operators see.

  The lemmas show what the queue promises: owners stay unique and the queue bounded, an
  observation never replaces stronger evidence, a terminal debt only yields to terminal records
  or to the operator's import, and the import is guarded, confined to one item and idempotent.
\<close>

section \<open>Items\<close>

text \<open>\<open>x if isinstance(x, dict) else {}\<close>, \<open>isinstance(x, list)\<close>.\<close>

fun dict_or_empty :: "pyval \<Rightarrow> obj" where
  "dict_or_empty (PDict d) = d"
| "dict_or_empty _ = []"

fun as_dict :: "pyval \<Rightarrow> obj option" where
  "as_dict (PDict d) = Some d"
| "as_dict _ = None"

fun as_list :: "pyval \<Rightarrow> pyval list option" where
  "as_list (PList xs) = Some xs"
| "as_list _ = None"

lemma as_dict_iff [simp]: "as_dict v = Some d \<longleftrightarrow> v = PDict d"
  by (cases v) auto

lemma as_list_iff [simp]: "as_list v = Some d \<longleftrightarrow> v = PList d"
  by (cases v) auto

text \<open>\<open>str(item.get("position_id") or "")\<close> and \<open>str(item.get("kind") or "final")\<close>.\<close>

definition position_of :: "obj \<Rightarrow> string" where
  "position_of d = text_of (dget d ''position_id'')"

definition kind_of :: "obj \<Rightarrow> string" where
  "kind_of d = (let k = dget d ''kind'' in if truth k then py_str k else ''final'')"

definition owner_key :: "obj \<Rightarrow> string \<times> string" where
  "owner_key d = (position_of d, kind_of d)"

definition has_status :: "obj \<Rightarrow> string \<Rightarrow> bool" where
  "has_status d s \<longleftrightarrow> dget d ''reconciliation_status'' = PStr s"

definition is_terminal_automatic_history_evidence_debt :: "obj \<Rightarrow> bool" where
  "is_terminal_automatic_history_evidence_debt d \<longleftrightarrow>
     has_status d ''evidence_debt'' \<and>
     dget d ''automatic_history_terminal_status'' = PStr ''irrecoverable_audit_debt''"

text \<open>Order identities: the exchange's id, or the client's id where there is none.\<close>

definition leg_identity :: "obj \<Rightarrow> (string \<times> string) option" where
  "leg_identity leg =
     (let order_id = text_of (dget leg ''order_id'');
          client_order_id = text_of (dget leg ''client_order_id'')
      in if order_id \<noteq> [] \<or> client_order_id \<noteq> []
         then Some (order_id, if order_id \<noteq> [] then [] else client_order_id) else None)"

definition group_identities :: "pyval \<Rightarrow> (string \<times> string) list" where
  "group_identities g =
     (case as_list g of None \<Rightarrow> []
      | Some legs \<Rightarrow> List.map_filter (\<lambda>leg. Option.bind (as_dict leg) leg_identity) legs)"

definition reconciliation_identity_keys :: "obj \<Rightarrow> (string \<times> string) set" where
  "reconciliation_identity_keys d =
     set (group_identities (dget d ''long_legs'') @ group_identities (dget d ''short_legs''))"

definition leg_has_identity :: "pyval \<Rightarrow> bool" where
  "leg_has_identity leg \<longleftrightarrow>
     (case as_dict leg of None \<Rightarrow> False
      | Some l \<Rightarrow> truth (py_or (dget l ''order_id'') (dget l ''client_order_id'')))"

definition group_coverage :: "pyval \<Rightarrow> nat" where
  "group_coverage g = (case as_list g of None \<Rightarrow> 0 | Some legs \<Rightarrow> length (filter leg_has_identity legs))"

definition reconciliation_identity_coverage :: "obj \<Rightarrow> nat \<times> nat" where
  "reconciliation_identity_coverage d =
     (group_coverage (dget d ''long_legs''), group_coverage (dget d ''short_legs''))"

definition reconciliation_snapshot_evidence :: "obj \<Rightarrow> nat" where
  "reconciliation_snapshot_evidence d =
     (case as_dict (dget d ''position_snapshot'') of None \<Rightarrow> 0
      | Some s \<Rightarrow> length (filter (\<lambda>f. truth (dget s f)) [''position_id'', ''symbol'', ''long_venue'', ''short_venue'']))"

definition is_unattributed_recovered_live_flat_reconciliation :: "pyval \<Rightarrow> bool" where
  "is_unattributed_recovered_live_flat_reconciliation v =
     (case as_dict v of None \<Rightarrow> False
      | Some d \<Rightarrow>
          py_startswith (position_of d) ''live-recovered:'' \<and> kind_of d \<in> {''final'', ''partial''} \<and>
          (case as_dict (dget d ''position_snapshot'') of None \<Rightarrow> False
           | Some s \<Rightarrow> position_of s = position_of d \<and> dget s ''entry_fee_evidence_complete'' \<noteq> PBool True) \<and>
          list_all (\<lambda>g. case as_list g of None \<Rightarrow> False
                        | Some legs \<Rightarrow> list_all (\<lambda>leg. as_dict leg \<noteq> None \<and> \<not> leg_has_identity leg) legs)
            [dget d ''long_legs'', dget d ''short_legs''] \<and>
          (case as_dict (dget d ''original_payload'') of None \<Rightarrow> False
           | Some p \<Rightarrow> list_all (\<lambda>f. case as_list (dget p f) of None \<Rightarrow> False
                                      | Some values \<Rightarrow> list_all (\<lambda>x. text_of x = []) values)
                         [''order_ids'', ''client_order_ids'']))"

section \<open>Quantities an item owns, and what its evidence lacks\<close>

definition nonneg_float :: "pyval \<Rightarrow> real option" where
  "nonneg_float v = (case finite_float v of None \<Rightarrow> None | Some r \<Rightarrow> if r \<ge> 0 then Some r else None)"

definition leg_key :: "string \<Rightarrow> string \<Rightarrow> string" where
  "leg_key leg suffix = leg @ suffix"

definition derived_quantity :: "obj \<Rightarrow> string \<Rightarrow> real option" where
  "derived_quantity d leg =
     (let partial = (kind_of d = ''partial'');
          keys = (if partial then [leg_key leg ''_closed_qty''] else [leg_key leg ''_quantity'', ''matched_quantity'']);
          source = dict_or_empty (dget d (if partial then ''original_payload'' else ''position_snapshot''))
      in case find (has_key source) keys of None \<Rightarrow> None | Some k \<Rightarrow> nonneg_float (dget source k))"

definition both :: "'a option \<Rightarrow> 'b option \<Rightarrow> ('a \<times> 'b) option" where
  "both x y = (case (x, y) of (Some a, Some b) \<Rightarrow> Some (a, b) | _ \<Rightarrow> None)"

definition pending_close_reconciliation_owned_quantities :: "obj \<Rightarrow> (real \<times> real) option" where
  "pending_close_reconciliation_owned_quantities d =
     (let explicit = dget d ''owned_close_quantities''
      in if explicit \<noteq> PNone
         then (case as_dict explicit of None \<Rightarrow> None
               | Some e \<Rightarrow> both (nonneg_float (dget e ''long'')) (nonneg_float (dget e ''short'')))
         else both (derived_quantity d ''long'') (derived_quantity d ''short''))"

definition leg_group_missing :: "pyval \<Rightarrow> real \<Rightarrow> bool" where
  "leg_group_missing g expected =
     (case as_list g of None \<Rightarrow> True
      | Some legs \<Rightarrow> \<not> list_all leg_has_identity legs \<or> legs = [] \<and> expected > 1 / 1000000000000)"

definition pending_close_reconciliation_missing_legs :: "obj \<Rightarrow> string list" where
  "pending_close_reconciliation_missing_legs d =
     (case pending_close_reconciliation_owned_quantities d of
        None \<Rightarrow> [''long'', ''short'']
      | Some (long, short) \<Rightarrow>
          (if leg_group_missing (dget d ''long_legs'') long then [''long''] else []) @
          (if leg_group_missing (dget d ''short_legs'') short then [''short''] else []))"

record identity_summary =
  is_leg_count :: nat
  is_exchange_order_id_count :: nat
  is_client_order_id_only_count :: nat
  is_recovery_placeholder_count :: nat
  is_missing_identity_count :: nat

definition classify_leg :: "pyval \<Rightarrow> identity_summary \<Rightarrow> identity_summary" where
  "classify_leg leg s =
     (case as_dict leg of
        None \<Rightarrow> s\<lparr>is_missing_identity_count := is_missing_identity_count s + 1\<rparr>
      | Some l \<Rightarrow>
          let order_id = text_of (dget l ''order_id''); client_order_id = text_of (dget l ''client_order_id'')
          in if py_contains ''-recovery-'' (py_lower order_id)
             then s\<lparr>is_recovery_placeholder_count := is_recovery_placeholder_count s + 1\<rparr>
             else if order_id \<noteq> [] then s\<lparr>is_exchange_order_id_count := is_exchange_order_id_count s + 1\<rparr>
             else if client_order_id \<noteq> []
             then s\<lparr>is_client_order_id_only_count := is_client_order_id_only_count s + 1\<rparr>
             else s\<lparr>is_missing_identity_count := is_missing_identity_count s + 1\<rparr>)"

definition summarize_identity :: "obj \<Rightarrow> string \<Rightarrow> identity_summary" where
  "summarize_identity d leg =
     (let legs = (case as_list (dget d (leg_key leg ''_legs'')) of None \<Rightarrow> [] | Some legs \<Rightarrow> legs)
      in fold classify_leg legs \<lparr>is_leg_count = length legs, is_exchange_order_id_count = 0,
           is_client_order_id_only_count = 0, is_recovery_placeholder_count = 0, is_missing_identity_count = 0\<rparr>)"

definition pending_close_reconciliation_identity_evidence ::
  "obj \<Rightarrow> string list \<times> identity_summary \<times> identity_summary" where
  "pending_close_reconciliation_identity_evidence d =
     (pending_close_reconciliation_missing_legs d, summarize_identity d ''long'', summarize_identity d ''short'')"

text \<open>The first reason of a sequence of checks.\<close>

fun first_some :: "'a option list \<Rightarrow> 'a option" where
  "first_some [] = None"
| "first_some (Some x # xs) = Some x"
| "first_some (None # xs) = first_some xs"

definition reason_if :: "bool \<Rightarrow> string \<Rightarrow> string option" where
  "reason_if b r = (if b then Some r else None)"

lemma reason_if_simps [simp]:
  "reason_if True r = Some r" "reason_if False r = None" "reason_if b r = None \<longleftrightarrow> \<not> b"
  by (simp_all add: reason_if_def)

lemma first_some_None_iff [simp]: "first_some xs = None \<longleftrightarrow> (\<forall>x\<in>set xs. x = None)"
  by (induction xs rule: first_some.induct) auto

definition pending_close_reconciliation_evidence_debt_reason :: "pyval \<Rightarrow> string option" where
  "pending_close_reconciliation_evidence_debt_reason v =
     (case as_dict v of None \<Rightarrow> Some ''invalid_reconciliation_item''
      | Some d \<Rightarrow>
          if dget d ''invalid_pending_close_reconciliation'' = PBool True
          then Some (py_str (py_or (dget d ''reason'') (PStr ''invalid_reconciliation_item'')))
          else if kind_of d = ''accepted_order_truth_gap'' then None
          else if kind_of d \<notin> {''final'', ''partial''} then Some ''unsupported_reconciliation_kind''
          else
            let s = dict_or_empty (dget d ''position_snapshot'');
                lacks = (\<lambda>f. text_of (py_or (dget d f) (dget s f)) = []);
                missing = pending_close_reconciliation_missing_legs d
            in if s = [] then Some ''missing_position_snapshot''
               else if lacks ''position_id'' then Some ''missing_position_id''
               else if lacks ''symbol'' then Some ''missing_symbol''
               else if lacks ''long_venue'' \<or> lacks ''short_venue'' then Some ''missing_position_snapshot_venues''
               else if missing \<noteq> []
               then Some (if dget d ''unattributed_exchange_close_legs'' = PList (map PStr missing)
                          then ''unattributed_exchange_execution'' else ''missing_close_order_identity'')
               else None)"

definition reconciliation_int :: "pyval \<Rightarrow> int" where
  "reconciliation_int v = (case py_int v of Inl _ \<Rightarrow> 0 | Inr i \<Rightarrow> i)"

definition snapshot_number_reason :: "obj \<Rightarrow> string \<Rightarrow> string option" where
  "snapshot_number_reason s f =
     (case finite_float (dget s f) of
        None \<Rightarrow> Some (''missing_or_invalid_'' @ f)
      | Some r \<Rightarrow>
          reason_if (f \<in> {''long_quantity'', ''short_quantity'', ''long_entry_price'', ''short_entry_price''} \<and> r < 0)
            (''missing_or_invalid_'' @ f))"

definition leg_group_reason :: "obj \<Rightarrow> obj \<Rightarrow> string \<Rightarrow> string option" where
  "leg_group_reason d s leg =
     (case as_list (dget d (leg_key leg ''_legs'')) of
        None \<Rightarrow> Some (''missing_'' @ leg @ ''_legs'')
      | Some legs \<Rightarrow>
          first_some (map (\<lambda>l. case as_dict l of
              None \<Rightarrow> Some (''invalid_'' @ leg @ ''_leg'')
            | Some x \<Rightarrow> reason_if (text_of (dget x ''venue'') \<noteq> text_of (dget s (leg_key leg ''_venue'')))
                          (leg @ ''_leg_venue_mismatch'')) legs))"

definition partial_payload_reason :: "obj \<Rightarrow> string option" where
  "partial_payload_reason d =
     (if kind_of d \<noteq> ''partial'' then None
      else case as_dict (dget d ''original_payload'') of
             None \<Rightarrow> Some ''missing_or_invalid_long_closed_qty''
           | Some p \<Rightarrow>
               first_some (map (\<lambda>f. reason_if (nonneg_float (dget p f) = None) (''missing_or_invalid_'' @ f))
                 [''long_closed_qty'', ''short_closed_qty'']))"

definition pending_close_reconciliation_import_reason :: "pyval \<Rightarrow> string option" where
  "pending_close_reconciliation_import_reason v =
     (case pending_close_reconciliation_evidence_debt_reason v of Some r \<Rightarrow> Some r
      | None \<Rightarrow>
          (case as_dict v of None \<Rightarrow> Some ''invalid_reconciliation_item''
           | Some d \<Rightarrow>
               if reconciliation_int (dget d ''closed_at_ms'') \<le> 0 then Some ''missing_closed_at_ms''
               else case partial_payload_reason d of Some r \<Rightarrow> Some r
               | None \<Rightarrow>
                 (case as_dict (dget d ''position_snapshot'') of None \<Rightarrow> Some ''missing_position_snapshot''
                  | Some s \<Rightarrow>
                      first_some (
                        [reason_if (position_of s \<noteq> position_of d) ''position_snapshot_position_id_mismatch'',
                         reason_if (text_of (dget s ''symbol'') \<noteq> text_of (dget d ''symbol''))
                           ''position_snapshot_symbol_mismatch''] @
                        map (snapshot_number_reason s)
                          [''long_quantity'', ''short_quantity'', ''long_entry_price'', ''short_entry_price'',
                           ''total_entry_fee_quote'', ''captured_funding_quote''] @
                        [reason_if (dget s ''entry_fee_evidence_complete'' \<noteq> PBool True) ''entry_fee_evidence_incomplete'',
                         leg_group_reason d s ''long'', leg_group_reason d s ''short'']))))"

section \<open>The queue\<close>

definition MAX_PENDING_CLOSE_RECONCILIATIONS :: nat where
  "MAX_PENDING_CLOSE_RECONCILIATIONS = 256"

definition invalid_pending_close_reconciliation :: "pyval \<Rightarrow> string \<Rightarrow> obj" where
  "invalid_pending_close_reconciliation raw reason =
     [(''invalid_pending_close_reconciliation'', PBool True), (''reason'', PStr reason),
      (''raw_type'', PStr (type_name raw)), (''raw_repr'', PStr (take 240 (py_repr raw)))]"

definition looks_like_pending_close_reconciliation :: "obj \<Rightarrow> bool" where
  "looks_like_pending_close_reconciliation d =
     list_ex (has_key d) [''position_id'', ''symbol'', ''kind'', ''closed_at_ms'', ''position_snapshot'',
       ''long_venue'', ''short_venue'', ''long_legs'', ''short_legs'']"

definition normalize_item :: "pyval \<Rightarrow> obj" where
  "normalize_item v = (case as_dict v of Some d \<Rightarrow> d | None \<Rightarrow> invalid_pending_close_reconciliation v ''invalid_item'')"

fun normalize_pending_close_reconciliations :: "pyval \<Rightarrow> obj list" where
  "normalize_pending_close_reconciliations PNone = []"
| "normalize_pending_close_reconciliations (PList items) = map normalize_item items"
| "normalize_pending_close_reconciliations (PDict d) =
     map normalize_item (if looks_like_pending_close_reconciliation d then [PDict d] else map snd d)"
| "normalize_pending_close_reconciliations raw = [invalid_pending_close_reconciliation raw ''invalid_container'']"

text \<open>\<open>queue[-n:]\<close>.\<close>

definition last_n :: "nat \<Rightarrow> 'a list \<Rightarrow> 'a list" where
  "last_n n xs = drop (length xs - n) xs"

definition set_pending_close_reconciliations :: "pyval \<Rightarrow> obj list" where
  "set_pending_close_reconciliations raw =
     last_n MAX_PENDING_CLOSE_RECONCILIATIONS (normalize_pending_close_reconciliations raw)"

text \<open>The persisted form of the queue held in memory.\<close>

definition as_raw :: "obj list \<Rightarrow> pyval" where
  "as_raw q = PList (map PDict q)"

fun first_index :: "('a \<Rightarrow> bool) \<Rightarrow> 'a list \<Rightarrow> nat option" where
  "first_index P [] = None"
| "first_index P (x # xs) = (if P x then Some 0 else map_option Suc (first_index P xs))"

text \<open>\<open>queue.index(queue[k])\<close>: the first element that is, or equals, the one at \<open>k\<close>.\<close>

definition index_of :: "obj list \<Rightarrow> nat \<Rightarrow> nat" where
  "index_of q k = length (takeWhile (\<lambda>j. j \<noteq> k \<and> \<not> py_eq (PDict (q ! j)) (PDict (q ! k))) [0..<length q])"

definition requires_history :: "obj \<Rightarrow> bool" where
  "requires_history d \<longleftrightarrow> dget d ''reconciliation_mode'' = PStr ''venue_execution_history_required''"

definition identity_not_weaker :: "obj \<Rightarrow> obj \<Rightarrow> bool" where
  "identity_not_weaker item existing \<longleftrightarrow>
     (case (reconciliation_identity_coverage item, reconciliation_identity_coverage existing) of
        ((l, s), (l', s')) \<Rightarrow> l' \<le> l \<and> s' \<le> s)"

definition supersedes :: "obj \<Rightarrow> obj \<Rightarrow> bool" where
  "supersedes item existing =
     (let not_weaker = identity_not_weaker item existing;
          stronger_mode = (requires_history item \<and> \<not> requires_history existing \<and> not_weaker);
          stronger_snapshot = (reconciliation_snapshot_evidence item > reconciliation_snapshot_evidence existing);
          replaces_evidence_debt =
            (has_status existing ''evidence_debt'' \<and> \<not> has_status item ''evidence_debt'' \<and> not_weaker \<and> stronger_snapshot);
          records_evidence_debt = (has_status item ''evidence_debt'' \<and> \<not> has_status existing ''evidence_debt'');
          records_irrecoverable_audit_debt =
            (dget item ''automatic_history_terminal_status'' = PStr ''irrecoverable_audit_debt'' \<and>
             dget existing ''automatic_history_terminal_status'' \<noteq> PStr ''irrecoverable_audit_debt'')
      in reconciliation_identity_keys item \<noteq> reconciliation_identity_keys existing \<and> not_weaker \<or>
         stronger_mode \<or> replaces_evidence_debt \<or> records_evidence_debt \<or> records_irrecoverable_audit_debt)"

definition enqueue_pending_close_reconciliation :: "obj \<Rightarrow> obj list \<Rightarrow> obj list" where
  "enqueue_pending_close_reconciliation item queue =
     (let q = set_pending_close_reconciliations (as_raw queue)
      in case first_index (\<lambda>e. owner_key e = owner_key item) q of
           None \<Rightarrow> last_n MAX_PENDING_CLOSE_RECONCILIATIONS (q @ [item])
         | Some k \<Rightarrow>
             if is_terminal_automatic_history_evidence_debt (q ! k) \<and>
                \<not> is_terminal_automatic_history_evidence_debt item then q
             else if supersedes item (q ! k) then q[index_of q k := item] else q)"

definition task_key :: "obj \<Rightarrow> string \<times> string \<times> int" where
  "task_key d = (position_of d, kind_of d, reconciliation_int (dget d ''closed_at_ms''))"

definition remove_pending_close_reconciliation :: "obj \<Rightarrow> obj list \<Rightarrow> bool \<times> obj list" where
  "remove_pending_close_reconciliation task queue =
     (let q = set_pending_close_reconciliations (as_raw queue);
          q' = filter (\<lambda>item. task_key item \<noteq> task_key task) q
      in (length q' \<noteq> length q, q'))"

section \<open>Summary\<close>

record reconciliation_summary =
  sm_total_count :: nat
  sm_by_kind :: "(string, nat) dict"
  sm_backed_off_count :: nat
  sm_unknown_status_count :: nat
  sm_evidence_debt_count :: nat
  sm_evidence_debt_by_reason :: "(string, nat) dict"

definition count_in :: "string \<Rightarrow> (string, nat) dict \<Rightarrow> (string, nat) dict" where
  "count_in k d = dict_put k ((case dict_get d k of None \<Rightarrow> 0 | Some n \<Rightarrow> n) + 1) d"

definition summarize_item :: "pyval \<Rightarrow> reconciliation_summary \<Rightarrow> reconciliation_summary" where
  "summarize_item v s =
     (case as_dict v of
        None \<Rightarrow> s\<lparr>sm_unknown_status_count := sm_unknown_status_count s + 1\<rparr>
      | Some d \<Rightarrow>
          let s = s\<lparr>sm_by_kind := count_in (py_str (py_or (dget d ''kind'') (PStr ''unknown''))) (sm_by_kind s)\<rparr>;
              s = (if reconciliation_int (dget d ''next_attempt_ms'') > 0
                   then s\<lparr>sm_backed_off_count := sm_backed_off_count s + 1\<rparr> else s)
          in if has_status d ''evidence_debt''
             then s\<lparr>sm_evidence_debt_count := sm_evidence_debt_count s + 1,
                    sm_evidence_debt_by_reason :=
                      count_in (py_str (py_or (dget d ''evidence_debt_reason'') (PStr ''unknown''))) (sm_evidence_debt_by_reason s)\<rparr>
             else s)"

definition build_reconciliation_summary :: "pyval list \<Rightarrow> reconciliation_summary" where
  "build_reconciliation_summary queue =
     fold summarize_item queue \<lparr>sm_total_count = length queue, sm_by_kind = [], sm_backed_off_count = 0,
       sm_unknown_status_count = 0, sm_evidence_debt_count = 0, sm_evidence_debt_by_reason = []\<rparr>"

definition pending_close_reconciliation_summary :: "pyval \<Rightarrow> reconciliation_summary" where
  "pending_close_reconciliation_summary raw =
     build_reconciliation_summary (map PDict (normalize_pending_close_reconciliations raw))"

section \<open>Import of operator evidence\<close>

text \<open>
  \<open>import_pending_close_reconciliation_evidence\<close> raises \<open>BillingEvidenceImportError\<close>, the text of
  which is the left side of the sum. The checks of the request come first; then the queue is
  normalised, whatever follows; then the owner is found, the candidate built and checked.
\<close>

record import_request =
  ir_item :: obj
  ir_position_id :: string
  ir_kind :: string
  ir_terminalize :: bool
  ir_closed_at_ms :: int
  ir_reference :: string
  ir_digest :: string
  ir_imported_at_ms :: int
  ir_allow_idempotent :: bool

definition allowed_fields :: "string list" where
  "allowed_fields = [''position_id'', ''kind'', ''closed_at_ms'', ''position_snapshot'', ''long_legs'',
     ''short_legs'', ''terminalize_orphan_partial'']"

definition is_hex_digest :: "string \<Rightarrow> bool" where
  "is_hex_digest s \<longleftrightarrow> length s = 64 \<and> list_all (\<lambda>c. c \<in> set ''0123456789abcdef'') s"

definition terminalize_requested :: "obj \<Rightarrow> bool" where
  "terminalize_requested item \<longleftrightarrow> dget item ''terminalize_orphan_partial'' = PBool True"

definition request_reason :: "obj \<Rightarrow> string \<Rightarrow> string \<Rightarrow> int \<Rightarrow> bool \<Rightarrow> string option" where
  "request_reason item reference digest imported_at_ms allow_idempotent =
     (let unknown_fields = sort (remdups (filter (\<lambda>k. k \<notin> set allowed_fields) (map fst item)))
      in first_some
        [reason_if (reference = []) ''evidence_reference is required'',
         reason_if (\<not> is_hex_digest digest) ''evidence_sha256 must be a SHA-256 hex digest'',
         reason_if (imported_at_ms \<le> 0) ''imported_at_ms must be positive'',
         reason_if (unknown_fields \<noteq> []) (''unsupported evidence fields: '' @ joined '', '' unknown_fields),
         reason_if (has_key item ''terminalize_orphan_partial'' \<and> \<not> terminalize_requested item)
           ''terminalize_orphan_partial must be true when supplied'',
         reason_if (position_of item = []) ''position_id is required'',
         reason_if (kind_of item \<notin> {''final'', ''partial''}) ''kind must be final or partial'',
         reason_if (terminalize_requested item \<and> kind_of item = ''final'' \<and> \<not> allow_idempotent)
           ''terminalized evidence must identify the partial owner'',
         reason_if (reconciliation_int (dget item ''closed_at_ms'') \<le> 0) ''closed_at_ms must be positive'',
         reason_if (has_key item ''position_snapshot'' \<and> as_dict (dget item ''position_snapshot'') = None)
           ''position_snapshot must be an object'',
         reason_if (has_key item ''long_legs'' \<and> as_list (dget item ''long_legs'') = None)
           ''long_legs must be a list'',
         reason_if (has_key item ''short_legs'' \<and> as_list (dget item ''short_legs'') = None)
           ''short_legs must be a list''])"

definition check_import_request ::
  "pyval \<Rightarrow> string \<Rightarrow> string \<Rightarrow> int \<Rightarrow> bool \<Rightarrow> string + import_request" where
  "check_import_request v evidence_reference evidence_sha256 imported_at_ms allow_idempotent =
     (case as_dict v of None \<Rightarrow> Inl ''evidence reconciliation must be an object''
      | Some item \<Rightarrow>
          let reference = py_strip evidence_reference; digest = py_lower (py_strip evidence_sha256)
          in (case request_reason item reference digest imported_at_ms allow_idempotent of
                Some e \<Rightarrow> Inl e
              | None \<Rightarrow>
                  Inr \<lparr>ir_item = item, ir_position_id = position_of item, ir_kind = kind_of item,
                       ir_terminalize = terminalize_requested item,
                       ir_closed_at_ms = reconciliation_int (dget item ''closed_at_ms''),
                       ir_reference = reference, ir_digest = digest,
                       ir_imported_at_ms = imported_at_ms, ir_allow_idempotent = allow_idempotent\<rparr>))"

definition matches_owner :: "import_request \<Rightarrow> string \<Rightarrow> obj \<Rightarrow> bool" where
  "matches_owner r kind d \<longleftrightarrow> task_key d = (ir_position_id r, kind, ir_closed_at_ms r)"

definition operator_evidence :: "obj \<Rightarrow> obj" where
  "operator_evidence d = dict_or_empty (dget d ''operator_evidence'')"

definition already_imported :: "import_request \<Rightarrow> obj \<Rightarrow> bool" where
  "already_imported r d \<longleftrightarrow>
     has_status d ''operator_evidence_imported'' \<and> as_dict (dget d ''operator_evidence'') \<noteq> None \<and>
     py_lower (text_of (dget (operator_evidence d) ''sha256'')) = ir_digest r \<and>
     text_of (dget (operator_evidence d) ''reference'') = ir_reference r"

definition keep_existing_accounting :: "obj \<Rightarrow> obj \<Rightarrow> obj" where
  "keep_existing_accounting existing candidate =
     (case (as_dict (dget existing ''position_snapshot''), as_dict (dget candidate ''position_snapshot'')) of
        (Some old, Some new) \<Rightarrow>
          dict_put ''position_snapshot''
            (PDict (fold (\<lambda>f s. if has_key old f then dict_put f (dget old f) s else s)
               [''realized_price_pnl_quote'', ''realized_exit_fee_quote''] new)) candidate
      | _ \<Rightarrow> candidate)"

definition with_evidence :: "obj \<Rightarrow> obj \<Rightarrow> obj" where
  "with_evidence item existing =
     fold (\<lambda>f c. if has_key item f then dict_put f (dget item f) c else c)
       [''position_snapshot'', ''long_legs'', ''short_legs''] existing"

definition terminalized :: "obj \<Rightarrow> obj" where
  "terminalized c = dict_pop ''original_payload'' (dict_put ''kind'' (PStr ''final'') c)"

definition with_routing :: "obj \<Rightarrow> obj" where
  "with_routing c =
     (case as_dict (dget c ''position_snapshot'') of None \<Rightarrow> c
      | Some s \<Rightarrow> fold (\<lambda>f c. dict_put f (PStr (text_of (py_or (dget c f) (dget s f)))) c)
                    [''symbol'', ''long_venue'', ''short_venue''] c)"

definition build_candidate :: "import_request \<Rightarrow> obj \<Rightarrow> obj" where
  "build_candidate r existing =
     with_routing
       (if ir_terminalize r then terminalized (with_evidence (ir_item r) existing)
        else if ir_kind r = ''final'' then keep_existing_accounting existing (with_evidence (ir_item r) existing)
        else with_evidence (ir_item r) existing)"

definition isclose :: "real \<Rightarrow> real \<Rightarrow> bool" where
  "isclose a b \<longleftrightarrow> \<bar>a - b\<bar> \<le> max (max \<bar>a\<bar> \<bar>b\<bar> / 1000000000) (1 / 1000000000000)"

definition leg_quantity :: "pyval \<Rightarrow> real option" where
  "leg_quantity leg =
     (case finite_float (dget (dict_or_empty leg) ''quantity'') of
        None \<Rightarrow> None | Some q \<Rightarrow> if q \<le> 1 / 1000000000000 then None else Some q)"

definition terminal_leg_reason :: "obj \<Rightarrow> obj \<Rightarrow> string \<Rightarrow> string option" where
  "terminal_leg_reason c s leg =
     (case py_float (dget s (leg_key leg ''_quantity'')) of
        Inl _ \<Rightarrow> Some ''orphan partial terminalization requires dual-leg snapshot quantities''
      | Inr x \<Rightarrow>
          (case (x, as_list (dget c (leg_key leg ''_legs''))) of
             (Fin expected, Some legs) \<Rightarrow>
               if expected \<le> 1 / 1000000000000 \<or> legs = []
               then Some ''orphan partial terminalization requires complete dual-leg evidence''
               else if \<exists>l\<in>set legs. leg_quantity l = None
               then Some ''orphan partial terminalization requires dual-leg quantities''
               else reason_if (\<not> isclose (sum_list (map (\<lambda>l. the (leg_quantity l)) legs)) expected)
                      ''orphan partial terminalization quantities must match the snapshot''
           | _ \<Rightarrow> Some ''orphan partial terminalization requires complete dual-leg evidence''))"

definition terminalization_reason :: "obj \<Rightarrow> string option" where
  "terminalization_reason c =
     (case as_dict (dget c ''position_snapshot'') of
        None \<Rightarrow> Some ''orphan partial terminalization requires a position snapshot''
      | Some s \<Rightarrow> first_some [terminal_leg_reason c s ''long'', terminal_leg_reason c s ''short''])"

definition mark_imported :: "import_request \<Rightarrow> obj \<Rightarrow> obj" where
  "mark_imported r c =
     (let c = dict_put ''reconciliation_status'' (PStr ''operator_evidence_imported'') c;
          c = fold dict_pop [''evidence_debt_reason'', ''evidence_debt_at_ms'', ''missing_close_order_identity''] c;
          c = dict_put ''billing_reconciliation_required'' (PBool True) c;
          c = dict_put ''reconciliation_mode'' (PStr ''venue_execution_history_required'') c;
          c = dict_put ''next_attempt_ms'' (PInt (ir_imported_at_ms r)) c;
          c = dict_put ''attempt_count'' (PInt 0) c
      in dict_put ''operator_evidence''
           (PDict ([(''reference'', PStr (ir_reference r)), (''sha256'', PStr (ir_digest r)),
                    (''imported_at_ms'', PInt (ir_imported_at_ms r))] @
                   (if ir_terminalize r then [(''terminalized_orphan_partial'', PBool True)] else []))) c)"

definition position_still_open :: "string \<Rightarrow> (string, open_position) dict \<Rightarrow> bool" where
  "position_still_open position_id open_positions \<longleftrightarrow>
     dict_get open_positions position_id \<noteq> None \<or> list_ex (\<lambda>(k, p). op_position_id p = position_id) open_positions"

text \<open>The replacement of the owner at an index: the index and the new item, or the reason why not.
  The first case returns an item that is already there.\<close>

datatype import_outcome = Already obj | Replaced nat obj

definition replace_owner ::
  "import_request \<Rightarrow> (string, open_position) dict \<Rightarrow> obj list \<Rightarrow> nat \<Rightarrow> string + import_outcome" where
  "replace_owner r open_positions q k =
     (let existing = q ! k; candidate = build_candidate r existing
      in if ir_allow_idempotent r \<and> already_imported r existing then Inr (Already existing)
         else case first_some
            [reason_if (\<not> has_status existing ''evidence_debt'') ''target owner is not an evidence debt'',
             reason_if (ir_terminalize r \<and> position_still_open (ir_position_id r) open_positions)
               ''orphan partial target position is still open'',
             reason_if (ir_terminalize r \<and> list_ex (\<lambda>d. owner_key d = (ir_position_id r, ''final'')) q)
               ''orphan partial already has a final successor'',
             map_option (\<lambda>e. ''imported evidence is incomplete: '' @ e)
               (pending_close_reconciliation_import_reason (PDict candidate)),
             (if ir_terminalize r then terminalization_reason candidate else None)]
          of Some e \<Rightarrow> Inl e
           | None \<Rightarrow> Inr (Replaced k (mark_imported r candidate)))"

definition matching_indices :: "('a \<Rightarrow> bool) \<Rightarrow> 'a list \<Rightarrow> nat list" where
  "matching_indices P xs = filter (\<lambda>k. P (xs ! k)) [0..<length xs]"

definition find_import_target ::
  "import_request \<Rightarrow> (string, open_position) dict \<Rightarrow> obj list \<Rightarrow> string + import_outcome" where
  "find_import_target r open_positions q =
     (case matching_indices (matches_owner r (if ir_terminalize r then ''partial'' else ir_kind r)) q of
        [k] \<Rightarrow> replace_owner r open_positions q k
      | _ \<Rightarrow>
          let imported = filter (\<lambda>d. matches_owner r ''final'' d \<and> already_imported r d \<and>
                dget (operator_evidence d) ''terminalized_orphan_partial'' = PBool True) q
          in if ir_terminalize r \<and> ir_allow_idempotent r \<and> length imported = 1 then Inr (Already (hd imported))
             else Inl ''evidence must match exactly one pending reconciliation owner'')"

definition import_pending_close_reconciliation_evidence ::
  "pyval \<Rightarrow> string \<Rightarrow> string \<Rightarrow> int \<Rightarrow> bool \<Rightarrow> (string, open_position) dict \<Rightarrow> obj list
     \<Rightarrow> (string + obj) \<times> obj list" where
  "import_pending_close_reconciliation_evidence item evidence_reference evidence_sha256 imported_at_ms
       allow_idempotent open_positions queue =
     (case check_import_request item evidence_reference evidence_sha256 imported_at_ms allow_idempotent of
        Inl e \<Rightarrow> (Inl e, queue)
      | Inr r \<Rightarrow>
          let q = set_pending_close_reconciliations (as_raw queue)
          in (case find_import_target r open_positions q of
                Inl e \<Rightarrow> (Inl e, q)
              | Inr (Already d) \<Rightarrow> (Inr d, q)
              | Inr (Replaced k d) \<Rightarrow> (Inr d, q[k := d])))"

section \<open>Lists and indices\<close>

lemma last_n_id [simp]: "length xs \<le> n \<Longrightarrow> last_n n xs = xs"
  by (simp add: last_n_def)

lemma last_n_length [simp]: "length (last_n n xs) = min n (length xs)"
  by (simp add: last_n_def)

lemma last_n_set: "x \<in> set (last_n n xs) \<Longrightarrow> x \<in> set xs"
  unfolding last_n_def by (rule in_set_dropD)

lemma last_n_snoc:
  "length xs = n \<Longrightarrow> 0 < n \<Longrightarrow> last_n n (xs @ [x]) = tl xs @ [x]"
  by (cases xs) (simp_all add: last_n_def)

lemma first_index_None [simp]: "first_index P xs = None \<longleftrightarrow> (\<forall>x\<in>set xs. \<not> P x)"
  by (induction xs) auto

lemma first_index_SomeD: "first_index P xs = Some k \<Longrightarrow> k < length xs \<and> P (xs ! k)"
  by (induction xs arbitrary: k) (auto split: if_splits)

lemma set_queue_normal: "set_pending_close_reconciliations (as_raw q) = last_n MAX_PENDING_CLOSE_RECONCILIATIONS q"
  by (simp add: set_pending_close_reconciliations_def as_raw_def comp_def normalize_item_def)

section \<open>Well-formed queues\<close>

text \<open>Items whose position id and kind are texts (or absent), as every writer of the engine
  makes them; queues of such items, bounded, with one item per owner.\<close>

definition text_field :: "pyval \<Rightarrow> bool" where
  "text_field v = (case v of PNone \<Rightarrow> True | PStr _ \<Rightarrow> True | _ \<Rightarrow> False)"

definition typed_item :: "obj \<Rightarrow> bool" where
  "typed_item d \<longleftrightarrow> distinct (map fst d) \<and> text_field (dget d ''position_id'') \<and> text_field (dget d ''kind'')"

definition queue_ok :: "obj list \<Rightarrow> bool" where
  "queue_ok q \<longleftrightarrow> length q \<le> MAX_PENDING_CLOSE_RECONCILIATIONS \<and> list_all typed_item q \<and> distinct (map owner_key q)"

lemma text_field_eq: "text_field v \<Longrightarrow> py_eq v w \<Longrightarrow> w = v"
  by (cases v) (auto simp: text_field_def)

lemma py_eq_keys:
  assumes "py_eq (PDict d) (PDict e)" and "distinct (map fst d)" and "distinct (map fst e)"
  shows "fst ` set e = fst ` set d"
proof -
  have "fst ` set d \<subseteq> fst ` set e"
    using assms(1) by (force simp: list_all_iff split: option.splits dest!: map_of_SomeD)
  moreover from assms(1) have "length e = length d" by simp
  with assms(2,3) have "card (fst ` set e) = card (fst ` set d)"
    by (metis distinct_card length_map list.set_map)
  ultimately show ?thesis by (metis List.finite_set card_subset_eq finite_imageI)
qed

lemma py_eq_dget:
  assumes eq: "py_eq (PDict d) (PDict e)" and d: "distinct (map fst d)" and e: "distinct (map fst e)"
    and t: "text_field (dget d k)"
  shows "dget e k = dget d k"
proof (cases "dict_get d k")
  case None
  then have "dict_get e k = None"
    using py_eq_keys [OF eq d e] by (simp add: map_of_eq_None_iff)
  with None show ?thesis by (simp add: dget_def)
next
  case (Some v)
  with py_eq_dict_get [OF eq Some d] t show ?thesis by (auto simp: dget_def dest: text_field_eq)
qed

lemma py_eq_owner: "py_eq (PDict d) (PDict e) \<Longrightarrow> typed_item d \<Longrightarrow> typed_item e \<Longrightarrow> owner_key e = owner_key d"
  by (simp add: typed_item_def owner_key_def position_of_def kind_of_def py_eq_dget del: py_eq.simps)

lemma distinct_owner_index:
  "distinct (map owner_key q) \<Longrightarrow> i < length q \<Longrightarrow> j < length q \<Longrightarrow> owner_key (q ! i) = owner_key (q ! j) \<Longrightarrow> i = j"
  by (metis length_map nth_eq_iff_index_eq nth_map)

lemma index_of_self:
  assumes "queue_ok q" and "k < length q"
  shows "index_of q k = k"
proof -
  have neq: "\<not> py_eq (PDict (q ! j)) (PDict (q ! k))" if "j < k" for j
  proof
    assume "py_eq (PDict (q ! j)) (PDict (q ! k))"
    with assms that have "owner_key (q ! k) = owner_key (q ! j)"
      by (intro py_eq_owner) (auto simp: queue_ok_def list_all_length)
    with assms that distinct_owner_index [of q k j] show False by (simp add: queue_ok_def)
  qed
  have upt: "[0..<length q] = [0..<k] @ k # [Suc k..<length q]"
    using assms(2) by (metis append_take_drop_id drop_upt take_upt add_0 less_imp_le_nat upt_conv_Cons)
  have "takeWhile (\<lambda>j. j \<noteq> k \<and> \<not> py_eq (PDict (q ! j)) (PDict (q ! k))) [0..<length q] = [0..<k]"
    unfolding upt using neq by (subst takeWhile_append2) auto
  then show ?thesis by (simp add: index_of_def)
qed

lemma distinct_update_owner:
  assumes "distinct (map owner_key q)" and "k < length q"
    and "owner_key d = owner_key (q ! k) \<or> owner_key d \<notin> owner_key ` set q"
  shows "distinct (map owner_key (q[k := d]))"
proof (cases "owner_key d = owner_key (q ! k)")
  case True
  then have "map owner_key (q[k := d]) = map owner_key q"
    by (metis assms(2) list_update_id map_update nth_map)
  with assms(1) show ?thesis by simp
next
  case False
  with assms have "owner_key d \<notin> set (map owner_key q)" by simp
  then show ?thesis using assms(1)
    by (metis Diff_iff distinct_list_update map_update)
qed

lemma queue_ok_update:
  "queue_ok q \<Longrightarrow> k < length q \<Longrightarrow> typed_item d \<Longrightarrow>
     owner_key d = owner_key (q ! k) \<or> owner_key d \<notin> owner_key ` set q \<Longrightarrow> queue_ok (q[k := d])"
  unfolding queue_ok_def by (auto simp: list_all_length nth_list_update intro: distinct_update_owner)

lemma queue_ok_last_n:
  assumes "distinct (map owner_key q)" and "list_all typed_item q"
  shows "queue_ok (last_n MAX_PENDING_CLOSE_RECONCILIATIONS q)"
proof -
  let ?n = "length q - MAX_PENDING_CLOSE_RECONCILIATIONS"
  have "distinct (drop ?n (map owner_key q))" using assms(1) by (rule distinct_drop)
  with assms(2) show ?thesis
    by (auto simp: queue_ok_def last_n_def drop_map list_all_iff dest: in_set_dropD)
qed

section \<open>Enqueuing\<close>

text \<open>What enqueuing does to a well-formed queue.\<close>

lemma enqueue_result:
  assumes "queue_ok q"
  shows "enqueue_pending_close_reconciliation item q =
     (case first_index (\<lambda>e. owner_key e = owner_key item) q of
        None \<Rightarrow> last_n MAX_PENDING_CLOSE_RECONCILIATIONS (q @ [item])
      | Some k \<Rightarrow>
          if is_terminal_automatic_history_evidence_debt (q ! k) \<and>
             \<not> is_terminal_automatic_history_evidence_debt item then q
          else if supersedes item (q ! k) then q[k := item] else q)"
  using assms unfolding enqueue_pending_close_reconciliation_def set_queue_normal
  by (auto simp: queue_ok_def [of q] index_of_self Let_def dest: first_index_SomeD split: option.split)

lemma enqueue_ok:
  assumes q: "queue_ok q" and item: "typed_item item"
  shows "queue_ok (enqueue_pending_close_reconciliation item q)"
proof (cases "first_index (\<lambda>e. owner_key e = owner_key item) q")
  case None
  then have new: "owner_key item \<notin> owner_key ` set q" by auto
  with q item have "distinct (map owner_key (q @ [item]))" "list_all typed_item (q @ [item])"
    by (simp_all add: queue_ok_def)
  then have "queue_ok (last_n MAX_PENDING_CLOSE_RECONCILIATIONS (q @ [item]))"
    by (rule queue_ok_last_n)
  then show ?thesis by (simp only: enqueue_result [OF q] None option.case)
next
  case (Some k)
  from first_index_SomeD [OF Some] q item show ?thesis
    by (auto simp: enqueue_result Some intro: queue_ok_update)
qed


text \<open>The item that holds an owner's place after enqueuing.\<close>

lemma enqueue_owned:
  assumes q: "queue_ok q" and e: "e \<in> set q" and key: "owner_key e = owner_key item"
  shows "\<exists>k<length q. q ! k = e \<and> enqueue_pending_close_reconciliation item q =
     (if is_terminal_automatic_history_evidence_debt e \<and> \<not> is_terminal_automatic_history_evidence_debt item then q
      else if supersedes item e then q[k := item] else q)"
proof (cases "first_index (\<lambda>e. owner_key e = owner_key item) q")
  case None
  with e key show ?thesis by auto
next
  case (Some k)
  from first_index_SomeD [OF Some] have k: "k < length q" "owner_key (q ! k) = owner_key item" by auto
  from e obtain j where j: "j < length q" "q ! j = e" by (auto simp: in_set_conv_nth)
  with k key q have "j = k" by (intro distinct_owner_index [of q]) (simp_all add: queue_ok_def)
  with j k show ?thesis by (auto simp: enqueue_result [OF q] Some)
qed

lemma enqueue_new:
  assumes q: "queue_ok q" and "owner_key item \<notin> owner_key ` set q"
  shows "enqueue_pending_close_reconciliation item q = last_n MAX_PENDING_CLOSE_RECONCILIATIONS (q @ [item])"
proof -
  from assms(2) have "first_index (\<lambda>e. owner_key e = owner_key item) q = None"
    by (simp add: image_iff) metis
  then show ?thesis by (simp only: enqueue_result [OF q] option.case)
qed

lemma enqueue_length: "queue_ok q \<Longrightarrow> length (enqueue_pending_close_reconciliation item q) \<le> Suc (length q)"
  by (simp add: enqueue_result split: option.split)

lemma enqueue_keeps_terminal:
  assumes "queue_ok q" and "d \<in> set q" and "is_terminal_automatic_history_evidence_debt d"
    and "\<not> is_terminal_automatic_history_evidence_debt item" and "length q < MAX_PENDING_CLOSE_RECONCILIATIONS"
  shows "d \<in> set (enqueue_pending_close_reconciliation item q)"
proof (cases "\<exists>e\<in>set q. owner_key e = owner_key item")
  case True
  then obtain e where e: "e \<in> set q" "owner_key e = owner_key item" by blast
  from enqueue_owned [OF assms(1) this] obtain k where k: "k < length q" "q ! k = e"
    and r: "enqueue_pending_close_reconciliation item q =
     (if is_terminal_automatic_history_evidence_debt e \<and> \<not> is_terminal_automatic_history_evidence_debt item then q
      else if supersedes item e then q[k := item] else q)" by blast
  show ?thesis
  proof (cases "d = e")
    case True
    with r assms show ?thesis by simp
  next
    case False
    with k assms(2) have "d \<in> set (q[k := item])" by (metis in_set_conv_nth length_list_update nth_list_update_neq)
    with r assms(2) show ?thesis by simp
  qed
next
  case False
  then have "owner_key item \<notin> owner_key ` set q" by (auto simp: image_iff) 
  from enqueue_new [OF assms(1) this] assms(2,5) show ?thesis by simp
qed

section \<open>Import\<close>

lemma with_evidence_dget [simp]:
  "k \<notin> {''position_snapshot'', ''long_legs'', ''short_legs''} \<Longrightarrow> dget (with_evidence item c) k = dget c k"
  by (auto simp: with_evidence_def)

lemma terminalized_dget [simp]:
  "dget (terminalized c) k =
     (if k = ''original_payload'' then PNone else if k = ''kind'' then PStr ''final'' else dget c k)"
  by (simp add: terminalized_def)

lemma with_routing_dget [simp]:
  "k \<notin> {''symbol'', ''long_venue'', ''short_venue''} \<Longrightarrow> dget (with_routing c) k = dget c k"
  by (auto simp: with_routing_def split: option.split)

lemma keep_existing_dget [simp]:
  "k \<noteq> ''position_snapshot'' \<Longrightarrow> dget (keep_existing_accounting e c) k = dget c k"
  by (simp add: keep_existing_accounting_def split: option.split)

lemma put_keys_distinct [simp]:
  "distinct (map fst c) \<Longrightarrow> distinct (map fst (dict_put k v c))"
  "distinct (map fst c) \<Longrightarrow> distinct (map fst (dict_pop k c))"
  by (simp_all add: distinct_update distinct_delete)

lemma candidate_parts_distinct [simp]:
  assumes "distinct (map fst c)"
  shows "distinct (map fst (with_evidence item c))" "distinct (map fst (terminalized c))"
    "distinct (map fst (with_routing c))" "distinct (map fst (keep_existing_accounting e c))"
  using assms
  by (simp_all add: with_evidence_def terminalized_def with_routing_def keep_existing_accounting_def
      del: map_update split: option.split)

lemma build_candidate_frame:
  "k \<notin> {''position_snapshot'', ''long_legs'', ''short_legs'', ''kind'', ''original_payload'',
     ''symbol'', ''long_venue'', ''short_venue''} \<Longrightarrow> dget (build_candidate r e) k = dget e k"
  unfolding build_candidate_def
  by (subst with_routing_dget) auto

lemma build_candidate_kind:
  "dget (build_candidate r e) ''kind'' = (if ir_terminalize r then PStr ''final'' else dget e ''kind'')"
  unfolding build_candidate_def by (subst with_routing_dget) auto

lemma build_candidate_distinct: "distinct (map fst e) \<Longrightarrow> distinct (map fst (build_candidate r e))"
  by (simp add: build_candidate_def)

definition import_marks :: "string set" where
  "import_marks = {''reconciliation_status'', ''evidence_debt_reason'', ''evidence_debt_at_ms'',
     ''missing_close_order_identity'', ''billing_reconciliation_required'', ''reconciliation_mode'',
     ''next_attempt_ms'', ''attempt_count'', ''operator_evidence''}"

lemma mark_imported_frame: "k \<notin> import_marks \<Longrightarrow> dget (mark_imported r c) k = dget c k"
  by (simp add: mark_imported_def import_marks_def)

lemma mark_imported_reads [simp]:
  "dget (mark_imported r c) ''position_id'' = dget c ''position_id''"
  "dget (mark_imported r c) ''kind'' = dget c ''kind''"
  "dget (mark_imported r c) ''position_snapshot'' = dget c ''position_snapshot''"
  "dget (mark_imported r c) ''original_payload'' = dget c ''original_payload''"
  "dget (mark_imported r c) ''owned_close_quantities'' = dget c ''owned_close_quantities''"
  "dget (mark_imported r c) ''long_legs'' = dget c ''long_legs''"
  "dget (mark_imported r c) ''short_legs'' = dget c ''short_legs''"
  "dget (mark_imported r c) ''symbol'' = dget c ''symbol''"
  "dget (mark_imported r c) ''long_venue'' = dget c ''long_venue''"
  "dget (mark_imported r c) ''short_venue'' = dget c ''short_venue''"
  "dget (mark_imported r c) ''closed_at_ms'' = dget c ''closed_at_ms''"
  "dget (mark_imported r c) ''reason'' = dget c ''reason''"
  "dget (mark_imported r c) ''unattributed_exchange_close_legs'' = dget c ''unattributed_exchange_close_legs''"
  "dget (mark_imported r c) ''invalid_pending_close_reconciliation'' = dget c ''invalid_pending_close_reconciliation''"
  by (rule mark_imported_frame, simp add: import_marks_def)+

lemma mark_imported_pick:
  "dget (mark_imported r c) (if b then ''original_payload'' else ''position_snapshot'') =
   dget c (if b then ''original_payload'' else ''position_snapshot'')"
  by simp

lemma mark_imported_status [simp]:
  "has_status (mark_imported r c) s \<longleftrightarrow> s = ''operator_evidence_imported''"
  by (auto simp: mark_imported_def has_status_def)

lemma mark_imported_evidence:
  "dget (mark_imported r c) ''operator_evidence'' =
     PDict ([(''reference'', PStr (ir_reference r)), (''sha256'', PStr (ir_digest r)),
       (''imported_at_ms'', PInt (ir_imported_at_ms r))] @
       (if ir_terminalize r then [(''terminalized_orphan_partial'', PBool True)] else []))"
  by (simp add: mark_imported_def)

lemma mark_imported_distinct: "distinct (map fst c) \<Longrightarrow> distinct (map fst (mark_imported r c))"
  by (simp add: mark_imported_def)

lemma mark_imported_owned:
  "pending_close_reconciliation_owned_quantities (mark_imported r c) = pending_close_reconciliation_owned_quantities c"
  unfolding pending_close_reconciliation_owned_quantities_def derived_quantity_def kind_of_def
    mark_imported_reads mark_imported_pick Let_def ..

lemma mark_imported_missing:
  "pending_close_reconciliation_missing_legs (mark_imported r c) = pending_close_reconciliation_missing_legs c"
  unfolding pending_close_reconciliation_missing_legs_def mark_imported_owned mark_imported_reads ..

lemma mark_imported_debt_reason:
  "pending_close_reconciliation_evidence_debt_reason (PDict (mark_imported r c)) =
   pending_close_reconciliation_evidence_debt_reason (PDict c)"
  unfolding pending_close_reconciliation_evidence_debt_reason_def mark_imported_missing kind_of_def as_dict.simps option.case
    Let_def mark_imported_reads ..

lemma mark_imported_reason:
  "pending_close_reconciliation_import_reason (PDict (mark_imported r c)) =
   pending_close_reconciliation_import_reason (PDict c)"
  unfolding pending_close_reconciliation_import_reason_def mark_imported_debt_reason partial_payload_reason_def
    leg_group_reason_def leg_key_def kind_of_def position_of_def as_dict.simps option.case append.simps
    list.map mark_imported_reads ..

lemma imported_task:
  "task_key (mark_imported r (build_candidate r e)) =
     (position_of e, if ir_terminalize r then ''final'' else kind_of e, reconciliation_int (dget e ''closed_at_ms''))"
  by (simp add: task_key_def position_of_def kind_of_def build_candidate_kind build_candidate_frame)

lemma imported_owner:
  "owner_key (mark_imported r (build_candidate r e)) =
     (position_of e, if ir_terminalize r then ''final'' else kind_of e)"
  using imported_task [of r e] by (simp add: task_key_def owner_key_def)

lemma imported_typed: "typed_item e \<Longrightarrow> typed_item (mark_imported r (build_candidate r e))"
  by (simp add: typed_item_def mark_imported_distinct build_candidate_distinct build_candidate_kind
      build_candidate_frame text_field_def)

lemma matching_single:
  "matching_indices P xs = [k] \<longleftrightarrow> k < length xs \<and> (\<forall>j<length xs. P (xs ! j) \<longleftrightarrow> j = k)"
proof
  assume "matching_indices P xs = [k]"
  then have "set (filter (\<lambda>j. P (xs ! j)) [0..<length xs]) = {k}" by (simp add: matching_indices_def)
  then show "k < length xs \<and> (\<forall>j<length xs. P (xs ! j) \<longleftrightarrow> j = k)" by auto
next
  assume r: "k < length xs \<and> (\<forall>j<length xs. P (xs ! j) \<longleftrightarrow> j = k)"
  then have "matching_indices P xs = filter (\<lambda>j. j = k) [0..<length xs]"
    unfolding matching_indices_def by (intro filter_cong) auto
  also from r have "[0..<length xs] = [0..<k] @ k # [Suc k..<length xs]"
    by (metis append_take_drop_id drop_upt take_upt add_0 less_imp_le_nat upt_conv_Cons)
  finally show "matching_indices P xs = [k]" by simp
qed

text \<open>The two ways in which an import succeeds.\<close>

lemma find_import_target_Replaced:
  assumes "find_import_target r ops q = Inr (Replaced k d)"
  shows "k < length q \<and> matching_indices (matches_owner r (if ir_terminalize r then ''partial'' else ir_kind r)) q = [k] \<and>
     d = mark_imported r (build_candidate r (q ! k)) \<and> has_status (q ! k) ''evidence_debt'' \<and>
     (ir_terminalize r \<longrightarrow> \<not> position_still_open (ir_position_id r) ops \<and>
        (\<forall>e\<in>set q. owner_key e \<noteq> (ir_position_id r, ''final''))) \<and>
     pending_close_reconciliation_import_reason (PDict d) = None"
proof -
  from assms obtain j where j: "matching_indices (matches_owner r (if ir_terminalize r then ''partial'' else ir_kind r)) q = [j]"
    and r: "replace_owner r ops q j = Inr (Replaced k d)"
    by (auto simp: find_import_target_def Let_def split: list.splits if_splits)
  from r have "j = k" by (auto simp: replace_owner_def Let_def split: if_splits option.splits)
  with j r matching_single [THEN iffD1, OF j] show ?thesis
    by (auto simp: replace_owner_def Let_def mark_imported_reason list_ex_iff split: if_splits option.splits)
qed

lemma find_import_target_Already:
  assumes "find_import_target r ops q = Inr (Already d)"
  shows "d \<in> set q \<and> already_imported r d \<and> ir_allow_idempotent r"
proof (cases "\<exists>k. matching_indices (matches_owner r (if ir_terminalize r then ''partial'' else ir_kind r)) q = [k]")
  case True
  then obtain k where k: "matching_indices (matches_owner r (if ir_terminalize r then ''partial'' else ir_kind r)) q = [k]" ..
  with matching_single [THEN iffD1, OF k] assms show ?thesis
    by (auto simp: find_import_target_def replace_owner_def Let_def split: if_splits option.splits)
next
  case False
  let ?xs = "filter (\<lambda>d. matches_owner r ''final'' d \<and> already_imported r d \<and>
        dget (operator_evidence d) ''terminalized_orphan_partial'' = PBool True) q"
  from assms False have "length ?xs = 1" and d: "d = hd ?xs" "ir_allow_idempotent r"
    by (auto simp: find_import_target_def Let_def split: list.splits if_splits)
  then have "d \<in> set ?xs" by (cases ?xs) auto
  with d show ?thesis by simp
qed


lemma imported_status: "already_imported r d \<Longrightarrow> has_status d ''operator_evidence_imported''"
  by (simp add: already_imported_def)

lemma request_reason_None:
  assumes "request_reason item ref digest ms allow = None"
  shows "kind_of item \<in> {''final'', ''partial''}" and "0 < ms' \<Longrightarrow> request_reason item ref digest ms' True = None"
  using assms unfolding request_reason_def Let_def first_some_None_iff
  by (simp_all only: list.set ball_simps insert_iff reason_if_simps) simp_all

lemma request_fields:
  assumes "check_import_request v ref sha ms allow = Inr r"
  shows "ir_imported_at_ms r = ms \<and> ir_allow_idempotent r = allow \<and> ir_digest r = py_lower (py_strip sha) \<and>
     ir_kind r \<in> {''final'', ''partial''}"
    and "0 < ms' \<Longrightarrow> check_import_request v ref sha ms' True = Inr (r\<lparr>ir_imported_at_ms := ms', ir_allow_idempotent := True\<rparr>)"
proof -
  from assms obtain item where v: "v = PDict item"
    and n: "request_reason item (py_strip ref) (py_lower (py_strip sha)) ms allow = None"
    by (auto simp: check_import_request_def Let_def split: option.splits)
  note ok = request_reason_None [OF n]
  from assms v n ok(1) show "ir_imported_at_ms r = ms \<and> ir_allow_idempotent r = allow \<and>
     ir_digest r = py_lower (py_strip sha) \<and> ir_kind r \<in> {''final'', ''partial''}"
    by (simp only: check_import_request_def as_dict.simps option.case Let_def sum.inject) auto
  assume "0 < ms'"
  with assms v n ok(2) [of ms'] show "check_import_request v ref sha ms' True =
      Inr (r\<lparr>ir_imported_at_ms := ms', ir_allow_idempotent := True\<rparr>)"
    by (simp only: check_import_request_def as_dict.simps option.case Let_def sum.inject) auto
qed

lemma queue_normal [simp]: "queue_ok q \<Longrightarrow> set_pending_close_reconciliations (as_raw q) = q"
  by (simp add: set_queue_normal queue_ok_def)

lemma import_result:
  assumes "queue_ok q" and "check_import_request item ref sha ms allow = Inr r"
  shows "import_pending_close_reconciliation_evidence item ref sha ms allow ops q =
     (case find_import_target r ops q of
        Inl e \<Rightarrow> (Inl e, q) | Inr (Already d) \<Rightarrow> (Inr d, q) | Inr (Replaced k d) \<Rightarrow> (Inr d, q[k := d]))"
  by (simp only: import_pending_close_reconciliation_evidence_def assms(2) sum.case Let_def queue_normal [OF assms(1)])

lemma import_outcome:
  assumes "queue_ok q" and "import_pending_close_reconciliation_evidence item ref sha ms allow ops q = (Inr d, q')"
  obtains r where "check_import_request item ref sha ms allow = Inr r" "find_import_target r ops q = Inr (Already d)" "q' = q"
  | r k where "check_import_request item ref sha ms allow = Inr r"
      "find_import_target r ops q = Inr (Replaced k d)" "q' = q[k := d]"
proof (cases "check_import_request item ref sha ms allow")
  case (Inl e)
  with assms(2) show ?thesis by (simp add: import_pending_close_reconciliation_evidence_def)
next
  case (Inr r)
  with assms(2) show ?thesis
    by (simp only: import_result [OF assms(1) Inr])
       (auto intro: that split: sum.splits import_outcome.splits)
qed

lemma import_error:
  assumes "queue_ok q" and "import_pending_close_reconciliation_evidence item ref sha ms allow ops q = (Inl e, q')"
  shows "q' = q"
proof (cases "check_import_request item ref sha ms allow")
  case (Inl e)
  with assms(2) show ?thesis by (simp add: import_pending_close_reconciliation_evidence_def)
next
  case (Inr r)
  with assms(2) show ?thesis
    by (simp only: import_result [OF assms(1) Inr]) (auto split: sum.splits import_outcome.splits)
qed

text \<open>The item that an import puts in place of its owner.\<close>

lemma replaced_item:
  assumes q: "queue_ok q" and f: "find_import_target r ops q = Inr (Replaced k d)"
    and kind: "ir_kind r \<in> {''final'', ''partial''}"
  shows "k < length q \<and> has_status (q ! k) ''evidence_debt'' \<and> has_status d ''operator_evidence_imported'' \<and>
     typed_item d \<and> pending_close_reconciliation_import_reason (PDict d) = None \<and>
     position_of d = position_of (q ! k) \<and>
     reconciliation_int (dget d ''closed_at_ms'') = reconciliation_int (dget (q ! k) ''closed_at_ms'') \<and>
     (kind_of d = kind_of (q ! k) \<or>
      kind_of (q ! k) = ''partial'' \<and> kind_of d = ''final'' \<and> \<not> position_still_open (position_of d) ops \<and>
      owner_key d \<notin> owner_key ` set q)"
proof -
  note t = find_import_target_Replaced [OF f]
  have m: "matches_owner r (if ir_terminalize r then ''partial'' else ir_kind r) (q ! k)"
    using t matching_single [of "matches_owner r (if ir_terminalize r then ''partial'' else ir_kind r)" q k] by blast
  have d: "d = mark_imported r (build_candidate r (q ! k))" using t by blast
  have ty: "typed_item d" using q t unfolding d by (intro imported_typed) (auto simp: queue_ok_def list_all_length)
  have key: "task_key d = (position_of (q ! k), if ir_terminalize r then ''final'' else kind_of (q ! k),
      reconciliation_int (dget (q ! k) ''closed_at_ms''))" unfolding d by (rule imported_task)
  show ?thesis
  proof (cases "ir_terminalize r")
    case True
    with t m key ty d show ?thesis
      by (simp add: task_key_def matches_owner_def owner_key_def image_iff) metis
  next
    case False
    with t m key ty d show ?thesis by (simp add: task_key_def)
  qed
qed

lemma complete_evidence:
  assumes "pending_close_reconciliation_import_reason (PDict d) = None" and "kind_of d \<in> {''final'', ''partial''}"
  shows "pending_close_reconciliation_missing_legs d = [] \<and>
     pending_close_reconciliation_owned_quantities d \<noteq> None"
proof -
  have r: "pending_close_reconciliation_evidence_debt_reason (PDict d) = None"
    using assms(1) by (simp add: pending_close_reconciliation_import_reason_def split: option.splits)
  have "kind_of d \<noteq> ''accepted_order_truth_gap''" using assms(2) by auto
  with r assms(2) have "pending_close_reconciliation_missing_legs d = []"
    unfolding pending_close_reconciliation_evidence_debt_reason_def as_dict.simps option.case Let_def
    by (simp only: if_False simp_thms split: if_splits) simp_all
  then show ?thesis
    by (auto simp: pending_close_reconciliation_missing_legs_def split: option.splits)
qed

lemma owned_nonneg:
  "pending_close_reconciliation_owned_quantities d = Some (l, s) \<Longrightarrow> 0 \<le> l \<and> 0 \<le> s"
  by (auto simp: pending_close_reconciliation_owned_quantities_def both_def derived_quantity_def nonneg_float_def Let_def
      split: option.splits if_splits)

lemma replaced_kind:
  assumes "find_import_target r ops q = Inr (Replaced k d)" and "ir_kind r \<in> {''final'', ''partial''}"
  shows "kind_of d \<in> {''final'', ''partial''}"
proof -
  note t = find_import_target_Replaced [OF assms(1)]
  then have "matches_owner r (if ir_terminalize r then ''partial'' else ir_kind r) (q ! k)"
    using matching_single [of "matches_owner r (if ir_terminalize r then ''partial'' else ir_kind r)" q k] by blast
  moreover have "kind_of d = (if ir_terminalize r then ''final'' else kind_of (q ! k))"
    using t imported_task [of r "q ! k"] by (simp add: task_key_def)
  ultimately show ?thesis using assms(2) by (simp add: matches_owner_def task_key_def split: if_splits)
qed

section \<open>The queue as a system\<close>

datatype queue_op =
    Enqueue obj
  | Remove obj
  | Import pyval string string int bool "(string, open_position) dict"

fun queue_step :: "obj list \<Rightarrow> queue_op \<Rightarrow> obj list" where
  "queue_step q (Enqueue item) = enqueue_pending_close_reconciliation item q"
| "queue_step q (Remove task) = snd (remove_pending_close_reconciliation task q)"
| "queue_step q (Import item ref sha ms allow ops) =
     snd (import_pending_close_reconciliation_evidence item ref sha ms allow ops q)"

fun op_typed :: "queue_op \<Rightarrow> bool" where
  "op_typed (Enqueue item) = typed_item item"
| "op_typed _ = True"

lemma filtered_shorter: "length (filter P xs) \<noteq> length xs \<longleftrightarrow> (\<exists>x\<in>set xs. \<not> P x)"
  using length_filter_less [of _ xs P] by (metis filter_True less_irrefl)

lemma remove_result:
  "queue_ok q \<Longrightarrow> remove_pending_close_reconciliation task q =
     (\<exists>item\<in>set q. task_key item = task_key task, filter (\<lambda>item. task_key item \<noteq> task_key task) q)"
  by (simp add: remove_pending_close_reconciliation_def Let_def filtered_shorter)

lemma remove_ok: "queue_ok q \<Longrightarrow> queue_ok (snd (remove_pending_close_reconciliation task q))"
  by (auto simp: remove_result queue_ok_def list_all_iff intro: distinct_map_filter
      order_trans [OF length_filter_le])

lemma import_ok:
  assumes q: "queue_ok q"
  shows "queue_ok (snd (import_pending_close_reconciliation_evidence item ref sha ms allow ops q))"
proof (cases "import_pending_close_reconciliation_evidence item ref sha ms allow ops q")
  case (Pair res q')
  show ?thesis
  proof (cases res)
    case (Inl e)
    with Pair q import_error show ?thesis by fastforce
  next
    case (Inr d)
    with Pair have "import_pending_close_reconciliation_evidence item ref sha ms allow ops q = (Inr d, q')" by simp
    from q this have "queue_ok q'"
    proof (rule import_outcome)
      fix r k assume r: "check_import_request item ref sha ms allow = Inr r"
        and t: "find_import_target r ops q = Inr (Replaced k d)" and q': "q' = q[k := d]"
      from request_fields(1) [OF r] have "ir_kind r \<in> {''final'', ''partial''}" by blast
      from replaced_item [OF q t this] show "queue_ok q'"
        unfolding q' by (intro queue_ok_update [OF q]) (auto simp: owner_key_def)
    qed (use q in simp)
    with Pair show ?thesis by simp
  qed
qed

interpretation queue: event_system queue_step queue_ok "\<lambda>_. op_typed"
proof unfold_locales
  fix q x assume "queue_ok q" and "op_typed x"
  then show "queue_ok (queue_step q x)"
    by (cases x) (auto intro: enqueue_ok remove_ok import_ok)
qed

lemma queue_ok_Nil [simp]: "queue_ok []"
  by (simp add: queue_ok_def)

text \<open>C9: Owners of accounting work are unique. From the empty queue, whatever sequence of
  enqueuing, removing and operator imports runs (items having textual ids and kinds), the queue
  never holds two items of one position and kind, and never more than 256 items.\<close>

theorem reconciliation_owners_unique:
  assumes "list_all op_typed xs"
  shows "distinct (map owner_key (foldl queue_step [] xs)) \<and>
     length (foldl queue_step [] xs) \<le> MAX_PENDING_CLOSE_RECONCILIATIONS"
  using queue.run_inv [of "[]" xs] assms by (simp add: queue_ok_def)

definition sample_task :: obj where
  "sample_task = [(''position_id'', PStr ''p1''), (''kind'', PStr ''final''), (''closed_at_ms'', PInt 5),
     (''reconciliation_status'', PStr ''evidence_debt''),
     (''automatic_history_terminal_status'', PStr ''irrecoverable_audit_debt'')]"

definition other_task :: obj where
  "other_task = [(''position_id'', PStr ''p1''), (''kind'', PStr ''final''), (''closed_at_ms'', PInt 5),
     (''long_legs'', PList [PDict [(''order_id'', PStr ''x'')]])]"

lemma sample_items [simp]:
  "typed_item sample_task" "typed_item other_task" "owner_key sample_task = (''p1'', ''final'')"
  "owner_key other_task = (''p1'', ''final'')" "is_terminal_automatic_history_evidence_debt sample_task"
  "\<not> is_terminal_automatic_history_evidence_debt other_task"
  "\<not> has_status other_task ''evidence_debt''"
  by (simp_all add: typed_item_def sample_task_def other_task_def text_field_def owner_key_def position_of_def
      kind_of_def is_terminal_automatic_history_evidence_debt_def has_status_def)

lemma reconciliation_owners_unique_witness:
  "distinct (map owner_key (foldl queue_step [] [Enqueue sample_task, Remove other_task, Enqueue other_task]))"
  using reconciliation_owners_unique [of "[Enqueue sample_task, Remove other_task, Enqueue other_task]"]
  by (simp del: foldl_Cons)

text \<open>A terminal accounting debt is not silently retried. Whatever non-terminal items are
  enqueued after it, an item whose automatic history ended without evidence stays in the queue
  unchanged, as long as the queue's bound leaves room for all of them.\<close>

theorem terminal_debt_survives:
  assumes "queue_ok q" and "d \<in> set q" and "is_terminal_automatic_history_evidence_debt d"
    and "\<forall>item\<in>set items. typed_item item \<and> \<not> is_terminal_automatic_history_evidence_debt item"
    and "length q + length items \<le> MAX_PENDING_CLOSE_RECONCILIATIONS"
  shows "d \<in> set (foldl (\<lambda>q item. enqueue_pending_close_reconciliation item q) q items)"
  using assms
proof (induction items arbitrary: q)
  case (Cons item items)
  then have "d \<in> set (enqueue_pending_close_reconciliation item q)"
    by (intro enqueue_keeps_terminal) simp_all
  with Cons.prems enqueue_length [OF Cons.prems(1), of item] show ?case
    by (auto intro!: Cons.IH enqueue_ok)
qed simp

lemma terminal_debt_survives_witness:
  "sample_task \<in> set (foldl (\<lambda>q item. enqueue_pending_close_reconciliation item q) [sample_task] [other_task])"
  by (rule terminal_debt_survives)
     (simp_all add: queue_ok_def MAX_PENDING_CLOSE_RECONCILIATIONS_def)


text \<open>Enqueuing never trades evidence for less. A second record of an owner leaves its place
  with the old or the new record, everything else untouched; the order identities known for the
  long and for the short leg do not become fewer, unless the new record is the one that declares
  the evidence missing (as evidence debt or as irrecoverable).\<close>

theorem enqueue_keeps_stronger_evidence:
  assumes "queue_ok q" and "e \<in> set q" and "owner_key e = owner_key item"
  shows "\<exists>k<length q. \<exists>e'. q ! k = e \<and> enqueue_pending_close_reconciliation item q = q[k := e'] \<and> e' \<in> {e, item} \<and>
     (group_coverage (dget e ''long_legs'') \<le> group_coverage (dget e' ''long_legs'') \<and>
      group_coverage (dget e ''short_legs'') \<le> group_coverage (dget e' ''short_legs'') \<or>
      has_status e' ''evidence_debt'' \<and> \<not> has_status e ''evidence_debt'' \<or>
      dget e' ''automatic_history_terminal_status'' = PStr ''irrecoverable_audit_debt'' \<and>
      dget e ''automatic_history_terminal_status'' \<noteq> PStr ''irrecoverable_audit_debt'')"
proof -
  from enqueue_owned [OF assms] obtain k where k: "k < length q" "q ! k = e"
    and r: "enqueue_pending_close_reconciliation item q =
     (if is_terminal_automatic_history_evidence_debt e \<and> \<not> is_terminal_automatic_history_evidence_debt item then q
      else if supersedes item e then q[k := item] else q)" by blast
  show ?thesis
  proof (cases "enqueue_pending_close_reconciliation item q = q")
    case True
    with k show ?thesis by (intro exI [of _ k] conjI exI [of _ e]) auto
  next
    case False
    with r have q': "enqueue_pending_close_reconciliation item q = q[k := item]" and "supersedes item e"
      by (auto split: if_splits)
    then have "identity_not_weaker item e \<or> has_status item ''evidence_debt'' \<and> \<not> has_status e ''evidence_debt'' \<or>
      dget item ''automatic_history_terminal_status'' = PStr ''irrecoverable_audit_debt'' \<and>
      dget e ''automatic_history_terminal_status'' \<noteq> PStr ''irrecoverable_audit_debt''"
      unfolding supersedes_def Let_def by blast
    with k q' show ?thesis
      by (intro exI [of _ k] conjI exI [of _ item])
         (auto simp: identity_not_weaker_def reconciliation_identity_coverage_def)
  qed
qed

lemma enqueue_keeps_stronger_evidence_witness:
  "\<exists>k<length [sample_task]. \<exists>e'. [sample_task] ! k = sample_task \<and>
     enqueue_pending_close_reconciliation other_task [sample_task] = [sample_task][k := e'] \<and> e' \<in> {sample_task, other_task} \<and>
     (group_coverage (dget sample_task ''long_legs'') \<le> group_coverage (dget e' ''long_legs'') \<and>
      group_coverage (dget sample_task ''short_legs'') \<le> group_coverage (dget e' ''short_legs'') \<or>
      has_status e' ''evidence_debt'' \<and> \<not> has_status sample_task ''evidence_debt'' \<or>
      dget e' ''automatic_history_terminal_status'' = PStr ''irrecoverable_audit_debt'' \<and>
      dget sample_task ''automatic_history_terminal_status'' \<noteq> PStr ''irrecoverable_audit_debt'')"
  by (rule enqueue_keeps_stronger_evidence)
     (simp_all add: queue_ok_def MAX_PENDING_CLOSE_RECONCILIATIONS_def)

text \<open>The evidence of one side: a list of legs that each have an order id or a client order id. The list
  is empty only where the item owns nothing on that side, as a partial closing does on the untouched leg.\<close>

definition identified_legs :: "pyval \<Rightarrow> real \<Rightarrow> bool" where
  "identified_legs g owned \<longleftrightarrow>
     (\<exists>legs. g = PList legs \<and> (legs = [] \<longrightarrow> owned \<le> 1 / 10 ^ 12) \<and>
        (\<forall>leg\<in>set legs. \<exists>l. leg = PDict l \<and> (truth (dget l ''order_id'') \<or> truth (dget l ''client_order_id''))))"

lemma leg_has_identityD:
  "leg_has_identity leg \<Longrightarrow> \<exists>l. leg = PDict l \<and> (truth (dget l ''order_id'') \<or> truth (dget l ''client_order_id''))"
  by (cases leg) (auto simp: leg_has_identity_def py_or_def split: if_splits)

lemma group_identified: "\<not> leg_group_missing g owned \<Longrightarrow> identified_legs g owned"
  by (cases g) (auto simp: leg_group_missing_def identified_legs_def list_all_iff dest: leg_has_identityD)

lemma no_missing_legs:
  assumes "pending_close_reconciliation_missing_legs d = []"
  shows "\<exists>l s. pending_close_reconciliation_owned_quantities d = Some (l, s) \<and> 0 \<le> l \<and> 0 \<le> s \<and>
    identified_legs (dget d ''long_legs'') l \<and> identified_legs (dget d ''short_legs'') s"
  using assms
  by (auto simp: pending_close_reconciliation_missing_legs_def owned_nonneg intro: group_identified
      split: option.splits if_splits)

text \<open>C24: An operator's import is guarded and touches one item. Take a queue as C9's operations leave it
  (textual ids and kinds, unique owners, at most 256 items). If the import raises, the queue is as it was.
  If it returns a record, that record was there already, or it replaces exactly one evidence debt
  of the same position and closing time. Then the quantities that the record owns are known and not
  negative; on each side its legs are a list in which every leg has an order id or a client order id,
  and which is empty only where the owned quantity is at most 1e-12; and its kind is the old one, or a
  partial closing became final with the position no longer open and no final record beside it.\<close>

theorem import_confined:
  assumes "queue_ok q"
    and "import_pending_close_reconciliation_evidence item ref sha ms allow ops q = (res, q')"
  shows "case res of Inl e \<Rightarrow> q' = q
     | Inr d \<Rightarrow> has_status d ''operator_evidence_imported'' \<and> (q' = q \<and> d \<in> set q \<or>
         (\<exists>k<length q. q' = q[k := d] \<and> has_status (q ! k) ''evidence_debt'' \<and>
            position_of d = position_of (q ! k) \<and>
            reconciliation_int (dget d ''closed_at_ms'') = reconciliation_int (dget (q ! k) ''closed_at_ms'') \<and>
            (\<exists>l s. pending_close_reconciliation_owned_quantities d = Some (l, s) \<and> 0 \<le> l \<and> 0 \<le> s \<and>
               identified_legs (dget d ''long_legs'') l \<and> identified_legs (dget d ''short_legs'') s) \<and>
            (kind_of d = kind_of (q ! k) \<or> kind_of (q ! k) = ''partial'' \<and> kind_of d = ''final'' \<and>
               \<not> position_still_open (position_of d) ops \<and> owner_key d \<notin> owner_key ` set q)))"
proof (cases res)
  case (Inl e)
  with import_error [OF assms(1)] assms(2) show ?thesis by auto
next
  case (Inr d)
  from assms(2) [unfolded Inr]
  have "has_status d ''operator_evidence_imported'' \<and> (q' = q \<and> d \<in> set q \<or>
     (\<exists>r k. find_import_target r ops q = Inr (Replaced k d) \<and> q' = q[k := d] \<and> ir_kind r \<in> {''final'', ''partial''}))"
    by (rule import_outcome [OF assms(1)])
       (use find_import_target_Already imported_status request_fields(1) replaced_item [OF assms(1)] in blast)+
  moreover have ?thesis if f: "find_import_target r ops q = Inr (Replaced k d)" and q': "q' = q[k := d]"
    and kind: "ir_kind r \<in> {''final'', ''partial''}" for r k
  proof -
    note i = replaced_item [OF assms(1) f kind]
    with complete_evidence [of d] replaced_kind [OF f kind]
    have "pending_close_reconciliation_missing_legs d = []" by auto
    with i q' Inr no_missing_legs [of d] show ?thesis by auto
  qed
  ultimately show ?thesis using Inr by auto
qed

definition sample_leg :: "string \<Rightarrow> string \<Rightarrow> pyval" where
  "sample_leg venue order_id = PDict [(''venue'', PStr venue), (''order_id'', PStr order_id), (''quantity'', PInt 2)]"

definition sample_debt :: obj where
  "sample_debt = [(''position_id'', PStr ''p1''), (''kind'', PStr ''final''), (''closed_at_ms'', PInt 5),
     (''reconciliation_status'', PStr ''evidence_debt''),
     (''position_snapshot'', PDict [(''position_id'', PStr ''p1''), (''symbol'', PStr ''BTCUSDT''),
        (''long_venue'', PStr ''okx''), (''short_venue'', PStr ''bybit''), (''long_quantity'', PInt 2),
        (''short_quantity'', PInt 2), (''long_entry_price'', PInt 10), (''short_entry_price'', PInt 10),
        (''total_entry_fee_quote'', PInt 0), (''captured_funding_quote'', PInt 0),
        (''entry_fee_evidence_complete'', PBool True)]),
     (''symbol'', PStr ''BTCUSDT'')]"

definition sample_import :: pyval where
  "sample_import = PDict [(''position_id'', PStr ''p1''), (''closed_at_ms'', PInt 5),
     (''long_legs'', PList [sample_leg ''okx'' ''a1'']), (''short_legs'', PList [sample_leg ''bybit'' ''b1''])]"

definition sample_sha :: string where
  "sample_sha = replicate 64 CHR ''a''"

lemma sample_debt_ok [simp]: "queue_ok [sample_debt]"
  by (simp add: queue_ok_def MAX_PENDING_CLOSE_RECONCILIATIONS_def typed_item_def sample_debt_def text_field_def)

lemma sample_import_succeeds:
  "\<exists>d q'. import_pending_close_reconciliation_evidence sample_import ''ref'' sample_sha 9 False [] [sample_debt] = (Inr d, q')"
proof -
  have "\<not> isl (fst (import_pending_close_reconciliation_evidence sample_import ''ref'' sample_sha 9 False [] [sample_debt]))"
    by code_simp
  then show ?thesis
    by (cases "import_pending_close_reconciliation_evidence sample_import ''ref'' sample_sha 9 False [] [sample_debt]")
       (auto simp: isl_def split: sum.splits, metis obj_sumE sum.disc(1))
qed

lemma matches_owner_again [simp]:
  "matches_owner (r\<lparr>ir_imported_at_ms := ms', ir_allow_idempotent := True\<rparr>) = matches_owner r"
  "already_imported (r\<lparr>ir_imported_at_ms := ms', ir_allow_idempotent := True\<rparr>) = already_imported r"
  by (simp_all add: fun_eq_iff matches_owner_def already_imported_def)

lemma already_again:
  assumes "find_import_target r ops q = Inr (Already d)"
  shows "find_import_target (r\<lparr>ir_imported_at_ms := ms', ir_allow_idempotent := True\<rparr>) ops' q = Inr (Already d)"
proof (cases "\<exists>k. matching_indices (matches_owner r (if ir_terminalize r then ''partial'' else ir_kind r)) q = [k]")
  case True
  then obtain k where "matching_indices (matches_owner r (if ir_terminalize r then ''partial'' else ir_kind r)) q = [k]" ..
  with assms show ?thesis
    by (auto simp: find_import_target_def replace_owner_def Let_def split: if_splits option.splits)
next
  case False
  with assms show ?thesis by (auto simp: find_import_target_def Let_def split: list.splits if_splits)
qed

lemma replaced_already:
  assumes "d = mark_imported r c" and "py_lower (ir_digest r) = ir_digest r"
  shows "already_imported r d"
  using assms(2) unfolding assms(1) already_imported_def operator_evidence_def mark_imported_evidence by simp

lemma filter_single:
  assumes "k < length xs" and "P d" and "\<forall>x\<in>set xs. \<not> P x"
  shows "filter P (xs[k := d]) = [d]"
proof -
  have "filter P (take k xs) = []" and "filter P (drop (Suc k) xs) = []"
    using assms(3) by (auto simp: filter_empty_conv dest: in_set_takeD in_set_dropD)
  with assms(1,2) show ?thesis by (simp add: upd_conv_take_nth_drop)
qed

lemma replaced_again:
  assumes q: "queue_ok q" and t: "find_import_target r ops q = Inr (Replaced k d)"
    and low: "py_lower (ir_digest r) = ir_digest r" and kind: "ir_kind r \<in> {''final'', ''partial''}"
  shows "find_import_target (r\<lparr>ir_imported_at_ms := ms', ir_allow_idempotent := True\<rparr>) ops' (q[k := d]) = Inr (Already d)"
proof -
  note f = find_import_target_Replaced [OF t]
  let ?kind = "if ir_terminalize r then ''partial'' else ir_kind r"
  from f have k: "k < length q" and d: "d = mark_imported r (build_candidate r (q ! k))"
    and m: "\<forall>j<length q. matches_owner r ?kind (q ! j) \<longleftrightarrow> j = k"
    using matching_single [of "matches_owner r ?kind" q k] by blast+
  note imp = replaced_already [OF d low]
  have key: "task_key d = (ir_position_id r, if ir_terminalize r then ''final'' else ir_kind r, ir_closed_at_ms r)"
    using m k imported_task [of r "q ! k"] unfolding d by (auto simp: matches_owner_def task_key_def)
  show ?thesis
  proof (cases "ir_terminalize r")
    case False
    with m k key have "matching_indices (matches_owner r ?kind) (q[k := d]) = [k]"
      unfolding matching_single by (auto simp: nth_list_update matches_owner_def)
    with imp k False show ?thesis by (simp add: find_import_target_def replace_owner_def)
  next
    case True
    with m k key have none: "matching_indices (matches_owner r ?kind) (q[k := d]) = []"
      by (auto simp: matching_indices_def filter_empty_conv nth_list_update matches_owner_def)
    have flag: "dget (operator_evidence d) ''terminalized_orphan_partial'' = PBool True"
      unfolding d operator_evidence_def mark_imported_evidence using True by simp
    have "filter (\<lambda>x. matches_owner r ''final'' x \<and> already_imported r x \<and>
        dget (operator_evidence x) ''terminalized_orphan_partial'' = PBool True) (q[k := d]) = [d]"
      using f True key imp flag by (intro filter_single [OF k]) (auto simp: matches_owner_def owner_key_def task_key_def)
    with none True show ?thesis by (simp add: find_import_target_def)
  qed
qed

text \<open>Importing is idempotent. Repeating a successful import with the same evidence, at any
  later time and whatever is open by then, returns the record of the first import and leaves the
  queue alone.\<close>

theorem import_idempotent:
  assumes q: "queue_ok q"
    and first: "import_pending_close_reconciliation_evidence item ref sha ms allow ops q = (Inr d, q')"
    and "0 < ms'"
  shows "import_pending_close_reconciliation_evidence item ref sha ms' True ops' q' = (Inr d, q')"
proof -
  have ok: "queue_ok q'" using import_ok [OF q, of item ref sha ms allow ops] first by simp
  have again: ?thesis if r: "check_import_request item ref sha ms allow = Inr r"
    and t: "find_import_target (r\<lparr>ir_imported_at_ms := ms', ir_allow_idempotent := True\<rparr>) ops' q' = Inr (Already d)" for r
    using import_result [OF ok request_fields(2) [OF r assms(3)]] t by simp
  from q first show ?thesis
  proof (rule import_outcome)
    fix r assume r: "check_import_request item ref sha ms allow = Inr r"
      and t: "find_import_target r ops q = Inr (Already d)" and "q' = q"
    with again [OF r] already_again [OF t] show ?thesis by simp
  next
    fix r k assume r: "check_import_request item ref sha ms allow = Inr r"
      and t: "find_import_target r ops q = Inr (Replaced k d)" and "q' = q[k := d]"
    with again [OF r] replaced_again [OF q t] request_fields(1) [OF r] show ?thesis by simp
  qed
qed


lemma import_idempotent_witness:
  "\<exists>d q'. import_pending_close_reconciliation_evidence sample_import ''ref'' sample_sha 77 True [] q' = (Inr d, q')"
proof -
  from sample_import_succeeds obtain d q' where
    "import_pending_close_reconciliation_evidence sample_import ''ref'' sample_sha 9 False [] [sample_debt] = (Inr d, q')"
    by blast
  from import_idempotent [OF sample_debt_ok this, of 77 "[]"] show ?thesis by auto
qed

lemma import_confined_witness:
  "\<exists>d q'. import_pending_close_reconciliation_evidence sample_import ''ref'' sample_sha 9 False [] [sample_debt] = (Inr d, q') \<and>
     has_status d ''operator_evidence_imported''"
proof -
  from sample_import_succeeds obtain d q' where
    i: "import_pending_close_reconciliation_evidence sample_import ''ref'' sample_sha 9 False [] [sample_debt] = (Inr d, q')"
    by blast
  from import_confined [OF sample_debt_ok i] have "has_status d ''operator_evidence_imported''" by simp
  with i show ?thesis by blast
qed

lemma count_in_sum [simp]: "sum_list (map snd (count_in k d)) = sum_list (map snd d) + 1"
  by (induction d) (auto simp: count_in_def split: if_splits)

lemma summarize_item_fields:
  "sm_total_count (summarize_item (PDict d) s) = sm_total_count s"
  "sm_unknown_status_count (summarize_item (PDict d) s) = sm_unknown_status_count s"
  "sm_evidence_debt_count (summarize_item (PDict d) s) =
     sm_evidence_debt_count s + (if has_status d ''evidence_debt'' then 1 else 0)"
  "sm_backed_off_count (summarize_item (PDict d) s) \<le> sm_backed_off_count s + 1"
  "sum_list (map snd (sm_by_kind (summarize_item (PDict d) s))) = sum_list (map snd (sm_by_kind s)) + 1"
  "sum_list (map snd (sm_evidence_debt_by_reason (summarize_item (PDict d) s))) =
     sum_list (map snd (sm_evidence_debt_by_reason s)) + (if has_status d ''evidence_debt'' then 1 else 0)"
  by (simp_all add: summarize_item_def Let_def)

text \<open>The summary counts every item once. The kinds add up to the items, no item is of unknown
  status after normalisation, and the evidence debts add up over their reasons.\<close>

theorem summary_accounts_for_items:
  fixes raw :: pyval
  defines "s \<equiv> pending_close_reconciliation_summary raw" and "q \<equiv> normalize_pending_close_reconciliations raw"
  shows "sm_total_count s = length q \<and> sum_list (map snd (sm_by_kind s)) = length q \<and>
     sm_unknown_status_count s = 0 \<and> sm_backed_off_count s \<le> length q \<and>
     sm_evidence_debt_count s = length (filter (\<lambda>d. has_status d ''evidence_debt'') q) \<and>
     sum_list (map snd (sm_evidence_debt_by_reason s)) = sm_evidence_debt_count s"
proof -
  have "sm_total_count (fold summarize_item (map PDict q) s0) = sm_total_count s0 \<and>
     sum_list (map snd (sm_by_kind (fold summarize_item (map PDict q) s0))) = sum_list (map snd (sm_by_kind s0)) + length q \<and>
     sm_unknown_status_count (fold summarize_item (map PDict q) s0) = sm_unknown_status_count s0 \<and>
     sm_backed_off_count (fold summarize_item (map PDict q) s0) \<le> sm_backed_off_count s0 + length q \<and>
     sm_evidence_debt_count (fold summarize_item (map PDict q) s0) =
       sm_evidence_debt_count s0 + length (filter (\<lambda>d. has_status d ''evidence_debt'') q) \<and>
     sum_list (map snd (sm_evidence_debt_by_reason (fold summarize_item (map PDict q) s0))) + sm_evidence_debt_count s0 =
       sum_list (map snd (sm_evidence_debt_by_reason s0)) + sm_evidence_debt_count (fold summarize_item (map PDict q) s0)" for s0
  proof (induction q arbitrary: s0)
    case (Cons d q)
    show ?case unfolding list.map fold_Cons comp_def
      using Cons.IH [of "summarize_item (PDict d) s0"] summarize_item_fields(4) [of d s0]
      by (simp add: summarize_item_fields(1-3,5-6))
  qed simp
  from this [of "\<lparr>sm_total_count = length q, sm_by_kind = [], sm_backed_off_count = 0,
       sm_unknown_status_count = 0, sm_evidence_debt_count = 0, sm_evidence_debt_by_reason = []\<rparr>"]
  show ?thesis
    by (simp add: s_def q_def pending_close_reconciliation_summary_def build_reconciliation_summary_def)
qed

end
