(* ===== verification/Owner_Index.thy ===== *)
theory Owner_Index
  imports Py_Value Pending_Entry "HOL-Library.List_Lexorder" "HOL-Library.Char_ord"
begin

text \<open>
  Who owns what the exchange shows (\<open>engine/recovery_owner_index.py\<close>). From the local state (open
  positions, pending entries, residual repairs) and the journal, the index records which order
  ids and which quantities of which (venue, symbol, direction) are claimed by which local owner;
  it then attributes the orders and positions that the exchange reports, or calls them orphans.
  The reading of venue symbols (\<open>venues/specs.py\<close>) is here as well.

  The lemmas show that a position is attributed only if its quantity equals the sum of the claims
  on it, that whatever cannot be read (a missing, negative, infinite or non-numeric quantity, two
  rows of one contract) is an orphan, and that every owner the index names comes from an entry of
  the state.
\<close>

section \<open>Canonical symbols\<close>

definition venue_from_str :: "string \<Rightarrow> venue option" where
  "venue_from_str s =
     (let v = py_lower (py_strip s); v = (if v \<in> {''gateio'', ''gate_io''} then ''gate'' else v)
      in if v = ''binance'' then Some BINANCE else if v = ''okx'' then Some OKX
         else if v = ''bybit'' then Some BYBIT else if v = ''bitget'' then Some BITGET
         else if v = ''gate'' then Some GATE else if v = ''aster'' then Some ASTER
         else if v = ''hyperliquid'' then Some HYPERLIQUID else None)"

fun symbol_from_venue :: "venue \<Rightarrow> string \<Rightarrow> string" where
  "symbol_from_venue OKX s = py_replace ''-SWAP'' [] (py_replace ''-USDT-SWAP'' ''USDT'' s)"
| "symbol_from_venue GATE s = py_replace ''_'' [] (py_replace ''_USDT'' ''USDT'' s)"
| "symbol_from_venue HYPERLIQUID s = (if py_contains ''USDT'' (py_upper s) then s else s @ ''USDT'')"
| "symbol_from_venue _ s = s"

definition canonical_symbol_from_venue :: "string \<Rightarrow> string \<Rightarrow> string" where
  "canonical_symbol_from_venue venue symbol =
     (let raw = py_upper symbol
      in if raw = [] then []
         else case venue_from_str venue of
                None \<Rightarrow> raw
              | Some v \<Rightarrow> let c = symbol_from_venue v raw in py_upper (if c = [] then raw else c))"

definition py_symbol :: "pyval \<Rightarrow> string" where
  "py_symbol v = py_upper (text_of (py_get v ''symbol'' (PStr [])))"

definition py_venue :: "pyval \<Rightarrow> string" where
  "py_venue v = lower_text (py_get v ''venue'' (PStr []))"

text \<open>\<open>canonical_symbol_from_venue(venue or _venue(obj), _symbol(obj))\<close>.\<close>

definition symbol_for_venue :: "pyval \<Rightarrow> string \<Rightarrow> string" where
  "symbol_for_venue v venue = canonical_symbol_from_venue (if venue \<noteq> [] then venue else py_venue v) (py_symbol v)"

definition normalized_side :: "pyval \<Rightarrow> string" where
  "normalized_side v =
     (let t = lower_text v
      in if t \<in> {''buy'', ''long'', ''side.buy''} then ''long''
         else if t \<in> {''sell'', ''short'', ''side.sell''} then ''short''
         else if py_endswith t ''.buy'' then ''long''
         else if py_endswith t ''.sell'' then ''short'' else t)"

section \<open>Owners and the index\<close>

text \<open>The evidence of an owner: a field that the code does not put there is None.\<close>

record owner_evidence =
  oe_source :: string
  oe_kind :: "string option"
  oe_symbol :: "string option"
  oe_position_scope :: "string option"
  oe_balanced_pair :: "bool option"
  oe_reason :: "string option"
  oe_expected_quantity :: "pyfloat option"
  oe_observed_quantity :: "pyfloat option"
  oe_expected_side :: "string option"
  oe_expected_venue :: "string option"
  oe_owner_ids :: "string list option"

definition evidence_from :: "string \<Rightarrow> owner_evidence" where
  "evidence_from source = \<lparr>oe_source = source, oe_kind = None, oe_symbol = None, oe_position_scope = None,
     oe_balanced_pair = None, oe_reason = None, oe_expected_quantity = None, oe_observed_quantity = None,
     oe_expected_side = None, oe_expected_venue = None, oe_owner_ids = None\<rparr>"

record recovery_owner =
  ro_type :: string
  ro_id :: string
  ro_confidence :: string
  ro_evidence :: owner_evidence

record exchange_artifact =
  ea_kind :: string
  ea_symbol :: string
  ea_venue :: string
  ea_side :: string
  ea_quantity :: pyfloat
  ea_reason :: string
  ea_expected_quantity :: pyfloat
  ea_owner_ids :: "string list"

type_synonym position_key = "string \<times> string \<times> string"

record owner_index =
  oi_orders_by_id :: "(string, recovery_owner) dict"
  oi_orders_by_client_id :: "(string, recovery_owner) dict"
  oi_positions_by_key :: "(position_key, (pyfloat \<times> recovery_owner) list) dict"
  oi_position_scopes :: "(string \<times> string) list"
  oi_journal_position_facts :: "(string \<times> string \<times> string \<times> pyfloat \<times> recovery_owner) list"

definition empty_index :: owner_index where
  "empty_index = \<lparr>oi_orders_by_id = [], oi_orders_by_client_id = [], oi_positions_by_key = [],
     oi_position_scopes = [], oi_journal_position_facts = []\<rparr>"

definition owner_identity :: "recovery_owner \<Rightarrow> string \<times> string" where
  "owner_identity o' = (ro_type o', ro_id o')"

definition add_claim :: "recovery_owner \<Rightarrow> pyfloat \<Rightarrow> (pyfloat \<times> recovery_owner) list \<Rightarrow> (pyfloat \<times> recovery_owner) list" where
  "add_claim owner quantity claims =
     (case find (\<lambda>(q, o'). owner_identity o' = owner_identity owner) claims of
        None \<Rightarrow> claims @ [(quantity, owner)]
      | Some (old, _) \<Rightarrow> if float_eq old quantity then claims else claims @ [(NaN, owner)])"

definition claims_for :: "owner_index \<Rightarrow> position_key \<Rightarrow> (pyfloat \<times> recovery_owner) list" where
  "claims_for ix key = (case dict_get (oi_positions_by_key ix) key of None \<Rightarrow> [] | Some cs \<Rightarrow> cs)"

definition index_position :: "recovery_owner \<Rightarrow> string \<Rightarrow> string \<Rightarrow> string \<Rightarrow> pyfloat \<Rightarrow> owner_index \<Rightarrow> owner_index" where
  "index_position owner venue symbol side quantity ix =
     (if symbol = [] then ix
      else ix\<lparr>oi_position_scopes := List.insert (venue, symbol) (oi_position_scopes ix),
              oi_positions_by_key := dict_put (venue, symbol, side)
                (add_claim owner quantity (claims_for ix (venue, symbol, side))) (oi_positions_by_key ix)\<rparr>)"

definition index_order_ids :: "recovery_owner \<Rightarrow> string list \<Rightarrow> string list \<Rightarrow> owner_index \<Rightarrow> owner_index" where
  "index_order_ids owner order_ids client_order_ids ix =
     (let put = \<lambda>ids m. fold (\<lambda>k m. if k \<noteq> [] then dict_put k owner m else m) ids m
      in ix\<lparr>oi_orders_by_id := put order_ids (oi_orders_by_id ix),
            oi_orders_by_client_id := put client_order_ids (oi_orders_by_client_id ix)\<rparr>)"

section \<open>The local state\<close>

definition field_text :: "pyval \<Rightarrow> string \<Rightarrow> string" where
  "field_text v k = text_of (py_get v k (PStr []))"

definition field_venue :: "pyval \<Rightarrow> string \<Rightarrow> string" where
  "field_venue v k = lower_text (py_get v k (PStr []))"

definition field_float :: "pyval \<Rightarrow> string \<Rightarrow> pyfloat" where
  "field_float v k = float_or_nan (py_get v k PNone)"

definition pending_maker_leg :: "pyval \<Rightarrow> string" where
  "pending_maker_leg pending =
     (let leg = field_venue pending ''maker_leg''
      in if leg \<in> {''long'', ''short''} then leg
         else let side = field_venue pending ''maker_side''
              in if side \<in> {''buy'', ''long''} then ''long''
                 else if side \<in> {''sell'', ''short''} then ''short'' else leg)"

definition index_pending_entry_position_keys :: "recovery_owner \<Rightarrow> pyval \<Rightarrow> owner_index \<Rightarrow> owner_index" where
  "index_pending_entry_position_keys owner pending ix =
     (let maker_fill = field_float pending ''maker_leg_filled'';
          hedge_fill = field_float pending ''hedge_leg_filled'';
          maker_leg = pending_maker_leg pending;
          long_venue = field_venue pending ''long_venue''; short_venue = field_venue pending ''short_venue'';
          long_symbol = symbol_for_venue pending long_venue; short_symbol = symbol_for_venue pending short_venue
      in if maker_fill = Fin 0 \<and> hedge_fill = Fin 0 then ix
         else if maker_leg \<notin> {''long'', ''short''}
         then index_position owner short_venue short_symbol [] NaN (index_position owner long_venue long_symbol [] NaN ix)
         else
           let (long_fill, short_fill) =
                 (if maker_leg = ''short'' then (hedge_fill, maker_fill) else (maker_fill, hedge_fill));
               o' = owner\<lparr>ro_evidence := (ro_evidence owner)\<lparr>oe_position_scope := Some ''positive_fill_pending_entry''\<rparr>\<rparr>;
               ix = (if long_fill \<noteq> Fin 0 then index_position o' long_venue long_symbol ''long'' long_fill ix else ix)
           in if short_fill \<noteq> Fin 0 then index_position o' short_venue short_symbol ''short'' short_fill ix else ix)"

definition pending_owner :: "pyval \<Rightarrow> recovery_owner" where
  "pending_owner pending =
     \<lparr>ro_type = ''pending_entry'',
      ro_id = text_of (py_get pending ''pending_id'' (py_get pending ''position_id'' (PStr []))),
      ro_confidence = ''proven'', ro_evidence = evidence_from ''local_pending_entry''\<rparr>"

definition add_pending :: "string list \<Rightarrow> pyval \<Rightarrow> owner_index \<Rightarrow> owner_index" where
  "add_pending open_ids pending ix =
     (let owner = pending_owner pending;
          ix = index_order_ids owner [field_text pending ''maker_order_id'', field_text pending ''hedge_order_id'']
                 [field_text pending ''maker_client_order_id'', field_text pending ''hedge_client_order_id''] ix
      in if ro_id owner = [] \<or> ro_id owner \<notin> set open_ids
         then index_pending_entry_position_keys owner pending ix else ix)"

definition pair_tolerance :: real where
  "pair_tolerance = 1 / 1000000"

fun balanced_pair :: "pyfloat \<Rightarrow> pyfloat \<Rightarrow> bool" where
  "balanced_pair (Fin l) (Fin s) = (min l s > 0 \<and> \<bar>l - s\<bar> \<le> pair_tolerance)"
| "balanced_pair _ _ = False"

definition open_owner :: "string list \<Rightarrow> pyval \<Rightarrow> recovery_owner" where
  "open_owner managed_open_ids position =
     (let position_id = text_of (py_get position ''position_id'' (py_get position ''symbol'' (PStr [])));
          balanced = balanced_pair (field_float position ''long_quantity'') (field_float position ''short_quantity'')
      in \<lparr>ro_type = ''open_position'', ro_id = position_id,
          ro_confidence = (if balanced \<or> position_id \<in> set managed_open_ids then ''proven'' else ''orphan''),
          ro_evidence = (evidence_from ''local_open_position'')\<lparr>oe_balanced_pair := Some balanced\<rparr>\<rparr>)"

definition add_open_position :: "string list \<Rightarrow> pyval \<Rightarrow> owner_index \<Rightarrow> owner_index" where
  "add_open_position managed_open_ids position ix =
     (let owner = open_owner managed_open_ids position;
          leg = (\<lambda>name. let venue = field_venue position (name @ ''_venue'')
                 in index_position owner venue (symbol_for_venue position venue) name
                      (field_float position (name @ ''_quantity'')))
      in leg ''short'' (leg ''long'' ix))"

definition residual_owner :: "pyval \<Rightarrow> recovery_owner" where
  "residual_owner residual =
     (let repair_id = text_of (py_get residual ''repair_id'' (py_get residual ''task_id'' (PStr [])));
          position_id = field_text residual ''position_id''
      in \<lparr>ro_type = ''residual_repair'',
          ro_id = (if repair_id \<noteq> [] then repair_id else if position_id \<noteq> [] then position_id else py_symbol residual),
          ro_confidence = ''probable'', ro_evidence = evidence_from ''local_residual_repair''\<rparr>)"

definition opposite_leg :: "string \<Rightarrow> string" where
  "opposite_leg s = (if s = ''long'' then ''short'' else if s = ''short'' then ''long'' else [])"

definition add_residual :: "string list \<Rightarrow> string list \<Rightarrow> pyval \<Rightarrow> owner_index \<Rightarrow> owner_index" where
  "add_residual open_ids pending_ids residual ix =
     (let position_id = field_text residual ''position_id'';
          origin = field_venue residual ''origin'';
          venue = lower_text (py_or (py_get residual ''repair_venue'' PNone)
                    (py_or (py_get residual ''exposure_venue'' PNone) (py_get residual ''venue'' (PStr []))));
          close_side = normalized_side (py_or (py_get residual ''repair_side'' PNone)
                         (py_get residual ''exposure_side'' (PStr [])));
          quantity = float_or_nan (py_get residual ''repair_quantity'' (py_get residual ''exposure_quantity'' PNone))
      in if position_id \<noteq> [] \<and>
            (position_id \<in> set pending_ids \<and> position_id \<notin> set open_ids \<or>
             position_id \<in> set open_ids \<and> origin \<noteq> ''entry_open'')
         then ix
         else index_position (residual_owner residual) venue (symbol_for_venue residual venue)
                (opposite_leg close_side) quantity ix)"

definition collection :: "pyval \<Rightarrow> string \<Rightarrow> pyval list" where
  "collection state key = as_items (py_get state key (PList []))"

definition from_state :: "pyval \<Rightarrow> owner_index" where
  "from_state state =
     (let opens = collection state ''open_positions'';
          open_ids = map (\<lambda>p. field_text p ''position_id'') opens;
          pendings = collection state ''pending_entries'';
          pending_ids = map (\<lambda>p. field_text p ''pending_id'') pendings;
          managed_open_ids = filter (\<lambda>s. s \<noteq> []) (pending_ids @
            map (\<lambda>t. field_text t ''position_id'')
              (collection state ''pending_residual_repairs'' @ collection state ''pending_passive_closes''))
      in fold (add_residual open_ids pending_ids) (collection state ''pending_residual_repairs'')
           (fold (add_open_position managed_open_ids) opens
             (fold (add_pending open_ids) pendings empty_index)))"

section \<open>The journal\<close>

definition event_kind :: "pyval \<Rightarrow> string" where
  "event_kind e = py_lower (text_of (py_get e ''kind'' (PStr [])))"

definition event_payload :: "pyval \<Rightarrow> obj option" where
  "event_payload e = (case py_get e ''payload'' (PDict []) of PDict d \<Rightarrow> Some d | _ \<Rightarrow> None)"

definition unique_first :: "'a list \<Rightarrow> 'a list" where
  "unique_first xs = rev (remdups (rev xs))"

definition journal_order_identifier_sets :: "obj \<Rightarrow> string list \<times> string list" where
  "journal_order_identifier_sets p =
     (let texts = (\<lambda>ks. unique_first (filter (\<lambda>t. t \<noteq> []) (map (\<lambda>k. text_of (dget p k)) ks)))
      in (texts [''order_id'', ''maker_order_id'', ''hedge_order_id'', ''exchange_order_id''],
          texts [''client_order_id'', ''maker_client_order_id'', ''hedge_client_order_id'', ''clientOrderId'']))"

definition journal_owner_key :: "obj \<Rightarrow> string" where
  "journal_owner_key p =
     text_of (foldr (\<lambda>k v. py_or (dget p k) v)
       [''entry_id'', ''pending_id'', ''position_id'', ''source_entry_id''] (dget p ''internal_entry_id''))"

definition journal_owner_identifiers :: "obj \<Rightarrow> string list" where
  "journal_owner_identifiers p = filter (\<lambda>t. t \<noteq> []) (map (\<lambda>k. text_of (dget p k))
     [''entry_id'', ''pending_id'', ''position_id'', ''owner_id'', ''source_entry_id'', ''internal_entry_id''])"

definition claimed_leg :: "obj \<Rightarrow> string \<Rightarrow> string \<Rightarrow> (string \<times> string \<times> string \<times> pyfloat) list" where
  "claimed_leg p symbol leg =
     (let venue = lower_text (dget p (leg @ ''_venue'')); quantity = float_or_nan (dget p (leg @ ''_quantity''));
          side = normalized_side (dget p (leg @ ''_side''))
      in if venue \<noteq> [] \<and> float_above 0 quantity \<and> side \<noteq> []
         then [(venue, canonical_symbol_from_venue venue symbol, side, quantity)] else [])"

definition journal_position_specs :: "pyval \<Rightarrow> obj \<Rightarrow> (string \<times> string \<times> string \<times> pyfloat) list" where
  "journal_position_specs event p =
     (let symbol = py_upper (text_of (dget p ''symbol''))
      in if event_kind event \<noteq> ''runtime.entry_owner_claimed'' \<or> symbol = [] then []
         else claimed_leg p symbol ''long'' @ claimed_leg p symbol ''short'')"

definition journal_live_position_probe_evidence :: "pyval \<Rightarrow> obj \<Rightarrow> bool" where
  "journal_live_position_probe_evidence event p =
     (let kind = event_kind event; outcome = py_lower (text_of (dget p ''outcome''))
      in if kind = ''pending_entry.terminalizer_decision'' \<and> outcome \<noteq> ''positive_fill_live_truth_conflict'' then False
         else if kind \<notin> {''pending_entry.positive_fill_live_truth_conflict'', ''pending_entry.terminalizer_decision''}
         then False
         else float_above 0 (float_or_nan (dget p ''live_long_quantity'')) \<or>
              float_above 0 (float_or_nan (dget p ''live_short_quantity'')))"

text \<open>Claims that a later, journaled successor has taken over: the state of the scan is the set of
  completed claims, and the pending entries and positions registered so far.\<close>

definition handoff_step :: "pyval \<Rightarrow> string list \<times> string list \<times> string list \<Rightarrow> string list \<times> string list \<times> string list" where
  "handoff_step event = (\<lambda>(completed, prior_pending, prior_open).
     case event_payload event of None \<Rightarrow> (completed, prior_pending, prior_open)
     | Some p \<Rightarrow>
         let kind = event_kind event; key = journal_owner_key p;
             destination = py_lower (text_of (dget p ''owner_destination''))
         in if kind = ''entry.pending_registered'' \<and> key \<noteq> [] then (completed, key # prior_pending, prior_open)
            else if kind = ''entry.opened'' \<and> key \<noteq> [] then (completed, prior_pending, key # prior_open)
            else if kind \<noteq> ''runtime.entry_owner_handoff_complete'' \<or> key = []
            then (completed, prior_pending, prior_open)
            else if destination = ''pending_entry''
            then (if key \<in> set prior_pending then key # completed else completed, prior_pending, prior_open)
            else if destination = ''open_position''
            then (if key \<in> set prior_open then key # completed else completed, prior_pending, prior_open)
            else (key # completed, prior_pending, prior_open))"

definition durably_handed_off_claims :: "pyval list \<Rightarrow> string list" where
  "durably_handed_off_claims events = fst (fold handoff_step events ([], [], []))"

definition terminal_pending_owner_ids :: "pyval list \<Rightarrow> string list" where
  "terminal_pending_owner_ids events =
     concat (map (\<lambda>e. if event_kind e = ''pending_entry.removed_by_v1_lifecycle_closure''
                      then (case event_payload e of None \<Rightarrow> [] | Some p \<Rightarrow> journal_owner_identifiers p) else []) events)"

definition active_journal_owner_event :: "pyval list \<Rightarrow> pyval \<Rightarrow> bool" where
  "active_journal_owner_event events event =
     (case event_payload event of None \<Rightarrow> False
      | Some p \<Rightarrow>
          let kind = event_kind event; (order_ids, client_order_ids) = journal_order_identifier_sets p
          in \<not> (kind \<noteq> ''entry.opened'' \<and>
                 list_ex (\<lambda>t. t \<in> set (terminal_pending_owner_ids events)) (journal_owner_identifiers p)) \<and>
             kind \<noteq> ''runtime.entry_owner_handoff_incomplete'' \<and>
             \<not> (kind = ''runtime.entry_owner_claimed'' \<and>
                 journal_owner_key p \<in> set (durably_handed_off_claims events)) \<and>
             (order_ids \<noteq> [] \<or> client_order_ids \<noteq> [] \<or> journal_position_specs event p \<noteq> [] \<or>
              journal_live_position_probe_evidence event p))"

definition active_journal_owner_events :: "pyval list \<Rightarrow> pyval list" where
  "active_journal_owner_events events = filter (active_journal_owner_event events) events"

definition journal_owner :: "pyval \<Rightarrow> obj \<Rightarrow> recovery_owner" where
  "journal_owner event p =
     (let symbol = py_upper (text_of (dget p ''symbol'')); key = journal_owner_key p
      in \<lparr>ro_type = (if event_kind event = ''runtime.entry_owner_claimed'' then ''journal_entry_submission''
                      else ''journal_pending_entry''),
          ro_id = (if key \<noteq> [] then key else symbol), ro_confidence = ''probable'',
          ro_evidence = (evidence_from ''journal'')\<lparr>oe_kind := Some (text_of (py_get event ''kind'' (PStr []))),
            oe_symbol := Some symbol\<rparr>\<rparr>)"

definition index_journal_position_facts :: "pyval \<Rightarrow> obj \<Rightarrow> recovery_owner \<Rightarrow> owner_index \<Rightarrow> owner_index" where
  "index_journal_position_facts event p owner ix =
     ix\<lparr>oi_journal_position_facts := oi_journal_position_facts ix @
        map (\<lambda>(venue, symbol, side, quantity). (venue, symbol, side, quantity,
            owner\<lparr>ro_evidence := (ro_evidence owner)\<lparr>
              oe_position_scope := Some (if event_kind event = ''runtime.entry_owner_claimed''
                then ''journal_entry_submission'' else ''journal_positive_fill_live_conflict''),
              oe_expected_side := Some side, oe_expected_quantity := Some quantity,
              oe_expected_venue := Some venue\<rparr>\<rparr>)) (journal_position_specs event p)\<rparr>"

definition add_journal_event :: "pyval \<Rightarrow> owner_index \<Rightarrow> owner_index" where
  "add_journal_event event ix =
     (case event_payload event of None \<Rightarrow> ix
      | Some p \<Rightarrow>
          let (order_ids, client_order_ids) = journal_order_identifier_sets p; owner = journal_owner event p
          in if order_ids = [] \<and> client_order_ids = [] \<and> journal_position_specs event p = [] then ix
             else index_journal_position_facts event p owner (index_order_ids owner order_ids client_order_ids ix))"

definition from_state_and_journal :: "pyval \<Rightarrow> pyval list \<Rightarrow> owner_index" where
  "from_state_and_journal state events = fold add_journal_event (active_journal_owner_events events) (from_state state)"

section \<open>Attribution\<close>

definition owner_for_order :: "owner_index \<Rightarrow> pyval \<Rightarrow> recovery_owner" where
  "owner_for_order ix artifact =
     (let order_id = field_text artifact ''order_id''; client_order_id = field_text artifact ''client_order_id'';
          orphan = \<lparr>ro_type = ''exchange_order'', ro_id = (if order_id \<noteq> [] then order_id else client_order_id),
                    ro_confidence = ''orphan'', ro_evidence = evidence_from ''exchange_truth''\<rparr>
      in case (if order_id \<noteq> [] then dict_get (oi_orders_by_id ix) order_id else None) of
           Some o' \<Rightarrow> o'
         | None \<Rightarrow>
             (case (if client_order_id \<noteq> [] then dict_get (oi_orders_by_client_id ix) client_order_id else None) of
                Some o' \<Rightarrow> o' | None \<Rightarrow> orphan))"

definition has_position_claim :: "owner_index \<Rightarrow> pyval \<Rightarrow> bool" where
  "has_position_claim ix a \<longleftrightarrow>
     (py_venue a, symbol_for_venue a []) \<in> set (oi_position_scopes ix) \<or>
     ([], symbol_for_venue a []) \<in> set (oi_position_scopes ix)"

definition fact_matches :: "pyval \<Rightarrow> string \<times> string \<times> string \<times> pyfloat \<times> recovery_owner \<Rightarrow> bool" where
  "fact_matches a = (\<lambda>(venue, symbol, side, quantity, owner).
     venue = py_venue a \<and> symbol = symbol_for_venue a [] \<and> side = normalized_side (py_get a ''side'' (PStr [])) \<and>
     (case (quantity, float_or_nan (py_get a ''quantity'' (PInt 0))) of
        (Fin q, Fin observed) \<Rightarrow> q > 0 \<and> \<bar>q - observed\<bar> \<le> q / 100 | _ \<Rightarrow> False))"

definition owner_for_journal_position_fact :: "owner_index \<Rightarrow> pyval \<Rightarrow> recovery_owner option" where
  "owner_for_journal_position_fact ix a =
     (let quantity = float_or_nan (py_get a ''quantity'' (PInt 0))
      in if symbol_for_venue a [] = [] \<or> normalized_side (py_get a ''side'' (PStr [])) = [] \<or>
            \<not> py_isfinite quantity \<or> \<not> float_above 0 quantity \<or> py_venue a = [] then None
         else map_option (\<lambda>(_, _, _, _, owner). owner) (find (fact_matches a) (rev (oi_journal_position_facts ix))))"

definition position_key :: "pyval \<Rightarrow> position_key" where
  "position_key a = (py_venue a, symbol_for_venue a [], normalized_side (py_get a ''side'' (PStr [])))"

definition ambiguous_scope :: "owner_index \<Rightarrow> pyval \<Rightarrow> bool" where
  "ambiguous_scope ix a =
     list_ex (\<lambda>((venue, symbol, side), _). symbol = symbol_for_venue a [] \<and>
        (venue = [] \<or> venue = py_venue a \<and> side = [])) (oi_positions_by_key ix)"

definition owner_rank :: "recovery_owner \<Rightarrow> nat" where
  "owner_rank o' = (if ro_type o' = ''pending_entry'' then 0 else if ro_type o' = ''residual_repair'' then 1
     else if ro_type o' = ''open_position'' then 2 else 3)"

definition owner_before :: "recovery_owner \<Rightarrow> recovery_owner \<Rightarrow> bool" where
  "owner_before a b \<longleftrightarrow> owner_rank a < owner_rank b \<or> owner_rank a = owner_rank b \<and> ro_id a < ro_id b"

definition first_owner :: "recovery_owner \<Rightarrow> recovery_owner list \<Rightarrow> recovery_owner" where
  "first_owner x xs = foldl (\<lambda>best c. if owner_before c best then c else best) x xs"

text \<open>The claims a position can be attributed to: all of them readable, and together the observed
  quantity.\<close>

definition claims_cover :: "(pyfloat \<times> recovery_owner) list \<Rightarrow> pyfloat \<Rightarrow> bool" where
  "claims_cover claims quantity =
     (let expected = float_sum (map fst claims)
      in claims \<noteq> [] \<and> py_isfinite quantity \<and> float_above 0 quantity \<and> float_above 0 expected \<and>
         list_all (\<lambda>(q, o'). py_isfinite q \<and> 0 \<le> fin_part q \<and> ro_confidence o' \<noteq> ''orphan'') claims \<and>
         \<bar>fin_part quantity - fin_part expected\<bar> \<le> pair_tolerance)"

definition owner_for_position :: "owner_index \<Rightarrow> pyval \<Rightarrow> recovery_owner" where
  "owner_for_position ix a =
     (let (venue, symbol, side) = position_key a;
          quantity = float_or_nan (py_get a ''quantity'' (PInt 0));
          claims = claims_for ix (venue, symbol, side);
          expected = float_sum (map fst claims);
          ids = sort (remdups (map (ro_id \<circ> snd) claims));
          note = (\<lambda>ev. ev\<lparr>oe_expected_quantity := Some expected, oe_observed_quantity := Some quantity,
                          oe_expected_side := Some side, oe_owner_ids := Some ids\<rparr>);
          orphan = \<lparr>ro_type = ''exchange_position'', ro_id = symbol, ro_confidence = ''orphan'',
                    ro_evidence = note (evidence_from ''exchange_truth'')\<rparr>
      in if \<not> ambiguous_scope ix a \<and> side \<in> {''long'', ''short''} \<and> claims_cover claims quantity
         then (case map snd (filter (\<lambda>(q, _). float_above 0 q) claims) of
                 [] \<Rightarrow> orphan
               | x # xs \<Rightarrow> let o' = first_owner x xs in o'\<lparr>ro_evidence := note (ro_evidence o')\<rparr>)
         else if \<not> has_position_claim ix a
         then (case owner_for_journal_position_fact ix a of Some o' \<Rightarrow> o' | None \<Rightarrow> orphan)
         else orphan)"

definition owners_for_positions :: "owner_index \<Rightarrow> pyval list \<Rightarrow> recovery_owner list" where
  "owners_for_positions ix positions =
     map (\<lambda>a. if 1 < length (filter (\<lambda>k. k = position_key a) (map position_key positions))
              then \<lparr>ro_type = ''exchange_position'', ro_id = symbol_for_venue a [], ro_confidence = ''orphan'',
                    ro_evidence = (evidence_from ''exchange_truth'')\<lparr>oe_reason := Some ''duplicate_position_scope''\<rparr>\<rparr>
              else owner_for_position ix a) positions"

definition observed_keys :: "pyval list \<Rightarrow> position_key list" where
  "observed_keys positions =
     map position_key (filter (\<lambda>p. let q = field_float p ''quantity'' in py_isfinite q \<and> float_above eps q) positions)"

definition live_owners :: "owner_index \<Rightarrow> pyval list \<Rightarrow> (string \<times> string) list" where
  "live_owners ix positions =
     concat (map (\<lambda>(key, claims). if key \<in> set (observed_keys positions) then map (owner_identity \<circ> snd) claims else [])
       (oi_positions_by_key ix))"

definition missing_leg :: "owner_index \<Rightarrow> pyval list \<Rightarrow> position_key \<times> (pyfloat \<times> recovery_owner) list \<Rightarrow> bool" where
  "missing_leg ix positions = (\<lambda>((venue, symbol, side), claims).
     venue \<noteq> [] \<and> side \<in> {''long'', ''short''} \<and> (venue, symbol, side) \<notin> set (observed_keys positions) \<and>
     list_ex (\<lambda>(q, o'). q \<noteq> Fin 0 \<and> owner_identity o' \<in> set (live_owners ix positions)) claims)"

definition missing_position_claims :: "owner_index \<Rightarrow> pyval list \<Rightarrow> exchange_artifact list" where
  "missing_position_claims ix positions =
     map (\<lambda>((venue, symbol, side), claims).
        \<lparr>ea_kind = ''missing_position'', ea_symbol = symbol, ea_venue = venue, ea_side = side, ea_quantity = Fin 0,
         ea_reason = ''owned_live_pair_missing_leg'', ea_expected_quantity = float_sum (map fst claims),
         ea_owner_ids = sort (remdups (map (ro_id \<circ> snd) claims))\<rparr>)
       (filter (missing_leg ix positions) (oi_positions_by_key ix))"

section \<open>Every owner comes from the state\<close>

definition index_all :: "(recovery_owner \<Rightarrow> bool) \<Rightarrow> owner_index \<Rightarrow> bool" where
  "index_all P ix \<longleftrightarrow>
     list_all (\<lambda>(k, o'). P o') (oi_orders_by_id ix) \<and> list_all (\<lambda>(k, o'). P o') (oi_orders_by_client_id ix) \<and>
     list_all (\<lambda>(k, cs). list_all (\<lambda>(q, o'). P o') cs) (oi_positions_by_key ix)"

lemma list_all_put: "Q (k, v) \<Longrightarrow> list_all Q d \<Longrightarrow> list_all Q (dict_put k v d)"
  by (induction d) auto

lemma list_all_get: "list_all (\<lambda>(k, v). Q v) d \<Longrightarrow> dict_get d k = Some v \<Longrightarrow> Q v"
  by (auto simp: list_all_iff dest: map_of_SomeD)

lemma add_claim_all: "P o' \<Longrightarrow> list_all (\<lambda>(q, o'). P o') cs \<Longrightarrow> list_all (\<lambda>(q, o'). P o') (add_claim o' q cs)"
  by (simp add: add_claim_def split: option.split)

lemma claims_for_all:
  assumes "index_all P ix"
  shows "list_all (\<lambda>(q, o'). P o') (claims_for ix key)"
proof (cases "dict_get (oi_positions_by_key ix) key")
  case (Some cs)
  with assms have "list_all (\<lambda>(q, o'). P o') cs"
    by (intro list_all_get [where Q = "list_all (\<lambda>(q, o'). P o')" and d = "oi_positions_by_key ix" and k = key])
       (simp_all add: index_all_def)
  with Some show ?thesis by (simp add: claims_for_def)
qed (simp add: claims_for_def)

lemma index_positionI: "P o' \<Longrightarrow> index_all P ix \<Longrightarrow> index_all P (index_position o' v s side q ix)"
  using claims_for_all [of P ix]
  by (simp add: index_position_def index_all_def list_all_put add_claim_all)

lemma put_ids_all:
  "P o' \<Longrightarrow> list_all (\<lambda>(k, o'). P o') m \<Longrightarrow>
     list_all (\<lambda>(k, o'). P o') (fold (\<lambda>k m. if k \<noteq> [] then dict_put k o' m else m) ids m)"
  by (induction ids arbitrary: m) (simp_all add: list_all_put)

lemma index_order_idsI: "P o' \<Longrightarrow> index_all P ix \<Longrightarrow> index_all P (index_order_ids o' ids cids ix)"
  by (simp add: index_order_ids_def index_all_def put_ids_all Let_def)

lemma index_allI:
  "(b \<Longrightarrow> index_all P x) \<Longrightarrow> (\<not> b \<Longrightarrow> index_all P y) \<Longrightarrow> index_all P (if b then x else y)"
  by simp

lemma fold_index_all:
  "(\<And>x ix. x \<in> set xs \<Longrightarrow> index_all P ix \<Longrightarrow> index_all P (f x ix)) \<Longrightarrow> index_all P ix \<Longrightarrow> index_all P (fold f xs ix)"
  by (induction xs arbitrary: ix) simp_all

lemma pending_positions_all:
  assumes "\<And>e. P (o'\<lparr>ro_evidence := e\<rparr>)" and "index_all P ix"
  shows "index_all P (index_pending_entry_position_keys o' p ix)"
proof -
  have "P o'" using assms(1) [of "ro_evidence o'"] by simp
  with assms show ?thesis
    unfolding index_pending_entry_position_keys_def Let_def case_prod_beta
    by (intro index_allI index_positionI)
qed

text \<open>The local entries that can own: a pending entry, an open position, a residual repair.\<close>

definition local_owner :: "pyval \<Rightarrow> recovery_owner \<Rightarrow> bool" where
  "local_owner state o' \<longleftrightarrow>
     (\<exists>p\<in>set (collection state ''pending_entries''). owner_identity o' = owner_identity (pending_owner p)) \<or>
     (\<exists>p\<in>set (collection state ''open_positions''). \<exists>managed. owner_identity o' = owner_identity (open_owner managed p)) \<or>
     (\<exists>p\<in>set (collection state ''pending_residual_repairs''). owner_identity o' = owner_identity (residual_owner p))"

lemma local_owner_evidence [simp]: "local_owner state (o'\<lparr>ro_evidence := e\<rparr>) \<longleftrightarrow> local_owner state o'"
  by (simp add: local_owner_def owner_identity_def)

lemma owners_from_state: "index_all (local_owner state) (from_state state)"
proof -
  have pending: "index_all (local_owner state) (add_pending ids p ix)"
    if "p \<in> set (collection state ''pending_entries'')" "index_all (local_owner state) ix" for p ix ids
  proof -
    from that(1) have l: "local_owner state (pending_owner p)" by (auto simp: local_owner_def)
    then show ?thesis unfolding add_pending_def Let_def
      by (intro index_allI pending_positions_all index_order_idsI that(2)) simp_all
  qed
  have open_position: "index_all (local_owner state) (add_open_position m p ix)"
    if "p \<in> set (collection state ''open_positions'')" "index_all (local_owner state) ix" for p ix m
  proof -
    from that(1) have "local_owner state (open_owner m p)" by (auto simp: local_owner_def)
    with that(2) show ?thesis unfolding add_open_position_def Let_def by (intro index_positionI)
  qed
  have residual: "index_all (local_owner state) (add_residual a b p ix)"
    if "p \<in> set (collection state ''pending_residual_repairs'')" "index_all (local_owner state) ix" for p ix a b
  proof -
    from that(1) have "local_owner state (residual_owner p)" by (auto simp: local_owner_def)
    with that(2) show ?thesis unfolding add_residual_def Let_def by (intro index_allI index_positionI)
  qed
  have "index_all (local_owner state) empty_index" by (simp add: index_all_def empty_index_def)
  then show ?thesis
    unfolding from_state_def Let_def
    by (intro fold_index_all) (assumption | rule pending open_position residual)+
qed


lemma no_journal_facts: "oi_journal_position_facts (from_state state) = []"
proof -
  have f: "oi_journal_position_facts (fold f xs ix) = oi_journal_position_facts ix"
    if "\<And>x ix. oi_journal_position_facts (f x ix) = oi_journal_position_facts ix" for f :: "pyval \<Rightarrow> owner_index \<Rightarrow> owner_index" and xs ix
    using that by (induction xs arbitrary: ix) simp_all
  have p: "oi_journal_position_facts (index_position o' v s side q ix) = oi_journal_position_facts ix" for o' v s side q ix
    by (simp add: index_position_def)
  show ?thesis
    unfolding from_state_def Let_def
    by (simp add: f p add_residual_def add_open_position_def add_pending_def index_order_ids_def
        index_pending_entry_position_keys_def Let_def case_prod_beta empty_index_def)
qed

section \<open>What is attributed, and what is an orphan\<close>

lemma first_owner_in: "first_owner x xs \<in> set (x # xs)"
  unfolding first_owner_def by (induction xs arbitrary: x) auto

lemma covered_claims:
  assumes "claims_cover claims quantity"
  obtains q where "quantity = Fin q" "0 < q" "\<forall>(c, o')\<in>set claims. py_isfinite c \<and> 0 \<le> fin_part c \<and> ro_confidence o' \<noteq> ''orphan''"
    "\<bar>q - sum_list (map (fin_part \<circ> fst) claims)\<bar> \<le> pair_tolerance"
proof -
  from assms obtain q where q: "quantity = Fin q" "0 < q"
    by (auto simp: claims_cover_def py_isfinite_iff Let_def)
  from assms have c: "\<forall>(c, o')\<in>set claims. py_isfinite c \<and> 0 \<le> fin_part c \<and> ro_confidence o' \<noteq> ''orphan''"
    by (simp add: claims_cover_def list_all_iff Let_def)
  then have "float_sum (map fst claims) = Fin (sum_list (map fin_part (map fst claims)))"
    by (intro float_sum_Fin) auto
  with assms q c that show thesis by (simp add: claims_cover_def Let_def)
qed

lemma attribution:
  fixes state position :: pyval
  defines "ix \<equiv> from_state state" and "o' \<equiv> owner_for_position (from_state state) position"
  assumes "ro_confidence o' \<noteq> ''orphan''"
  shows "local_owner state o' \<and>
     (\<exists>q. float_or_nan (py_get position ''quantity'' (PInt 0)) = Fin q \<and> 0 < q \<and>
        \<bar>q - sum_list (map (fin_part \<circ> fst) (claims_for ix (position_key position)))\<bar> \<le> pair_tolerance) \<and>
     (\<forall>(c, w)\<in>set (claims_for ix (position_key position)). py_isfinite c \<and> 0 \<le> fin_part c \<and> local_owner state w)"
proof -
  let ?q = "float_or_nan (py_get position ''quantity'' (PInt 0))"
  let ?cs = "claims_for ix (position_key position)"
  have facts: "owner_for_journal_position_fact ix position = None" 
    by (simp add: owner_for_journal_position_fact_def ix_def no_journal_facts Let_def)
  have all: "list_all (\<lambda>(q, o'). local_owner state o') ?cs"
    unfolding ix_def by (rule claims_for_all [OF owners_from_state])
  from assms(3) facts have cover: "claims_cover ?cs ?q"
    by (auto simp: o'_def ix_def owner_for_position_def Let_def position_key_def split: if_splits)
  obtain x xs where xs: "map snd (filter (\<lambda>(q, _). float_above 0 q) ?cs) = x # xs"
    using assms(3) facts by (cases "map snd (filter (\<lambda>(q, _). float_above 0 q) ?cs)")
       (auto simp: o'_def ix_def owner_for_position_def Let_def position_key_def split: if_splits)
  have "first_owner x xs \<in> snd ` set ?cs" using first_owner_in [of x xs] xs [symmetric] by auto
  with all have "local_owner state (first_owner x xs)" by (auto simp: list_all_iff)
  moreover have "owner_identity o' = owner_identity (first_owner x xs)"
    using assms(3) facts xs
    by (auto simp: o'_def ix_def owner_for_position_def Let_def position_key_def owner_identity_def split: if_splits)
  ultimately have "local_owner state o'" by (simp add: local_owner_def)
  moreover obtain q where "?q = Fin q" "0 < q"
    "\<forall>(c, o')\<in>set ?cs. py_isfinite c \<and> 0 \<le> fin_part c \<and> ro_confidence o' \<noteq> ''orphan''"
    "\<bar>q - sum_list (map (fin_part \<circ> fst) ?cs)\<bar> \<le> pair_tolerance"
    using covered_claims [OF cover] by blast
  ultimately show ?thesis using all by (auto simp: list_all_iff)
qed

text \<open>C10: Attribution is exact. If the index of a local state attributes a position of the exchange to
  an owner, then the position's quantity is a positive number that the claims on its venue, symbol
  and direction add up to (within 1e-6), every one of these claims is a finite, non-negative
  quantity, and the claims, like the owner itself, belong to entries of the state (pending entries,
  open positions, residual repairs): no owner is invented. The quantity of a claim is the one the
  index computes from its entry.\<close>

theorem attribution_is_exact:
  fixes state position :: pyval
  defines "ix \<equiv> from_state state" and "o' \<equiv> owner_for_position (from_state state) position"
  assumes "ro_confidence o' \<noteq> ''orphan''"
  shows "local_owner state o' \<and>
     (\<exists>q. float_or_nan (py_get position ''quantity'' (PInt 0)) = Fin q \<and> 0 < q \<and>
        \<bar>q - sum_list (map (fin_part \<circ> fst) (claims_for ix (position_key position)))\<bar> \<le> pair_tolerance) \<and>
     (\<forall>(c, w)\<in>set (claims_for ix (position_key position)). py_isfinite c \<and> 0 \<le> fin_part c \<and> local_owner state w)"
  using attribution [of state position] assms by blast

lemma attribution_facts:
  assumes "ro_confidence (owner_for_position (from_state state) position) \<noteq> ''orphan''"
  shows "(\<exists>q. float_or_nan (py_get position ''quantity'' (PInt 0)) = Fin q \<and> 0 < q \<and>
        \<bar>q - sum_list (map (fin_part \<circ> fst) (claims_for (from_state state) (position_key position)))\<bar> \<le> pair_tolerance) \<and>
     (\<forall>(c, w)\<in>set (claims_for (from_state state) (position_key position)).
        py_isfinite c \<and> 0 \<le> fin_part c \<and> local_owner state w)"
  using attribution [OF assms] by blast

definition sample_state :: pyval where
  "sample_state = PDict [(''open_positions'', PDict [(''p1'', PDict [(''position_id'', PStr ''p1''),
     (''symbol'', PStr ''BTCUSDT''), (''long_venue'', PStr ''okx''), (''short_venue'', PStr ''gate''),
     (''long_quantity'', PInt 2), (''short_quantity'', PInt 2)])])]"

definition sample_row :: pyval where
  "sample_row = PDict [(''venue'', PStr ''gate''), (''symbol'', PStr ''BTC_USDT''), (''side'', PStr ''sell''),
     (''quantity'', PInt 2)]"

lemma sample_owned: "ro_confidence (owner_for_position (from_state sample_state) sample_row) = ''proven''"
  by code_simp

lemma attribution_is_exact_witness:
  "ro_confidence (owner_for_position (from_state sample_state) sample_row) \<noteq> ''orphan'' \<and>
   local_owner sample_state (owner_for_position (from_state sample_state) sample_row)"
  using attribution_is_exact [of sample_state sample_row] by (simp add: sample_owned)

text \<open>What cannot be read is an orphan. Whatever the state and the journal claim, a row whose
  quantity is missing, not a number, infinite, zero or negative, and every row of a contract and
  direction that the exchange reports twice, is attributed to nobody.\<close>

theorem unreadable_positions_are_orphans:
  assumes "i < length positions"
    and "(\<forall>q. float_or_nan (py_get (positions ! i) ''quantity'' (PInt 0)) = Fin q \<longrightarrow> q \<le> 0) \<or>
      (\<exists>j<length positions. j \<noteq> i \<and> position_key (positions ! j) = position_key (positions ! i))"
  shows "ro_confidence (owners_for_positions ix positions ! i) = ''orphan''"
proof (cases "1 < length (filter (\<lambda>k. k = position_key (positions ! i)) (map position_key positions))")
  case True
  with assms(1) show ?thesis by (simp add: owners_for_positions_def)
next
  case False
  have "\<not> (\<exists>j<length positions. j \<noteq> i \<and> position_key (positions ! j) = position_key (positions ! i))"
  proof
    assume "\<exists>j<length positions. j \<noteq> i \<and> position_key (positions ! j) = position_key (positions ! i)"
    then obtain j where j: "j < length positions" "j \<noteq> i" "position_key (positions ! j) = position_key (positions ! i)" by blast
    let ?I = "{k. k < length (map position_key positions) \<and> map position_key positions ! k = position_key (positions ! i)}"
    have "{i, j} \<subseteq> ?I" using j assms(1) by auto
    then have "card {i, j} \<le> card ?I" by (intro card_mono) auto
    with j(2) have "2 \<le> card ?I" by simp
    moreover have "length (filter (\<lambda>k. k = position_key (positions ! i)) (map position_key positions)) = card ?I"
      by (rule length_filter_conv_card)
    ultimately show False using False by linarith
  qed
  with assms(2) have q: "\<forall>q. float_or_nan (py_get (positions ! i) ''quantity'' (PInt 0)) = Fin q \<longrightarrow> q \<le> 0" by blast
  then have n: "\<not> (py_isfinite (float_or_nan (py_get (positions ! i) ''quantity'' (PInt 0))) \<and>
      float_above 0 (float_or_nan (py_get (positions ! i) ''quantity'' (PInt 0))))"
    by (auto simp: py_isfinite_iff)
  then have "owner_for_journal_position_fact ix (positions ! i) = None"
    and "\<not> claims_cover cs (float_or_nan (py_get (positions ! i) ''quantity'' (PInt 0)))" for cs
    by (auto simp: owner_for_journal_position_fact_def claims_cover_def Let_def)
  with False assms(1) show ?thesis
    by (simp add: owners_for_positions_def owner_for_position_def Let_def case_prod_beta)
qed

lemma unreadable_positions_are_orphans_witness:
  "ro_confidence (owners_for_positions (from_state sample_state) [sample_row, sample_row] ! 0) = ''orphan''"
  by (rule unreadable_positions_are_orphans) (auto intro: exI [of _ 1])

end
