(* ===== verification/Recovery_Core.thy ===== *)
theory Recovery_Core
  imports Owner_Index Risk_State
begin

text \<open>
  The recovery decision core (\<open>engine/recovery_decision_core.py\<close>): from the local state, the truth
  that the exchanges report and the reason of an earlier block, one decision whether new entries
  are allowed, why not, and whether the earlier block may be cleared. The truth is untyped; its
  collections come flat, by venue, or by venue and symbol, and failed endpoints leave error
  placeholders in them.

  The lemmas show when entries are allowed at all, that a block which needs account truth is
  cleared only on complete, flat or exactly matching account truth (composed with the release of
  the risk mode in \<open>Risk_State\<close>), and that a pair is called flat only if no row of the truth
  contradicts it.
\<close>

section \<open>Reasons\<close>

definition LIVE_ARTIFACT_BLOCK_REASONS :: "string list" where
  "LIVE_ARTIFACT_BLOCK_REASONS = [''orphan_maker_order'', ''orphan_reduce_only_order'', ''unpaired_live_position'',
     ''owned_pending_entry_live_conflict'']"

definition ACCOUNT_TRUTH_REQUIRED_BLOCK_REASONS :: "string list" where
  "ACCOUNT_TRUTH_REQUIRED_BLOCK_REASONS =
     LIVE_ARTIFACT_BLOCK_REASONS @ [''stale_risk_only_requires_account_truth'']"

definition CORE_OWNED_BLOCK_REASONS :: "string list" where
  "CORE_OWNED_BLOCK_REASONS = [''exchange_truth_recovery_ledger_blocked'', ''truth_unavailable_for_required_recovery'',
     ''orphan_maker_order'', ''orphan_reduce_only_order'', ''unpaired_live_position'',
     ''owned_pending_entry_live_conflict'', ''stale_risk_only_requires_account_truth'', ''owned_recovery_work'',
     ''pending_residual_repair'', ''pending_passive_close'', ''owned_pending_entry'']"

definition CORE_CLEARABLE_BLOCK_REASONS :: "string list" where
  "CORE_CLEARABLE_BLOCK_REASONS = CORE_OWNED_BLOCK_REASONS @
     [''position_drift_correction_failed'', ''startup_recovery_pending_work_without_open_positions'']"

datatype evidence_class =
    COMPLETE_FLAT | COMPLETE_LIVE_ARTIFACT | OWNED_RECOVERY_WORK | ORPHAN_LIVE_ARTIFACT
  | PARTIAL_EVIDENCE_GAP | BACKGROUND_CLOSE_RECONCILIATION | TRUTH_UNAVAILABLE_FOR_REQUIRED_RECOVERY
  | OPERATOR_FAIL_CLOSED

fun class_value :: "evidence_class \<Rightarrow> string" where
  "class_value COMPLETE_FLAT = ''complete_flat''"
| "class_value COMPLETE_LIVE_ARTIFACT = ''complete_live_artifact''"
| "class_value OWNED_RECOVERY_WORK = ''owned_recovery_work''"
| "class_value ORPHAN_LIVE_ARTIFACT = ''orphan_live_artifact''"
| "class_value PARTIAL_EVIDENCE_GAP = ''partial_evidence_gap''"
| "class_value BACKGROUND_CLOSE_RECONCILIATION = ''background_close_reconciliation''"
| "class_value TRUTH_UNAVAILABLE_FOR_REQUIRED_RECOVERY = ''truth_unavailable_for_required_recovery''"
| "class_value OPERATOR_FAIL_CLOSED = ''operator_fail_closed''"

datatype management_action =
    NO_ACTION | WAIT_FOR_TRUTH | MANAGE_WORK | FLATTEN_OR_BLOCK_LIVE_ARTIFACT | PRESERVE_OPERATOR_FAIL_CLOSED

section \<open>Reading the exchange truth\<close>

definition py_bool_text :: "pyval \<Rightarrow> bool" where
  "py_bool_text v = (case v of PStr s \<Rightarrow> py_lower (py_strip s) \<in> {''1'', ''true'', ''yes'', ''y''} | _ \<Rightarrow> truth v)"

definition concrete_row_keys :: "string list" where
  "concrete_row_keys = [''quantity'', ''qty'', ''size'', ''positionAmt'', ''order_id'', ''orderId'', ''ordId'', ''id'',
     ''client_order_id'', ''clientOrderId'', ''orderLinkId'', ''clientOid'', ''clOrdId'']"

fun is_exchange_error_placeholder :: "pyval \<Rightarrow> bool" where
  "is_exchange_error_placeholder (PDict d) =
     (truth (case dict_get d ''error'' of None \<Rightarrow> PStr [] | Some v \<Rightarrow> v) \<and> \<not> list_ex (has_key d) concrete_row_keys)"
| "is_exchange_error_placeholder _ = False"

primrec contains_exchange_error_placeholder :: "pyval \<Rightarrow> bool" where
  "contains_exchange_error_placeholder PNone = False"
| "contains_exchange_error_placeholder (PBool _) = False"
| "contains_exchange_error_placeholder (PInt _) = False"
| "contains_exchange_error_placeholder (PFloat _ _) = False"
| "contains_exchange_error_placeholder (PStr _) = False"
| "contains_exchange_error_placeholder (PList xs) = list_ex (\<lambda>b. b) (map contains_exchange_error_placeholder xs)"
| "contains_exchange_error_placeholder (PTuple xs) = list_ex (\<lambda>b. b) (map contains_exchange_error_placeholder xs)"
| "contains_exchange_error_placeholder (PDict d) =
     (is_exchange_error_placeholder (PDict d) \<or>
      list_ex snd (map (map_prod id contains_exchange_error_placeholder) d))"
| "contains_exchange_error_placeholder (PObj _ _) = False"

definition set_default :: "string \<Rightarrow> pyval \<Rightarrow> obj \<Rightarrow> obj" where
  "set_default k v d = (if has_key d k then d else d @ [(k, v)])"

text \<open>The rows below a venue and a symbol, below a venue, and at the top.\<close>

definition symbol_rows :: "string \<Rightarrow> string \<times> pyval \<Rightarrow> pyval list" where
  "symbol_rows venue = (\<lambda>(symbol, v).
     if is_exchange_error_placeholder v then []
     else let rows = (case v of PDict d \<Rightarrow> [PDict d]
                      | PInt i \<Rightarrow> [PDict [(''quantity'', PFloat (Fin (of_int i)) (int_text i @ ''.0''))]]
                      | PBool b \<Rightarrow> [PDict [(''quantity'', PFloat (Fin (if b then 1 else 0)) (if b then ''1.0'' else ''0.0''))]]
                      | PFloat x t \<Rightarrow> [PDict [(''quantity'', PFloat x t)]]
                      | _ \<Rightarrow> as_items v)
          in map (\<lambda>item. case item of
                     PDict d \<Rightarrow> PDict (set_default ''symbol'' (PStr symbol) (set_default ''venue'' (PStr venue) d))
                   | _ \<Rightarrow> item)
               (filter (\<lambda>item. \<not> is_exchange_error_placeholder item) rows))"

definition with_venue :: "string \<Rightarrow> obj \<Rightarrow> obj" where
  "with_venue venue d = (''venue'', (if has_key d ''venue'' then dget d ''venue'' else PStr venue)) # dict_pop ''venue'' d"

definition venue_rows :: "string \<times> pyval \<Rightarrow> pyval list" where
  "venue_rows = (\<lambda>(venue, v).
     if is_exchange_error_placeholder v then []
     else case v of
       PDict d \<Rightarrow> concat (map (symbol_rows venue) d)
     | _ \<Rightarrow> map (\<lambda>item. case item of PDict d \<Rightarrow> PDict (with_venue venue d) | _ \<Rightarrow> item)
              (filter (\<lambda>item. \<not> is_exchange_error_placeholder item) (as_items v)))"

definition flatten_exchange_collection :: "pyval \<Rightarrow> pyval list" where
  "flatten_exchange_collection v =
     (if is_exchange_error_placeholder v then []
      else case v of PDict d \<Rightarrow> concat (map venue_rows d)
           | _ \<Rightarrow> filter (\<lambda>item. \<not> is_exchange_error_placeholder item) (as_items v))"

definition exchange_positions :: "pyval \<Rightarrow> pyval list" where
  "exchange_positions t = flatten_exchange_collection (py_get t ''positions'' (PTuple []))"

definition exchange_open_orders :: "pyval \<Rightarrow> pyval list" where
  "exchange_open_orders t = flatten_exchange_collection (py_get t ''open_orders'' (PTuple []))"

definition has_items :: "pyval \<Rightarrow> bool" where
  "has_items v \<longleftrightarrow> as_items v \<noteq> []"

definition probe_is_gap :: "pyval \<Rightarrow> bool" where
  "probe_is_gap item =
     (let text = py_lower (py_str (py_get item ''classification'' (PStr [])) @ '' '' @ py_str (py_get item ''error'' (PStr [])))
      in list_ex (\<lambda>token. py_contains token text)
           [''timeout'', ''timed out'', ''unsupported'', ''partial'', ''unavailable'', ''missing'', ''error''])"

definition exchange_truth_available :: "pyval \<Rightarrow> bool" where
  "exchange_truth_available t \<longleftrightarrow>
     t \<noteq> PNone \<and> truth (py_get t ''truth_available'' (py_get t ''available'' (PBool True)))"

definition has_partial_exchange_evidence :: "pyval \<Rightarrow> bool" where
  "has_partial_exchange_evidence t \<longleftrightarrow>
     t = PNone \<or> py_get t ''truth_supported'' (PBool True) \<noteq> PBool True \<or>
     has_items (py_get t ''missing_evidence'' (PTuple [])) \<or> has_items (py_get t ''errors'' (PTuple [])) \<or>
     contains_exchange_error_placeholder (py_get t ''positions'' (PTuple [])) \<or>
     contains_exchange_error_placeholder (py_get t ''open_orders'' (PTuple [])) \<or>
     list_ex probe_is_gap (as_items (py_get t ''probe_evidence'' (PTuple [])))"

definition truth_scope :: "pyval \<Rightarrow> string" where
  "truth_scope t = py_lower (py_strip (text_of (py_get t ''truth_scope'' (PStr []))))"

definition is_complete_account_truth :: "pyval \<Rightarrow> bool" where
  "is_complete_account_truth t \<longleftrightarrow>
     truth_scope t = ''account'' \<and> py_get t ''truth_supported'' PNone = PBool True \<and> exchange_truth_available t \<and>
     \<not> has_partial_exchange_evidence t \<and> py_get t ''positions'' PNone \<noteq> PNone \<and> py_get t ''open_orders'' PNone \<noteq> PNone"

definition finite_position_quantity :: "pyval \<Rightarrow> real option" where
  "finite_position_quantity p =
     (case find (\<lambda>k. py_get p k PNone \<noteq> PNone) [''quantity'', ''qty'', ''size''] of
        None \<Rightarrow> None | Some k \<Rightarrow> finite_float (py_get p k PNone))"

definition flat_position :: "pyval \<Rightarrow> bool" where
  "flat_position p = (case finite_position_quantity p of None \<Rightarrow> False | Some q \<Rightarrow> \<bar>q\<bar> \<le> eps)"

definition is_complete_account_flat_truth :: "pyval \<Rightarrow> bool" where
  "is_complete_account_flat_truth t \<longleftrightarrow>
     is_complete_account_truth t \<and> list_all flat_position (exchange_positions t) \<and> exchange_open_orders t = []"

section \<open>The evidence\<close>

record evidence_snapshot =
  rs_local_open_positions :: pyval
  rs_pending_entries :: pyval
  rs_residual_repairs :: pyval
  rs_passive_closes :: pyval
  rs_exchange_truth :: pyval
  rs_prior_block_reason :: "string option"
  rs_operator_fail_closed :: bool
  rs_operator_fail_closed_reason :: string
  rs_work_items :: pyval
  rs_owner_evidence :: pyval

record core_decision = recovery_decision +
  cd_evidence_class :: evidence_class
  cd_clear_reason :: "string option"
  cd_entry_block_reason :: "string option"
  cd_work_items :: pyval
  cd_severity :: string
  cd_evidence_quality :: string
  cd_journal_event :: string
  cd_maintenance_note :: string
  cd_management_action :: management_action

definition account_truth_required :: "string option \<Rightarrow> bool" where
  "account_truth_required r = (case r of None \<Rightarrow> False | Some s \<Rightarrow> s \<in> set ACCOUNT_TRUTH_REQUIRED_BLOCK_REASONS)"

text \<open>The quantities that the local pairs expect on the exchange, if every pair is well formed.\<close>

definition add_quantity :: "position_key \<Rightarrow> real \<Rightarrow> (position_key, real) dict \<Rightarrow> (position_key, real) dict" where
  "add_quantity key q d = dict_put key ((case dict_get d key of None \<Rightarrow> 0 | Some x \<Rightarrow> x) + q) d"

definition local_leg :: "pyval \<Rightarrow> string \<Rightarrow> (position_key \<times> real) option" where
  "local_leg p leg =
     (let symbol = py_symbol p; venue = lower_text (py_get p (leg @ ''_venue'') (PStr []))
      in case finite_float (py_get p (leg @ ''_quantity'') PNone) of
           None \<Rightarrow> None
         | Some q \<Rightarrow> if symbol = [] \<or> venue = [] \<or> q \<le> eps then None
                     else Some ((venue, canonical_symbol_from_venue venue symbol, leg), q))"

definition add_local_pair :: "pyval \<Rightarrow> (position_key, real) dict option \<Rightarrow> (position_key, real) dict option" where
  "add_local_pair p expected =
     (case (expected, local_leg p ''long'', local_leg p ''short'') of
        (Some d, Some (kl, ql), Some (ks, qs)) \<Rightarrow>
          if \<bar>ql - qs\<bar> > pair_tolerance then None else Some (add_quantity ks qs (add_quantity kl ql d))
      | _ \<Rightarrow> None)"

definition core_side :: "pyval \<Rightarrow> string" where
  "core_side v =
     (let t = py_lower (py_strip (text_of (enum_value v)))
      in if t \<in> {''buy'', ''long'', ''side.buy''} \<or> py_endswith t ''.buy'' then ''long''
         else if t \<in> {''sell'', ''short'', ''side.sell''} \<or> py_endswith t ''.sell'' then ''short'' else t)"

definition add_observed :: "pyval \<Rightarrow> (position_key, real) dict option \<Rightarrow> (position_key, real) dict option" where
  "add_observed p observed =
     (case (observed, finite_position_quantity p) of
        (Some d, Some q) \<Rightarrow>
          if \<bar>q\<bar> \<le> eps then Some d
          else let side = core_side (py_get p ''side'' (PStr []))
               in if py_venue p = [] \<or> py_symbol p = [] \<or> side \<notin> {''long'', ''short''} then None
                  else Some (add_quantity (py_venue p, canonical_symbol_from_venue (py_venue p) (py_symbol p), side) \<bar>q\<bar> d)
      | _ \<Rightarrow> None)"

definition quantities_agree :: "(position_key, real) dict \<Rightarrow> (position_key, real) dict \<Rightarrow> bool" where
  "quantities_agree observed expected \<longleftrightarrow>
     set (map fst observed) = set (map fst expected) \<and>
     list_all (\<lambda>(key, q). case dict_get observed key of None \<Rightarrow> False | Some x \<Rightarrow> \<bar>x - q\<bar> \<le> pair_tolerance) expected"

definition exchange_truth_matches_local_open_positions :: "evidence_snapshot \<Rightarrow> bool" where
  "exchange_truth_matches_local_open_positions s \<longleftrightarrow>
     is_complete_account_truth (rs_exchange_truth s) \<and> exchange_open_orders (rs_exchange_truth s) = [] \<and>
     (case (fold add_local_pair (as_items (rs_local_open_positions s)) (Some []),
            fold add_observed (exchange_positions (rs_exchange_truth s)) (Some [])) of
        (Some expected, Some observed) \<Rightarrow> expected \<noteq> [] \<and> quantities_agree observed expected
      | _ \<Rightarrow> False)"

definition should_clear_core_block :: "evidence_snapshot \<Rightarrow> bool" where
  "should_clear_core_block s =
     (if account_truth_required (rs_prior_block_reason s)
      then is_complete_account_flat_truth (rs_exchange_truth s) \<or> exchange_truth_matches_local_open_positions s
      else case rs_prior_block_reason s of None \<Rightarrow> True | Some r \<Rightarrow> r \<in> set CORE_CLEARABLE_BLOCK_REASONS)"

definition order_ids :: "pyval \<Rightarrow> string list" where
  "order_ids v = map py_str (filter truth (map (\<lambda>k. py_get v k (PStr []))
     [''order_id'', ''client_order_id'', ''maker_order_id'', ''maker_client_order_id'', ''hedge_order_id'',
      ''hedge_client_order_id'']))"

definition order_has_owned_work :: "pyval \<Rightarrow> pyval list \<Rightarrow> bool" where
  "order_has_owned_work order work_items \<longleftrightarrow>
     list_ex (\<lambda>item. py_startswith (py_str (py_get item ''kind'' (PStr []))) ''owned_'' \<and>
        list_ex (\<lambda>a. set (order_ids a) \<inter> set (order_ids order) \<noteq> {}) (as_items (py_get item ''artifacts'' (PTuple [])))) work_items"

definition item_kind :: "pyval \<Rightarrow> string" where
  "item_kind v = text_of (py_get v ''kind'' (PStr []))"

definition snapshot_index :: "evidence_snapshot \<Rightarrow> owner_index" where
  "snapshot_index s = from_state (PDict [(''open_positions'', rs_local_open_positions s),
     (''pending_entries'', rs_pending_entries s), (''pending_residual_repairs'', rs_residual_repairs s),
     (''pending_passive_closes'', rs_passive_closes s)])"

definition unowned_position :: "pyval \<times> recovery_owner \<Rightarrow> bool" where
  "unowned_position = (\<lambda>(p, owner). case finite_position_quantity p of
     None \<Rightarrow> True | Some q \<Rightarrow> \<bar>q\<bar> > eps \<and> ro_confidence owner = ''orphan'')"

definition live_artifact_block_reason :: "evidence_snapshot \<Rightarrow> string option" where
  "live_artifact_block_reason s =
     (let ix = snapshot_index s; items = as_items (rs_work_items s);
          positions = exchange_positions (rs_exchange_truth s)
      in case find (\<lambda>item. item_kind item \<in> set LIVE_ARTIFACT_BLOCK_REASONS \<and>
                      py_bool_text (py_get item ''blocking'' (PBool True))) items of
           Some item \<Rightarrow> Some (item_kind item)
         | None \<Rightarrow>
             (case find (\<lambda>order. \<not> order_has_owned_work order items) (exchange_open_orders (rs_exchange_truth s)) of
                Some order \<Rightarrow> Some (if py_bool_text (py_get order ''reduce_only'' (PBool False))
                                    then ''orphan_reduce_only_order'' else ''orphan_maker_order'')
              | None \<Rightarrow>
                  if list_ex unowned_position (zip positions (owners_for_positions ix positions))
                  then Some ''unpaired_live_position''
                  else if is_complete_account_truth (rs_exchange_truth s) \<and> missing_position_claims ix positions \<noteq> []
                  then Some ''unpaired_live_position'' else None))"

definition has_local_recovery_work :: "evidence_snapshot \<Rightarrow> bool" where
  "has_local_recovery_work s \<longleftrightarrow>
     has_items (rs_pending_entries s) \<or> has_items (rs_residual_repairs s) \<or> has_items (rs_passive_closes s) \<or>
     list_ex (\<lambda>item. truth (py_get item ''blocking'' (PBool True))) (as_items (rs_work_items s)) \<or>
     has_items (rs_owner_evidence s)"

definition has_truth_required_recovery_context :: "evidence_snapshot \<Rightarrow> bool" where
  "has_truth_required_recovery_context s \<longleftrightarrow>
     list_ex (\<lambda>item. py_bool_text (py_get item ''requires_truth'' (py_get item ''truth_required'' (PBool False))))
       (as_items (rs_work_items s)) \<or>
     list_ex (\<lambda>p. list_ex (\<lambda>k. py_bool_text (py_get p k (PBool False)))
         [''requires_truth'', ''truth_required'', ''recovery_required'', ''reconcile_required'', ''needs_recovery''])
       (as_items (rs_local_open_positions s))"

definition has_only_close_reconciliation_work :: "evidence_snapshot \<Rightarrow> bool" where
  "has_only_close_reconciliation_work s \<longleftrightarrow>
     (as_items (rs_local_open_positions s) = [] \<or> exchange_truth_matches_local_open_positions s) \<and>
     \<not> has_items (rs_pending_entries s) \<and> \<not> has_items (rs_residual_repairs s) \<and>
     \<not> has_items (rs_passive_closes s) \<and> \<not> has_items (rs_owner_evidence s) \<and>
     list_ex (\<lambda>item. item_kind item = ''pending_close_reconciliation'') (as_items (rs_work_items s)) \<and>
     list_all (\<lambda>item. item_kind item = ''pending_close_reconciliation'' \<or>
        \<not> py_bool_text (py_get item ''blocking'' (PBool True))) (as_items (rs_work_items s))"

section \<open>The decision\<close>

definition blocked ::
  "recovery_decision_kind \<Rightarrow> evidence_class \<Rightarrow> string \<Rightarrow> string \<Rightarrow> string \<Rightarrow> string \<Rightarrow> string \<Rightarrow> management_action
     \<Rightarrow> evidence_snapshot \<Rightarrow> core_decision" where
  "blocked kind cls reason level quality event note act s =
     \<lparr>rd_kind = kind, rd_entry_allowed = False, rd_block_reason = Some reason, rd_clear_previous_block = False,
      cd_evidence_class = cls, cd_clear_reason = None, cd_entry_block_reason = Some reason,
      cd_work_items = rs_work_items s, cd_severity = level, cd_evidence_quality = quality,
      cd_journal_event = event, cd_maintenance_note = note, cd_management_action = act\<rparr>"

definition running ::
  "recovery_decision_kind \<Rightarrow> evidence_class \<Rightarrow> string \<Rightarrow> pyval \<Rightarrow> string \<Rightarrow> string \<Rightarrow> string
     \<Rightarrow> evidence_snapshot \<Rightarrow> core_decision" where
  "running kind cls clear_reason work level event note s =
     \<lparr>rd_kind = kind, rd_entry_allowed = True, rd_block_reason = None,
      rd_clear_previous_block = should_clear_core_block s, cd_evidence_class = cls,
      cd_clear_reason = Some clear_reason, cd_entry_block_reason = None, cd_work_items = work,
      cd_severity = level, cd_evidence_quality = class_value cls, cd_journal_event = event,
      cd_maintenance_note = note, cd_management_action = NO_ACTION\<rparr>"

definition background_close_reconciliation_decision :: "evidence_snapshot \<Rightarrow> core_decision" where
  "background_close_reconciliation_decision s =
     running RUNNING_WITH_EVIDENCE_GAP BACKGROUND_CLOSE_RECONCILIATION ''core_background_close_reconciliation''
       (rs_work_items s) ''warning'' ''recovery.core.background_close_reconciliation''
       (''Close-accounting reconciliation remains visible as background '' @
        ''work; RecoveryLedger owns any pair-scoped entry block.'') s"

definition operator_reason :: "evidence_snapshot \<Rightarrow> string" where
  "operator_reason s =
     (if rs_operator_fail_closed_reason s \<noteq> [] then rs_operator_fail_closed_reason s
      else if truthy (rs_prior_block_reason s) then the (rs_prior_block_reason s) else ''operator_fail_closed'')"

definition decide_recovery :: "evidence_snapshot \<Rightarrow> core_decision" where
  "decide_recovery s =
     (if rs_operator_fail_closed s
      then blocked OPERATOR_FAIL_CLOSED_PRESERVED OPERATOR_FAIL_CLOSED (operator_reason s) ''critical''
             (class_value OPERATOR_FAIL_CLOSED) ''recovery.core.operator_fail_closed_preserved''
             ''Operator fail-closed state is preserved by policy.'' PRESERVE_OPERATOR_FAIL_CLOSED s
      else case live_artifact_block_reason s of
        Some reason \<Rightarrow>
          blocked BLOCK_OR_FLATTEN_LIVE_ARTIFACT ORPHAN_LIVE_ARTIFACT reason ''critical''
            (class_value ORPHAN_LIVE_ARTIFACT) ''recovery.core.live_artifact_blocked''
            (''Concrete exchange live artifacts fail safe until ownership '' @ ''or flatten policy resolves them.'')
            FLATTEN_OR_BLOCK_LIVE_ARTIFACT s
      | None \<Rightarrow>
          let has_local_work = has_local_recovery_work s;
              has_truth_required_work = (has_local_work \<or> has_truth_required_recovery_context s);
              truth_available = exchange_truth_available (rs_exchange_truth s);
              only_close_reconciliation = has_only_close_reconciliation_work s;
              prior_required = account_truth_required (rs_prior_block_reason s);
              prior_artifact_unproven = (prior_required \<and> \<not> should_clear_core_block s)
          in if only_close_reconciliation \<and> \<not> prior_required
             then background_close_reconciliation_decision s
             else if prior_artifact_unproven \<or> has_truth_required_work \<and> \<not> truth_available
             then let reason = (if prior_artifact_unproven then the (rs_prior_block_reason s)
                                else class_value TRUTH_UNAVAILABLE_FOR_REQUIRED_RECOVERY)
                  in blocked RISK_ONLY_WAIT_FOR_TRUTH TRUTH_UNAVAILABLE_FOR_REQUIRED_RECOVERY reason ''warning'' reason
                       ''recovery.core.truth_required_blocked''
                       (''Recovery requires complete exchange proof before '' @ ''new entry risk can be admitted.'')
                       WAIT_FOR_TRUTH s
             else if only_close_reconciliation
             then background_close_reconciliation_decision s
             else if has_local_work
             then blocked MANAGE_OWNED_RECOVERY_WORK OWNED_RECOVERY_WORK ''owned_recovery_work'' ''warning''
                    (class_value OWNED_RECOVERY_WORK) ''recovery.core.owned_work_managed''
                    (''Local recovery work is managed before conflicting new '' @ ''entry risk is allowed.'') MANAGE_WORK s
             else if \<not> truth_available \<or> has_partial_exchange_evidence (rs_exchange_truth s)
             then running RUNNING_WITH_EVIDENCE_GAP PARTIAL_EVIDENCE_GAP ''core_evidence_gap_no_local_work''
                    (PTuple []) ''warning'' ''recovery.core.running_with_evidence_gap''
                    (''Flat local state with only probe-quality gaps stays '' @
                     ''runtime-available while diagnostics report incomplete evidence.'') s
             else running RUNNING_CLEAN COMPLETE_FLAT ''core_running_clean'' (PTuple []) ''info''
                    ''recovery.core.running_clean'' ''Core evidence proves no recovery block is required.'' s)"

section \<open>Flatness of one pair\<close>

definition legacy_high_confidence_flat_truth :: "pyval \<Rightarrow> bool" where
  "legacy_high_confidence_flat_truth t =
     (case t of PDict d \<Rightarrow>
          truth (py_get t ''available'' (py_get t ''truth_available'' PNone)) \<and>
          py_lower (text_of (dget d ''confidence'')) = ''high'' \<and> \<not> has_partial_exchange_evidence t \<and>
          dget d ''positions'' \<noteq> PNone \<and> dget d ''open_orders'' \<noteq> PNone \<and>
          \<not> truth (dget d ''has_nonzero_position'') \<and> \<not> truth (dget d ''has_open_order'') \<and>
          list_all flat_position (exchange_positions t) \<and> exchange_open_orders t = []
      | _ \<Rightarrow> False)"

definition venue_text :: "pyval \<Rightarrow> string" where
  "venue_text v = (case v of
     PObj t d \<Rightarrow> if has_key d ''value'' then py_str (dget d ''value'') else text_of v
   | _ \<Rightarrow> text_of v)"

definition pair_venues :: "pyval \<Rightarrow> string list" where
  "pair_venues venues = remdups (map (\<lambda>v. py_lower (venue_text v)) (filter (\<lambda>v. venue_text v \<noteq> []) (as_items venues)))"

definition of_pair :: "string list \<Rightarrow> string \<Rightarrow> pyval \<Rightarrow> bool" where
  "of_pair venues symbol row \<longleftrightarrow> py_venue row \<in> set venues \<and> py_symbol row = symbol"

definition located :: "pyval \<Rightarrow> bool" where
  "located row \<longleftrightarrow> py_venue row \<noteq> [] \<and> py_symbol row \<noteq> []"

definition probe_covers :: "pyval \<Rightarrow> string \<Rightarrow> bool" where
  "probe_covers probe kind \<longleftrightarrow>
     py_lower (text_of (py_get probe ''classification'' (PStr []))) = kind \<and> \<not> truth (py_get probe ''error'' (PStr []))"

definition probes_cover_pair :: "pyval list \<Rightarrow> string list \<Rightarrow> string \<Rightarrow> bool" where
  "probes_cover_pair probes venues symbol \<longleftrightarrow>
     (let relevant = filter (of_pair venues symbol) probes
      in list_all (\<lambda>p. \<not> probe_is_gap p) relevant \<and>
         list_all (\<lambda>v. list_all (\<lambda>kind. list_ex (\<lambda>p. py_venue p = v \<and> probe_covers p kind) relevant)
           [''position_truth'', ''open_order_truth'']) venues)"

definition symbol_scoped_flat_truth :: "pyval \<Rightarrow> string \<Rightarrow> string list \<Rightarrow> bool" where
  "symbol_scoped_flat_truth t symbol venues \<longleftrightarrow>
     py_get t ''truth_supported'' PNone = PBool True \<and> py_get t ''positions'' PNone \<noteq> PNone \<and>
     py_get t ''open_orders'' PNone \<noteq> PNone \<and> \<not> has_items (py_get t ''missing_evidence'' (PTuple [])) \<and>
     symbol \<noteq> [] \<and> length venues = 2 \<and>
     (let probes = as_items (py_get t ''probe_evidence'' (PTuple []));
          positions = exchange_positions t; orders = exchange_open_orders t
      in (exchange_truth_available t \<and> \<not> has_items (py_get t ''errors'' (PTuple [])) \<or> list_ex probe_is_gap probes) \<and>
         probes_cover_pair probes venues symbol \<and>
         list_all located positions \<and> list_all (\<lambda>p. of_pair venues symbol p \<longrightarrow> flat_position p) positions \<and>
         list_all (\<lambda>v. list_ex (\<lambda>p. of_pair venues symbol p \<and> py_venue p = v) positions) venues \<and>
         list_all (\<lambda>row. located row \<and> \<not> of_pair venues symbol row) orders)"

definition complete_flat_truth_for_pair :: "pyval \<Rightarrow> pyval \<Rightarrow> pyval \<Rightarrow> bool" where
  "complete_flat_truth_for_pair t symbol venues =
     (if is_complete_account_flat_truth t then True
      else if truth_scope t = [] then legacy_high_confidence_flat_truth t
      else if truth_scope t \<noteq> ''symbols'' then False
      else symbol_scoped_flat_truth t (py_upper (text_of symbol)) (pair_venues venues))"

section \<open>Owners of unfinished closings\<close>

text \<open>\<open>int(x or 0)\<close> with type and value errors read as 0; an infinite float still raises.\<close>

definition count_or_zero :: "pyval \<Rightarrow> py_exc + int" where
  "count_or_zero v = (case py_int (py_or v (PInt 0)) of
     Inr i \<Rightarrow> Inr i | Inl e \<Rightarrow> if e \<in> {Type_Error, Value_Error} then Inr 0 else Inl e)"

definition state_collection_or_count :: "pyval \<Rightarrow> string \<Rightarrow> string \<Rightarrow> py_exc + pyval list" where
  "state_collection_or_count state collection_key count_key =
     (case py_get state collection_key PNone of
        PDict d \<Rightarrow> Inr (map snd d)
      | PList xs \<Rightarrow> Inr xs
      | PTuple xs \<Rightarrow> Inr xs
      | _ \<Rightarrow> bind_res (count_or_zero (py_get state count_key PNone)) (\<lambda>n.
               Inr (replicate (nat n) (PDict [(''source'', PStr count_key)]))))"

definition is_evidence_debt :: "pyval \<Rightarrow> bool" where
  "is_evidence_debt item \<longleftrightarrow> py_lower (text_of (py_get item ''reconciliation_status'' (PStr []))) = ''evidence_debt''"

definition materialized_reconciliations :: "pyval \<Rightarrow> pyval list" where
  "materialized_reconciliations c = (case c of
     PDict d \<Rightarrow> if list_ex (has_key d) [''position_id'', ''close_id'', ''symbol'', ''position_snapshot'']
                then [PDict d] else map snd d
   | PList xs \<Rightarrow> xs | PTuple xs \<Rightarrow> xs | _ \<Rightarrow> [])"

definition summary_field :: "pyval \<Rightarrow> string \<Rightarrow> pyval" where
  "summary_field summary k = (case summary of PDict d \<Rightarrow> dget d k | _ \<Rightarrow> PNone)"

definition pending_close_reconciliation_evidence :: "pyval \<Rightarrow> py_exc + pyval list" where
  "pending_close_reconciliation_evidence state =
     (let summary = py_get state ''pending_close_reconciliation_summary'' PNone;
          items = materialized_reconciliations (py_get state ''pending_close_reconciliations'' PNone)
      in bind_res (count_or_zero (py_get state ''pending_close_reconciliation_count'' PNone)) (\<lambda>n.
         bind_res (count_or_zero (summary_field summary ''total_count'')) (\<lambda>total.
         bind_res (count_or_zero (summary_field summary ''evidence_debt_count'')) (\<lambda>debts.
           let missing = max (length items) (max (nat n) (nat total)) - length items;
               known = length (filter is_evidence_debt items);
               synthesized = min (nat debts - known) missing
           in Inr (items @
                replicate synthesized (PDict [(''source'', PStr ''pending_close_reconciliation_summary''),
                  (''reconciliation_status'', PStr ''evidence_debt'')]) @
                replicate (missing - synthesized) (PDict [(''source'', PStr ''pending_close_reconciliation_count'')]))))))"

record pending_close_owner_counts =
  pc_pending_close_count :: nat
  pc_pending_passive_close_count :: nat
  pc_pending_close_reconciliation_count :: nat

definition pending_close_owner_count :: "pending_close_owner_counts \<Rightarrow> nat" where
  "pending_close_owner_count c =
     pc_pending_close_count c + pc_pending_passive_close_count c + pc_pending_close_reconciliation_count c"

definition pending_passive_close_evidence :: "pyval \<Rightarrow> py_exc + pyval list" where
  "pending_passive_close_evidence state =
     state_collection_or_count state ''pending_passive_closes'' ''pending_passive_close_count''"

definition count_pending_close_owners :: "pyval \<Rightarrow> py_exc + pending_close_owner_counts" where
  "count_pending_close_owners state =
     bind_res (state_collection_or_count state ''pending_closes'' ''pending_close_count'') (\<lambda>a.
     bind_res (pending_passive_close_evidence state) (\<lambda>b.
     bind_res (pending_close_reconciliation_evidence state) (\<lambda>c.
       Inr \<lparr>pc_pending_close_count = length a, pc_pending_passive_close_count = length b,
            pc_pending_close_reconciliation_count = length c\<rparr>)))"

definition pending_close_reconciliation_evidence_debt_count :: "pyval \<Rightarrow> py_exc + nat" where
  "pending_close_reconciliation_evidence_debt_count state =
     bind_res (pending_close_reconciliation_evidence state) (\<lambda>items. Inr (length (filter is_evidence_debt items)))"

definition is_nonblocking_background_close_reconciliation ::
  "nat \<Rightarrow> nat \<Rightarrow> pending_close_owner_counts \<Rightarrow> nat \<Rightarrow> nat \<Rightarrow> nat \<Rightarrow> pyval \<Rightarrow> obj \<Rightarrow> bool" where
  "is_nonblocking_background_close_reconciliation open_positions pending_entries owners residual_repairs
       debt_count unknown_count exchange_truth decision \<longleftrightarrow>
     open_positions = 0 \<and> pending_entries = 0 \<and> pc_pending_close_count owners = 0 \<and>
     pc_pending_passive_close_count owners = 0 \<and> pc_pending_close_reconciliation_count owners > 0 \<and>
     residual_repairs = 0 \<and> debt_count = pc_pending_close_reconciliation_count owners \<and> unknown_count = 0 \<and>
     (case exchange_truth of
        PDict d \<Rightarrow> truth (dget d ''available'') \<and>
          py_str (case dict_get d ''confidence'' of None \<Rightarrow> PStr [] | Some v \<Rightarrow> v) = ''high'' \<and>
          \<not> truth (dget d ''has_nonzero_position'') \<and> \<not> truth (dget d ''has_open_order'')
      | _ \<Rightarrow> False) \<and>
     dget decision ''kind'' = PStr ''RUNNING_WITH_EVIDENCE_GAP'' \<and>
     dget decision ''evidence_quality'' = PStr ''background_close_reconciliation'' \<and>
     dget decision ''entry_allowed'' = PBool True"

section \<open>When entries are allowed\<close>

lemma blocked_simps [simp]:
  "rd_kind (blocked k c r l q e n a s) = k" "\<not> rd_entry_allowed (blocked k c r l q e n a s)"
  "rd_block_reason (blocked k c r l q e n a s) = Some r" "\<not> rd_clear_previous_block (blocked k c r l q e n a s)"
  by (simp_all add: blocked_def)

lemma running_simps [simp]:
  "rd_kind (running k c r w l e n s) = k" "rd_entry_allowed (running k c r w l e n s)"
  "rd_block_reason (running k c r w l e n s) = None"
  "rd_clear_previous_block (running k c r w l e n s) = should_clear_core_block s"
  by (simp_all add: running_def)

lemmas decide_cases = decide_recovery_def background_close_reconciliation_decision_def Let_def

lemma decide_entry:
  "rd_entry_allowed (decide_recovery s) \<longleftrightarrow>
     \<not> rs_operator_fail_closed s \<and> live_artifact_block_reason s = None \<and>
     (account_truth_required (rs_prior_block_reason s) \<longrightarrow> should_clear_core_block s) \<and>
     (has_only_close_reconciliation_work s \<and>
        (\<not> account_truth_required (rs_prior_block_reason s) \<or> exchange_truth_available (rs_exchange_truth s)) \<or>
      \<not> has_local_recovery_work s \<and>
        (has_truth_required_recovery_context s \<longrightarrow> exchange_truth_available (rs_exchange_truth s)))"
  by (auto simp: decide_cases split: option.split)

lemma find_None_iff: "find P xs = None \<longleftrightarrow> (\<forall>x\<in>set xs. \<not> P x)"
  by (induction xs) auto

lemma no_live_artifact:
  assumes "live_artifact_block_reason s = None"
  shows "\<forall>order\<in>set (exchange_open_orders (rs_exchange_truth s)). order_has_owned_work order (as_items (rs_work_items s))"
    and "list_all (\<lambda>x. \<not> unowned_position x) (zip (exchange_positions (rs_exchange_truth s))
          (owners_for_positions (snapshot_index s) (exchange_positions (rs_exchange_truth s))))"
  using assms
  by (auto simp: live_artifact_block_reason_def Let_def find_None_iff list_ex_iff list_all_iff
      split: option.splits if_splits)

lemma owners_for_positions_length [simp]: "length (owners_for_positions ix ps) = length ps"
  by (simp add: owners_for_positions_def)

lemma owners_for_positions_nth:
  "i < length ps \<Longrightarrow> ro_confidence (owners_for_positions ix ps ! i) \<noteq> ''orphan'' \<Longrightarrow>
     owners_for_positions ix ps ! i = owner_for_position ix (ps ! i)"
  by (simp add: owners_for_positions_def split: if_splits)

definition snapshot_state :: "evidence_snapshot \<Rightarrow> pyval" where
  "snapshot_state s = PDict [(''open_positions'', rs_local_open_positions s),
     (''pending_entries'', rs_pending_entries s), (''pending_residual_repairs'', rs_residual_repairs s),
     (''pending_passive_closes'', rs_passive_closes s)]"

lemma snapshot_index_state: "snapshot_index s = from_state (snapshot_state s)"
  by (simp add: snapshot_index_def snapshot_state_def)

text \<open>A position row that local entries account for.\<close>

definition accounted_for :: "pyval \<Rightarrow> pyval \<Rightarrow> bool" where
  "accounted_for state p \<longleftrightarrow>
     (\<exists>q. float_or_nan (py_get p ''quantity'' (PInt 0)) = Fin q \<and> 0 < q \<and>
        \<bar>q - sum_list (map (fin_part \<circ> fst) (claims_for (from_state state) (position_key p)))\<bar> \<le> pair_tolerance) \<and>
     (\<forall>(c, w)\<in>set (claims_for (from_state state) (position_key p)). py_isfinite c \<and> 0 \<le> fin_part c \<and> local_owner state w)"

lemma attributed_accounted:
  "ro_confidence (owner_for_position (from_state state) p) \<noteq> ''orphan'' \<Longrightarrow> accounted_for state p"
  unfolding accounted_for_def by (rule attribution_facts)

text \<open>C3: New entries need an exchange without surprises. If the core allows entries, no operator has
  stopped the engine; every position the exchange reports has a readable quantity and is flat or
  accounted for, to 1e-6, by the quantities of local entries; and every reported open order belongs
  to an owned work item. Reported are the rows that \<open>exchange_positions\<close> collects; it drops the rows
  next to an error annotation of their venue (\<open>annotated_venue_rows_are_hidden\<close>).\<close>

theorem entries_need_explained_exchange:
  assumes "rd_entry_allowed (decide_recovery s)"
  shows "\<not> rs_operator_fail_closed s \<and>
     (\<forall>p\<in>set (exchange_positions (rs_exchange_truth s)). \<exists>q. finite_position_quantity p = Some q \<and>
        (\<bar>q\<bar> \<le> eps \<or> accounted_for (snapshot_state s) p)) \<and>
     (\<forall>order\<in>set (exchange_open_orders (rs_exchange_truth s)). order_has_owned_work order (as_items (rs_work_items s)))"
proof -
  from assms have free: "\<not> rs_operator_fail_closed s" and none: "live_artifact_block_reason s = None"
    by (simp_all add: decide_entry)
  let ?ps = "exchange_positions (rs_exchange_truth s)"
  have "\<exists>q. finite_position_quantity p = Some q \<and> (\<bar>q\<bar> \<le> eps \<or> accounted_for (snapshot_state s) p)"
    if p: "p \<in> set ?ps" for p
  proof -
    from p obtain i where i: "i < length ?ps" "p = ?ps ! i" by (auto simp: in_set_conv_nth)
    with no_live_artifact(2) [OF none] have "\<not> unowned_position (p, owners_for_positions (snapshot_index s) ?ps ! i)"
      by (auto simp: list_all_length)
    then obtain q where q: "finite_position_quantity p = Some q"
      and owned: "\<bar>q\<bar> \<le> eps \<or> ro_confidence (owners_for_positions (snapshot_index s) ?ps ! i) \<noteq> ''orphan''"
      by (auto simp: unowned_position_def split: option.splits)
    from owned owners_for_positions_nth [OF i(1), of "snapshot_index s"] i(2)
    have "\<bar>q\<bar> \<le> eps \<or> accounted_for (snapshot_state s) p"
      by (auto simp: snapshot_index_state intro: attributed_accounted)
    with q show ?thesis by blast
  qed
  with free no_live_artifact(1) [OF none] show ?thesis by blast
qed

definition empty_snapshot :: evidence_snapshot where
  "empty_snapshot = \<lparr>rs_local_open_positions = PTuple [], rs_pending_entries = PTuple [], rs_residual_repairs = PTuple [],
     rs_passive_closes = PTuple [], rs_exchange_truth = PNone, rs_prior_block_reason = None,
     rs_operator_fail_closed = False, rs_operator_fail_closed_reason = [], rs_work_items = PTuple [],
     rs_owner_evidence = PTuple []\<rparr>"

definition sample_snapshot :: evidence_snapshot where
  "sample_snapshot = empty_snapshot\<lparr>
     rs_exchange_truth := PDict [(''truth_scope'', PStr ''account''), (''truth_supported'', PBool True),
       (''positions'', PList [PDict [(''venue'', PStr ''okx''), (''symbol'', PStr ''A''), (''quantity'', PInt 0)]]),
       (''open_orders'', PList [])],
     rs_prior_block_reason := Some ''unpaired_live_position''\<rparr>"

lemma sample_allows: "rd_entry_allowed (decide_recovery sample_snapshot)"
  by code_simp

definition owned_row :: pyval where
  "owned_row = PDict [(''venue'', PStr ''okx''), (''symbol'', PStr ''A''), (''side'', PStr ''long''), (''quantity'', PInt 2)]"

definition live_snapshot :: evidence_snapshot where
  "live_snapshot = empty_snapshot\<lparr>
     rs_local_open_positions := PList [PDict [(''position_id'', PStr ''p''), (''symbol'', PStr ''A''),
       (''long_venue'', PStr ''okx''), (''short_venue'', PStr ''gate''), (''long_quantity'', PInt 2), (''short_quantity'', PInt 2)]],
     rs_exchange_truth := PDict [(''truth_scope'', PStr ''account''), (''truth_supported'', PBool True),
       (''positions'', PList [owned_row,
          PDict [(''venue'', PStr ''gate''), (''symbol'', PStr ''A''), (''side'', PStr ''short''), (''quantity'', PInt 2)]]),
       (''open_orders'', PList [])]\<rparr>"

lemma live_allows: "rd_entry_allowed (decide_recovery live_snapshot)"
  by code_simp

lemma entries_need_explained_exchange_witness: "accounted_for (snapshot_state live_snapshot) owned_row"
proof -
  have "owned_row \<in> set (exchange_positions (rs_exchange_truth live_snapshot))" "finite_position_quantity owned_row = Some 2"
    by code_simp+
  with entries_need_explained_exchange [OF live_allows] show ?thesis by (auto simp: eps_def)
qed

text \<open>The exchange proves the local books: account-wide truth without gaps, no open order at all, and
  either every position flat, or exactly the legs of the local pairs.\<close>

definition account_proven :: "evidence_snapshot \<Rightarrow> bool" where
  "account_proven s \<longleftrightarrow>
     is_complete_account_truth (rs_exchange_truth s) \<and> exchange_open_orders (rs_exchange_truth s) = [] \<and>
     (list_all flat_position (exchange_positions (rs_exchange_truth s)) \<or>
      exchange_truth_matches_local_open_positions s)"

lemma clear_needs_proof:
  "account_truth_required (rs_prior_block_reason s) \<Longrightarrow> should_clear_core_block s \<Longrightarrow> account_proven s"
  by (auto simp: should_clear_core_block_def account_proven_def is_complete_account_flat_truth_def
      exchange_truth_matches_local_open_positions_def)

text \<open>C4: A live-artifact latch is released by account truth only. With an earlier block that names a
  live artifact (or a stale risk-only state), the core allows entries and the engine leaves its
  restricted mode only if complete account-wide truth shows no open order and either no position
  or exactly the local pairs; without that proof the decision blocks, and the engine state stays as
  it is.\<close>

theorem latch_needs_account_truth:
  assumes "rs_prior_block_reason s = Some r" and "r \<in> set ACCOUNT_TRUTH_REQUIRED_BLOCK_REASONS"
    and "es_recovery_blocked_reason st = Some r"
  defines "d \<equiv> recovery_decision.truncate (decide_recovery s)"
  shows "(fst (clear_risk_mode_for_recovery (Some d) st) \<longleftrightarrow> rd_entry_allowed d) \<and>
     (rd_entry_allowed d \<longrightarrow> account_proven s \<and> rd_block_reason d = None) \<and>
     (\<not> account_proven s \<longrightarrow> rd_block_reason d \<noteq> None \<and> snd (clear_risk_mode_for_recovery (Some d) st) = st)"
proof -
  have req: "account_truth_required (rs_prior_block_reason s)" using assms(1,2) by (simp add: account_truth_required_def)
  have r: "truthy (Some r)" using assms(2)
    by (auto simp: truthy_def ACCOUNT_TRUTH_REQUIRED_BLOCK_REASONS_def LIVE_ARTIFACT_BLOCK_REASONS_def)
  have entry: "rd_entry_allowed d \<longleftrightarrow> rd_entry_allowed (decide_recovery s)"
    and reason: "rd_block_reason d = rd_block_reason (decide_recovery s)"
    and kind: "rd_kind d = rd_kind (decide_recovery s)"
    and clear: "rd_clear_previous_block d = rd_clear_previous_block (decide_recovery s)"
    by (simp_all add: d_def recovery_decision.truncate_def)
  have allowed: "rd_block_reason (decide_recovery s) = None \<and> should_clear_core_block s \<and>
      rd_kind (decide_recovery s) \<in> {RUNNING_CLEAN, RUNNING_WITH_EVIDENCE_GAP} \<and>
      rd_clear_previous_block (decide_recovery s)"
    if "rd_entry_allowed (decide_recovery s)"
    using that req by (auto simp: decide_cases split: option.splits if_splits)
  have blocked: "\<exists>b. rd_block_reason (decide_recovery s) = Some b" if "\<not> rd_entry_allowed (decide_recovery s)"
    using that by (auto simp: decide_cases split: option.splits if_splits)
  show ?thesis
  proof (cases "rd_entry_allowed (decide_recovery s)")
    case True
    from allowed [OF this] clear_needs_proof [OF req] entry reason kind clear True r assms(3) show ?thesis
      by (auto simp: clear_risk_mode_for_recovery_def truthy_def)
  next
    case False
    from blocked [OF this] entry reason False show ?thesis
      by (auto simp: clear_risk_mode_for_recovery_def)
  qed
qed

definition sample_blocked :: engine_state where
  "sample_blocked = \<lparr>es_lifecycle = RISK_ONLY, es_risk_mode = ENTRY_PAUSED,
     es_recovery_blocked_reason = Some ''unpaired_live_position'', es_recovery_blocked_at_ms = 3\<rparr>"

lemma latch_needs_account_truth_witness:
  "account_proven sample_snapshot \<and>
   fst (clear_risk_mode_for_recovery (Some (recovery_decision.truncate (decide_recovery sample_snapshot))) sample_blocked)"
proof -
  have "rs_prior_block_reason sample_snapshot = Some ''unpaired_live_position''" by (simp add: sample_snapshot_def)
  moreover have "''unpaired_live_position'' \<in> set ACCOUNT_TRUTH_REQUIRED_BLOCK_REASONS"
    by (simp add: ACCOUNT_TRUTH_REQUIRED_BLOCK_REASONS_def LIVE_ARTIFACT_BLOCK_REASONS_def)
  moreover have "es_recovery_blocked_reason sample_blocked = Some ''unpaired_live_position''"
    by (simp add: sample_blocked_def)
  moreover have "rd_entry_allowed (recovery_decision.truncate (decide_recovery sample_snapshot))"
    using sample_allows by (simp add: recovery_decision.truncate_def)
  ultimately show ?thesis using latch_needs_account_truth by blast
qed

text \<open>C30: A pair is called flat only if nothing contradicts it. When the truth (account-wide,
  diagnostic, or scoped to symbols) proves a pair flat, no reported position of the pair is
  unreadable or larger than the tolerance, and no open order of the pair is reported.\<close>

theorem pair_flat_is_sound:
  assumes "complete_flat_truth_for_pair t symbol venues"
    and "py_venue row \<in> set (pair_venues venues)" and "py_symbol row = py_upper (text_of symbol)"
  shows "(row \<in> set (exchange_positions t) \<longrightarrow> (\<exists>q. finite_position_quantity row = Some q \<and> \<bar>q\<bar> \<le> eps)) \<and>
     row \<notin> set (exchange_open_orders t)"
proof -
  have "list_all (\<lambda>p. of_pair (pair_venues venues) (py_upper (text_of symbol)) p \<longrightarrow> flat_position p) (exchange_positions t) \<and>
     list_all (\<lambda>p. \<not> of_pair (pair_venues venues) (py_upper (text_of symbol)) p) (exchange_open_orders t)"
    using assms(1)
    by (auto simp: complete_flat_truth_for_pair_def is_complete_account_flat_truth_def list_all_iff Let_def
        legacy_high_confidence_flat_truth_def symbol_scoped_flat_truth_def split: if_splits pyval.splits)
  with assms(2,3) show ?thesis
    by (auto simp: list_all_iff of_pair_def flat_position_def split: option.splits)
qed

definition sample_pair_truth :: pyval where
  "sample_pair_truth = (let probe = (\<lambda>v c. PDict [(''venue'', PStr v), (''symbol'', PStr ''BTCUSDT''), (''classification'', PStr c)]);
       row = (\<lambda>v q. PDict [(''venue'', PStr v), (''symbol'', PStr ''BTCUSDT''), (''quantity'', PInt q)])
     in PDict [(''truth_scope'', PStr ''symbols''), (''truth_supported'', PBool True),
       (''probe_evidence'', PList [probe ''okx'' ''position_truth'', probe ''okx'' ''open_order_truth'',
          probe ''gate'' ''position_truth'', probe ''gate'' ''open_order_truth'']),
       (''positions'', PList [row ''okx'' 0, row ''gate'' 0, row ''bybit'' 7]), (''open_orders'', PList [])])"

lemma pair_flat_is_sound_witness:
  "PDict [(''venue'', PStr ''okx''), (''symbol'', PStr ''BTCUSDT''), (''quantity'', PInt 7)] \<notin>
     set (exchange_open_orders sample_pair_truth)"
proof -
  let ?row = "PDict [(''venue'', PStr ''okx''), (''symbol'', PStr ''BTCUSDT''), (''quantity'', PInt 7)]"
  have "complete_flat_truth_for_pair sample_pair_truth (PStr ''BTCUSDT'') (PList [PStr ''okx'', PStr ''gate'']) \<and>
     py_venue ?row \<in> set (pair_venues (PList [PStr ''okx'', PStr ''gate''])) \<and>
     py_symbol ?row = py_upper (text_of (PStr ''BTCUSDT''))" by code_simp
  then show ?thesis using pair_flat_is_sound by blast
qed

lemma int_max_nat: "int (max a (max (nat n) (nat k))) = max (int a) (max n k)"
  by (cases "n \<le> 0"; cases "k \<le> 0") (auto simp: max_def)

text \<open>Unfinished closings are never understated. The evidence holds every reconciliation that is
  there, at least as many as any of the two counts says, and of the missing ones at most as many
  are called evidence debt as the summary reports.\<close>

theorem reconciliation_evidence_bounds:
  assumes "pending_close_reconciliation_evidence state = Inr items"
    and "count_or_zero (py_get state ''pending_close_reconciliation_count'' PNone) = Inr n"
    and "count_or_zero (summary_field (py_get state ''pending_close_reconciliation_summary'' PNone) ''total_count'') = Inr tot"
    and "count_or_zero (summary_field (py_get state ''pending_close_reconciliation_summary'' PNone) ''evidence_debt_count'') = Inr debts"
  defines "known \<equiv> materialized_reconciliations (py_get state ''pending_close_reconciliations'' PNone)"
  shows "take (length known) items = known \<and> int (length items) = max (int (length known)) (max n tot) \<and>
     length (filter is_evidence_debt known) \<le> length (filter is_evidence_debt items) \<and>
     int (length (filter is_evidence_debt items)) \<le> max (int (length (filter is_evidence_debt known))) debts"
proof -
  let ?k = "length (filter is_evidence_debt known)"
  define m where "m = max (length known) (max (nat n) (nat tot)) - length known"
  define s where "s = min (nat debts - ?k) m"
  let ?debt = "PDict [(''source'', PStr ''pending_close_reconciliation_summary''), (''reconciliation_status'', PStr ''evidence_debt'')]"
  let ?unknown = "PDict [(''source'', PStr ''pending_close_reconciliation_count'')]"
  have "py_lower ''evidence_debt'' = ''evidence_debt''" by code_simp
  then have debt: "is_evidence_debt ?debt" "\<not> is_evidence_debt ?unknown"
    by (simp_all add: is_evidence_debt_def)
  have items: "items = known @ replicate s ?debt @ replicate (m - s) ?unknown"
    using assms(1) unfolding pending_close_reconciliation_evidence_def Let_def assms(2-4) bind_res_simps
      known_def m_def s_def by (simp only: sum.inject)
  have debts: "length (filter is_evidence_debt items) = ?k + s" unfolding items by (simp add: debt)
  have "s \<le> nat debts - ?k" "s \<le> m" by (simp_all add: s_def)
  then have "?k + s \<le> max ?k (nat debts)" by (cases "nat debts \<le> ?k") simp_all
  with debts have "length (filter is_evidence_debt items) \<le> max ?k (max (nat debts) (nat debts))" by simp
  then have "int (length (filter is_evidence_debt items)) \<le> int (max ?k (max (nat debts) (nat debts)))" by (simp only: of_nat_le_iff)
  then have bound: "int (length (filter is_evidence_debt items)) \<le> max (int ?k) debts" by (simp only: int_max_nat max.idem)
  have "length items = max (length known) (max (nat n) (nat tot))"
    using arg_cong [OF items, of length] \<open>s \<le> m\<close> by (simp add: m_def)
  then have "int (length items) = max (int (length known)) (max n tot)" by (simp only: int_max_nat)
  moreover have "take (length known) items = known" unfolding items by simp
  ultimately show ?thesis using debts bound by simp
qed

definition sample_compact_state :: pyval where
  "sample_compact_state = PDict [(''pending_close_reconciliation_count'', PInt 2),
     (''pending_close_reconciliation_summary'', PDict [(''total_count'', PInt 3), (''evidence_debt_count'', PInt 1)])]"

lemma reconciliation_evidence_bounds_witness:
  "\<exists>items. pending_close_reconciliation_evidence sample_compact_state = Inr items \<and> int (length items) = 3"
proof -
  let ?i = "projr (pending_close_reconciliation_evidence sample_compact_state)"
  have i: "pending_close_reconciliation_evidence sample_compact_state = Inr ?i"
    by (simp add: pending_close_reconciliation_evidence_def sample_compact_state_def count_or_zero_def summary_field_def
        materialized_reconciliations_def Let_def)
  from reconciliation_evidence_bounds [OF i, of 2 3 1] have "int (length ?i) = 3"
    by (simp add: sample_compact_state_def count_or_zero_def summary_field_def materialized_reconciliations_def)
  with i show ?thesis by blast
qed

text \<open>A venue payload that carries an error next to the rows of its symbols is taken for a failed
  endpoint as a whole: the rows are hidden, and the core allows entries on an evidence gap.\<close>

lemma annotated_venue_rows_are_hidden:
  fixes rows :: pyval
  defines "t \<equiv> PDict [(''positions'', PDict [(''okx'', PDict [(''error'', PStr ''rate limited''), (''BTCUSDT'', rows)])])]"
  shows "exchange_positions t = [] \<and> rd_entry_allowed (decide_recovery (empty_snapshot\<lparr>rs_exchange_truth := t\<rparr>))"
proof -
  have e: "exchange_positions t = []" "exchange_open_orders t = []"
    by (simp_all add: t_def exchange_positions_def exchange_open_orders_def flatten_exchange_collection_def venue_rows_def
        concrete_row_keys_def)
  have "live_artifact_block_reason (empty_snapshot\<lparr>rs_exchange_truth := t\<rparr>) = None"
    using e by (simp add: live_artifact_block_reason_def empty_snapshot_def Let_def is_complete_account_truth_def t_def truth_scope_def
        py_lower_def py_strip_def)
  then show ?thesis using e
    by (simp add: decide_entry empty_snapshot_def account_truth_required_def has_local_recovery_work_def has_items_def
        has_truth_required_recovery_context_def)
qed

end
