(* ===== verification/Recovery_Ledger.thy ===== *)
theory Recovery_Ledger
  imports Recovery_Core
begin

text \<open>
  The recovery ledger (\<open>engine/recovery_ledger.py\<close>): the work that recovery has to do, as a list of
  work items made from the local state and the truth of the exchanges. Entries ask it whether a
  candidate may be opened (\<open>engine/entry_gate_runtime.py\<close>): a live artifact that nobody owns blocks
  every candidate, other work blocks its own symbol and venues only.

  The lemmas: the items of a ledger have distinct keys and nothing that was added is lost; what a
  candidate that passes can rely on; when a symbol is called flat; and that what passes the ledger
  also passes the artifact check of the decision core (\<open>Recovery_Core\<close>).
\<close>

section \<open>Work items\<close>

text \<open>What a work item was made from: a row of the exchange, a missing leg, or a local record.\<close>

datatype artifact_raw = Row obj | Missing exchange_artifact

record work_artifact =
  ar_kind :: string
  ar_symbol :: string
  ar_venue :: string
  ar_side :: string
  ar_quantity :: pyfloat
  ar_price :: pyfloat
  ar_reduce_only :: bool
  ar_order_id :: string
  ar_client_order_id :: string
  ar_raw :: artifact_raw

text \<open>The evidence of an owner: that of the index, the raw data of a missing leg, the name of a local
  source, or the status and reason of a reconciliation.\<close>

datatype work_evidence =
    Of_Index owner_evidence | Of_Missing exchange_artifact | Of_Source string | Of_Reconciliation string string

record work_owner =
  wo_type :: string
  wo_id :: string
  wo_confidence :: string
  wo_evidence :: work_evidence

record work_decision =
  wd_outcome :: string
  wd_reason :: string
  wd_blocking :: bool

record work_item =
  wk_kind :: string
  wk_symbol :: string
  wk_venues :: "string set"
  wk_artifacts :: "work_artifact list"
  wk_owner :: "work_owner option"
  wk_decision :: work_decision
  wk_blocking :: bool

record recovery_ledger =
  lg_work_items :: "work_item list"
  lg_truth_available :: bool
  lg_live_symbols :: "string set"
  lg_positive_fill_symbols :: "string set"

definition decided :: "string \<Rightarrow> string \<Rightarrow> bool \<Rightarrow> work_decision" where
  "decided outcome reason blocking = \<lparr>wd_outcome = outcome, wd_reason = reason, wd_blocking = blocking\<rparr>"

definition work_key :: "work_item \<Rightarrow> string \<times> string \<times> string" where
  "work_key w = (wk_kind w, wk_symbol w, case wk_owner w of None \<Rightarrow> [] | Some o' \<Rightarrow> wo_id o')"

text \<open>An item with the key of an earlier one gives it its artifacts and venues, nothing else.\<close>

definition merge_work :: "work_item \<Rightarrow> work_item \<Rightarrow> work_item" where
  "merge_work previous item = previous\<lparr>wk_artifacts := wk_artifacts previous @ wk_artifacts item,
     wk_venues := wk_venues previous \<union> wk_venues item\<rparr>"

primrec add_work :: "work_item \<Rightarrow> work_item list \<Rightarrow> work_item list" where
  "add_work item [] = [item]"
| "add_work item (w # ws) = (if work_key w = work_key item then merge_work w item # ws else w # add_work item ws)"

definition add_all :: "work_item list \<Rightarrow> work_item list \<Rightarrow> work_item list" where
  "add_all ws items = foldl (\<lambda>ws item. add_work item ws) ws items"

section \<open>Reading local records\<close>

definition ledger_float :: "pyval \<Rightarrow> pyfloat" where
  "ledger_float v = (case py_float (py_or v (PInt 0)) of Inl _ \<Rightarrow> Fin 0 | Inr NaN \<Rightarrow> Fin 0 | Inr x \<Rightarrow> x)"

definition ledger_symbol :: "pyval \<Rightarrow> string" where
  "ledger_symbol v =
     (let s = py_symbol v
      in canonical_symbol_from_venue (py_venue v)
           (if s \<noteq> [] then s else py_symbol (py_get v ''position_snapshot'' (PDict []))))"

definition some_venues :: "string list \<Rightarrow> string set" where
  "some_venues vs = set (filter (\<lambda>v. v \<noteq> []) vs)"

definition venues_from_local_entry :: "pyval \<Rightarrow> string set" where
  "venues_from_local_entry e = some_venues (map (field_venue e) [''long_venue'', ''short_venue'', ''maker_venue'', ''hedge_venue''])"

definition venues_from_close :: "pyval \<Rightarrow> string list" where
  "venues_from_close c =
     (let snapshot = py_get c ''position_snapshot'' PNone
      in map (field_venue c) [''venue'', ''long_venue'', ''short_venue''] @ map (field_venue snapshot) [''long_venue'', ''short_venue''])"

definition venues_from_candidate :: "pyval \<Rightarrow> string set" where
  "venues_from_candidate c = some_venues (map (field_venue c) [''venue'', ''long_venue'', ''short_venue''])"

definition raw_mapping :: "pyval \<Rightarrow> artifact_raw" where
  "raw_mapping v = Row (case v of PDict d \<Rightarrow> d | _ \<Rightarrow> [])"

definition ledger_truth_available :: "pyval \<Rightarrow> bool" where
  "ledger_truth_available t \<longleftrightarrow> exchange_truth_available t \<and> \<not> has_partial_exchange_evidence t"

definition local_items :: "pyval \<Rightarrow> string \<Rightarrow> pyval list" where
  "local_items local k = as_items (py_get local k (PList []))"


section \<open>Work from local records\<close>

definition local_owner_of :: "string \<Rightarrow> string \<Rightarrow> string \<Rightarrow> work_owner" where
  "local_owner_of type' id' source = \<lparr>wo_type = type', wo_id = id', wo_confidence = ''proven'', wo_evidence = Of_Source source\<rparr>"

definition index_owner_of :: "recovery_owner \<Rightarrow> work_owner" where
  "index_owner_of o' = \<lparr>wo_type = ro_type o', wo_id = ro_id o', wo_confidence = ro_confidence o',
     wo_evidence = Of_Index (ro_evidence o')\<rparr>"

definition ambiguous_items :: "pyval \<Rightarrow> work_item list" where
  "ambiguous_items t = (if ledger_truth_available t then [] else
     [\<lparr>wk_kind = ''ambiguous_exchange_truth'', wk_symbol = [], wk_venues = {}, wk_artifacts = [], wk_owner = None,
       wk_decision = decided ''evidence_gap_observed'' ''exchange_truth_unavailable_without_recovery_work'' False,
       wk_blocking = False\<rparr>])"

definition pending_item :: "pyval \<Rightarrow> work_item" where
  "pending_item pending =
     (let symbol = ledger_symbol pending
      in \<lparr>wk_kind = ''owned_pending_entry'', wk_symbol = symbol, wk_venues = venues_from_local_entry pending,
          wk_artifacts = [],
          wk_owner = Some (local_owner_of ''pending_entry''
            (py_str (py_get pending ''pending_id'' (py_get pending ''position_id'' (PStr symbol)))) ''local_pending_entry''),
          wk_decision = decided ''managed_open_position'' ''pending_entry_requires_terminalizer'' True,
          wk_blocking = True\<rparr>)"

definition pending_filled :: "pyval \<Rightarrow> bool" where
  "pending_filled pending \<longleftrightarrow>
     float_above eps (ledger_float (py_get pending ''maker_leg_filled'' (PInt 0))) \<or>
     float_above eps (ledger_float (py_get pending ''hedge_leg_filled'' (PInt 0)))"

definition with_symbol :: "pyval list \<Rightarrow> pyval list" where
  "with_symbol = filter (\<lambda>v. ledger_symbol v \<noteq> [])"

definition fill_quantity :: "pyval \<Rightarrow> pyfloat" where
  "fill_quantity fill = ledger_float (py_get fill ''filled_quantity'' (py_get fill ''quantity'' (PInt 0)))"

definition positive_fill :: "pyval \<Rightarrow> bool" where
  "positive_fill fill \<longleftrightarrow>
     float_above eps (fill_quantity fill) \<or> py_contains ''positive'' (py_lower (field_text fill ''classification''))"

definition fill_item :: "pyval \<Rightarrow> work_item" where
  "fill_item fill =
     (let symbol = ledger_symbol fill;
          ident = text_of (py_get fill ''client_order_id'' (py_get fill ''order_id'' (PStr symbol)))
      in \<lparr>wk_kind = ''owned_pending_entry'', wk_symbol = symbol, wk_venues = some_venues [py_venue fill],
          wk_artifacts = [\<lparr>ar_kind = ''fill_evidence'', ar_symbol = symbol, ar_venue = py_venue fill,
            ar_side = py_lower (field_text fill ''side''), ar_quantity = fill_quantity fill,
            ar_price = ledger_float (py_get fill ''average_price'' (PInt 0)), ar_reduce_only = False,
            ar_order_id = field_text fill ''order_id'', ar_client_order_id = field_text fill ''client_order_id'',
            ar_raw = raw_mapping fill\<rparr>],
          wk_owner = Some (local_owner_of ''fill_evidence'' (if ident \<noteq> [] then ident else symbol) ''local_fill_evidence''),
          wk_decision = decided ''managed_open_position'' ''positive_fill_requires_recovery'' True,
          wk_blocking = True\<rparr>)"

section \<open>Work from the exchange\<close>

definition missing_item :: "exchange_artifact \<Rightarrow> work_item" where
  "missing_item m =
     \<lparr>wk_kind = ''unpaired_live_position'', wk_symbol = ea_symbol m, wk_venues = {ea_venue m},
      wk_artifacts = [\<lparr>ar_kind = ea_kind m, ar_symbol = ea_symbol m, ar_venue = ea_venue m, ar_side = ea_side m,
        ar_quantity = ea_quantity m, ar_price = Fin 0, ar_reduce_only = False, ar_order_id = [], ar_client_order_id = [],
        ar_raw = Missing m\<rparr>],
      wk_owner = Some \<lparr>wo_type = ''exchange_position'', wo_id = ea_symbol m, wo_confidence = ''orphan'',
        wo_evidence = Of_Missing m\<rparr>,
      wk_decision = decided ''fail_closed_operator_block'' ''owned_live_pair_missing_leg'' True, wk_blocking = True\<rparr>"

definition missing_items :: "owner_index \<Rightarrow> pyval \<Rightarrow> work_item list" where
  "missing_items ix t = (if is_complete_account_truth t
     then map missing_item (missing_position_claims ix (exchange_positions t)) else [])"

definition ledger_flat :: "pyval \<Rightarrow> bool" where
  "ledger_flat p = (case field_float p ''quantity'' of Fin q \<Rightarrow> \<bar>q\<bar> \<le> eps | _ \<Rightarrow> False)"

definition pending_owner_types :: "string list" where
  "pending_owner_types = [''pending_entry'', ''journal_pending_entry'', ''journal_entry_submission'']"

fun position_item :: "pyval \<times> recovery_owner \<Rightarrow> work_item" where
  "position_item (p, owner) =
    (let symbol = ledger_symbol p; venue = py_venue p;
         artifact = \<lparr>ar_kind = ''position'', ar_symbol = symbol, ar_venue = venue, ar_side = py_lower (field_text p ''side''),
           ar_quantity = field_float p ''quantity'', ar_price = ledger_float (py_get p ''entry_price'' (PInt 0)),
           ar_reduce_only = False, ar_order_id = [], ar_client_order_id = [], ar_raw = raw_mapping p\<rparr>;
         item = (\<lambda>kind decision blocking. \<lparr>wk_kind = kind, wk_symbol = symbol, wk_venues = some_venues [venue],
           wk_artifacts = [artifact], wk_owner = Some (index_owner_of owner), wk_decision = decision, wk_blocking = blocking\<rparr>)
     in if ro_confidence owner = ''orphan''
        then item ''unpaired_live_position'' (decided ''fail_closed_operator_block'' ''live_position_without_runtime_owner'' True) True
        else if ro_type owner \<in> set pending_owner_types
        then item ''owned_pending_entry_live_conflict'' (decided ''pending_entry_live_conflict_requires_cleanup''
               ''exchange_position_owned_by_positive_fill_pending_entry'' True) True
        else item ''owned_open_position'' (decided ''managed_open_position'' ''exchange_position_has_runtime_owner'' False) False)"

definition live_positions :: "owner_index \<Rightarrow> pyval \<Rightarrow> (pyval \<times> recovery_owner) list" where
  "live_positions ix t =
     filter (\<lambda>(p, _). \<not> ledger_flat p) (zip (exchange_positions t) (owners_for_positions ix (exchange_positions t)))"

definition order_artifact :: "pyval \<Rightarrow> work_artifact" where
  "order_artifact order =
     \<lparr>ar_kind = ''open_order'', ar_symbol = ledger_symbol order, ar_venue = py_venue order,
      ar_side = py_lower (field_text order ''side''),
      ar_quantity = float_or_nan (py_get order ''quantity'' (py_get order ''qty'' PNone)),
      ar_price = ledger_float (py_get order ''price'' (PInt 0)),
      ar_reduce_only = truth (py_get order ''reduce_only'' (PBool False)),
      ar_order_id = field_text order ''order_id'', ar_client_order_id = field_text order ''client_order_id'',
      ar_raw = raw_mapping order\<rparr>"

definition order_owner :: "owner_index \<Rightarrow> work_artifact \<Rightarrow> recovery_owner" where
  "order_owner ix a = owner_for_order ix
     (PObj [] [(''order_id'', PStr (ar_order_id a)), (''client_order_id'', PStr (ar_client_order_id a))])"

definition order_item :: "owner_index \<Rightarrow> pyval \<Rightarrow> work_item" where
  "order_item ix order =
     (let a = order_artifact order; owner = order_owner ix a;
          item = (\<lambda>kind owner decision. \<lparr>wk_kind = kind, wk_symbol = ar_symbol a, wk_venues = some_venues [ar_venue a],
            wk_artifacts = [a], wk_owner = Some owner, wk_decision = decision, wk_blocking = True\<rparr>);
          orphan = \<lparr>wo_type = ''exchange_order'',
            wo_id = (if ar_order_id a \<noteq> [] then ar_order_id a else ar_client_order_id a),
            wo_confidence = ''orphan'', wo_evidence = Of_Source ''exchange_truth''\<rparr>
      in if ro_confidence owner \<noteq> ''orphan''
         then item ''owned_pending_entry'' (index_owner_of owner)
                (decided ''owned_order_cancel_requested'' ''live_order_has_runtime_owner'' True)
         else if ar_reduce_only a
         then item ''orphan_reduce_only_order'' orphan
                (decided ''reduce_only_cleanup_submitted'' ''live_order_without_runtime_owner'' True)
         else item ''orphan_maker_order'' orphan
                (decided ''fail_closed_operator_block'' ''live_order_without_runtime_owner'' True))"

section \<open>The ledger\<close>

definition kind_symbols :: "string list \<Rightarrow> work_item list \<Rightarrow> string set" where
  "kind_symbols kinds ws = set (map wk_symbol (filter (\<lambda>w. wk_kind w \<in> set kinds) ws))"

definition residual_item :: "bool \<Rightarrow> work_item list \<Rightarrow> pyval \<Rightarrow> work_item" where
  "residual_item truth_available ws task =
     (let symbol = ledger_symbol task;
          live_flat = (symbol \<notin> kind_symbols [''orphan_maker_order'', ''orphan_reduce_only_order''] ws \<and>
            symbol \<notin> kind_symbols [''unpaired_live_position'', ''owned_open_position'', ''owned_pending_entry_live_conflict''] ws)
      in \<lparr>wk_kind = ''pending_residual_repair'', wk_symbol = symbol, wk_venues = some_venues [py_venue task],
          wk_artifacts = [],
          wk_owner = Some (local_owner_of ''residual_repair''
            (py_str (py_get task ''repair_id'' (py_get task ''task_id'' (PStr symbol)))) ''local_residual_repair''),
          wk_decision = decided (if live_flat \<and> truth_available then ''proven_flat'' else ''residual_repair_queued'')
            ''residual_repair_requires_terminal_resolution'' True,
          wk_blocking = True\<rparr>)"

definition passive_close_item :: "pyval \<Rightarrow> work_item" where
  "passive_close_item close =
     (let symbol = ledger_symbol close
      in \<lparr>wk_kind = ''pending_passive_close'', wk_symbol = symbol, wk_venues = some_venues (venues_from_close close),
          wk_artifacts = [],
          wk_owner = Some (local_owner_of ''passive_close'' (py_str (py_get close ''position_id'' (PStr symbol)))
            ''local_passive_close''),
          wk_decision = decided ''pending_passive_close'' ''passive_close_requires_recovery'' True, wk_blocking = True\<rparr>)"

text \<open>A closing that lacks only accounting evidence, of a pair the exchange shows flat, does not block.\<close>

definition background_accounting_debt :: "pyval \<Rightarrow> pyval \<Rightarrow> bool" where
  "background_accounting_debt t r \<longleftrightarrow>
     is_evidence_debt r \<and>
     complete_flat_truth_for_pair t (PStr (ledger_symbol r)) (PTuple (map PStr (venues_from_close r)))"

fun reconciliation_item :: "pyval \<Rightarrow> nat \<times> pyval \<Rightarrow> work_item" where
  "reconciliation_item t (index, r) =
    (let position_id = text_of (py_get r ''position_id'' (py_get r ''close_id'' (PStr [])));
         debt = background_accounting_debt t r
     in \<lparr>wk_kind = ''pending_close_reconciliation'', wk_symbol = ledger_symbol r,
         wk_venues = some_venues (venues_from_close r), wk_artifacts = [],
         wk_owner = Some \<lparr>wo_type = ''close_reconciliation'',
           wo_id = (if position_id \<noteq> [] then position_id else ''compact-'' @ nat_text index),
           wo_confidence = (if position_id \<noteq> [] then ''proven'' else ''inferred''),
           wo_evidence = Of_Reconciliation (py_lower (field_text r ''reconciliation_status''))
             (field_text r ''evidence_debt_reason'')\<rparr>,
         wk_decision = decided (if debt then ''background_accounting_reconciliation'' else ''pending_close_reconciliation'')
           (if debt then ''close_reconciliation_requires_accounting_evidence''
            else ''close_reconciliation_requires_terminal_resolution'') (\<not> debt),
         wk_blocking = (\<not> debt)\<rparr>)"

text \<open>The items in the order in which they are added; those of residuals look at the ones before.\<close>

definition items_before_residuals :: "pyval \<Rightarrow> pyval \<Rightarrow> owner_index \<Rightarrow> work_item list" where
  "items_before_residuals local t ix =
     ambiguous_items t @ map pending_item (with_symbol (local_items local ''pending_entries'')) @
     map fill_item (filter positive_fill (local_items local ''fill_evidence'')) @
     missing_items ix t @ map position_item (live_positions ix t) @ map (order_item ix) (exchange_open_orders t)"

definition items_from_residuals :: "pyval \<Rightarrow> pyval \<Rightarrow> work_item list \<Rightarrow> pyval list \<Rightarrow> work_item list" where
  "items_from_residuals local t ws reconciliations =
     map (residual_item (ledger_truth_available t) ws) (with_symbol (local_items local ''pending_residual_repairs'')) @
     map passive_close_item (local_items local ''pending_passive_closes'') @
     map (reconciliation_item t) (enumerate 0 reconciliations)"

definition from_local_and_exchange_truth :: "pyval \<Rightarrow> pyval \<Rightarrow> owner_index option \<Rightarrow> py_exc + recovery_ledger" where
  "from_local_and_exchange_truth local t index =
     (let ix = (case index of None \<Rightarrow> from_state local | Some ix \<Rightarrow> ix)
      in bind_res (pending_close_reconciliation_evidence local) (\<lambda>reconciliations.
           let ws = add_all [] (items_before_residuals local t ix)
           in Inr \<lparr>lg_work_items = add_all ws (items_from_residuals local t ws reconciliations),
                lg_truth_available = ledger_truth_available t,
                lg_live_symbols = set (map (ledger_symbol \<circ> fst) (live_positions ix t) @
                  map ledger_symbol (exchange_open_orders t)),
                lg_positive_fill_symbols = set (map ledger_symbol
                  (filter pending_filled (with_symbol (local_items local ''pending_entries'')) @
                   filter positive_fill (local_items local ''fill_evidence'')))\<rparr>))"

definition from_incident_fixture :: "pyval \<Rightarrow> py_exc + recovery_ledger" where
  "from_incident_fixture fixture =
     from_local_and_exchange_truth (py_get fixture ''local'' (PDict [])) (py_get fixture ''exchange_truth'' (PDict [])) None"

section \<open>What the ledger answers\<close>

definition blocks_all_new_entries :: "work_item \<Rightarrow> bool" where
  "blocks_all_new_entries w \<longleftrightarrow> wk_blocking w \<and> wk_kind w \<in> set LIVE_ARTIFACT_BLOCK_REASONS"

definition recovery_work_item_blocks_candidate :: "work_item \<Rightarrow> pyval \<Rightarrow> bool" where
  "recovery_work_item_blocks_candidate w candidate =
     (if \<not> wk_blocking w then False
      else if wk_kind w \<in> set LIVE_ARTIFACT_BLOCK_REASONS then True
      else let cs = ledger_symbol candidate; ws = py_upper (wk_symbol w);
               cv = venues_from_candidate candidate; wv = py_lower ` (wk_venues w - {[]})
           in if cs \<noteq> [] \<and> ws \<noteq> []
              then if cs \<noteq> ws then False
                   else if wk_kind w = ''pending_close_reconciliation'' then cv = {} \<or> wv = {} \<or> cv = wv
                   else cv = {} \<or> wv = {} \<or> cv \<inter> wv \<noteq> {}
              else cv \<inter> wv \<noteq> {})"

definition allows_new_entry :: "recovery_ledger \<Rightarrow> pyval \<Rightarrow> bool" where
  "allows_new_entry ledger candidate \<longleftrightarrow>
     \<not> list_ex (\<lambda>w. recovery_work_item_blocks_candidate w candidate) (lg_work_items ledger)"

definition is_proven_flat :: "recovery_ledger \<Rightarrow> string \<Rightarrow> bool" where
  "is_proven_flat ledger symbol =
     (if \<not> lg_truth_available ledger then False
      else if py_upper symbol \<in> lg_live_symbols ledger then False
      else list_all (\<lambda>w. wk_symbol w \<noteq> py_upper symbol) (filter wk_blocking (lg_work_items ledger)))"

definition contains_positive_fill_evidence :: "recovery_ledger \<Rightarrow> string \<Rightarrow> bool" where
  "contains_positive_fill_evidence ledger symbol \<longleftrightarrow> py_upper symbol \<in> lg_positive_fill_symbols ledger"

declare position_item.simps [simp del] reconciliation_item.simps [simp del]

section \<open>Nothing is lost\<close>

lemma merge_work_simps [simp]:
  "work_key (merge_work w item) = work_key w" "wk_kind (merge_work w item) = wk_kind w"
  "wk_symbol (merge_work w item) = wk_symbol w" "wk_blocking (merge_work w item) = wk_blocking w"
  "wk_owner (merge_work w item) = wk_owner w" "wk_decision (merge_work w item) = wk_decision w"
  "wk_artifacts (merge_work w item) = wk_artifacts w @ wk_artifacts item"
  "wk_venues (merge_work w item) = wk_venues w \<union> wk_venues item"
  by (simp_all add: merge_work_def work_key_def)

lemma add_work_keys:
  "map work_key (add_work item ws) =
     (if work_key item \<in> set (map work_key ws) then map work_key ws else map work_key ws @ [work_key item])"
  by (induction ws) auto

lemma add_work_all:
  "P item \<Longrightarrow> (\<And>w. P w \<Longrightarrow> P (merge_work w item)) \<Longrightarrow> list_all P ws \<Longrightarrow> list_all P (add_work item ws)"
  by (induction ws) auto

text \<open>An item that is covered by another: same key, no artifact and no venue more.\<close>

definition covered_by :: "work_item \<Rightarrow> work_item \<Rightarrow> bool" where
  "covered_by x w \<longleftrightarrow>
     work_key w = work_key x \<and> set (wk_artifacts x) \<subseteq> set (wk_artifacts w) \<and> wk_venues x \<subseteq> wk_venues w"

lemma covered_refl [simp]: "covered_by x x"
  by (simp add: covered_by_def)

lemma covered_kind: "covered_by x w \<Longrightarrow> wk_kind w = wk_kind x \<and> wk_symbol w = wk_symbol x"
  by (simp add: covered_by_def work_key_def)

lemma add_work_covers: "\<exists>w\<in>set (add_work item ws). covered_by item w"
  by (induction ws) (auto simp: covered_by_def)

lemma add_work_keeps: "x \<in> set ws \<Longrightarrow> \<exists>w\<in>set (add_work item ws). covered_by x w"
  by (induction ws) (auto simp: covered_by_def)

lemma add_all_simps [simp]:
  "add_all ws [] = ws" "add_all ws (x # xs) = add_all (add_work x ws) xs"
  by (simp_all add: add_all_def)

lemma add_all_append: "add_all ws (xs @ ys) = add_all (add_all ws xs) ys"
  by (simp add: add_all_def)

lemma covered_trans: "covered_by x y \<Longrightarrow> covered_by y z \<Longrightarrow> covered_by x z"
  by (auto simp: covered_by_def)

lemma add_all_keeps: "x \<in> set ws \<Longrightarrow> \<exists>w\<in>set (add_all ws items). covered_by x w"
proof (induction items arbitrary: x ws)
  case (Cons item items)
  from add_work_keeps [OF Cons.prems] obtain y where "y \<in> set (add_work item ws)" "covered_by x y" by blast
  with Cons.IH [of y "add_work item ws"] show ?case by (auto intro: covered_trans)
qed (metis add_all_simps(1) covered_refl)

lemma add_all_covers: "x \<in> set items \<Longrightarrow> \<exists>w\<in>set (add_all ws items). covered_by x w"
proof (induction items arbitrary: ws)
  case (Cons item items)
  show ?case
  proof (cases "x = item")
    case True
    obtain y where "y \<in> set (add_work item ws)" "covered_by item y" using add_work_covers by blast
    with add_all_keeps [of y "add_work item ws" items] True show ?thesis by (auto intro: covered_trans)
  next
    case False
    with Cons show ?thesis by simp
  qed
qed simp

lemma add_all_distinct: "distinct (map work_key ws) \<Longrightarrow> distinct (map work_key (add_all ws items))"
  by (induction items arbitrary: ws) (simp_all add: add_work_keys)

lemma add_all_all:
  assumes "\<And>x. x \<in> set items \<Longrightarrow> P x" and "\<And>x w. P w \<Longrightarrow> P (merge_work w x)" and "list_all P ws"
  shows "list_all P (add_all ws items)"
  using assms(1,3) by (induction items arbitrary: ws) (simp_all add: add_work_all assms(2))

lemma add_all_from:
  "w \<in> set (add_all ws items) \<Longrightarrow>
     \<exists>x\<in>set (ws @ items). work_key x = work_key w \<and> wk_blocking x = wk_blocking w"
proof -
  assume w: "w \<in> set (add_all ws items)"
  let ?P = "\<lambda>w. \<exists>x\<in>set (ws @ items). work_key x = work_key w \<and> wk_blocking x = wk_blocking w"
  have "list_all ?P (add_all ws items)"
    by (rule add_all_all) (auto simp: list_all_iff)
  with w show ?thesis by (auto simp: list_all_iff)
qed

lemma from_local_iff:
  "from_local_and_exchange_truth local t index = Inr ledger \<longleftrightarrow>
     (\<exists>rs. pending_close_reconciliation_evidence local = Inr rs \<and>
       (let ix = (case index of None \<Rightarrow> from_state local | Some ix \<Rightarrow> ix);
            ws = add_all [] (items_before_residuals local t ix)
        in ledger = \<lparr>lg_work_items = add_all ws (items_from_residuals local t ws rs),
                lg_truth_available = ledger_truth_available t,
                lg_live_symbols = set (map (ledger_symbol \<circ> fst) (live_positions ix t) @
                  map ledger_symbol (exchange_open_orders t)),
                lg_positive_fill_symbols = set (map ledger_symbol
                  (filter pending_filled (with_symbol (local_items local ''pending_entries'')) @
                   filter positive_fill (local_items local ''fill_evidence'')))\<rparr>))"
  by (simp only: from_local_and_exchange_truth_def Let_def bind_res_returns) auto

text \<open>The items that went in, for the residuals with the ones before.\<close>

definition ledger_inputs :: "pyval \<Rightarrow> pyval \<Rightarrow> owner_index option \<Rightarrow> pyval list \<Rightarrow> work_item list" where
  "ledger_inputs local t index rs =
     (let ix = (case index of None \<Rightarrow> from_state local | Some ix \<Rightarrow> ix); before = items_before_residuals local t ix
      in before @ items_from_residuals local t (add_all [] before) rs)"

lemma ledger_items:
  assumes "from_local_and_exchange_truth local t index = Inr ledger"
  obtains rs where "pending_close_reconciliation_evidence local = Inr rs"
    and "lg_work_items ledger = add_all [] (ledger_inputs local t index rs)"
    and "lg_truth_available ledger = ledger_truth_available t"
    and "lg_live_symbols ledger = ledger_symbol ` (fst ` set (live_positions
           (case index of None \<Rightarrow> from_state local | Some ix \<Rightarrow> ix) t) \<union> set (exchange_open_orders t))"
  using assms unfolding from_local_iff Let_def
  by (elim exE conjE) (simp add: ledger_inputs_def add_all_append image_Un image_image Let_def)

section \<open>Which work blocks\<close>

definition usual_verdict :: "work_item \<Rightarrow> bool" where
  "usual_verdict w \<longleftrightarrow> wk_kind w = ''pending_close_reconciliation'' \<or>
     wk_blocking w = (wk_kind w \<notin> {''ambiguous_exchange_truth'', ''owned_open_position''})"

lemma item_usual [simp]:
  "usual_verdict (pending_item v)" "usual_verdict (fill_item v)" "usual_verdict (missing_item m)"
  "usual_verdict (position_item po)" "usual_verdict (order_item ix v)" "usual_verdict (residual_item b ws v)"
  "usual_verdict (passive_close_item v)" "usual_verdict (reconciliation_item t ir)"
  by (cases po; cases ir; simp add: usual_verdict_def pending_item_def fill_item_def missing_item_def
      order_item_def residual_item_def passive_close_item_def Let_def position_item.simps
      reconciliation_item.simps)+

lemma items_usual [simp]:
  "list_all usual_verdict (ambiguous_items t)" "list_all usual_verdict (missing_items ix t)"
  "list_all usual_verdict (map pending_item ps)" "list_all usual_verdict (map fill_item ps)"
  "list_all usual_verdict (map position_item pos)" "list_all usual_verdict (map (order_item ix) os)"
  "list_all usual_verdict (map (residual_item b ws) ps)" "list_all usual_verdict (map passive_close_item ps)"
  "list_all usual_verdict (map (reconciliation_item t) irs)"
  by (simp add: ambiguous_items_def usual_verdict_def) (auto simp: missing_items_def list_all_iff)

lemma inputs_usual: "list_all usual_verdict (ledger_inputs local t index rs)"
  unfolding ledger_inputs_def items_before_residuals_def items_from_residuals_def Let_def list_all_append
  by (intro conjI items_usual)

lemma input_blocks:
  assumes "from_local_and_exchange_truth local t index = Inr ledger"
    and "pending_close_reconciliation_evidence local = Inr rs" and "x \<in> set (ledger_inputs local t index rs)"
    and "wk_kind x \<noteq> ''pending_close_reconciliation''"
  shows "\<exists>w\<in>set (lg_work_items ledger). covered_by x w \<and> wk_blocking w = wk_blocking x"
proof -
  from assms(1,2) have items: "lg_work_items ledger = add_all [] (ledger_inputs local t index rs)"
    by (auto elim: ledger_items)
  from add_all_covers [OF assms(3)] items obtain w where w: "w \<in> set (lg_work_items ledger)" "covered_by x w" by auto
  have "list_all usual_verdict (lg_work_items ledger)"
    unfolding items using inputs_usual [of local t index rs] by (intro add_all_all) (simp_all add: list_all_iff usual_verdict_def)
  with w(1) have "usual_verdict w" by (simp add: list_all_iff)
  moreover have "usual_verdict x" using inputs_usual assms(3) by (simp add: list_all_iff)
  ultimately show ?thesis using covered_kind [OF w(2)] assms(4) w by (auto simp: usual_verdict_def)
qed

lemma default_index:
  "from_local_and_exchange_truth local t None = from_local_and_exchange_truth local t (Some (from_state local))"
  by (simp add: from_local_and_exchange_truth_def)

text \<open>What the inputs contain, one fact per kind of record.\<close>

lemma input_members:
  "p \<in> set (with_symbol (local_items local ''pending_entries'')) \<Longrightarrow> pending_item p \<in> set (ledger_inputs local t (Some ix) rs)"
  "f \<in> set (local_items local ''fill_evidence'') \<Longrightarrow> positive_fill f \<Longrightarrow> fill_item f \<in> set (ledger_inputs local t (Some ix) rs)"
  "m \<in> set (missing_position_claims ix (exchange_positions t)) \<Longrightarrow> is_complete_account_truth t \<Longrightarrow>
     missing_item m \<in> set (ledger_inputs local t (Some ix) rs)"
  "po \<in> set (live_positions ix t) \<Longrightarrow> position_item po \<in> set (ledger_inputs local t (Some ix) rs)"
  "order \<in> set (exchange_open_orders t) \<Longrightarrow> order_item ix order \<in> set (ledger_inputs local t (Some ix) rs)"
  "c \<in> set (local_items local ''pending_passive_closes'') \<Longrightarrow> passive_close_item c \<in> set (ledger_inputs local t (Some ix) rs)"
  by (simp_all add: ledger_inputs_def items_before_residuals_def items_from_residuals_def Let_def missing_items_def)

lemma residual_member:
  "r \<in> set (with_symbol (local_items local ''pending_residual_repairs'')) \<Longrightarrow>
     residual_item (ledger_truth_available t) (add_all [] (items_before_residuals local t ix)) r
       \<in> set (ledger_inputs local t (Some ix) rs)"
  by (simp add: ledger_inputs_def items_from_residuals_def Let_def)

lemma pending_fields [simp]:
  "wk_kind (pending_item p) = ''owned_pending_entry''" "wk_symbol (pending_item p) = ledger_symbol p"
  "wk_venues (pending_item p) = venues_from_local_entry p" "wk_blocking (pending_item p)"
  by (simp_all add: pending_item_def Let_def)

lemma fill_fields [simp]:
  "wk_kind (fill_item p) = ''owned_pending_entry''" "wk_symbol (fill_item p) = ledger_symbol p"
  "wk_venues (fill_item p) = some_venues [py_venue p]" "wk_blocking (fill_item p)"
  by (simp_all add: fill_item_def Let_def)

lemma missing_fields [simp]:
  "wk_kind (missing_item m) = ''unpaired_live_position''" "wk_symbol (missing_item m) = ea_symbol m"
  "wk_blocking (missing_item m)"
  by (simp_all add: missing_item_def)

lemma position_fields [simp]:
  "wk_symbol (position_item (p, o')) = ledger_symbol p" "wk_venues (position_item (p, o')) = some_venues [py_venue p]"
  "wk_kind (position_item (p, o')) = (if ro_confidence o' = ''orphan'' then ''unpaired_live_position''
     else if ro_type o' \<in> set pending_owner_types then ''owned_pending_entry_live_conflict'' else ''owned_open_position'')"
  "wk_blocking (position_item (p, o')) \<longleftrightarrow> ro_confidence o' = ''orphan'' \<or> ro_type o' \<in> set pending_owner_types"
  by (simp_all add: position_item.simps Let_def)

lemma order_fields [simp]:
  "wk_symbol (order_item ix v) = ledger_symbol v" "wk_venues (order_item ix v) = some_venues [py_venue v]"
  "wk_artifacts (order_item ix v) = [order_artifact v]" "wk_blocking (order_item ix v)"
  "wk_kind (order_item ix v) = (if ro_confidence (order_owner ix (order_artifact v)) \<noteq> ''orphan'' then ''owned_pending_entry''
     else if truth (py_get v ''reduce_only'' (PBool False)) then ''orphan_reduce_only_order'' else ''orphan_maker_order'')"
  by (simp_all add: order_item_def order_artifact_def Let_def)

lemma residual_item_fields [simp]:
  "wk_kind (residual_item b ws r) = ''pending_residual_repair''" "wk_symbol (residual_item b ws r) = ledger_symbol r"
  "wk_venues (residual_item b ws r) = some_venues [py_venue r]" "wk_blocking (residual_item b ws r)"
  by (simp_all add: residual_item_def Let_def)

lemma passive_close_fields [simp]:
  "wk_kind (passive_close_item c) = ''pending_passive_close''" "wk_symbol (passive_close_item c) = ledger_symbol c"
  "wk_venues (passive_close_item c) = some_venues (venues_from_close c)" "wk_blocking (passive_close_item c)"
  by (simp_all add: passive_close_item_def Let_def)

section \<open>What a candidate may rely on\<close>

text \<open>A candidate conflicts with work of its own symbol that shares a venue with it, or if it names
  no venue at all.\<close>

definition conflicts :: "pyval \<Rightarrow> string \<Rightarrow> string set \<Rightarrow> bool" where
  "conflicts candidate symbol venues \<longleftrightarrow>
     symbol \<noteq> [] \<and> ledger_symbol candidate = symbol \<and>
     (venues_from_candidate candidate = {} \<or> venues_from_candidate candidate \<inter> venues \<noteq> {})"

lemma upper_char_idem:
  "(let n = (of_char c :: nat) in if 97 \<le> n \<and> n \<le> 122 then char_of (n - 32) else c) = d \<Longrightarrow>
   (let n = (of_char d :: nat) in if 97 \<le> n \<and> n \<le> 122 then char_of (n - 32) else d) = d"
  by (auto simp: Let_def of_char_of take_bit_nat_def split: if_splits)

lemma py_upper_idem [simp]: "py_upper (py_upper s) = py_upper s"
  unfolding py_upper_def map_map comp_def by (rule map_cong [OF refl]) (rule upper_char_idem [OF refl])

lemma py_upper_Nil [simp]: "py_upper [] = []" "py_upper s = [] \<longleftrightarrow> s = []"
  by (simp_all add: py_upper_def)

lemma canonical_upper [simp]: "py_upper (canonical_symbol_from_venue v s) = canonical_symbol_from_venue v s"
  by (simp add: canonical_symbol_from_venue_def Let_def split: option.split)

lemma ledger_symbol_upper [simp]: "py_upper (ledger_symbol v) = ledger_symbol v"
  by (simp add: ledger_symbol_def Let_def)

lemma lower_text_lower [simp]: "py_lower (lower_text v) = lower_text v"
  by (simp add: lower_text_def)

lemma some_venues_lower:
  assumes "list_all (\<lambda>v. py_lower v = v) vs" and "v \<in> some_venues vs"
  shows "v \<noteq> [] \<and> py_lower v = v"
proof -
  from assms(2) have "v \<in> set vs" "v \<noteq> []" unfolding some_venues_def by simp_all
  with assms(1) show ?thesis by (simp add: list_all_iff)
qed

lemma lower_venues:
  "v \<in> venues_from_local_entry e \<Longrightarrow> v \<noteq> [] \<and> py_lower v = v"
  "v \<in> some_venues (venues_from_close e) \<Longrightarrow> v \<noteq> [] \<and> py_lower v = v"
  "v \<in> some_venues [py_venue e] \<Longrightarrow> v \<noteq> [] \<and> py_lower v = v"
  unfolding venues_from_local_entry_def
  by (erule some_venues_lower [rotated], simp add: venues_from_close_def field_venue_def py_venue_def Let_def)+

lemma not_blocking:
  assumes "\<not> recovery_work_item_blocks_candidate w c" and "wk_blocking w"
  shows "wk_kind w \<notin> set LIVE_ARTIFACT_BLOCK_REASONS"
    and "wk_kind w \<noteq> ''pending_close_reconciliation'' \<Longrightarrow> py_upper (wk_symbol w) = symbol \<Longrightarrow>
      (\<And>v. v \<in> venues \<Longrightarrow> v \<noteq> [] \<and> py_lower v = v) \<Longrightarrow> venues \<subseteq> wk_venues w \<Longrightarrow> \<not> conflicts c symbol venues"
proof -
  show live: "wk_kind w \<notin> set LIVE_ARTIFACT_BLOCK_REASONS"
    using assms by (simp add: recovery_work_item_blocks_candidate_def split: if_splits)
  assume k: "wk_kind w \<noteq> ''pending_close_reconciliation''" and s: "py_upper (wk_symbol w) = symbol"
    and v: "\<And>v. v \<in> venues \<Longrightarrow> v \<noteq> [] \<and> py_lower v = v" and sub: "venues \<subseteq> wk_venues w"
  show "\<not> conflicts c symbol venues"
  proof
    assume conf: "conflicts c symbol venues"
    have "x \<in> py_lower ` (wk_venues w - {[]})" if "x \<in> venues" for x
      using v [OF that] sub that by (metis DiffI image_eqI singletonD subsetD)
    then have "venues_from_candidate c = {} \<or> venues_from_candidate c \<inter> py_lower ` (wk_venues w - {[]}) \<noteq> {}"
      using conf by (auto simp: conflicts_def)
    with assms conf live k s show False
      by (simp add: recovery_work_item_blocks_candidate_def conflicts_def Let_def split: if_splits)
  qed
qed

lemma allowed_input:
  assumes "from_local_and_exchange_truth local t (Some ix) = Inr ledger" and "allows_new_entry ledger c"
    and "pending_close_reconciliation_evidence local = Inr rs" and "x \<in> set (ledger_inputs local t (Some ix) rs)"
    and "wk_blocking x" and "wk_kind x \<noteq> ''pending_close_reconciliation''"
  shows "wk_kind x \<notin> set LIVE_ARTIFACT_BLOCK_REASONS"
    and "py_upper (wk_symbol x) = symbol \<Longrightarrow> (\<And>v. v \<in> wk_venues x \<Longrightarrow> v \<noteq> [] \<and> py_lower v = v) \<Longrightarrow>
      \<not> conflicts c symbol (wk_venues x)"
proof -
  from input_blocks [OF assms(1,3,4,6)] assms(5) obtain w
    where w: "w \<in> set (lg_work_items ledger)" "covered_by x w" "wk_blocking w" by auto
  with assms(2) have free: "\<not> recovery_work_item_blocks_candidate w c" by (auto simp: allows_new_entry_def list_ex_iff)
  note same = covered_kind [OF w(2)]
  from not_blocking(1) [OF free w(3)] same show "wk_kind x \<notin> set LIVE_ARTIFACT_BLOCK_REASONS" by simp
  assume "py_upper (wk_symbol x) = symbol" "\<And>v. v \<in> wk_venues x \<Longrightarrow> v \<noteq> [] \<and> py_lower v = v"
  then show "\<not> conflicts c symbol (wk_venues x)"
    using w(2) same assms(6) by (intro not_blocking(2) [OF free w(3)]) (auto simp: covered_by_def)
qed

text \<open>C6: A candidate that the ledger lets pass finds an exchange it knows. Every position that is not
  flat belongs to an owner that is not a pending entry, every open order has an owner, no leg of a
  live local pair is missing from complete account truth; and no pending entry, fill, open order,
  residual repair or passive closing of the candidate's symbol shares a venue with it.\<close>

theorem candidate_finds_known_exchange:
  assumes "from_local_and_exchange_truth local t (Some ix) = Inr ledger" and "allows_new_entry ledger c"
  shows "(\<forall>(p, o')\<in>set (live_positions ix t). ro_confidence o' \<noteq> ''orphan'' \<and> ro_type o' \<notin> set pending_owner_types) \<and>
     (\<forall>order\<in>set (exchange_open_orders t). ro_confidence (order_owner ix (order_artifact order)) \<noteq> ''orphan'' \<and>
        \<not> conflicts c (ledger_symbol order) (some_venues [py_venue order])) \<and>
     (is_complete_account_truth t \<longrightarrow> missing_position_claims ix (exchange_positions t) = []) \<and>
     (\<forall>p\<in>set (local_items local ''pending_entries''). \<not> conflicts c (ledger_symbol p) (venues_from_local_entry p)) \<and>
     (\<forall>f\<in>set (local_items local ''fill_evidence''). positive_fill f \<longrightarrow> \<not> conflicts c (ledger_symbol f) (some_venues [py_venue f])) \<and>
     (\<forall>r\<in>set (local_items local ''pending_residual_repairs''). \<not> conflicts c (ledger_symbol r) (some_venues [py_venue r])) \<and>
     (\<forall>k\<in>set (local_items local ''pending_passive_closes''). \<not> conflicts c (ledger_symbol k) (some_venues (venues_from_close k)))"
proof -
  from assms(1) obtain rs where rs: "pending_close_reconciliation_evidence local = Inr rs" by (rule ledger_items)
  note in_ledger = input_members [where rs = rs] residual_member [where rs = rs]
  note live = allowed_input(1) [OF assms rs] and free = allowed_input(2) [OF assms rs]
  have nameless: "\<not> conflicts c [] vs" for vs by (simp add: conflicts_def)
  have "ro_confidence o' \<noteq> ''orphan'' \<and> ro_type o' \<notin> set pending_owner_types"
    if "(p, o') \<in> set (live_positions ix t)" for p o'
    using live [OF in_ledger(4) [OF that]]
    by (cases "ro_confidence o' = ''orphan''"; cases "ro_type o' \<in> set pending_owner_types")
       (simp_all add: LIVE_ARTIFACT_BLOCK_REASONS_def)
  moreover have "ro_confidence (order_owner ix (order_artifact order)) \<noteq> ''orphan'' \<and>
      \<not> conflicts c (ledger_symbol order) (some_venues [py_venue order])"
    if "order \<in> set (exchange_open_orders t)" for order
    using live [OF in_ledger(5) [OF that]] free [OF in_ledger(5) [OF that], of "ledger_symbol order"] lower_venues(3)
    by (cases "ro_confidence (order_owner ix (order_artifact order)) = ''orphan''";
        cases "truth (py_get order ''reduce_only'' (PBool False))") (auto simp: LIVE_ARTIFACT_BLOCK_REASONS_def)
  moreover have "missing_position_claims ix (exchange_positions t) = []" if "is_complete_account_truth t"
  proof (rule ccontr)
    assume "missing_position_claims ix (exchange_positions t) \<noteq> []"
    then obtain m where "m \<in> set (missing_position_claims ix (exchange_positions t))"
      by (cases "missing_position_claims ix (exchange_positions t)") auto
    from live [OF in_ledger(3) [OF this that]] show False by (simp add: LIVE_ARTIFACT_BLOCK_REASONS_def)
  qed
  moreover have "\<not> conflicts c (ledger_symbol p) (venues_from_local_entry p)"
    if "p \<in> set (local_items local ''pending_entries'')" for p
    using free [OF in_ledger(1), of p "ledger_symbol p"] that nameless lower_venues(1) [of _ p]
    by (cases "ledger_symbol p = []") (auto simp: with_symbol_def)
  moreover have "\<not> conflicts c (ledger_symbol f) (some_venues [py_venue f])"
    if "f \<in> set (local_items local ''fill_evidence'')" "positive_fill f" for f
    using free [OF in_ledger(2) [OF that], of "ledger_symbol f"] lower_venues(3) by auto
  moreover have "\<not> conflicts c (ledger_symbol r) (some_venues [py_venue r])"
    if "r \<in> set (local_items local ''pending_residual_repairs'')" for r
    using free [OF in_ledger(7), of r "ledger_symbol r"] that nameless lower_venues(3) [of _ r]
    by (cases "ledger_symbol r = []") (auto simp: with_symbol_def)
  moreover have "\<not> conflicts c (ledger_symbol k) (some_venues (venues_from_close k))"
    if "k \<in> set (local_items local ''pending_passive_closes'')" for k
    using free [OF in_ledger(6) [OF that], of "ledger_symbol k"] lower_venues(2) [of _ k] by auto
  ultimately show ?thesis by blast
qed

text \<open>The ledger keeps everything and names it once. No two items have the same kind, symbol and
  owner; every artifact and venue of a record or row that asked for an item is in the item of that
  key; and every item comes from such a record or row, whose verdict it carries.\<close>

theorem ledger_keeps_all_work:
  assumes "from_local_and_exchange_truth local t index = Inr ledger"
    and "pending_close_reconciliation_evidence local = Inr rs"
  shows "distinct (map work_key (lg_work_items ledger)) \<and>
     (\<forall>x\<in>set (ledger_inputs local t index rs). \<exists>w\<in>set (lg_work_items ledger). covered_by x w) \<and>
     (\<forall>w\<in>set (lg_work_items ledger). \<exists>x\<in>set (ledger_inputs local t index rs).
        work_key x = work_key w \<and> wk_blocking x = wk_blocking w)"
proof -
  from assms have items: "lg_work_items ledger = add_all [] (ledger_inputs local t index rs)" by (auto elim: ledger_items)
  show ?thesis unfolding items using add_all_covers add_all_from [of _ "[]"] by (auto intro: add_all_distinct)
qed

text \<open>C31: A symbol is called flat only when nothing is left of it. If the ledger calls a symbol flat,
  the exchange truth is available and without gaps, the exchange reports no open order and no
  position of it that is not flat, and no pending entry, fill, residual repair or passive closing
  of it waits.\<close>

theorem proven_flat_is_sound:
  assumes "from_local_and_exchange_truth local t (Some ix) = Inr ledger" and "is_proven_flat ledger symbol"
  shows "ledger_truth_available t \<and>
     (\<forall>p\<in>set (exchange_positions t). ledger_symbol p = py_upper symbol \<longrightarrow> ledger_flat p) \<and>
     (\<forall>order\<in>set (exchange_open_orders t). ledger_symbol order \<noteq> py_upper symbol) \<and>
     (\<forall>p\<in>set (with_symbol (local_items local ''pending_entries'')). ledger_symbol p \<noteq> py_upper symbol) \<and>
     (\<forall>f\<in>set (local_items local ''fill_evidence''). positive_fill f \<longrightarrow> ledger_symbol f \<noteq> py_upper symbol) \<and>
     (\<forall>r\<in>set (with_symbol (local_items local ''pending_residual_repairs'')). ledger_symbol r \<noteq> py_upper symbol) \<and>
     (\<forall>k\<in>set (local_items local ''pending_passive_closes''). ledger_symbol k \<noteq> py_upper symbol)"
proof -
  from assms(1) obtain rs where rs: "pending_close_reconciliation_evidence local = Inr rs"
    and ta: "lg_truth_available ledger = ledger_truth_available t"
    and ls: "lg_live_symbols ledger = ledger_symbol ` (fst ` set (live_positions ix t) \<union> set (exchange_open_orders t))"
    by (rule ledger_items) simp
  have other: "wk_symbol x \<noteq> py_upper symbol"
    if x: "x \<in> set (ledger_inputs local t (Some ix) rs)" "wk_blocking x" "wk_kind x \<noteq> ''pending_close_reconciliation''" for x
  proof -
    from input_blocks [OF assms(1) rs x(1,3)] x(2) obtain w
      where "w \<in> set (lg_work_items ledger)" "covered_by x w" "wk_blocking w" by auto
    with covered_kind assms(2) show ?thesis by (auto simp: is_proven_flat_def list_all_iff split: if_splits)
  qed
  note other = other [OF input_members(1) [where rs = rs]] other [OF input_members(2) [where rs = rs]]
    other [OF input_members(6) [where rs = rs]] other [OF residual_member [where rs = rs]]
  have live: "py_upper symbol \<notin> lg_live_symbols ledger" and avail: "ledger_truth_available t"
    using assms(2) ta by (simp_all add: is_proven_flat_def split: if_splits)
  have "ledger_flat p" if p: "p \<in> set (exchange_positions t)" "ledger_symbol p = py_upper symbol" for p
  proof (rule ccontr)
    assume nf: "\<not> ledger_flat p"
    from p(1) obtain i where i: "i < length (exchange_positions t)" "exchange_positions t ! i = p"
      by (auto simp: in_set_conv_nth)
    then have "(p, owners_for_positions ix (exchange_positions t) ! i) \<in>
        set (zip (exchange_positions t) (owners_for_positions ix (exchange_positions t)))"
      by (auto simp: in_set_zip)
    with nf have "p \<in> fst ` set (live_positions ix t)" by (force simp: live_positions_def)
    then show False using live ls p(2) by (metis UnCI image_eqI)
  qed
  moreover have "ledger_symbol order \<noteq> py_upper symbol" if "order \<in> set (exchange_open_orders t)" for order
    using live ls that by (metis UnCI image_eqI)
  ultimately show ?thesis using avail other by auto
qed

section \<open>The ledger and the decision core agree\<close>

text \<open>A work item as the decision core reads it (owner and decision are not read there).\<close>

definition artifact_object :: "work_artifact \<Rightarrow> pyval" where
  "artifact_object a = PObj [] [(''kind'', PStr (ar_kind a)), (''symbol'', PStr (ar_symbol a)), (''venue'', PStr (ar_venue a)),
     (''order_id'', PStr (ar_order_id a)), (''client_order_id'', PStr (ar_client_order_id a))]"

definition work_object :: "work_item \<Rightarrow> pyval" where
  "work_object w = PObj [] [(''kind'', PStr (wk_kind w)), (''symbol'', PStr (wk_symbol w)),
     (''artifacts'', PTuple (map artifact_object (wk_artifacts w))), (''blocking'', PBool (wk_blocking w))]"

lemma order_owner_named:
  "ro_confidence (order_owner ix a) \<noteq> ''orphan'' \<Longrightarrow> ar_order_id a \<noteq> [] \<or> ar_client_order_id a \<noteq> []"
  by (auto simp: order_owner_def owner_for_order_def field_text_def Let_def)

lemma true_text_in: "k \<in> set ks \<Longrightarrow> truth (f k) \<Longrightarrow> py_str (f k) \<in> set (map py_str (filter truth (map f ks)))"
  by auto

lemma in_order_ids:
  assumes "field_text v k \<noteq> []" and "k = ''order_id'' \<or> k = ''client_order_id''"
  shows "field_text v k \<in> set (order_ids v)"
proof -
  have t: "truth (py_get v k (PStr []))" and s: "field_text v k = py_str (py_get v k (PStr []))"
    using assms(1) by (simp_all add: field_text_def text_of_def split: if_splits)
  show ?thesis
    unfolding order_ids_def s by (rule true_text_in [where f = "\<lambda>k. py_get v k (PStr [])"]) (use assms(2) t in auto)
qed

lemma artifact_texts [simp]:
  "field_text (artifact_object (order_artifact v)) ''order_id'' = field_text v ''order_id''"
  "field_text (artifact_object (order_artifact v)) ''client_order_id'' = field_text v ''client_order_id''"
  by (simp_all add: artifact_object_def order_artifact_def field_text_def)

lemma named_order_matches:
  assumes "field_text order ''order_id'' \<noteq> [] \<or> field_text order ''client_order_id'' \<noteq> []"
  shows "set (order_ids (artifact_object (order_artifact order))) \<inter> set (order_ids order) \<noteq> {}"
proof -
  from assms obtain k where k: "field_text order k \<noteq> []" "k = ''order_id'' \<or> k = ''client_order_id''" by blast
  then have "field_text (artifact_object (order_artifact order)) k = field_text order k" by auto
  with in_order_ids [OF k] in_order_ids [of "artifact_object (order_artifact order)" k] k show ?thesis by fastforce
qed

lemma owned_order_has_work:
  assumes "x = order_item ix order" and "ro_confidence (order_owner ix (order_artifact order)) \<noteq> ''orphan''"
    and "w \<in> set ws" and "covered_by x w"
  shows "order_has_owned_work order (map work_object ws)"
proof -
  from covered_kind [OF assms(4)] assms(1,2) have k: "wk_kind w = ''owned_pending_entry''" by simp
  have a: "order_artifact order \<in> set (wk_artifacts w)" using assms(1,4) by (simp add: covered_by_def)
  have "field_text order ''order_id'' \<noteq> [] \<or> field_text order ''client_order_id'' \<noteq> []"
    using order_owner_named [OF assms(2)] by (simp add: order_artifact_def)
  then have m: "set (order_ids (artifact_object (order_artifact order))) \<inter> set (order_ids order) \<noteq> {}"
    by (rule named_order_matches)
  have "list_ex (\<lambda>b. set (order_ids b) \<inter> set (order_ids order) \<noteq> {})
      (as_items (py_get (work_object w) ''artifacts'' (PTuple [])))"
    using a m by (auto simp: work_object_def list_ex_iff)
  moreover have "py_startswith (py_str (py_get (work_object w) ''kind'' (PStr []))) ''owned_''"
    using k by (simp add: work_object_def py_startswith_def)
  ultimately show ?thesis using assms(3) by (auto simp: order_has_owned_work_def list_ex_iff)
qed

lemma readable_quantity:
  "float_or_nan (py_get p ''quantity'' v) = Fin q \<Longrightarrow> py_get p ''quantity'' PNone \<noteq> PNone \<Longrightarrow> finite_position_quantity p = Some q"
  by (cases p) (auto simp: finite_position_quantity_def float_or_nan_def finite_float_def split: sum.splits option.splits)

lemma ledger_flat_quantity:
  assumes "ledger_flat p"
  shows "\<exists>q. finite_position_quantity p = Some q \<and> \<bar>q\<bar> \<le> eps"
proof -
  from assms obtain q where q: "float_or_nan (py_get p ''quantity'' PNone) = Fin q" "\<bar>q\<bar> \<le> eps"
    by (auto simp: ledger_flat_def field_float_def split: pyfloat.splits)
  from q(1) have "py_get p ''quantity'' PNone \<noteq> PNone" by (auto simp: float_or_nan_def)
  with readable_quantity [OF q(1)] q(2) show ?thesis by blast
qed

lemma attributed_quantity:
  assumes "ro_confidence (owner_for_position (from_state state) p) \<noteq> ''orphan''"
  shows "\<exists>q. finite_position_quantity p = Some q"
proof -
  from attribution_facts [OF assms] obtain q where q: "float_or_nan (py_get p ''quantity'' (PInt 0)) = Fin q" "0 < q" by blast
  have "py_get p ''quantity'' PNone \<noteq> PNone"
    using q by (cases p) (auto simp: float_or_nan_def split: option.splits)
  with readable_quantity [OF q(1)] show ?thesis by blast
qed

text \<open>C7: The ledger is at least as strict as the decision core. If a ledger made from the state and
  the exchange truth of a snapshot lets any candidate at all pass, then the decision core, given
  that snapshot with the items of the ledger, finds no live artifact to block entries for.\<close>

theorem ledger_implies_core:
  assumes "from_local_and_exchange_truth local (rs_exchange_truth s) (Some (snapshot_index s)) = Inr ledger"
    and "allows_new_entry ledger c" and "rs_work_items s = PTuple (map work_object (lg_work_items ledger))"
  shows "live_artifact_block_reason s = None"
proof -
  let ?t = "rs_exchange_truth s" and ?ix = "snapshot_index s" and ?ws = "lg_work_items ledger"
  from assms(1) obtain rs where rs: "pending_close_reconciliation_evidence local = Inr rs" by (rule ledger_items)
  note in_ledger = input_members [where rs = rs]
  note live = allowed_input(1) [OF assms(1,2) rs]
  have items: "find (\<lambda>item. item_kind item \<in> set LIVE_ARTIFACT_BLOCK_REASONS \<and>
      py_bool_text (py_get item ''blocking'' (PBool True))) (map work_object ?ws) = None"
    using assms(2) by (auto simp: find_None_iff item_kind_def work_object_def py_bool_text_def allows_new_entry_def
        list_ex_iff recovery_work_item_blocks_candidate_def)
  have orders: "find (\<lambda>order. \<not> order_has_owned_work order (map work_object ?ws)) (exchange_open_orders ?t) = None"
    unfolding find_None_iff
  proof (intro ballI)
    fix order assume o: "order \<in> set (exchange_open_orders ?t)"
    have owned: "ro_confidence (order_owner ?ix (order_artifact order)) \<noteq> ''orphan''"
      using live [OF in_ledger(5) [OF o]]
      by (cases "truth (py_get order ''reduce_only'' (PBool False))") (auto simp: LIVE_ARTIFACT_BLOCK_REASONS_def)
    with input_blocks [OF assms(1) rs in_ledger(5) [OF o]] obtain w
      where "w \<in> set ?ws" "covered_by (order_item ?ix order) w" by auto
    from owned_order_has_work [OF refl owned this] show "\<not> \<not> order_has_owned_work order (map work_object ?ws)" by simp
  qed
  have positions: "\<not> list_ex unowned_position (zip (exchange_positions ?t) (owners_for_positions ?ix (exchange_positions ?t)))"
  proof
    assume "list_ex unowned_position (zip (exchange_positions ?t) (owners_for_positions ?ix (exchange_positions ?t)))"
    then obtain i where i: "i < length (exchange_positions ?t)"
      and un: "unowned_position (exchange_positions ?t ! i, owners_for_positions ?ix (exchange_positions ?t) ! i)"
      by (auto simp: list_ex_iff in_set_zip)
    let ?p = "exchange_positions ?t ! i" and ?o = "owners_for_positions ?ix (exchange_positions ?t) ! i"
    show False
    proof (cases "ledger_flat ?p")
      case True
      with ledger_flat_quantity un show False by (fastforce simp: unowned_position_def)
    next
      case False
      with i have "(?p, ?o) \<in> set (live_positions ?ix ?t)" by (auto simp: live_positions_def in_set_zip)
      from live [OF in_ledger(4) [OF this]] have "ro_confidence ?o \<noteq> ''orphan''"
        by (auto simp: LIVE_ARTIFACT_BLOCK_REASONS_def)
      moreover from owners_for_positions_nth [OF i this]
      have "\<exists>q. finite_position_quantity ?p = Some q"
        using calculation by (intro attributed_quantity [of "snapshot_state s"]) (simp add: snapshot_index_state)
      ultimately show False using un by (auto simp: unowned_position_def)
    qed
  qed
  have "missing_position_claims ?ix (exchange_positions ?t) = []" if "is_complete_account_truth ?t"
  proof (rule ccontr)
    assume "missing_position_claims ?ix (exchange_positions ?t) \<noteq> []"
    then obtain m where "m \<in> set (missing_position_claims ?ix (exchange_positions ?t))"
      by (cases "missing_position_claims ?ix (exchange_positions ?t)") auto
    from live [OF in_ledger(3) [OF this that]] show False by (simp add: LIVE_ARTIFACT_BLOCK_REASONS_def)
  qed
  with items orders positions assms(3) show ?thesis
    by (auto simp: live_artifact_block_reason_def Let_def)
qed

section \<open>Concrete ledgers\<close>

definition sample_pending :: pyval where
  "sample_pending = PDict [(''pending_id'', PStr ''e1''), (''symbol'', PStr ''BTCUSDT''),
     (''long_venue'', PStr ''okx''), (''short_venue'', PStr ''gate''), (''maker_order_id'', PStr ''o1''),
     (''maker_leg_filled'', PInt 0), (''hedge_leg_filled'', PInt 0)]"

definition sample_local :: pyval where
  "sample_local = PDict [(''pending_entries'', PList [sample_pending])]"

definition sample_order :: pyval where
  "sample_order = PDict [(''venue'', PStr ''okx''), (''symbol'', PStr ''BTCUSDT''), (''order_id'', PStr ''o1'')]"

definition sample_truth :: pyval where
  "sample_truth = PDict [(''truth_scope'', PStr ''account''), (''truth_supported'', PBool True),
     (''positions'', PList [PDict [(''venue'', PStr ''okx''), (''symbol'', PStr ''ETHUSDT''), (''side'', PStr ''long''), (''quantity'', PInt 0)]]),
     (''open_orders'', PList [sample_order])]"

definition candidate_on :: "string \<Rightarrow> string \<Rightarrow> pyval" where
  "candidate_on long short = PDict [(''symbol'', PStr ''BTCUSDT''), (''long_venue'', PStr long), (''short_venue'', PStr short)]"

definition ledger_of :: "pyval \<Rightarrow> pyval \<Rightarrow> recovery_ledger" where
  "ledger_of local t = (case from_local_and_exchange_truth local t (Some (from_state local)) of Inr ledger \<Rightarrow> ledger
     | Inl e \<Rightarrow> \<lparr>lg_work_items = [], lg_truth_available = False, lg_live_symbols = {}, lg_positive_fill_symbols = {}\<rparr>)"

lemma ledger_of_work:
  assumes "pending_close_reconciliation_evidence local = Inr rs"
  shows "from_local_and_exchange_truth local t (Some (from_state local)) = Inr (ledger_of local t)"
    and "lg_work_items (ledger_of local t) = add_all [] (ledger_inputs local t (Some (from_state local)) rs)"
  using assms
  by (simp_all add: ledger_of_def from_local_and_exchange_truth_def ledger_inputs_def add_all_append Let_def)

lemma sample_reconciliations: "pending_close_reconciliation_evidence sample_local = Inr []"
  by code_simp

text \<open>What decides whether an item blocks; evaluated once for the items of a concrete ledger.\<close>

definition work_view :: "work_item \<Rightarrow> string \<times> string \<times> bool \<times> string set" where
  "work_view w = (wk_kind w, wk_symbol w, wk_blocking w, wk_venues w)"

lemma allows_by_view:
  assumes "map work_view (lg_work_items ledger) = views"
  shows "allows_new_entry ledger c \<longleftrightarrow>
     list_all (\<lambda>(kind, symbol, blocking, venues). \<not> recovery_work_item_blocks_candidate
        \<lparr>wk_kind = kind, wk_symbol = symbol, wk_venues = venues, wk_artifacts = [], wk_owner = None,
         wk_decision = decided [] [] False, wk_blocking = blocking\<rparr> c) views"
  by (simp add: assms [symmetric] list.pred_map comp_def work_view_def allows_new_entry_def list_ex_iff list_all_iff
      recovery_work_item_blocks_candidate_def cong: if_cong)

lemma sample_views:
  "map work_view (lg_work_items (ledger_of sample_local sample_truth)) =
     [(''owned_pending_entry'', ''BTCUSDT'', True, {''okx'', ''gate''})]"
  unfolding ledger_of_work(2) [OF sample_reconciliations] by code_simp

lemma candidate_texts:
  "ledger_symbol (candidate_on ''binance'' ''bybit'') = ''BTCUSDT''"
  "venues_from_candidate (candidate_on ''binance'' ''bybit'') = {''binance'', ''bybit''}"
  "ledger_symbol (candidate_on ''okx'' ''bybit'') = ''BTCUSDT''"
  "venues_from_candidate (candidate_on ''okx'' ''bybit'') = {''okx'', ''bybit''}"
  "py_upper ''BTCUSDT'' = ''BTCUSDT''" "py_lower ''okx'' = ''okx''" "py_lower ''gate'' = ''gate''"
  by code_simp+

lemma sample_passes: "allows_new_entry (ledger_of sample_local sample_truth) (candidate_on ''binance'' ''bybit'')"
  by (simp add: allows_by_view [OF sample_views] recovery_work_item_blocks_candidate_def candidate_texts
      LIVE_ARTIFACT_BLOCK_REASONS_def insert_Diff_if)

lemma sample_conflict: "\<not> allows_new_entry (ledger_of sample_local sample_truth) (candidate_on ''okx'' ''bybit'')"
  by (simp add: allows_by_view [OF sample_views] recovery_work_item_blocks_candidate_def candidate_texts
      LIVE_ARTIFACT_BLOCK_REASONS_def insert_Diff_if)

lemma candidate_finds_known_exchange_witness:
  "\<not> conflicts (candidate_on ''binance'' ''bybit'') (ledger_symbol sample_pending) (venues_from_local_entry sample_pending) \<and>
   ro_confidence (order_owner (from_state sample_local) (order_artifact sample_order)) \<noteq> ''orphan''"
proof -
  have "sample_pending \<in> set (local_items sample_local ''pending_entries'')"
    by (simp add: local_items_def sample_local_def)
  moreover have "exchange_open_orders sample_truth = [sample_order]" by code_simp
  ultimately show ?thesis
    using candidate_finds_known_exchange [OF ledger_of_work(1) [OF sample_reconciliations] sample_passes] by simp
qed

lemma ledger_keeps_all_work_witness: "distinct (map work_key (lg_work_items (ledger_of sample_local sample_truth)))"
  using ledger_keeps_all_work [OF ledger_of_work(1) [OF sample_reconciliations] sample_reconciliations] by blast

lemma sample_flat: "is_proven_flat (ledger_of sample_local sample_truth) ''SOLUSDT''"
proof -
  have "ledger_truth_available sample_truth" "py_upper ''SOLUSDT'' = ''SOLUSDT''"
    "map ledger_symbol (exchange_open_orders sample_truth) = [''BTCUSDT'']"
    "map (ledger_symbol \<circ> fst) (live_positions (from_state sample_local) sample_truth) = []"
    by code_simp+
  moreover have "list_all (\<lambda>w. wk_symbol w \<noteq> ''SOLUSDT'') (lg_work_items (ledger_of sample_local sample_truth))"
    using sample_views by (auto simp: work_view_def)
  ultimately show ?thesis
    by (auto simp: is_proven_flat_def ledger_of_def from_local_and_exchange_truth_def sample_reconciliations
        Let_def list_all_iff)
qed

lemma proven_flat_is_sound_witness: "ledger_symbol sample_order \<noteq> ''SOLUSDT''"
proof -
  have "exchange_open_orders sample_truth = [sample_order]" "py_upper ''SOLUSDT'' = ''SOLUSDT''" by code_simp+
  with proven_flat_is_sound [OF ledger_of_work(1) [OF sample_reconciliations] sample_flat] show ?thesis by auto
qed

definition sample_evidence :: evidence_snapshot where
  "sample_evidence = empty_snapshot\<lparr>rs_pending_entries := PList [sample_pending], rs_exchange_truth := sample_truth,
     rs_work_items := PTuple (map work_object (lg_work_items (ledger_of sample_local sample_truth)))\<rparr>"

lemma ledger_implies_core_witness: "live_artifact_block_reason sample_evidence = None"
proof (rule ledger_implies_core)
  have "snapshot_index sample_evidence = from_state sample_local"
    by (simp add: snapshot_index_def from_state_def collection_def sample_local_def sample_evidence_def empty_snapshot_def)
  with ledger_of_work(1) [OF sample_reconciliations]
  show "from_local_and_exchange_truth sample_local (rs_exchange_truth sample_evidence) (Some (snapshot_index sample_evidence)) =
      Inr (ledger_of sample_local sample_truth)"
    by (simp add: sample_evidence_def)
  show "allows_new_entry (ledger_of sample_local sample_truth) (candidate_on ''binance'' ''bybit'')" by (rule sample_passes)
qed (simp add: sample_evidence_def)

section \<open>A verdict that is lost\<close>

text \<open>Items of one key keep the verdict of the first. Two unfinished closings of one position have one
  key, and only a closing that lacks accounting evidence may be passed over; so if that one comes
  first, the other, which has to block, does not.\<close>

definition debt_closing :: pyval where
  "debt_closing = PDict [(''position_id'', PStr ''p1''), (''symbol'', PStr ''BTCUSDT''), (''long_venue'', PStr ''okx''),
     (''short_venue'', PStr ''bybit''), (''reconciliation_status'', PStr ''evidence_debt'')]"

definition open_closing :: pyval where
  "open_closing = PDict [(''position_id'', PStr ''p1''), (''symbol'', PStr ''BTCUSDT''), (''long_venue'', PStr ''okx''),
     (''short_venue'', PStr ''bybit''), (''reconciliation_status'', PStr ''pending'')]"

definition closings :: "pyval list \<Rightarrow> pyval" where
  "closings cs = PDict [(''pending_close_reconciliations'', PList cs)]"

definition flat_truth :: pyval where
  "flat_truth = PDict [(''truth_scope'', PStr ''account''), (''truth_supported'', PBool True),
     (''positions'', PList []), (''open_orders'', PList [])]"

lemma closings_evidence:
  "pending_close_reconciliation_evidence (closings [open_closing]) = Inr [open_closing]"
  "pending_close_reconciliation_evidence (closings [debt_closing, open_closing]) = Inr [debt_closing, open_closing]"
  by code_simp+

lemma closings_views:
  "map work_view (lg_work_items (ledger_of (closings [open_closing]) flat_truth)) =
     [(''pending_close_reconciliation'', ''BTCUSDT'', True, {''okx'', ''bybit''})]"
  "map work_view (lg_work_items (ledger_of (closings [debt_closing, open_closing]) flat_truth)) =
     [(''pending_close_reconciliation'', ''BTCUSDT'', False, {''okx'', ''bybit''})]"
  unfolding ledger_of_work(2) [OF closings_evidence(1)] ledger_of_work(2) [OF closings_evidence(2)] by code_simp+

lemma open_closing_hidden:
  "\<not> allows_new_entry (ledger_of (closings [open_closing]) flat_truth) (candidate_on ''okx'' ''bybit'')"
  "allows_new_entry (ledger_of (closings [debt_closing, open_closing]) flat_truth) (candidate_on ''okx'' ''bybit'')"
proof -
  have "py_lower ''bybit'' = ''bybit''" by code_simp
  then show "\<not> allows_new_entry (ledger_of (closings [open_closing]) flat_truth) (candidate_on ''okx'' ''bybit'')"
    by (simp add: allows_by_view [OF closings_views(1)] recovery_work_item_blocks_candidate_def candidate_texts
        LIVE_ARTIFACT_BLOCK_REASONS_def insert_Diff_if)
qed (simp add: allows_by_view [OF closings_views(2)] recovery_work_item_blocks_candidate_def)

end
