(* ===== verification/State_Codec.thy ===== *)
theory State_Codec
  imports Owner_Index
begin

text \<open>
  How the parts of a pending entry are written to a snapshot and read back: \<open>to_dict\<close> and
  \<open>from_dict\<close> of \<open>HedgeInflight\<close>, \<open>PendingPassiveOrder\<close>, \<open>PendingEntryPassivePhaseState\<close>,
  \<open>PendingEntryRemainderSlice\<close> and \<open>PassiveOrderManagerRuntime\<close> (\<open>engine/state.py\<close>), and
  \<open>_restore_hedge_inflight\<close> (\<open>engine/recovery.py\<close>). The records are those of \<open>Pending_Entry\<close>.

  A snapshot is JSON, so the values hold no enum members and no objects. The function \<open>rf\<close> gives
  the text of a float; every statement holds whatever it is. The locale \<open>codec\<close> is the contract of
  an encoding: what is written is read back; \<open>typed_codec\<close> adds that whatever is read is
  well-formed, so that reading is a projection. Each class interprets \<open>typed_codec\<close>.
\<close>

section \<open>The contract of an encoding\<close>

locale codec =
  fixes encode :: "'a \<Rightarrow> pyval"
    and decode :: "pyval \<Rightarrow> 'e + 'a"
    and ok :: "'a \<Rightarrow> bool"
  assumes decode_encode: "ok x \<Longrightarrow> decode (encode x) = Inr x"
begin

lemma encode_inj: "ok x \<Longrightarrow> ok y \<Longrightarrow> encode x = encode y \<longleftrightarrow> x = y"
  by (metis decode_encode sum.inject(2))

lemma decode_encode_list: "list_all ok xs \<Longrightarrow> map_res decode (map encode xs) = Inr xs"
  by (induction xs) (simp_all add: decode_encode)

end

locale typed_codec = codec +
  fixes valid :: "pyval \<Rightarrow> bool"
  assumes decode_ok: "valid v \<Longrightarrow> decode v = Inr x \<Longrightarrow> ok x"
begin

lemma decode_again: "valid v \<Longrightarrow> decode v = Inr x \<Longrightarrow> decode (encode x) = Inr x"
  by (simp add: decode_ok decode_encode)

lemma decode_list_ok: "list_all valid vs \<Longrightarrow> map_res decode vs = Inr xs \<Longrightarrow> list_all ok xs"
  by (induction vs arbitrary: xs) (auto simp: returns_iff intro: decode_ok)

end

text \<open>What a JSON text can hold; the text of a number is never empty.\<close>

primrec json_value :: "pyval \<Rightarrow> bool" where
  "json_value PNone = True"
| "json_value (PBool b) = True"
| "json_value (PInt i) = True"
| "json_value (PFloat x t) = (t \<noteq> [])"
| "json_value (PStr s) = True"
| "json_value (PList xs) = list_all (\<lambda>b. b) (map json_value xs)"
| "json_value (PTuple xs) = False"
| "json_value (PDict d) = list_all snd (map (map_prod id json_value) d)"
| "json_value (PObj t d) = False"

lemma json_list [simp]: "json_value (PList xs) \<longleftrightarrow> list_all json_value xs"
  by (simp add: list_all_iff)

lemma json_dict [simp]: "json_value (PDict d) \<longleftrightarrow> (\<forall>(k, v)\<in>set d. json_value v)"
  by (auto simp: list_all_iff)

declare json_value.simps(6,8) [simp del]

lemma json_get: "json_value (PDict d) \<Longrightarrow> json_value v \<Longrightarrow> json_value (py_get (PDict d) k v)"
  by (auto split: option.splits dest!: map_of_SomeD bspec)

lemma json_text: "json_value v \<Longrightarrow> truth v \<Longrightarrow> py_str v \<noteq> []"
  by (cases v) (auto simp: int_text_def nat_text.simps)

section \<open>Reading one field\<close>

text \<open>A field either makes the code raise, or is not a finite number where the records of
  \<open>Pending_Entry\<close> hold a real; the code keeps such a number, so \<open>Not_Finite\<close> marks what is outside
  the model. When several fields are bad, the first one in the order of the fields is reported.\<close>

datatype decode_fault = Raises | Not_Finite

definition read_float :: "pyval \<Rightarrow> decode_fault + pyfloat" where
  "read_float v = (case py_float v of Inl _ \<Rightarrow> Inl Raises | Inr x \<Rightarrow> Inr x)"

definition read_real :: "pyval \<Rightarrow> decode_fault + real" where
  "read_real v = (case py_float v of Inl _ \<Rightarrow> Inl Raises | Inr (Fin r) \<Rightarrow> Inr r | Inr _ \<Rightarrow> Inl Not_Finite)"

definition read_int :: "pyval \<Rightarrow> decode_fault + int" where
  "read_int v = (case py_int v of Inl _ \<Rightarrow> Inl Raises | Inr i \<Rightarrow> Inr i)"

text \<open>\<open>_optional_int\<close>: type and value errors read as None, the overflow of an infinite float raises.\<close>

definition optional_int :: "pyval \<Rightarrow> decode_fault + int option" where
  "optional_int v =
     (if py_is_none v then Inr None
      else case py_int v of Inr i \<Rightarrow> Inr (Some i) | Inl Overflow_Error \<Rightarrow> Inl Raises | Inl _ \<Rightarrow> Inr None)"

definition zero_or :: "obj \<Rightarrow> string \<Rightarrow> pyval" where
  "zero_or d k = py_or (py_get (PDict d) k (PInt 0)) (PInt 0)"

definition default_text :: "obj \<Rightarrow> string \<Rightarrow> string \<Rightarrow> string" where
  "default_text d k s = py_str (py_or (py_get (PDict d) k (PStr s)) (PStr s))"

definition float_value :: "(pyfloat \<Rightarrow> string) \<Rightarrow> real \<Rightarrow> pyval" where
  "float_value rf r = PFloat (Fin r) (rf (Fin r))"

fun int_value :: "int option \<Rightarrow> pyval" where
  "int_value None = PNone"
| "int_value (Some i) = PInt i"

lemma read_simps [simp]:
  "read_real (float_value rf r) = Inr r" "read_real (PInt i) = Inr (of_int i)"
  "read_int (PInt i) = Inr i" "read_float (PFloat x t) = Inr x"
  "optional_int PNone = Inr None" "optional_int (PInt i) = Inr (Some i)" "optional_int (int_value z) = Inr z"
  by (simp_all add: read_real_def read_int_def read_float_def optional_int_def float_value_def split: option.splits)
     (cases z; simp)

lemma read_or_zero [simp]:
  "read_real (py_or (float_value rf r) (PInt 0)) = Inr r" "read_int (py_or (PInt i) (PInt 0)) = Inr i"
  by (simp_all add: py_or_def float_value_def read_real_def read_int_def)

lemma default_text_ok: "py_str v = s \<Longrightarrow> s = dflt \<or> s \<noteq> [] \<Longrightarrow> v = PStr s \<Longrightarrow> py_str (py_or v (PStr dflt)) = s"
  by (auto simp: py_or_def)

lemma default_text_json:
  "json_value (PDict d) \<Longrightarrow> s \<noteq> [] \<Longrightarrow> default_text d k s \<noteq> []"
  using json_get [of d "PStr s" k] json_text [of "py_get (PDict d) k (PStr s)"]
  by (cases "truth (py_get (PDict d) k (PStr s))") (auto simp: default_text_def simp del: py_get.simps)

section \<open>Enumerations\<close>

fun venue_value :: "venue \<Rightarrow> string" where
  "venue_value BINANCE = ''binance''" | "venue_value OKX = ''okx''" | "venue_value BYBIT = ''bybit''"
| "venue_value BITGET = ''bitget''" | "venue_value GATE = ''gate''" | "venue_value ASTER = ''aster''"
| "venue_value HYPERLIQUID = ''hyperliquid''"

fun side_value :: "order_side \<Rightarrow> string" where
  "side_value BUY = ''buy''" | "side_value SELL = ''sell''"

fun order_state_value :: "passive_order_state \<Rightarrow> string" where
  "order_state_value PO_UNKNOWN = ''unknown''" | "order_state_value PO_CREATED = ''created''"
| "order_state_value PO_OPEN = ''open''" | "order_state_value PO_PARTIALLY_FILLED = ''partially_filled''"
| "order_state_value PO_FILLED = ''filled''" | "order_state_value PO_CANCELED = ''canceled''"
| "order_state_value PO_REJECTED = ''rejected''" | "order_state_value PO_EXPIRED = ''expired''"

definition all_venues :: "venue list" where
  "all_venues = [BINANCE, OKX, BYBIT, BITGET, GATE, ASTER, HYPERLIQUID]"

definition all_order_states :: "passive_order_state list" where
  "all_order_states = [PO_UNKNOWN, PO_CREATED, PO_OPEN, PO_PARTIALLY_FILLED, PO_FILLED, PO_CANCELED, PO_REJECTED, PO_EXPIRED]"

text \<open>\<open>Venue(s)\<close>, \<open>Side(s)\<close>, \<open>PassiveOrderState(s)\<close>: the member with that value, or a value error.\<close>

definition member_of :: "('a \<Rightarrow> string) \<Rightarrow> 'a list \<Rightarrow> string \<Rightarrow> 'a option" where
  "member_of value members s = find (\<lambda>m. value m = s) members"

definition venue_member :: "string \<Rightarrow> venue option" where
  "venue_member = member_of venue_value all_venues"

definition side_member :: "string \<Rightarrow> order_side option" where
  "side_member = member_of side_value [BUY, SELL]"

definition order_state_member :: "string \<Rightarrow> passive_order_state option" where
  "order_state_member = member_of order_state_value all_order_states"

lemma venue_member_value [simp]: "venue_member (venue_value v) = Some v"
  by (cases v) (simp_all add: venue_member_def member_of_def all_venues_def)

lemma side_member_value [simp]: "side_member (side_value b) = Some b"
  by (cases b) (simp_all add: side_member_def member_of_def)

lemma order_state_member_value [simp]: "order_state_member (order_state_value z) = Some z"
  by (cases z) (simp_all add: order_state_member_def member_of_def all_order_states_def)

lemma venue_from_value [simp]: "venue_from_str (venue_value v) = Some v"
  by (cases v; simp only: venue_value.simps; code_simp)

definition the_member :: "'a option \<Rightarrow> decode_fault + 'a" where
  "the_member m = (case m of None \<Rightarrow> Inl Raises | Some x \<Rightarrow> Inr x)"

lemma the_member_simps [simp]: "the_member (Some x) = Inr x" "the_member None = Inl Raises"
  by (simp_all add: the_member_def)

section \<open>Hedge in flight\<close>

definition hedge_to_dict :: "(pyfloat \<Rightarrow> string) \<Rightarrow> hedge_inflight \<Rightarrow> pyval" where
  "hedge_to_dict rf h = PDict
     [(''client_order_id'', PStr (hi_client_order_id h)), (''venue'', PStr (venue_value (hi_venue h))),
      (''side'', PStr (side_value (hi_side h))), (''quantity'', float_value rf (hi_quantity h)),
      (''attempt'', PInt (hi_attempt h)), (''submitted_at_ms'', PInt (hi_submitted_at_ms h)),
      (''soft_deadline_logged'', PBool (hi_soft_deadline_logged h))]"

definition hedge_from_dict :: "obj \<Rightarrow> decode_fault + hedge_inflight" where
  "hedge_from_dict d =
     bind_res (the_member (venue_member (py_str (py_get (PDict d) ''venue'' (PStr []))))) (\<lambda>v.
     bind_res (the_member (side_member (py_str (py_get (PDict d) ''side'' (PStr []))))) (\<lambda>b.
     bind_res (read_real (py_get (PDict d) ''quantity'' (PInt 0))) (\<lambda>q.
     bind_res (read_int (py_get (PDict d) ''attempt'' (PInt 0))) (\<lambda>a.
     bind_res (read_int (py_get (PDict d) ''submitted_at_ms'' (PInt 0))) (\<lambda>t.
     Inr \<lparr>hi_client_order_id = py_str (py_get (PDict d) ''client_order_id'' (PStr [])), hi_venue = v, hi_side = b,
          hi_quantity = q, hi_attempt = a, hi_submitted_at_ms = t,
          hi_soft_deadline_logged = truth (py_get (PDict d) ''soft_deadline_logged'' (PBool False))\<rparr>)))))"

text \<open>\<open>_restore_hedge_inflight\<close>: an old snapshot holds the client order id as a text.\<close>

definition legacy_hedge :: "string \<Rightarrow> hedge_inflight" where
  "legacy_hedge s = \<lparr>hi_client_order_id = s, hi_venue = BYBIT, hi_side = BUY, hi_quantity = 0, hi_attempt = 0,
     hi_submitted_at_ms = 0, hi_soft_deadline_logged = False\<rparr>"

fun restore_hedge_inflight :: "pyval \<Rightarrow> decode_fault + hedge_inflight option" where
  "restore_hedge_inflight (PDict d) = bind_res (hedge_from_dict d) (\<lambda>h. Inr (Some h))"
| "restore_hedge_inflight (PStr s) = Inr (if s = [] then None else Some (legacy_hedge s))"
| "restore_hedge_inflight _ = Inr None"

definition hedge_view :: "(pyfloat \<Rightarrow> string) \<Rightarrow> hedge_inflight option \<Rightarrow> pyval" where
  "hedge_view rf h = (case h of None \<Rightarrow> PStr [] | Some x \<Rightarrow> hedge_to_dict rf x)"

interpretation hedge: typed_codec "hedge_view rf" restore_hedge_inflight "\<lambda>_. True" json_value for rf
  by unfold_locales (simp_all add: hedge_view_def hedge_to_dict_def hedge_from_dict_def split: option.split)

section \<open>Resting maker order\<close>

definition order_to_dict :: "(pyfloat \<Rightarrow> string) \<Rightarrow> pending_passive_order \<Rightarrow> pyval" where
  "order_to_dict rf p = PDict
     [(''order_id'', PStr (po_order_id p)), (''client_order_id'', PStr (po_client_order_id p)),
      (''limit_price'', case po_limit_price p of None \<Rightarrow> PNone | Some r \<Rightarrow> float_value rf r),
      (''target_quantity'', float_value rf (po_target_quantity p)), (''accepted_at_ms'', PInt (po_accepted_at_ms p)),
      (''timeout_at_ms'', PInt (po_timeout_at_ms p)), (''cancel_requested_at_ms'', PInt (po_cancel_requested_at_ms p)),
      (''last_progress_state'', PStr (order_state_value (po_last_progress_state p))),
      (''fill_checkpoint_quantity'', float_value rf (po_fill_checkpoint_quantity p)),
      (''fill_checkpoint_notional_quote'', float_value rf (po_fill_checkpoint_notional_quote p)),
      (''fill_checkpoint_fee_quote'', float_value rf (po_fill_checkpoint_fee_quote p)),
      (''fill_checkpoint_last_fill_at_ms'', int_value (po_fill_checkpoint_last_fill_at_ms p))]"

definition read_limit_price :: "pyval \<Rightarrow> decode_fault + real option" where
  "read_limit_price v = (if py_is_none v then Inr None else bind_res (read_real v) (\<lambda>r. Inr (Some r)))"

definition order_from_fields :: "obj \<Rightarrow> decode_fault + pending_passive_order" where
  "order_from_fields d =
     bind_res (read_limit_price (dget d ''limit_price'')) (\<lambda>price.
     bind_res (read_real (zero_or d ''target_quantity'')) (\<lambda>quantity.
     bind_res (read_int (zero_or d ''accepted_at_ms'')) (\<lambda>accepted.
     bind_res (read_int (zero_or d ''timeout_at_ms'')) (\<lambda>timeout.
     bind_res (read_int (zero_or d ''cancel_requested_at_ms'')) (\<lambda>cancel.
     bind_res (read_real (zero_or d ''fill_checkpoint_quantity'')) (\<lambda>filled.
     bind_res (read_real (zero_or d ''fill_checkpoint_notional_quote'')) (\<lambda>notional.
     bind_res (read_real (zero_or d ''fill_checkpoint_fee_quote'')) (\<lambda>fee.
     bind_res (optional_int (dget d ''fill_checkpoint_last_fill_at_ms'')) (\<lambda>fill_at.
     Inr \<lparr>po_order_id = default_text d ''order_id'' [], po_client_order_id = default_text d ''client_order_id'' [],
          po_limit_price = price, po_target_quantity = quantity, po_accepted_at_ms = accepted,
          po_timeout_at_ms = timeout, po_cancel_requested_at_ms = cancel,
          po_last_progress_state =
            (case order_state_member (py_str (py_or (py_get (PDict d) ''last_progress_state'' (PStr ''unknown'')) (PStr []))) of
               None \<Rightarrow> PO_UNKNOWN | Some z \<Rightarrow> z),
          po_fill_checkpoint_quantity = filled, po_fill_checkpoint_notional_quote = notional,
          po_fill_checkpoint_fee_quote = fee, po_fill_checkpoint_last_fill_at_ms = fill_at,
          po_last_resting_quality_sample_at_ms = None\<rparr>)))))))))"

fun order_from_dict :: "pyval \<Rightarrow> decode_fault + pending_passive_order option" where
  "order_from_dict (PDict d) = bind_res (order_from_fields d) (\<lambda>p. Inr (Some p))"
| "order_from_dict _ = Inr None"

definition order_view :: "(pyfloat \<Rightarrow> string) \<Rightarrow> pending_passive_order option \<Rightarrow> pyval" where
  "order_view rf p = (case p of None \<Rightarrow> PNone | Some x \<Rightarrow> order_to_dict rf x)"

text \<open>The time of the last quality sample, which the engine sets on every accepted order
  (\<open>pending_entry_lifecycle.py\<close>), is an attribute that \<open>to_dict\<close> does not write: it is forgotten.
  Only an order without it comes back as it was.\<close>

definition order_forgotten :: "pending_passive_order \<Rightarrow> pending_passive_order" where
  "order_forgotten p = p\<lparr>po_last_resting_quality_sample_at_ms := None\<rparr>"

definition order_stored :: "pending_passive_order option \<Rightarrow> bool" where
  "order_stored p \<longleftrightarrow> (case p of None \<Rightarrow> True | Some x \<Rightarrow> po_last_resting_quality_sample_at_ms x = None)"

lemma read_limit_price_view [simp]:
  "read_limit_price (case z of None \<Rightarrow> PNone | Some r \<Rightarrow> float_value rf r) = Inr z"
  by (cases z) (simp_all add: read_limit_price_def, simp add: float_value_def)

lemma py_or_text [simp]: "py_str (py_or (PStr s) (PStr [])) = s"
  by (cases s) simp_all

lemma order_from_fields_view:
  "po_last_resting_quality_sample_at_ms p = None \<Longrightarrow> order_to_dict rf p = PDict d \<Longrightarrow> order_from_fields d = Inr p"
  unfolding order_to_dict_def pyval.inject
  by (hypsubst, simp add: order_from_fields_def zero_or_def default_text_def)

interpretation order: typed_codec "order_view rf" order_from_dict order_stored json_value for rf
proof
  show "order_from_dict (order_view rf x) = Inr x" if "order_stored x" for x
  proof (cases x)
    case (Some p)
    obtain d where "order_to_dict rf p = PDict d" by (simp add: order_to_dict_def)
    with that Some order_from_fields_view [of p rf d] show ?thesis by (simp add: order_stored_def order_view_def)
  qed (simp add: order_view_def)
  show "order_stored x" if "order_from_dict v = Inr x" for v x
    using that by (cases v) (auto simp: order_stored_def order_from_fields_def returns_iff)
qed

lemma order_restored: "order_from_dict (order_view rf p) = Inr (map_option order_forgotten p)"
proof -
  have "order_view rf p = order_view rf (map_option order_forgotten p)"
    by (cases p) (simp_all add: order_view_def order_to_dict_def order_forgotten_def)
  moreover have "order_stored (map_option order_forgotten p)"
    by (cases p) (simp_all add: order_stored_def order_forgotten_def)
  ultimately show ?thesis using order.decode_encode by simp
qed

section \<open>Phase of the passive cycle\<close>

definition phase_to_dict :: "passive_phase_state \<Rightarrow> pyval" where
  "phase_to_dict p = PDict
     [(''execution_kind'', PStr (ph_execution_kind p)), (''preferred_maker_leg'', PStr (ph_preferred_maker_leg p)),
      (''active_maker_leg'', PStr (ph_active_maker_leg p)), (''phase'', PStr (ph_phase p)),
      (''zero_fill_cycles_in_phase'', PInt (ph_zero_fill_cycles_in_phase p)), (''cycle_attempt'', PInt (ph_cycle_attempt p)),
      (''next_cycle_delay_ms'', int_value (ph_next_cycle_delay_ms p)),
      (''small_fill_min_notional_attempts'', PInt (ph_small_fill_min_notional_attempts p)),
      (''hedge_deadline_at_ms'', int_value (ph_hedge_deadline_at_ms p)),
      (''hedge_timeout_grace_deadline_at_ms'', int_value (ph_hedge_timeout_grace_deadline_at_ms p)),
      (''phase_started_at_ms'', PInt (ph_phase_started_at_ms p)), (''cycle_started_at_ms'', PInt (ph_cycle_started_at_ms p))]"

definition phase_from_fields :: "obj \<Rightarrow> decode_fault + passive_phase_state" where
  "phase_from_fields d =
     bind_res (read_int (zero_or d ''zero_fill_cycles_in_phase'')) (\<lambda>cycles.
     bind_res (read_int (zero_or d ''cycle_attempt'')) (\<lambda>attempt.
     bind_res (optional_int (dget d ''next_cycle_delay_ms'')) (\<lambda>delay.
     bind_res (read_int (zero_or d ''small_fill_min_notional_attempts'')) (\<lambda>small.
     bind_res (optional_int (dget d ''hedge_deadline_at_ms'')) (\<lambda>deadline.
     bind_res (optional_int (dget d ''hedge_timeout_grace_deadline_at_ms'')) (\<lambda>grace.
     bind_res (read_int (zero_or d ''phase_started_at_ms'')) (\<lambda>phase_started.
     bind_res (read_int (zero_or d ''cycle_started_at_ms'')) (\<lambda>cycle_started.
     Inr \<lparr>ph_execution_kind = default_text d ''execution_kind'' ''entry'',
          ph_preferred_maker_leg = default_text d ''preferred_maker_leg'' ''long'',
          ph_active_maker_leg = default_text d ''active_maker_leg'' ''long'',
          ph_phase = default_text d ''phase'' ''high_slippage_maker'',
          ph_zero_fill_cycles_in_phase = cycles, ph_cycle_attempt = attempt, ph_next_cycle_delay_ms = delay,
          ph_small_fill_min_notional_attempts = small, ph_hedge_deadline_at_ms = deadline,
          ph_hedge_timeout_grace_deadline_at_ms = grace, ph_phase_started_at_ms = phase_started,
          ph_cycle_started_at_ms = cycle_started\<rparr>))))))))"

fun phase_from_dict :: "pyval \<Rightarrow> decode_fault + passive_phase_state option" where
  "phase_from_dict (PDict d) = bind_res (phase_from_fields d) (\<lambda>p. Inr (Some p))"
| "phase_from_dict _ = Inr None"

definition phase_view :: "passive_phase_state option \<Rightarrow> pyval" where
  "phase_view p = (case p of None \<Rightarrow> PNone | Some x \<Rightarrow> phase_to_dict x)"

text \<open>An empty text would be read back as the default.\<close>

definition phase_named :: "passive_phase_state option \<Rightarrow> bool" where
  "phase_named p \<longleftrightarrow> (case p of None \<Rightarrow> True | Some x \<Rightarrow>
     ph_execution_kind x \<noteq> [] \<and> ph_preferred_maker_leg x \<noteq> [] \<and> ph_active_maker_leg x \<noteq> [] \<and> ph_phase x \<noteq> [])"

lemma phase_from_fields_view:
  "phase_named (Some p) \<Longrightarrow> phase_to_dict p = PDict d \<Longrightarrow> phase_from_fields d = Inr p"
  unfolding phase_to_dict_def pyval.inject
  by (hypsubst, simp add: phase_from_fields_def zero_or_def default_text_def phase_named_def)

interpretation phase: typed_codec phase_view phase_from_dict phase_named json_value
proof
  show "phase_from_dict (phase_view x) = Inr x" if "phase_named x" for x
  proof (cases x)
    case (Some p)
    obtain d where "phase_to_dict p = PDict d" by (simp add: phase_to_dict_def)
    with that Some phase_from_fields_view [of p d] show ?thesis by (simp add: phase_view_def)
  qed (simp add: phase_view_def)
  show "phase_named x" if "json_value v" "phase_from_dict v = Inr x" for v x
  proof (cases v)
    case (PDict d)
    with that have "default_text d k s \<noteq> []" if "s \<noteq> []" for k s using that default_text_json [of d s k] by simp
    with that PDict show ?thesis by (auto simp: phase_named_def phase_from_fields_def returns_iff)
  qed (use that in \<open>auto simp: phase_named_def\<close>)
qed

section \<open>Remainder slices\<close>

definition slice_to_dict :: "(pyfloat \<Rightarrow> string) \<Rightarrow> remainder_slice \<Rightarrow> pyval" where
  "slice_to_dict rf s = PDict
     [(''quantity'', float_value rf (rs_quantity s)), (''notional_quote'', float_value rf (rs_notional_quote s)),
      (''fill_at_ms'', int_value (rs_fill_at_ms s))]"

fun slice_from_dict :: "pyval \<Rightarrow> decode_fault + remainder_slice" where
  "slice_from_dict (PDict d) =
     bind_res (read_real (zero_or d ''quantity'')) (\<lambda>quantity.
     bind_res (read_real (zero_or d ''notional_quote'')) (\<lambda>notional.
     bind_res (optional_int (dget d ''fill_at_ms'')) (\<lambda>fill_at.
     Inr \<lparr>rs_quantity = quantity, rs_notional_quote = notional, rs_fill_at_ms = fill_at\<rparr>)))"
| "slice_from_dict _ = Inr \<lparr>rs_quantity = 0, rs_notional_quote = 0, rs_fill_at_ms = None\<rparr>"

interpretation slice: typed_codec "slice_to_dict rf" slice_from_dict "\<lambda>_. True" json_value for rf
  by unfold_locales (simp_all add: slice_to_dict_def zero_or_def)

section \<open>Passive manager runtime\<close>

definition runtime_to_dict :: "passive_order_manager_runtime \<Rightarrow> pyval" where
  "runtime_to_dict r = PDict
     [(''cooldown_until_ms'', int_value (mr_cooldown_until_ms r)), (''consecutive_failures'', PInt (mr_consecutive_failures r)),
      (''last_success_ms'', PInt (mr_last_success_ms r)), (''last_attempt_ms'', PInt (mr_last_attempt_ms r)),
      (''ops_budget_remaining'', PInt (mr_ops_budget_remaining r)), (''ops_budget_reset_ms'', PInt (mr_ops_budget_reset_ms r)),
      (''last_operation_ms'', PInt (mr_last_operation_ms r))]"

fun runtime_from_dict :: "pyval \<Rightarrow> decode_fault + passive_order_manager_runtime" where
  "runtime_from_dict (PDict d) =
     bind_res (optional_int (dget d ''cooldown_until_ms'')) (\<lambda>cooldown.
     bind_res (read_int (zero_or d ''consecutive_failures'')) (\<lambda>failures.
     bind_res (read_int (zero_or d ''last_success_ms'')) (\<lambda>success.
     bind_res (read_int (zero_or d ''last_attempt_ms'')) (\<lambda>attempt.
     bind_res (read_int (zero_or d ''ops_budget_remaining'')) (\<lambda>budget.
     bind_res (read_int (zero_or d ''ops_budget_reset_ms'')) (\<lambda>reset.
     bind_res (read_int (zero_or d ''last_operation_ms'')) (\<lambda>operation.
     Inr \<lparr>mr_cooldown_until_ms = cooldown, mr_consecutive_failures = failures, mr_last_success_ms = success,
          mr_last_attempt_ms = attempt, mr_ops_budget_remaining = budget, mr_ops_budget_reset_ms = reset,
          mr_last_operation_ms = operation\<rparr>)))))))"
| "runtime_from_dict _ =
     Inr \<lparr>mr_cooldown_until_ms = None, mr_consecutive_failures = 0, mr_last_success_ms = 0, mr_last_attempt_ms = 0,
          mr_ops_budget_remaining = 0, mr_ops_budget_reset_ms = 0, mr_last_operation_ms = 0\<rparr>"

interpretation runtime: typed_codec runtime_to_dict runtime_from_dict "\<lambda>_. True" json_value
  by unfold_locales (simp_all add: runtime_to_dict_def zero_or_def)

end
