(* ===== verification/Snapshot_Fields.thy ===== *)
theory Snapshot_Fields
  imports State_Codec
begin

text \<open>
  How the snapshot code of \<open>engine/recovery.py\<close> treats the attributes of the wide records
  (\<open>OpenPosition\<close>, \<open>PendingEntry\<close>, \<open>PendingClose\<close>, \<open>PendingPassiveClose\<close> and their parts): some two
  hundred attributes, handled one by one and alike. A record is an attribute dictionary, and the
  constructor call that restores it is a table with one row per keyword argument, in the order of
  the call: the attribute, and how its value is read, default included. An attribute that is an
  enum member is held by the member's value. \<open>Snapshot\<close> has the tables.

  The lemmas: what is written under an attribute is read back, whatever is read is a value that
  the engine keeps, and both lifted to tables.
\<close>

section \<open>Reading an attribute\<close>

text \<open>The readings, for an attribute \<open>k\<close> of the dictionary \<open>d\<close>: \<open>d.get(k, x)\<close>, \<open>d.get(k, x) or y\<close>,
  \<open>str(d.get(k, s))\<close>, \<open>str(d.get(k, s) or s)\<close>, \<open>float(d.get(k, 0))\<close>, \<open>float(d.get(k, 0) or 0)\<close>, a
  float or None, \<open>_optional_finite_float\<close>, \<open>int(d.get(k, i))\<close>, \<open>int(d.get(k, 0) or 0)\<close>,
  \<open>int(d.get(k, d.get(j, 0)) or 0)\<close>, an int or None, \<open>bool(d.get(k, False))\<close>, \<open>list(d.get(k, []))\<close>, a
  copied dictionary or None, \<open>[float(x) for x in d.get(k, [])]\<close>, a venue or a side with a default
  for what is not one, and a member of an enumeration, which raises for what is not one.\<close>

datatype field_kind =
    F_Raw pyval | F_Raw_Or pyval pyval | F_Str string | F_Str_Or string
  | F_Float | F_Float_Or | F_Opt_Float | F_Opt_Finite
  | F_Int int | F_Int_Or | F_Int_Alt string | F_Opt_Int
  | F_Bool | F_List | F_Opt_Dict | F_Floats
  | F_Venue venue | F_Side order_side | F_Enum "string list" string

definition as_float :: "(pyfloat \<Rightarrow> string) \<Rightarrow> pyval \<Rightarrow> decode_fault + pyval" where
  "as_float rf v = (case v of PFloat x t \<Rightarrow> Inr (PFloat x t) | _ \<Rightarrow> bind_res (read_float v) (\<lambda>x. Inr (PFloat x (rf x))))"

definition as_int :: "pyval \<Rightarrow> decode_fault + pyval" where
  "as_int v = bind_res (read_int v) (\<lambda>i. Inr (PInt i))"

text \<open>What iterating over a value gives.\<close>

fun py_iter :: "pyval \<Rightarrow> decode_fault + pyval list" where
  "py_iter (PList xs) = Inr xs"
| "py_iter (PTuple xs) = Inr xs"
| "py_iter (PStr s) = Inr (map (\<lambda>c. PStr [c]) s)"
| "py_iter (PDict d) = Inr (map (PStr \<circ> fst) d)"
| "py_iter _ = Inl Raises"

fun venue_or :: "venue \<Rightarrow> pyval \<Rightarrow> venue" where
  "venue_or v (PStr s) = (case venue_from_str s of None \<Rightarrow> v | Some w \<Rightarrow> w)"
| "venue_or v _ = v"

fun side_or :: "order_side \<Rightarrow> pyval \<Rightarrow> order_side" where
  "side_or b (PStr s) = (case side_member s of None \<Rightarrow> b | Some w \<Rightarrow> w)"
| "side_or b _ = b"

fun read_field :: "(pyfloat \<Rightarrow> string) \<Rightarrow> field_kind \<Rightarrow> obj \<Rightarrow> string \<Rightarrow> decode_fault + pyval" where
  "read_field rf (F_Raw x) d k = Inr (py_get (PDict d) k x)"
| "read_field rf (F_Raw_Or x y) d k = Inr (py_or (py_get (PDict d) k x) y)"
| "read_field rf (F_Str s) d k = Inr (PStr (py_str (py_get (PDict d) k (PStr s))))"
| "read_field rf (F_Str_Or s) d k = Inr (PStr (default_text d k s))"
| "read_field rf F_Float d k = as_float rf (py_get (PDict d) k (PInt 0))"
| "read_field rf F_Float_Or d k = as_float rf (py_or (dget d k) (float_value rf 0))"
| "read_field rf F_Opt_Float d k = (if py_is_none (dget d k) then Inr PNone else as_float rf (dget d k))"
| "read_field rf F_Opt_Finite d k =
     (case as_float rf (dget d k) of Inr (PFloat (Fin r) t) \<Rightarrow> Inr (PFloat (Fin r) t) | _ \<Rightarrow> Inr PNone)"
| "read_field rf (F_Int i) d k = as_int (py_get (PDict d) k (PInt i))"
| "read_field rf F_Int_Or d k = as_int (zero_or d k)"
| "read_field rf (F_Int_Alt j) d k = as_int (py_or (py_get (PDict d) k (py_get (PDict d) j (PInt 0))) (PInt 0))"
| "read_field rf F_Opt_Int d k = (if py_is_none (dget d k) then Inr PNone else as_int (dget d k))"
| "read_field rf F_Bool d k = Inr (PBool (truth (py_get (PDict d) k (PBool False))))"
| "read_field rf F_List d k = bind_res (py_iter (py_get (PDict d) k (PList []))) (\<lambda>xs. Inr (PList xs))"
| "read_field rf F_Opt_Dict d k = Inr (case dget d k of PDict e \<Rightarrow> PDict e | _ \<Rightarrow> PNone)"
| "read_field rf F_Floats d k =
     bind_res (py_iter (py_get (PDict d) k (PList []))) (\<lambda>xs. bind_res (map_res (as_float rf) xs) (\<lambda>ys. Inr (PList ys)))"
| "read_field rf (F_Venue v) d k = Inr (PStr (venue_value (venue_or v (py_get (PDict d) k (PStr (venue_value v))))))"
| "read_field rf (F_Side b) d k = Inr (PStr (side_value (side_or b (py_get (PDict d) k (PStr (side_value b))))))"
| "read_field rf (F_Enum ms s) d k =
     (case py_get (PDict d) k (PStr s) of PStr t \<Rightarrow> (if t \<in> set ms then Inr (PStr t) else Inl Raises) | _ \<Rightarrow> Inl Raises)"

text \<open>The values of an attribute that the engine keeps, by how it is read: converted attributes have their
  type, those that are copied as they stand hold any JSON value.\<close>

fun is_float :: "pyval \<Rightarrow> bool" where "is_float (PFloat x t) = True" | "is_float _ = False"
fun is_finite_float :: "pyval \<Rightarrow> bool" where "is_finite_float (PFloat x t) = py_isfinite x" | "is_finite_float _ = False"
fun is_int :: "pyval \<Rightarrow> bool" where "is_int (PInt i) = True" | "is_int _ = False"
fun is_text :: "pyval \<Rightarrow> bool" where "is_text (PStr s) = True" | "is_text _ = False"

fun field_ok :: "(pyfloat \<Rightarrow> string) \<Rightarrow> field_kind \<Rightarrow> pyval \<Rightarrow> bool" where
  "field_ok rf (F_Raw x) v = (json_value v \<or> v = x)"
| "field_ok rf (F_Raw_Or x y) v = (truth v \<and> (json_value v \<or> v = x) \<or> v = y)"
| "field_ok rf (F_Str s) v = is_text v"
| "field_ok rf (F_Str_Or s) v = (is_text v \<and> (truth v \<or> v = PStr s))"
| "field_ok rf F_Float v = is_float v"
| "field_ok rf F_Float_Or v = (is_float v \<and> (truth v \<or> v = float_value rf 0))"
| "field_ok rf F_Opt_Float v = (v = PNone \<or> is_float v)"
| "field_ok rf F_Opt_Finite v = (v = PNone \<or> is_finite_float v)"
| "field_ok rf (F_Int i) v = is_int v"
| "field_ok rf F_Int_Or v = is_int v"
| "field_ok rf (F_Int_Alt j) v = is_int v"
| "field_ok rf F_Opt_Int v = (v = PNone \<or> is_int v)"
| "field_ok rf F_Bool v = (v \<in> {PBool True, PBool False})"
| "field_ok rf F_List v = (case v of PList xs \<Rightarrow> list_all json_value xs | _ \<Rightarrow> False)"
| "field_ok rf F_Opt_Dict v = (case v of PNone \<Rightarrow> True | PDict e \<Rightarrow> json_value (PDict e) | _ \<Rightarrow> False)"
| "field_ok rf F_Floats v = (case v of PList xs \<Rightarrow> list_all is_float xs | _ \<Rightarrow> False)"
| "field_ok rf (F_Venue v') v = (v \<in> PStr ` venue_value ` set all_venues)"
| "field_ok rf (F_Side b) v = (v \<in> PStr ` side_value ` {BUY, SELL})"
| "field_ok rf (F_Enum ms s) v = (v \<in> PStr ` set ms)"

lemma as_float_float [simp]: "is_float v \<Longrightarrow> as_float rf v = Inr v"
  by (cases v) (simp_all add: as_float_def)

lemma as_float_is_float: "as_float rf v = Inr w \<Longrightarrow> is_float w"
  by (cases v) (auto simp: as_float_def returns_iff)

lemma as_int_int [simp]: "as_int (PInt i) = Inr (PInt i)"
  by (simp add: as_int_def)

lemma as_int_is_int: "as_int v = Inr w \<Longrightarrow> is_int w"
  by (auto simp: as_int_def returns_iff)

lemma is_intE: "is_int v \<Longrightarrow> \<exists>i. v = PInt i"
  by (cases v) simp_all

lemma is_textE: "is_text v \<Longrightarrow> \<exists>s. v = PStr s"
  by (cases v) simp_all

lemma is_floatE: "is_float v \<Longrightarrow> \<exists>x t. v = PFloat x t"
  by (cases v) simp_all

lemma dget_Some: "dict_get d k = Some v \<Longrightarrow> dget d k = v"
  by (simp add: dget_def)

lemma map_as_float: "list_all is_float xs \<Longrightarrow> map_res (as_float rf) xs = Inr xs"
  by (induction xs) simp_all

lemma map_as_float_ok: "map_res (as_float rf) xs = Inr ys \<Longrightarrow> list_all is_float ys"
  by (induction xs arbitrary: ys) (auto simp: returns_iff dest: as_float_is_float)

lemma venue_or_value [simp]: "venue_or v (PStr (venue_value w)) = w"
  by simp

lemma side_or_value [simp]: "side_or v (PStr (side_value w)) = w"
  by simp

lemma in_all_venues [simp]: "v \<in> set all_venues"
  by (cases v) (simp_all add: all_venues_def)

lemma py_or_same [simp]: "py_or v v = v"
  by (simp add: py_or_def)

lemma py_or_int [simp]: "py_or (PInt i) (PInt 0) = PInt i"
  by (simp add: py_or_def)

text \<open>What is written under an attribute is read back.\<close>

lemma read_written:
  assumes "field_ok rf k v" and "dict_get d n = Some v"
  shows "read_field rf k d n = Inr v"
proof (cases k)
  case (F_Str_Or s)
  with assms show ?thesis by (auto simp: default_text_def py_or_def dest!: is_textE)
next
  case F_Float_Or
  with assms show ?thesis by (auto simp: dget_Some py_or_def split: if_splits)
next
  case F_Opt_Float
  with assms show ?thesis by (auto simp: dget_Some)
next
  case F_Opt_Finite
  with assms show ?thesis by (cases v) (auto simp: dget_Some as_float_def read_float_def py_isfinite_iff)
next
  case F_Int_Or
  with assms show ?thesis by (auto simp: zero_or_def dest!: is_intE)
next
  case (F_Int_Alt j)
  with assms show ?thesis by (auto dest!: is_intE)
next
  case (F_Venue w)
  with assms show ?thesis by (auto simp del: venue_or.simps venue_value.simps)
next
  case (F_Side w)
  with assms show ?thesis by (auto simp del: side_or.simps side_value.simps)
qed (use assms in \<open>auto simp: dget_Some map_as_float split: pyval.splits dest!: is_intE is_textE\<close>)

text \<open>Whatever is read is a value that the engine keeps.\<close>

lemma json_iter: "json_value v \<Longrightarrow> py_iter v = Inr vs \<Longrightarrow> list_all json_value vs"
  by (cases v) (auto simp: list_all_iff)

lemma json_part: "json_value (PDict d) \<Longrightarrow> json_value (dget d n)"
  using json_get [of d PNone n] by (simp add: dget_def split: option.splits)

lemma json_or_default: "json_value (PDict d) \<Longrightarrow> json_value (py_get (PDict d) n x) \<or> py_get (PDict d) n x = x"
  by (cases "dict_get d n") (auto dest!: map_of_SomeD bspec)

lemma read_field_ok:
  assumes "json_value (PDict d)" and "read_field rf k d n = Inr v"
  shows "field_ok rf k v"
proof (cases k)
  case (F_Raw x)
  with assms(2) json_or_default [OF assms(1), of n x] show ?thesis by (auto simp del: py_get.simps)
next
  case (F_Raw_Or x y)
  with assms(2) json_or_default [OF assms(1), of n x] show ?thesis by (auto simp: py_or_def simp del: py_get.simps)
next
  case F_List
  with assms(2) obtain xs where xs: "py_iter (py_get (PDict d) n (PList [])) = Inr xs" "v = PList xs"
    by (auto simp: returns_iff simp del: py_get.simps)
  have "json_value (py_get (PDict d) n (PList []))" by (rule json_get [OF assms(1)]) simp
  with json_iter [OF _ xs(1)] xs(2) F_List show ?thesis by simp
next
  case F_Opt_Dict
  with assms(2) json_part [OF assms(1), of n] show ?thesis by (auto simp del: json_dict split: pyval.splits)
next
  case (F_Str_Or s)
  let ?x = "py_get (PDict d) n (PStr s)"
  from F_Str_Or assms(2) have v: "v = PStr (py_str (py_or ?x (PStr s)))" by (simp add: default_text_def)
  have "json_value ?x" by (rule json_get [OF assms(1)]) simp
  with v F_Str_Or json_text [of ?x] show ?thesis by (cases "truth ?x") (simp_all del: py_get.simps)
next
  case F_Float_Or
  with assms(2) have v: "as_float rf (py_or (dget d n) (float_value rf 0)) = Inr v" by simp
  show ?thesis
  proof (cases "truth (dget d n)")
    case True
    with v F_Float_Or show ?thesis
      by (cases "dget d n") (auto simp: as_float_def returns_iff read_float_def float_value_def split: option.splits)
  next
    case False
    with v F_Float_Or show ?thesis by (auto simp: as_float_def float_value_def)
  qed
next
  case F_Opt_Finite
  with assms(2) show ?thesis by (auto split: sum.splits pyval.splits pyfloat.splits)
next
  case (F_Side w)
  with assms(2) obtain b where "v = PStr (side_value b)" by auto
  with F_Side show ?thesis by (cases b) simp_all
next
  case (F_Enum ms s)
  with assms(2) obtain t where "t \<in> set ms" "v = PStr t" by (auto split: pyval.splits if_splits simp del: py_get.simps)
  with F_Enum show ?thesis by simp
qed (use assms(2) in \<open>auto simp: returns_iff split: pyval.splits if_splits dest: as_float_is_float as_int_is_int map_as_float_ok\<close>)

section \<open>Tables of attributes\<close>

definition decode_fields :: "(pyfloat \<Rightarrow> string) \<Rightarrow> (string \<times> field_kind) list \<Rightarrow> obj \<Rightarrow> decode_fault + obj" where
  "decode_fields rf rows d = map_res (\<lambda>(n, k). bind_res (read_field rf k d n) (\<lambda>v. Inr (n, v))) rows"

definition fields_ok :: "(pyfloat \<Rightarrow> string) \<Rightarrow> (string \<times> field_kind) list \<Rightarrow> obj \<Rightarrow> bool" where
  "fields_ok rf rows a \<longleftrightarrow> list_all2 (\<lambda>(n, k) (m, v). n = m \<and> field_ok rf k v) rows a"

text \<open>The attributes are written under their own names; the order of the keys is immaterial.\<close>

definition write_fields :: "string list \<Rightarrow> obj \<Rightarrow> obj" where
  "write_fields ns a = map (\<lambda>n. (n, dget a n)) ns"

lemma write_get:
  "dict_get (write_fields ns a @ ps) n = (if n \<in> set ns then Some (dget a n) else dict_get ps n)"
  by (induction ns) (auto simp: write_fields_def)

lemma write_get_all: "dict_get (write_fields ns a) n = (if n \<in> set ns then Some (dget a n) else None)"
  using write_get [of ns a "[]" n] by simp

lemma write_dget: "dget (write_fields ns a @ ps) n = (if n \<in> set ns then dget a n else dget ps n)"
  unfolding dget_def write_get by simp

lemma dget_part: "n \<notin> set ns \<Longrightarrow> dget (write_fields ns a @ ps) n = dget ps n"
  by (simp add: write_dget)

lemma fields_ok_names: "fields_ok rf rows a \<Longrightarrow> map fst a = map fst rows"
  unfolding fields_ok_def by (induction rows a rule: list_all2_induct) auto

lemma fields_ok_get:
  "fields_ok rf rows a \<Longrightarrow> distinct (map fst rows) \<Longrightarrow> (n, k) \<in> set rows \<Longrightarrow> field_ok rf k (dget a n)"
  unfolding fields_ok_def
proof (induction rows a rule: list_all2_induct)
  case (Cons x xs y ys)
  then show ?case by (cases x; cases y) (auto simp: image_iff)
qed simp

lemma decode_fields_get:
  "(\<And>n k. (n, k) \<in> set rows \<Longrightarrow> read_field rf k d n = Inr (dget a n)) \<Longrightarrow>
   decode_fields rf rows d = Inr (map (\<lambda>(n, k). (n, dget a n)) rows)"
  unfolding decode_fields_def by (rule map_res_ok) auto

lemma fields_by_name:
  "map fst a = map fst rows \<Longrightarrow> distinct (map fst rows) \<Longrightarrow> map (\<lambda>(n, k). (n, dget a n)) rows = a"
proof (induction rows arbitrary: a)
  case (Cons x rows)
  then obtain v b where a: "a = (fst x, v) # b" "map fst b = map fst rows" by (cases a) auto
  with Cons.prems(2) have "fst x \<notin> set (map fst rows)" "distinct (map fst rows)" by simp_all
  then have "map (\<lambda>(n, k). (n, dget a n)) rows = map (\<lambda>(n, k). (n, dget b n)) rows"
    by (auto simp: a image_iff)
  with Cons.IH [OF a(2)] \<open>distinct (map fst rows)\<close> show ?case by (simp add: a split_def)
qed simp

text \<open>A table and the names that are written: what is written is read back.\<close>

lemma decode_written:
  assumes "fields_ok rf rows a" and "distinct (map fst rows)" and "set (map fst rows) \<subseteq> set ns"
  shows "decode_fields rf rows (write_fields ns a @ ps) = Inr a"
proof -
  have "read_field rf k (write_fields ns a @ ps) n = Inr (dget a n)" if r: "(n, k) \<in> set rows" for n k
  proof (rule read_written [OF fields_ok_get [OF assms(1,2) r]])
    from r have "n \<in> set (map fst rows)" by force
    with assms(3) have "n \<in> set ns" by blast
    then show "dict_get (write_fields ns a @ ps) n = Some (dget a n)" unfolding write_get by simp
  qed
  from decode_fields_get [OF this] fields_by_name [OF fields_ok_names [OF assms(1)] assms(2)] show ?thesis by simp
qed

lemma decode_written_all:
  assumes "fields_ok rf rows a" and "distinct (map fst rows)" and "set (map fst rows) \<subseteq> set ns"
  shows "decode_fields rf rows (write_fields ns a) = Inr a"
  using decode_written [OF assms, of "[]"] by simp

lemma decode_fields_ok:
  assumes "json_value (PDict d)"
  shows "decode_fields rf rows d = Inr a \<Longrightarrow> fields_ok rf rows a"
  unfolding decode_fields_def fields_ok_def
  by (induction rows arbitrary: a) (auto simp: returns_iff intro: read_field_ok [OF assms])

lemma fields_ok_put:
  "fields_ok rf rows a \<Longrightarrow> distinct (map fst rows) \<Longrightarrow> (n, k) \<in> set rows \<Longrightarrow> field_ok rf k v \<Longrightarrow>
   fields_ok rf rows (dict_put n v a)"
  unfolding fields_ok_def
proof (induction rows a rule: list_all2_induct)
  case (Cons x xs y ys)
  then show ?case by (cases x; cases y) (auto simp: image_iff)
qed simp

end
