(* ===== verification/Snapshot.thy ===== *)
theory Snapshot
  imports Snapshot_Fields Recovery_Core Reconciliation
begin

text \<open>
  What of the engine's state a restart keeps: \<open>build_persistent_state_view\<close> writes the snapshot and
  \<open>_restore_state_from_snapshot_dict\<close> reads it (\<open>engine/recovery.py\<close>), the JSON text between them
  being the identity on the values. The wide records are attribute dictionaries with the tables of
  \<open>Snapshot_Fields\<close>; the parts that the life cycle of a pending entry works on are the records of
  \<open>Pending_Entry\<close> with the encodings of \<open>State_Codec\<close>.

  Every attribute of \<open>EngineState\<close> is in \<open>saved_state\<close>. Of its keys, the view leaves out the counts
  of the collections, the summary of the reconciliations and the checkpoint of the journal, which
  are not attributes of the state and which this restore does not read.
\<close>

section \<open>Fills and open positions\<close>

lemma json_or_text: "json_value v \<or> v = PStr s \<longleftrightarrow> json_value v"
  by auto

definition order_fill_fields :: "(string \<times> field_kind) list" where
  "order_fill_fields =
    [(''venue'', F_Venue BINANCE), (''symbol'', F_Str []), (''side'', F_Side BUY), (''quantity'', F_Float),
     (''price'', F_Float), (''order_id'', F_Str []), (''client_order_id'', F_Raw PNone),
     (''fee_quote'', F_Opt_Float), (''filled_at_ms'', F_Int 0)]"

fun deserialize_order_fill :: "(pyfloat \<Rightarrow> string) \<Rightarrow> pyval \<Rightarrow> decode_fault + obj option" where
  "deserialize_order_fill rf (PDict d) = bind_res (decode_fields rf order_fill_fields d) (\<lambda>a. Inr (Some a))"
| "deserialize_order_fill rf _ = Inr None"

definition serialize_order_fill :: "obj option \<Rightarrow> pyval" where
  "serialize_order_fill f = (case f of None \<Rightarrow> PNone | Some a \<Rightarrow> PDict (write_fields (map fst order_fill_fields) a))"

definition fill_ok :: "(pyfloat \<Rightarrow> string) \<Rightarrow> obj option \<Rightarrow> bool" where
  "fill_ok rf f \<longleftrightarrow> (case f of None \<Rightarrow> True | Some a \<Rightarrow> fields_ok rf order_fill_fields a)"

lemma order_fill_names: "distinct (map fst order_fill_fields)"
  by (simp add: order_fill_fields_def)

interpretation fill: typed_codec serialize_order_fill "deserialize_order_fill rf" "fill_ok rf" json_value for rf
proof
  show "deserialize_order_fill rf (serialize_order_fill f) = Inr f" if "fill_ok rf f" for f
    using that by (cases f) (simp_all add: serialize_order_fill_def fill_ok_def decode_written_all [OF _ order_fill_names subset_refl])
  show "fill_ok rf f" if "json_value v" "deserialize_order_fill rf v = Inr f" for v f
    using that by (cases v) (auto simp: fill_ok_def returns_iff simp del: json_dict intro: decode_fields_ok)
qed

text \<open>An open position: its plain attributes, and the fills that opened it.\<close>

record position_attrs =
  pa_fields :: obj
  pa_long_fill :: "obj option"
  pa_short_fill :: "obj option"

definition position_fields :: "(string \<times> field_kind) list" where
  "position_fields =
    [(''position_id'', F_Raw (PStr [])), (''symbol'', F_Raw (PStr [])), (''long_venue'', F_Venue BINANCE),
     (''short_venue'', F_Venue OKX), (''long_quantity'', F_Float), (''short_quantity'', F_Float),
     (''long_entry_price'', F_Float), (''short_entry_price'', F_Float), (''opened_at_ms'', F_Int 0),
     (''entry_notional_quote'', F_Float), (''review_id'', F_Raw PNone), (''opportunity_origin_tags'', F_List),
     (''opportunity_hint_source'', F_Raw PNone), (''matched_quantity'', F_Float),
     (''initial_quantity'', F_Float), (''entered_at_ms'', F_Int_Alt ''opened_at_ms''),
     (''captured_funding_quote'', F_Float), (''funding_captured'', F_Bool), (''peak_net_quote'', F_Float),
     (''current_net_quote'', F_Float), (''realized_price_pnl_quote'', F_Float),
     (''realized_exit_fee_quote'', F_Float), (''risk_delever_realized_price_pnl_quote'', F_Float),
     (''risk_delever_realized_exit_fee_quote'', F_Float), (''protection_realized_price_pnl_quote'', F_Float),
     (''protection_realized_exit_fee_quote'', F_Float), (''long_entry_fee_quote'', F_Float),
     (''short_entry_fee_quote'', F_Float), (''total_entry_fee_quote'', F_Float),
     (''entry_fee_evidence_complete'', F_Bool), (''funding_edge_bps_entry'', F_Float),
     (''total_funding_edge_bps_entry'', F_Float), (''expected_edge_bps_entry'', F_Float),
     (''worst_case_edge_bps_entry'', F_Float), (''entry_cross_bps_entry'', F_Float),
     (''fee_bps_entry'', F_Float), (''entry_slippage_bps_entry'', F_Float),
     (''transfer_bias_bps_entry'', F_Float), (''transfer_state_at_entry'', F_Raw PNone),
     (''entry_liquidity_source_at_entry'', F_Raw PNone), (''long_volume_24h_quote_at_entry'', F_Float),
     (''short_volume_24h_quote_at_entry'', F_Float), (''long_open_interest_quote_at_entry'', F_Float),
     (''short_open_interest_quote_at_entry'', F_Float), (''long_entry_vwap'', F_Raw PNone),
     (''short_entry_vwap'', F_Raw PNone), (''entry_capacity_constrained'', F_Bool),
     (''entry_target_quantity'', F_Float), (''long_max_executable_quantity'', F_Float),
     (''short_max_executable_quantity'', F_Float), (''entry_max_executable_quantity'', F_Float),
     (''entry_depth_shortfall_quantity'', F_Float), (''entry_max_executable_notional_quote'', F_Float),
     (''entry_depth_capped_at_entry'', F_Bool), (''advisories'', F_List), (''blocked_reasons'', F_List),
     (''entry_quality_completed_at_ms'', F_Int 0), (''entry_quality_markout_5s_emitted'', F_Bool),
     (''entry_quality_markout_30s_emitted'', F_Bool), (''settlement_half_closed_quantity'', F_Float),
     (''settlement_half_closed_at_ms'', F_Int 0), (''exit_reason'', F_Raw PNone),
     (''last_risk_action_at_ms'', F_Int 0), (''risk_delever_step_count'', F_Int 0),
     (''last_risk_reason'', F_Raw PNone), (''single_side_protection_triggered'', F_Bool),
     (''funding_timestamp_ms'', F_Int 0), (''long_funding_timestamp_ms'', F_Int 0),
     (''short_funding_timestamp_ms'', F_Int 0), (''exit_after_first_stage'', F_Bool),
     (''opportunity_type'', F_Raw (PStr ''aligned'')), (''first_funding_leg'', F_Str []),
     (''second_stage_enabled_at_entry'', F_Bool), (''second_funding_timestamp_ms'', F_Int 0),
     (''second_stage_funding_captured'', F_Bool), (''second_stage_funding_quote'', F_Float),
     (''entry_maker_leg'', F_Str []), (''exit_maker_leg'', F_Str [])]"

definition serialize_open_position :: "position_attrs \<Rightarrow> obj" where
  "serialize_open_position p = write_fields (map fst position_fields) (pa_fields p) @
     [(''long_fill'', serialize_order_fill (pa_long_fill p)), (''short_fill'', serialize_order_fill (pa_short_fill p))]"

text \<open>\<open>OpenPosition.__post_init__\<close>: figures that are zero are derived from others.\<close>

definition number :: "pyval \<Rightarrow> pyfloat" where
  "number v = (case number_of v of None \<Rightarrow> NaN | Some x \<Rightarrow> x)"

definition py_min :: "pyval \<Rightarrow> pyval \<Rightarrow> pyval" where
  "py_min x y = (if float_less (number y) (number x) then y else x)"

definition fill_zero :: "string \<Rightarrow> (obj \<Rightarrow> pyval) \<Rightarrow> obj \<Rightarrow> obj" where
  "fill_zero k f a = (if number (dget a k) = Fin 0 then dict_put k (f a) a else a)"

definition position_post_init :: "(pyfloat \<Rightarrow> string) \<Rightarrow> obj \<Rightarrow> obj" where
  "position_post_init rf a =
     fill_zero ''total_entry_fee_quote''
       (\<lambda>a. let x = float_add (number (dget a ''long_entry_fee_quote'')) (number (dget a ''short_entry_fee_quote''))
            in PFloat x (rf x))
     (fill_zero ''entered_at_ms'' (\<lambda>a. dget a ''opened_at_ms'')
     (fill_zero ''initial_quantity'' (\<lambda>a. dget a ''matched_quantity'')
     (fill_zero ''matched_quantity'' (\<lambda>a. py_min (dget a ''long_quantity'') (dget a ''short_quantity'')) a)))"

definition deserialize_open_position :: "(pyfloat \<Rightarrow> string) \<Rightarrow> obj \<Rightarrow> decode_fault + position_attrs" where
  "deserialize_open_position rf d =
     bind_res (decode_fields rf position_fields d) (\<lambda>a.
     bind_res (deserialize_order_fill rf (dget d ''long_fill'')) (\<lambda>l.
     bind_res (deserialize_order_fill rf (dget d ''short_fill'')) (\<lambda>s.
     Inr \<lparr>pa_fields = position_post_init rf a, pa_long_fill = l, pa_short_fill = s\<rparr>)))"

definition position_ok :: "(pyfloat \<Rightarrow> string) \<Rightarrow> position_attrs \<Rightarrow> bool" where
  "position_ok rf p \<longleftrightarrow> fields_ok rf position_fields (pa_fields p) \<and> fill_ok rf (pa_long_fill p) \<and> fill_ok rf (pa_short_fill p)"

definition position_restarted :: "(pyfloat \<Rightarrow> string) \<Rightarrow> position_attrs \<Rightarrow> position_attrs" where
  "position_restarted rf p = p\<lparr>pa_fields := position_post_init rf (pa_fields p)\<rparr>"

lemma position_names: "distinct (map fst position_fields)"
  by (simp add: position_fields_def)

lemma position_parts:
  "dget (write_fields (map fst position_fields) a @ ps) ''long_fill'' = dget ps ''long_fill''"
  "dget (write_fields (map fst position_fields) a @ ps) ''short_fill'' = dget ps ''short_fill''"
  by (rule dget_part, simp add: position_fields_def)+

lemma position_restored:
  "position_ok rf p \<Longrightarrow> deserialize_open_position rf (serialize_open_position p) = Inr (position_restarted rf p)"
  by (simp add: position_ok_def deserialize_open_position_def serialize_open_position_def position_parts
      decode_written [OF _ position_names subset_refl] fill.decode_encode position_restarted_def)

lemma fill_zero_ok:
  "fields_ok rf rows a \<Longrightarrow> distinct (map fst rows) \<Longrightarrow> (k, q) \<in> set rows \<Longrightarrow> field_ok rf q (f a) \<Longrightarrow>
   fields_ok rf rows (fill_zero k f a)"
  by (simp add: fill_zero_def fields_ok_put)

lemma position_rows:
  "{(''long_quantity'', F_Float), (''short_quantity'', F_Float), (''matched_quantity'', F_Float),
    (''initial_quantity'', F_Float), (''opened_at_ms'', F_Int 0), (''entered_at_ms'', F_Int_Alt ''opened_at_ms''),
    (''total_entry_fee_quote'', F_Float)} \<subseteq> set position_fields"
  by (simp add: position_fields_def)

lemma position_post_init_ok:
  assumes "fields_ok rf position_fields a"
  shows "fields_ok rf position_fields (position_post_init rf a)"
proof -
  let ?f1 = "\<lambda>a. py_min (dget a ''long_quantity'') (dget a ''short_quantity'')"
  let ?f2 = "\<lambda>a. dget a ''matched_quantity''" and ?f3 = "\<lambda>a. dget a ''opened_at_ms''"
  define a1 where "a1 = fill_zero ''matched_quantity'' ?f1 a"
  define a2 where "a2 = fill_zero ''initial_quantity'' ?f2 a1"
  define a3 where "a3 = fill_zero ''entered_at_ms'' ?f3 a2"
  have get: "field_ok rf k (dget a n)" if "fields_ok rf position_fields a" "(n, k) \<in> set position_fields" for a n k
    using fields_ok_get [OF that(1) position_names that(2)] .
  note put = fill_zero_ok [OF _ position_names]
  have 1: "fields_ok rf position_fields a1" unfolding a1_def
    using get [OF assms, of "''long_quantity''" F_Float] get [OF assms, of "''short_quantity''" F_Float] position_rows
    by (intro put [where q = F_Float] assms) (auto simp: py_min_def)
  have 2: "fields_ok rf position_fields a2" unfolding a2_def
    using get [OF 1, of "''matched_quantity''" F_Float] position_rows by (intro put [where q = F_Float] 1) auto
  have 3: "fields_ok rf position_fields a3" unfolding a3_def
    using get [OF 2, of "''opened_at_ms''" "F_Int 0"] position_rows
    by (intro put [where q = "F_Int_Alt ''opened_at_ms''"] 2) auto
  have "fields_ok rf position_fields (fill_zero ''total_entry_fee_quote''
      (\<lambda>a. let x = float_add (number (dget a ''long_entry_fee_quote'')) (number (dget a ''short_entry_fee_quote''))
           in PFloat x (rf x)) a3)"
    using position_rows by (intro put [where q = F_Float] 3) (auto simp: Let_def)
  then show ?thesis by (simp only: position_post_init_def a1_def a2_def a3_def)
qed

lemma position_ok_restored:
  assumes "json_value (PDict d)" and "deserialize_open_position rf d = Inr p"
  shows "position_ok rf p"
proof -
  have part: "json_value (dget d n)" for n
    using json_get [OF assms(1), of PNone n] by (simp add: dget_def split: option.splits)
  from assms(2) obtain a where a: "decode_fields rf position_fields d = Inr a" "pa_fields p = position_post_init rf a"
      and l: "deserialize_order_fill rf (dget d ''long_fill'') = Inr (pa_long_fill p)"
      and s: "deserialize_order_fill rf (dget d ''short_fill'') = Inr (pa_short_fill p)"
    by (auto simp: deserialize_open_position_def returns_iff)
  from position_post_init_ok [OF decode_fields_ok [OF assms(1) a(1)]] fill.decode_ok [OF part l] fill.decode_ok [OF part s] a(2)
  show ?thesis by (simp add: position_ok_def)
qed

lemma fill_zero_other [simp]:
  "n \<noteq> k \<Longrightarrow> dget (fill_zero k f a) n = dget a n" "n \<noteq> k \<Longrightarrow> dict_get (fill_zero k f a) n = dict_get a n"
  by (simp_all add: fill_zero_def)

lemma fill_zero_settled: "number (dget (fill_zero k f a) k) = Fin 0 \<Longrightarrow> dict_get (fill_zero k f a) k = Some (f a)"
  by (simp add: fill_zero_def split: if_splits)

lemma fill_zero_fixed: "(number (dget b k) = Fin 0 \<Longrightarrow> dict_get b k = Some (f b)) \<Longrightarrow> fill_zero k f b = b"
  by (simp add: fill_zero_def update_triv)

lemma position_post_init_again: "position_post_init rf (position_post_init rf a) = position_post_init rf a"
proof -
  let ?f1 = "\<lambda>a. py_min (dget a ''long_quantity'') (dget a ''short_quantity'')"
  let ?f2 = "\<lambda>a. dget a ''matched_quantity''" and ?f3 = "\<lambda>a. dget a ''opened_at_ms''"
  let ?f4 = "\<lambda>a. let x = float_add (number (dget a ''long_entry_fee_quote'')) (number (dget a ''short_entry_fee_quote''))
            in PFloat x (rf x)"
  define a1 where "a1 = fill_zero ''matched_quantity'' ?f1 a"
  define a2 where "a2 = fill_zero ''initial_quantity'' ?f2 a1"
  define a3 where "a3 = fill_zero ''entered_at_ms'' ?f3 a2"
  define b where "b = fill_zero ''total_entry_fee_quote'' ?f4 a3"
  have 1: "fill_zero ''matched_quantity'' ?f1 b = b"
    using fill_zero_settled [of "''matched_quantity''" ?f1 a]
    by (intro fill_zero_fixed) (simp add: b_def a3_def a2_def a1_def)
  have 2: "fill_zero ''initial_quantity'' ?f2 b = b"
    using fill_zero_settled [of "''initial_quantity''" ?f2 a1]
    by (intro fill_zero_fixed) (simp add: b_def a3_def a2_def)
  have 3: "fill_zero ''entered_at_ms'' ?f3 b = b"
    using fill_zero_settled [of "''entered_at_ms''" ?f3 a2]
    by (intro fill_zero_fixed) (simp add: b_def a3_def)
  have 4: "fill_zero ''total_entry_fee_quote'' ?f4 b = b"
    using fill_zero_settled [of "''total_entry_fee_quote''" ?f4 a3]
    by (intro fill_zero_fixed) (simp add: b_def Let_def)
  have b: "position_post_init rf a = b" by (simp only: position_post_init_def b_def a3_def a2_def a1_def)
  show ?thesis unfolding b by (simp only: position_post_init_def 1 2 3 4)
qed

section \<open>Pending entries\<close>

record entry_attrs =
  ea_fields :: obj
  ea_hedge_inflight :: "hedge_inflight option"
  ea_phase_state :: "passive_phase_state option"
  ea_manager_runtime :: passive_order_manager_runtime
  ea_remainder_slices :: "remainder_slice list"
  ea_passive_order :: "pending_passive_order option"

text \<open>The table is that of the restore; \<open>pid\<close> is the key of the entry in the snapshot.\<close>

definition entry_fields :: "string \<Rightarrow> (string \<times> field_kind) list" where
  "entry_fields pid =
    [(''pending_id'', F_Raw (PStr pid)), (''symbol'', F_Raw (PStr [])), (''long_venue'', F_Venue BINANCE),
     (''short_venue'', F_Venue OKX), (''target_quantity'', F_Float), (''long_side'', F_Side BUY),
     (''short_side'', F_Side SELL), (''created_at_ms'', F_Int 0), (''metadata'', F_Raw (PDict [])),
     (''maker_order_id'', F_Str []), (''hedge_order_id'', F_Str []), (''maker_client_order_id'', F_Str []),
     (''hedge_client_order_id'', F_Str []), (''maker_leg_filled'', F_Float), (''hedge_leg_filled'', F_Float),
     (''maker_fee_quote'', F_Opt_Finite), (''hedge_fee_quote'', F_Opt_Finite), (''deadline_ms'', F_Int 0),
     (''fallback_route'', F_Str []), (''uncertain_outcome'', F_Bool), (''reconcile_attempt'', F_Int 0),
     (''reconcile_next_attempt_ms'', F_Int 0), (''entry_type'', F_Str []), (''maker_price'', F_Float),
     (''maker_fill_price'', F_Float), (''hedge_fill_price'', F_Float), (''hedge_attempt_count'', F_Int 0),
     (''repair_state'', F_Str []), (''long_quantity'', F_Float), (''short_quantity'', F_Float),
     (''run_id'', F_Str []), (''entry_route'', F_Str []), (''outcome'', F_Str []),
     (''opportunity_type'', F_Str_Or ''aligned''), (''funding_timestamp_ms'', F_Int 0),
     (''first_funding_timestamp_ms'', F_Int 0), (''long_funding_timestamp_ms'', F_Int 0),
     (''short_funding_timestamp_ms'', F_Int 0), (''second_funding_timestamp_ms'', F_Int 0),
     (''first_funding_leg'', F_Str []), (''funding_edge_bps_entry'', F_Float),
     (''total_funding_edge_bps_entry'', F_Float), (''expected_edge_bps_entry'', F_Float),
     (''worst_case_edge_bps_entry'', F_Float), (''entry_maker_leg'', F_Str []), (''exit_maker_leg'', F_Str []),
     (''entry_cross_bps_entry'', F_Float), (''fee_bps_entry'', F_Float),
     (''entry_slippage_bps_entry'', F_Float), (''transfer_bias_bps_entry'', F_Float),
     (''transfer_state_at_entry'', F_Raw PNone), (''entry_liquidity_source_at_entry'', F_Raw PNone),
     (''long_volume_24h_quote_at_entry'', F_Float), (''short_volume_24h_quote_at_entry'', F_Float),
     (''long_open_interest_quote_at_entry'', F_Float), (''short_open_interest_quote_at_entry'', F_Float),
     (''long_entry_vwap'', F_Raw PNone), (''short_entry_vwap'', F_Raw PNone),
     (''entry_capacity_constrained'', F_Bool), (''entry_target_quantity'', F_Float),
     (''long_max_executable_quantity'', F_Float), (''short_max_executable_quantity'', F_Float),
     (''entry_max_executable_quantity'', F_Float), (''entry_depth_shortfall_quantity'', F_Float),
     (''entry_max_executable_notional_quote'', F_Float), (''entry_depth_capped_at_entry'', F_Bool),
     (''advisories'', F_List), (''blocked_reasons'', F_List), (''exit_after_first_stage'', F_Bool),
     (''created_cycle'', F_Int_Or), (''repost_attempt_count'', F_Int_Alt ''repost_count''),
     (''passive_attempt_count'', F_Int_Or), (''passive_ops_total'', F_Int_Or),
     (''lifetime_exhausted_logged_final_reason'', F_Raw PNone), (''frozen_candidate'', F_Opt_Dict),
     (''repost_count'', F_Int 0), (''zero_fill_since_ms'', F_Int 0), (''maker_leg'', F_Str ''long''),
     (''next_progress_poll_ms'', F_Int_Or)]"

text \<open>The view has no row for the two fees.\<close>

definition unwritten_fees :: "string list" where
  "unwritten_fees = [''maker_fee_quote'', ''hedge_fee_quote'']"

definition entry_written :: "string list" where
  "entry_written = filter (\<lambda>n. n \<notin> set unwritten_fees) (map fst (entry_fields []))"

definition entry_view :: "(pyfloat \<Rightarrow> string) \<Rightarrow> entry_attrs \<Rightarrow> obj" where
  "entry_view rf e = write_fields entry_written (ea_fields e) @
     [(''hedge_inflight'', hedge_view rf (ea_hedge_inflight e)), (''phase_state'', phase_view (ea_phase_state e)),
      (''passive_manager_runtime'', runtime_to_dict (ea_manager_runtime e)),
      (''maker_remainder_slices'', PList (map (slice_to_dict rf) (ea_remainder_slices e))),
      (''passive_order'', order_view rf (ea_passive_order e))]"

text \<open>\<open>PendingEntry.__post_init__\<close>, for parts that are restored already.\<close>

definition entry_post_init :: "obj \<Rightarrow> obj" where
  "entry_post_init a =
     (if number (dget a ''repost_count'') = Fin 0 \<and> truth (dget a ''repost_attempt_count'')
      then dict_put ''repost_count'' (dget a ''repost_attempt_count'') a else a)"

definition restore_entry :: "(pyfloat \<Rightarrow> string) \<Rightarrow> string \<Rightarrow> obj \<Rightarrow> decode_fault + entry_attrs" where
  "restore_entry rf pid d =
     bind_res (decode_fields rf (entry_fields pid) d) (\<lambda>a.
     bind_res (restore_hedge_inflight (py_get (PDict d) ''hedge_inflight'' (PStr []))) (\<lambda>h.
     bind_res (phase_from_dict (dget d ''phase_state'')) (\<lambda>ph.
     bind_res (runtime_from_dict (dget d ''passive_manager_runtime'')) (\<lambda>r.
     bind_res (bind_res (py_iter (py_or (dget d ''maker_remainder_slices'') (PList []))) (map_res slice_from_dict)) (\<lambda>ss.
     bind_res (order_from_dict (dget d ''passive_order'')) (\<lambda>po.
     Inr \<lparr>ea_fields = entry_post_init a, ea_hedge_inflight = h, ea_phase_state = ph, ea_manager_runtime = r,
          ea_remainder_slices = ss, ea_passive_order = po\<rparr>))))))"

definition entry_ok :: "(pyfloat \<Rightarrow> string) \<Rightarrow> entry_attrs \<Rightarrow> bool" where
  "entry_ok rf e \<longleftrightarrow> fields_ok rf (entry_fields []) (ea_fields e) \<and> phase_named (ea_phase_state e)"

text \<open>What a restart makes of an entry.\<close>

definition without_fees :: "obj \<Rightarrow> obj" where
  "without_fees a = dict_put ''hedge_fee_quote'' PNone (dict_put ''maker_fee_quote'' PNone a)"

definition entry_restarted :: "entry_attrs \<Rightarrow> entry_attrs" where
  "entry_restarted e = e\<lparr>ea_fields := entry_post_init (without_fees (ea_fields e)),
     ea_passive_order := map_option order_forgotten (ea_passive_order e)\<rparr>"

lemma entry_fields_key: "fields_ok rf (entry_fields pid) a \<longleftrightarrow> fields_ok rf (entry_fields []) a"
  by (cases a) (simp_all add: fields_ok_def entry_fields_def split_beta json_or_text)

lemma entry_field_names: "map fst (entry_fields pid) = map fst (entry_fields [])"
  by (simp add: entry_fields_def)

lemma entry_names: "distinct (map fst (entry_fields pid))"
  by (simp add: entry_fields_def)

lemma entry_parts:
  "n \<in> {''hedge_inflight'', ''phase_state'', ''passive_manager_runtime'', ''maker_remainder_slices'', ''passive_order''} \<Longrightarrow>
   n \<notin> set (map fst (entry_fields []))"
  by (simp only: insert_iff empty_iff) (auto simp: entry_fields_def)

lemma fee_rows:
  "(''maker_fee_quote'', F_Opt_Finite) \<in> set (entry_fields pid)" "(''hedge_fee_quote'', F_Opt_Finite) \<in> set (entry_fields pid)"
  by (simp_all add: entry_fields_def)

lemma without_fees_ok: "fields_ok rf (entry_fields []) a \<Longrightarrow> fields_ok rf (entry_fields []) (without_fees a)"
  unfolding without_fees_def
  by (rule fields_ok_put [OF fields_ok_put [OF _ entry_names fee_rows(1)] entry_names fee_rows(2)]) simp_all

lemma dget_without_fees:
  "dget (without_fees a) n = (if n \<in> set unwritten_fees then PNone else dget a n)"
  by (simp add: without_fees_def unwritten_fees_def)

lemma entry_written_iff: "n \<in> set entry_written \<longleftrightarrow> n \<in> set (map fst (entry_fields [])) \<and> n \<notin> set unwritten_fees"
  by (auto simp: entry_written_def)

lemma entry_part:
  assumes "n \<in> {''hedge_inflight'', ''phase_state'', ''passive_manager_runtime'', ''maker_remainder_slices'', ''passive_order''}"
  shows "n \<notin> set entry_written"
  using entry_parts [OF assms] entry_written_iff by blast

lemma fee_not_part:
  "n \<in> set unwritten_fees \<Longrightarrow> dget (entry_view rf e) n = PNone"
  unfolding entry_view_def
  by (subst dget_part) (auto simp: entry_written_iff unwritten_fees_def)

lemma read_entry_field:
  assumes ok: "fields_ok rf (entry_fields []) (ea_fields e)" and r: "(n, k) \<in> set (entry_fields pid)"
  shows "read_field rf k (entry_view rf e) n = Inr (dget (without_fees (ea_fields e)) n)"
proof (cases "n \<in> set unwritten_fees")
  case True
  then have "(n, F_Opt_Finite) \<in> set (entry_fields pid)" using fee_rows by (auto simp: unwritten_fees_def)
  with r have "k = F_Opt_Finite" using entry_names by (metis eq_key_imp_eq_value)
  with True fee_not_part [OF True, of rf e] show ?thesis
    by (simp add: dget_without_fees as_float_def read_float_def)
next
  case False
  from r have "n \<in> set (map fst (entry_fields pid))" by force
  then have "n \<in> set (map fst (entry_fields []))" by (simp only: entry_field_names [of pid])
  with False have "dict_get (entry_view rf e) n = Some (dget (ea_fields e) n)"
    unfolding entry_view_def write_get by (simp only: entry_written_iff) simp
  moreover from ok have "fields_ok rf (entry_fields pid) (ea_fields e)" by (rule entry_fields_key [THEN iffD2])
  ultimately show ?thesis
    using False by (simp add: dget_without_fees read_written [OF fields_ok_get [OF _ entry_names r]])
qed

lemma decode_entry_fields:
  assumes "fields_ok rf (entry_fields []) (ea_fields e)"
  shows "decode_fields rf (entry_fields pid) (entry_view rf e) = Inr (without_fees (ea_fields e))"
proof -
  from without_fees_ok [OF assms] have "fields_ok rf (entry_fields pid) (without_fees (ea_fields e))"
    by (rule entry_fields_key [THEN iffD2])
  note names = fields_by_name [OF fields_ok_names [OF this] entry_names]
  have "decode_fields rf (entry_fields pid) (entry_view rf e) =
      Inr (map (\<lambda>(n, k). (n, dget (without_fees (ea_fields e)) n)) (entry_fields pid))"
    by (rule decode_fields_get) (rule read_entry_field [OF assms])
  then show ?thesis by (simp only: names)
qed

lemma entry_view_parts:
  "dget (entry_view rf e) ''hedge_inflight'' = hedge_view rf (ea_hedge_inflight e)"
  "dget (entry_view rf e) ''phase_state'' = phase_view (ea_phase_state e)"
  "dget (entry_view rf e) ''passive_manager_runtime'' = runtime_to_dict (ea_manager_runtime e)"
  "dget (entry_view rf e) ''maker_remainder_slices'' = PList (map (slice_to_dict rf) (ea_remainder_slices e))"
  "dget (entry_view rf e) ''passive_order'' = order_view rf (ea_passive_order e)"
  by (simp_all add: entry_view_def dget_part entry_part)

lemma py_get_written: "n \<notin> set ns \<Longrightarrow> py_get (PDict (write_fields ns a @ ps)) n v = py_get (PDict ps) n v"
  unfolding py_get.simps write_get by simp

lemma entry_view_hedge: "py_get (PDict (entry_view rf e)) ''hedge_inflight'' v = hedge_view rf (ea_hedge_inflight e)"
  unfolding entry_view_def by (subst py_get_written) (simp_all add: entry_part)

lemma entry_restored:
  assumes "entry_ok rf e"
  shows "restore_entry rf pid (entry_view rf e) = Inr (entry_restarted e)"
  using assms
  by (simp add: restore_entry_def entry_ok_def decode_entry_fields entry_view_parts entry_view_hedge
      hedge.decode_encode phase.decode_encode runtime.decode_encode order_restored
      slice.decode_encode_list py_or_def entry_restarted_def del: py_get.simps)

text \<open>What is restored is well-formed, so a second restart changes nothing.\<close>

lemma entry_post_init_ok: "fields_ok rf (entry_fields []) a \<Longrightarrow> fields_ok rf (entry_fields []) (entry_post_init a)"
proof -
  assume ok: "fields_ok rf (entry_fields []) a"
  have rows: "(''repost_count'', F_Int 0) \<in> set (entry_fields [])"
    "(''repost_attempt_count'', F_Int_Alt ''repost_count'') \<in> set (entry_fields [])"
    by (simp_all add: entry_fields_def)
  from fields_ok_get [OF ok entry_names rows(2)] have "field_ok rf (F_Int 0) (dget a ''repost_attempt_count'')" by simp
  from fields_ok_put [OF ok entry_names rows(1) this] ok show ?thesis by (simp add: entry_post_init_def)
qed

lemma restore_entry_ok:
  assumes "json_value (PDict d)" and "restore_entry rf pid d = Inr e"
  shows "entry_ok rf e"
proof -
  have part: "json_value (dget d n)" for n
    using json_get [OF assms(1), of PNone n] by (simp add: dget_def split: option.splits)
  from assms(2) obtain a where a: "decode_fields rf (entry_fields pid) d = Inr a" "ea_fields e = entry_post_init a"
      and ph: "phase_from_dict (dget d ''phase_state'') = Inr (ea_phase_state e)"
    by (auto simp: restore_entry_def returns_iff)
  from decode_fields_ok [OF assms(1) a(1)] have "fields_ok rf (entry_fields []) (ea_fields e)"
    unfolding a(2) by (intro entry_post_init_ok entry_fields_key [THEN iffD1])
  with phase.decode_ok [OF part ph] show ?thesis by (simp add: entry_ok_def)
qed

lemma entry_restarted_again: "entry_restarted (entry_restarted e) = entry_restarted e"
  by (cases "ea_passive_order e")
     (simp_all add: entry_restarted_def entry_post_init_def without_fees_def update_triv update_swap order_forgotten_def)

section \<open>Closings\<close>

definition close_leg_fields :: "(string \<times> field_kind) list" where
  "close_leg_fields =
    [(''venue'', F_Str []), (''order_id'', F_Str []), (''client_order_id'', F_Str []), (''quantity'', F_Float),
     (''average_price'', F_Float), (''fee_quote'', F_Float)]"

text \<open>The records of a list: what is not a dictionary is skipped.\<close>

fun restore_close_leg_records :: "(pyfloat \<Rightarrow> string) \<Rightarrow> pyval list \<Rightarrow> decode_fault + obj list" where
  "restore_close_leg_records rf [] = Inr []"
| "restore_close_leg_records rf (PDict d # vs) =
     bind_res (decode_fields rf close_leg_fields d) (\<lambda>a. bind_res (restore_close_leg_records rf vs) (\<lambda>as. Inr (a # as)))"
| "restore_close_leg_records rf (v # vs) = restore_close_leg_records rf vs"

definition close_leg_view :: "obj \<Rightarrow> pyval" where
  "close_leg_view a = PDict (write_fields (map fst close_leg_fields) a)"

record close_attrs =
  ca_fields :: obj
  ca_long_legs :: "obj list"
  ca_short_legs :: "obj list"

definition close_fields :: "string \<Rightarrow> (string \<times> field_kind) list" where
  "close_fields pid =
    [(''close_id'', F_Raw (PStr pid)), (''position_id'', F_Raw (PStr [])), (''reason'', F_Raw (PStr [])),
     (''created_at_ms'', F_Int 0), (''long_order_id'', F_Str []), (''short_order_id'', F_Str []),
     (''long_client_order_id'', F_Str []), (''short_client_order_id'', F_Str []),
     (''long_target_close_qty'', F_Float), (''short_target_close_qty'', F_Float), (''long_closed'', F_Float),
     (''short_closed'', F_Float), (''long_uncertain'', F_Bool), (''short_uncertain'', F_Bool),
     (''deadline_ms'', F_Int 0), (''reconcile_attempt'', F_Int 0), (''reconcile_next_attempt_ms'', F_Int 0),
     (''run_id'', F_Str []), (''chunk_index'', F_Int 0), (''total_chunks'', F_Int 1)]"

definition close_view :: "close_attrs \<Rightarrow> obj" where
  "close_view c = write_fields (map fst (close_fields [])) (ca_fields c) @
     [(''long_legs'', PList (map close_leg_view (ca_long_legs c))),
      (''short_legs'', PList (map close_leg_view (ca_short_legs c)))]"

definition restore_legs :: "(pyfloat \<Rightarrow> string) \<Rightarrow> pyval \<Rightarrow> decode_fault + obj list" where
  "restore_legs rf v = bind_res (py_iter (py_or v (PList []))) (restore_close_leg_records rf)"

definition restore_close :: "(pyfloat \<Rightarrow> string) \<Rightarrow> string \<Rightarrow> obj \<Rightarrow> decode_fault + close_attrs" where
  "restore_close rf pid d =
     bind_res (decode_fields rf (close_fields pid) d) (\<lambda>a.
     bind_res (restore_legs rf (dget d ''long_legs'')) (\<lambda>l.
     bind_res (restore_legs rf (dget d ''short_legs'')) (\<lambda>s.
     Inr \<lparr>ca_fields = a, ca_long_legs = l, ca_short_legs = s\<rparr>)))"

definition close_ok :: "(pyfloat \<Rightarrow> string) \<Rightarrow> close_attrs \<Rightarrow> bool" where
  "close_ok rf c \<longleftrightarrow> fields_ok rf (close_fields []) (ca_fields c) \<and>
     list_all (fields_ok rf close_leg_fields) (ca_long_legs c) \<and> list_all (fields_ok rf close_leg_fields) (ca_short_legs c)"

lemma close_leg_names: "distinct (map fst close_leg_fields)"
  by (simp add: close_leg_fields_def)

lemma close_names: "distinct (map fst (close_fields pid))"
  by (simp add: close_fields_def)

lemma close_key: "fields_ok rf (close_fields pid) a \<longleftrightarrow> fields_ok rf (close_fields []) a"
  by (cases a) (simp_all add: fields_ok_def close_fields_def split_beta json_or_text)

lemma close_field_names: "map fst (close_fields pid) = map fst (close_fields [])"
  by (simp add: close_fields_def)

lemma close_parts:
  "dget (write_fields (map fst (close_fields [])) a @ ps) ''long_legs'' = dget ps ''long_legs''"
  "dget (write_fields (map fst (close_fields [])) a @ ps) ''short_legs'' = dget ps ''short_legs''"
  by (rule dget_part, simp add: close_fields_def)+

lemma legs_restored:
  "list_all (fields_ok rf close_leg_fields) ls \<Longrightarrow> restore_close_leg_records rf (map close_leg_view ls) = Inr ls"
  by (induction ls) (simp_all add: close_leg_view_def decode_written_all [OF _ close_leg_names subset_refl])

lemma restore_legs_view:
  "list_all (fields_ok rf close_leg_fields) ls \<Longrightarrow> restore_legs rf (PList (map close_leg_view ls)) = Inr ls"
  by (simp add: restore_legs_def py_or_def legs_restored)

lemma close_restored:
  assumes "close_ok rf c"
  shows "restore_close rf pid (close_view c) = Inr c"
proof -
  from assms have "fields_ok rf (close_fields pid) (ca_fields c)" unfolding close_ok_def
    by (blast intro: close_key [THEN iffD2])
  from decode_written [OF this close_names, of "map fst (close_fields [])"] close_field_names [of pid] assms
  show ?thesis
    by (simp add: restore_close_def close_view_def close_parts close_ok_def restore_legs_view)
qed

lemma legs_ok: "list_all json_value vs \<Longrightarrow> restore_close_leg_records rf vs = Inr ls \<Longrightarrow> list_all (fields_ok rf close_leg_fields) ls"
  by (induction rf vs arbitrary: ls rule: restore_close_leg_records.induct)
     (auto simp: returns_iff simp del: json_dict intro: decode_fields_ok)

lemma restore_legs_ok: "json_value v \<Longrightarrow> restore_legs rf v = Inr ls \<Longrightarrow> list_all (fields_ok rf close_leg_fields) ls"
  by (auto simp: restore_legs_def returns_iff py_or_def split: if_splits dest: json_iter intro: legs_ok)

lemma close_ok_restored:
  assumes "json_value (PDict d)" and "restore_close rf pid d = Inr c"
  shows "close_ok rf c"
proof -
  from assms(2) have a: "decode_fields rf (close_fields pid) d = Inr (ca_fields c)"
      and l: "restore_legs rf (dget d ''long_legs'') = Inr (ca_long_legs c)"
      and s: "restore_legs rf (dget d ''short_legs'') = Inr (ca_short_legs c)"
    by (auto simp: restore_close_def returns_iff)
  from close_key [THEN iffD1, OF decode_fields_ok [OF assms(1) a]]
    restore_legs_ok [OF json_part [OF assms(1)] l] restore_legs_ok [OF json_part [OF assms(1)] s]
  show ?thesis by (simp add: close_ok_def)
qed

section \<open>Passive closings\<close>

definition close_phase_fields :: "(string \<times> field_kind) list" where
  "close_phase_fields =
    [
     (''phase'', F_Enum [''high_slippage_maker'', ''low_slippage_maker'', ''dual_taker''] ''high_slippage_maker''),
     (''preferred_maker_leg'', F_Enum [''long'', ''short''] ''long''),
     (''active_maker_leg'', F_Enum [''long'', ''short''] ''long''), (''phase_started_at_ms'', F_Int 0),
     (''cycle_attempt'', F_Int 1), (''cycle_started_at_ms'', F_Int 0), (''zero_fill_cycles_in_phase'', F_Int 0),
     (''maker_submit_attempt'', F_Int 0), (''maker_submit_consecutive_failures'', F_Int_Or),
     (''missing_l2_tick_consecutive_count'', F_Int_Or), (''maker_order_id'', F_Str []),
     (''maker_client_order_id'', F_Str []), (''maker_resting_limit_price'', F_Raw PNone),
     (''maker_resting_since_ms'', F_Int 0)]"

definition leg_fill_fields :: "(string \<times> field_kind) list" where
  "leg_fill_fields =
    [(''quantity'', F_Float), (''average_price'', F_Float), (''fee_quote'', F_Float),
     (''fee_evidence_complete'', F_Bool), (''last_fill_time_ms'', F_Int 0), (''order_id'', F_Str []),
     (''client_order_id'', F_Str [])]"

definition execution_leg_fields :: "(string \<times> field_kind) list" where
  "execution_leg_fields =
    [(''fee_evidence_complete'', F_Bool), (''order_id'', F_Str_Or []), (''client_order_id'', F_Str_Or []),
     (''submit_started_at_ms'', F_Int_Or), (''latency_ms'', F_Int_Or)]"

definition passive_close_fields :: "string \<Rightarrow> (string \<times> field_kind) list" where
  "passive_close_fields pid =
    [(''position_id'', F_Str_Or pid), (''reason'', F_Raw (PStr [])),
     (''short_stage'', F_Raw_Or (PStr []) (PStr ''exit_short'')),
     (''long_stage'', F_Raw_Or (PStr []) (PStr ''exit_long'')), (''target_quantity'', F_Float),
     (''max_slippage_bps'', F_Raw PNone), (''chunk_quantities'', F_Floats), (''active_chunk_index'', F_Int 0),
     (''small_fill_min_notional_attempts'', F_Int_Or), (''last_small_fill_missing_quantity'', F_Float_Or),
     (''small_fill_buffer_started_at_ms'', F_Opt_Int), (''next_retry_at_ms'', F_Int 0),
     (''multi_phase_started_at_ms'', F_Int 0), (''created_cycle'', F_Int 0),
     (''ops_count_this_window'', F_Int_Or), (''ops_window_started_at_ms'', F_Int_Or)]"

text \<open>One order of a passive closing: its fill and its identity.\<close>

record execution_leg =
  el_fill :: "obj option"
  el_fields :: obj

definition restore_execution_leg :: "(pyfloat \<Rightarrow> string) \<Rightarrow> obj \<Rightarrow> decode_fault + execution_leg" where
  "restore_execution_leg rf d =
     bind_res (deserialize_order_fill rf (dget d ''fill'')) (\<lambda>f.
     bind_res (decode_fields rf execution_leg_fields d) (\<lambda>a. Inr \<lparr>el_fill = f, el_fields = a\<rparr>))"

fun restore_execution_legs :: "(pyfloat \<Rightarrow> string) \<Rightarrow> pyval list \<Rightarrow> decode_fault + execution_leg list" where
  "restore_execution_legs rf [] = Inr []"
| "restore_execution_legs rf (PDict d # vs) =
     bind_res (restore_execution_leg rf d) (\<lambda>x. bind_res (restore_execution_legs rf vs) (\<lambda>xs. Inr (x # xs)))"
| "restore_execution_legs rf (v # vs) = restore_execution_legs rf vs"

text \<open>Without a flag, the evidence of the fee counts as complete if the fill has a fee that is a
  number and not negative.\<close>

definition fee_evident :: "obj option \<Rightarrow> bool" where
  "fee_evident f = (case f of None \<Rightarrow> False | Some a \<Rightarrow>
     (case finite_float (dget a ''fee_quote'') of None \<Rightarrow> False | Some r \<Rightarrow> 0 \<le> r))"

definition serialize_execution_leg :: "execution_leg \<Rightarrow> pyval" where
  "serialize_execution_leg x =
     (let a = el_fields x;
          a = (if py_is_none (dget a ''fee_evidence_complete'')
               then dict_put ''fee_evidence_complete'' (PBool (fee_evident (el_fill x))) a else a)
      in PDict (write_fields (map fst execution_leg_fields) a @ [(''fill'', serialize_order_fill (el_fill x))]))"

record passive_close_attrs =
  pc_fields :: obj
  pc_position_snapshot :: "position_attrs option"
  pc_phase_state :: obj
  pc_maker_fill :: obj
  pc_hedge_fill :: obj
  pc_long_legs :: "execution_leg list"
  pc_short_legs :: "execution_leg list"
  pc_runtimes :: "(string, passive_order_manager_runtime) dict"

definition passive_close_view :: "passive_close_attrs \<Rightarrow> obj" where
  "passive_close_view c = write_fields (map fst (passive_close_fields [])) (pc_fields c) @
     [(''position_snapshot'', case pc_position_snapshot c of None \<Rightarrow> PNone | Some p \<Rightarrow> PDict (serialize_open_position p)),
      (''phase_state'', PDict (write_fields (map fst close_phase_fields) (pc_phase_state c))),
      (''maker_fill'', PDict (write_fields (map fst leg_fill_fields) (pc_maker_fill c))),
      (''hedge_fill'', PDict (write_fields (map fst leg_fill_fields) (pc_hedge_fill c))),
      (''long_legs'', PList (map serialize_execution_leg (pc_long_legs c))),
      (''short_legs'', PList (map serialize_execution_leg (pc_short_legs c))),
      (''passive_manager_runtimes'', PDict (map (\<lambda>(k, r). (k, runtime_to_dict r)) (pc_runtimes c)))]"

text \<open>A part that is asked with \<open>get\<close> must be a dictionary.\<close>

definition dict_part :: "obj \<Rightarrow> string \<Rightarrow> decode_fault + obj" where
  "dict_part d k = (case py_get (PDict d) k (PDict []) of PDict e \<Rightarrow> Inr e | _ \<Rightarrow> Inl Raises)"

definition restore_orders :: "(pyfloat \<Rightarrow> string) \<Rightarrow> pyval \<Rightarrow> decode_fault + execution_leg list" where
  "restore_orders rf v = bind_res (py_iter (py_or v (PList []))) (restore_execution_legs rf)"

text \<open>A dictionary of parts; a value that is not a dictionary is skipped.\<close>

fun keyed :: "(string \<Rightarrow> obj \<Rightarrow> decode_fault + 'a) \<Rightarrow> obj \<Rightarrow> decode_fault + (string, 'a) dict" where
  "keyed f [] = Inr []"
| "keyed f ((k, PDict d) # vs) = bind_res (f k d) (\<lambda>x. bind_res (keyed f vs) (\<lambda>xs. Inr ((k, x) # xs)))"
| "keyed f (_ # vs) = keyed f vs"

lemma keyed_view:
  "(\<And>k x. (k, x) \<in> set xs \<Longrightarrow> \<exists>d. view x = PDict d \<and> f k d = Inr (h x)) \<Longrightarrow>
   keyed f (map (\<lambda>(k, x). (k, view x)) xs) = Inr (map (\<lambda>(k, x). (k, h x)) xs)"
proof (induction xs)
  case (Cons y xs)
  obtain k x where y: "y = (k, x)" by (cases y)
  from Cons.prems [of k x] y obtain d where "view x = PDict d" "f k d = Inr (h x)" by auto
  with Cons y show ?case by simp
qed simp

lemma keyed_ok:
  "(\<And>k d x. json_value (PDict d) \<Longrightarrow> f k d = Inr x \<Longrightarrow> P k x) \<Longrightarrow>
   json_value (PDict vs) \<Longrightarrow> keyed f vs = Inr xs \<Longrightarrow> \<forall>(k, x)\<in>set xs. P k x"
proof (induction f vs arbitrary: xs rule: keyed.induct)
  case (2 f k d vs)
  from "2.prems"(3) obtain x ys where x: "f k d = Inr x" "keyed f vs = Inr ys" "xs = (k, x) # ys" by (auto simp: returns_iff)
  from "2.prems"(2) have json: "json_value (PDict d)" "json_value (PDict vs)" by auto
  from "2.IH" [OF "2.prems"(1) json(2) x(2)] "2.prems"(1) [OF json(1) x(1)] x(3) show ?case by simp
qed auto

text \<open>The runtimes by venue. (A list of pairs, which \<open>dict()\<close> would also take, is refused: no writer
  makes one.)\<close>

definition runtimes_part :: "pyval \<Rightarrow> decode_fault + (string, passive_order_manager_runtime) dict" where
  "runtimes_part v = (case py_or v (PDict []) of PDict e \<Rightarrow> keyed (\<lambda>_ d. runtime_from_dict (PDict d)) e | _ \<Rightarrow> Inl Raises)"

definition restore_snapshot_position ::
  "(pyfloat \<Rightarrow> string) \<Rightarrow> (string, position_attrs) dict \<Rightarrow> string \<Rightarrow> pyval \<Rightarrow> decode_fault + position_attrs option" where
  "restore_snapshot_position rf positions position_id v =
     (case dict_get positions position_id of
        Some p \<Rightarrow> Inr (Some p)
      | None \<Rightarrow> (case v of PDict e \<Rightarrow> bind_res (deserialize_open_position rf e) (\<lambda>p. Inr (Some p)) | _ \<Rightarrow> Inr None))"

definition restore_passive_close ::
  "(pyfloat \<Rightarrow> string) \<Rightarrow> (string, position_attrs) dict \<Rightarrow> string \<Rightarrow> obj \<Rightarrow> decode_fault + passive_close_attrs" where
  "restore_passive_close rf positions pid d =
     bind_res (bind_res (dict_part d ''phase_state'') (decode_fields rf close_phase_fields)) (\<lambda>ph.
     bind_res (bind_res (dict_part d ''maker_fill'') (decode_fields rf leg_fill_fields)) (\<lambda>mf.
     bind_res (bind_res (dict_part d ''hedge_fill'') (decode_fields rf leg_fill_fields)) (\<lambda>hf.
     bind_res (restore_snapshot_position rf positions (default_text d ''position_id'' pid) (dget d ''position_snapshot'')) (\<lambda>snap.
     bind_res (decode_fields rf (passive_close_fields pid) d) (\<lambda>a.
     bind_res (restore_orders rf (dget d ''long_legs'')) (\<lambda>l.
     bind_res (restore_orders rf (dget d ''short_legs'')) (\<lambda>s.
     bind_res (runtimes_part (dget d ''passive_manager_runtimes'')) (\<lambda>rs.
     Inr \<lparr>pc_fields = a, pc_position_snapshot = snap, pc_phase_state = ph, pc_maker_fill = mf, pc_hedge_fill = hf,
          pc_long_legs = l, pc_short_legs = s, pc_runtimes = rs\<rparr>))))))))"

section \<open>Passive closings are restored\<close>

definition execution_leg_ok :: "(pyfloat \<Rightarrow> string) \<Rightarrow> execution_leg \<Rightarrow> bool" where
  "execution_leg_ok rf x \<longleftrightarrow> fill_ok rf (el_fill x) \<and> fields_ok rf execution_leg_fields (el_fields x)"

text \<open>The key of a passive closing stands in for an empty position id.\<close>

definition passive_close_ok :: "(pyfloat \<Rightarrow> string) \<Rightarrow> string \<Rightarrow> passive_close_attrs \<Rightarrow> bool" where
  "passive_close_ok rf pid c \<longleftrightarrow>
     fields_ok rf (passive_close_fields pid) (pc_fields c) \<and>
     (case pc_position_snapshot c of None \<Rightarrow> True | Some p \<Rightarrow> position_ok rf p) \<and>
     fields_ok rf close_phase_fields (pc_phase_state c) \<and>
     fields_ok rf leg_fill_fields (pc_maker_fill c) \<and> fields_ok rf leg_fill_fields (pc_hedge_fill c) \<and>
     list_all (execution_leg_ok rf) (pc_long_legs c) \<and> list_all (execution_leg_ok rf) (pc_short_legs c)"

definition close_position_id :: "passive_close_attrs \<Rightarrow> string" where
  "close_position_id c = py_str (dget (pc_fields c) ''position_id'')"

text \<open>After a restart a closing refers to the open position with its id if there is one, else to its
  own copy.\<close>

definition passive_close_restarted ::
  "(pyfloat \<Rightarrow> string) \<Rightarrow> (string, position_attrs) dict \<Rightarrow> passive_close_attrs \<Rightarrow> passive_close_attrs" where
  "passive_close_restarted rf positions c = c\<lparr>pc_position_snapshot :=
     (case dict_get positions (close_position_id c) of
        Some p \<Rightarrow> Some p | None \<Rightarrow> map_option (position_restarted rf) (pc_position_snapshot c))\<rparr>"

lemma passive_names:
  "distinct (map fst close_phase_fields)" "distinct (map fst leg_fill_fields)"
  "distinct (map fst execution_leg_fields)" "distinct (map fst (passive_close_fields pid))"
  by (simp_all add: close_phase_fields_def leg_fill_fields_def execution_leg_fields_def passive_close_fields_def)

lemma passive_field_names: "map fst (passive_close_fields pid) = map fst (passive_close_fields [])"
  by (simp add: passive_close_fields_def)

lemma execution_leg_fill: "dget (write_fields (map fst execution_leg_fields) a @ ps) ''fill'' = dget ps ''fill''"
  by (rule dget_part, simp add: execution_leg_fields_def)

lemma execution_leg_restored:
  assumes "execution_leg_ok rf x"
  shows "\<exists>d. serialize_execution_leg x = PDict d \<and> restore_execution_leg rf d = Inr x"
proof -
  from assms have ok: "fields_ok rf execution_leg_fields (el_fields x)" by (simp add: execution_leg_ok_def)
  have "(''fee_evidence_complete'', F_Bool) \<in> set execution_leg_fields" by (simp add: execution_leg_fields_def)
  from fields_ok_get [OF ok passive_names(3) this] have "\<not> py_is_none (dget (el_fields x) ''fee_evidence_complete'')" by auto
  then have "serialize_execution_leg x =
      PDict (write_fields (map fst execution_leg_fields) (el_fields x) @ [(''fill'', serialize_order_fill (el_fill x))])"
    by (simp add: serialize_execution_leg_def)
  with assms decode_written [OF ok passive_names(3) subset_refl] show ?thesis
    by (simp add: restore_execution_leg_def execution_leg_fill fill.decode_encode execution_leg_ok_def)
qed

lemma restore_orders_view:
  "list_all (execution_leg_ok rf) xs \<Longrightarrow> restore_orders rf (PList (map serialize_execution_leg xs)) = Inr xs"
proof -
  assume "list_all (execution_leg_ok rf) xs"
  then have "restore_execution_legs rf (map serialize_execution_leg xs) = Inr xs"
  proof (induction xs)
    case (Cons x xs)
    then obtain d where "serialize_execution_leg x = PDict d" "restore_execution_leg rf d = Inr x"
      using execution_leg_restored [of rf x] by auto
    with Cons show ?case by simp
  qed simp
  then show ?thesis by (simp add: restore_orders_def py_or_def)
qed

lemma runtimes_part_view: "runtimes_part (PDict (map (\<lambda>(k, r). (k, runtime_to_dict r)) rs)) = Inr rs"
proof -
  have "keyed (\<lambda>_ d. runtime_from_dict (PDict d)) (map (\<lambda>(k, r). (k, runtime_to_dict r)) rs) = Inr (map (\<lambda>(k, r). (k, r)) rs)"
  proof (rule keyed_view)
    fix k r
    obtain d where "runtime_to_dict r = PDict d" by (simp add: runtime_to_dict_def)
    with runtime.decode_encode [of r] show "\<exists>d. runtime_to_dict r = PDict d \<and> runtime_from_dict (PDict d) = Inr r" by simp
  qed
  then show ?thesis by (cases rs) (simp_all add: runtimes_part_def py_or_def)
qed

lemma passive_parts:
  "n \<in> {''position_snapshot'', ''phase_state'', ''maker_fill'', ''hedge_fill'', ''long_legs'', ''short_legs'',
     ''passive_manager_runtimes''} \<Longrightarrow> n \<notin> set (map fst (passive_close_fields []))"
  by (simp only: insert_iff empty_iff) (auto simp: passive_close_fields_def)

lemma passive_view_parts:
  "dget (passive_close_view c) ''position_snapshot'' =
     (case pc_position_snapshot c of None \<Rightarrow> PNone | Some p \<Rightarrow> PDict (serialize_open_position p))"
  "dict_part (passive_close_view c) ''phase_state'' = Inr (write_fields (map fst close_phase_fields) (pc_phase_state c))"
  "dict_part (passive_close_view c) ''maker_fill'' = Inr (write_fields (map fst leg_fill_fields) (pc_maker_fill c))"
  "dict_part (passive_close_view c) ''hedge_fill'' = Inr (write_fields (map fst leg_fill_fields) (pc_hedge_fill c))"
  "dget (passive_close_view c) ''long_legs'' = PList (map serialize_execution_leg (pc_long_legs c))"
  "dget (passive_close_view c) ''short_legs'' = PList (map serialize_execution_leg (pc_short_legs c))"
  "dget (passive_close_view c) ''passive_manager_runtimes'' = PDict (map (\<lambda>(k, r). (k, runtime_to_dict r)) (pc_runtimes c))"
  unfolding passive_close_view_def dict_part_def
  by (simp_all only: dget_part py_get_written passive_parts insert_iff simp_thms) simp_all

lemma passive_position_id:
  assumes "fields_ok rf (passive_close_fields pid) (pc_fields c)"
  shows "default_text (passive_close_view c) ''position_id'' pid = close_position_id c"
proof -
  have row: "(''position_id'', F_Str_Or pid) \<in> set (passive_close_fields pid)" by (simp add: passive_close_fields_def)
  from fields_ok_get [OF assms passive_names(4) row]
  have ok: "field_ok rf (F_Str_Or pid) (dget (pc_fields c) ''position_id'')" .
  have "''position_id'' \<in> set (map fst (passive_close_fields []))" by (simp add: passive_close_fields_def)
  then have "dict_get (passive_close_view c) ''position_id'' = Some (dget (pc_fields c) ''position_id'')"
    unfolding passive_close_view_def write_get by (simp only: if_True)
  from read_written [OF ok this] have "PStr (default_text (passive_close_view c) ''position_id'' pid) = dget (pc_fields c) ''position_id''"
    by simp
  then show ?thesis unfolding close_position_id_def by (metis py_str.simps(1))
qed

lemma decode_passive_fields:
  assumes "fields_ok rf (passive_close_fields pid) (pc_fields c)"
  shows "decode_fields rf (passive_close_fields pid) (passive_close_view c) = Inr (pc_fields c)"
proof -
  have "set (map fst (passive_close_fields pid)) \<subseteq> set (map fst (passive_close_fields []))"
    by (simp only: passive_field_names [of pid] subset_refl)
  from decode_written [OF assms passive_names(4) this] show ?thesis unfolding passive_close_view_def .
qed

lemma snapshot_position_restored:
  "(case q of None \<Rightarrow> True | Some p \<Rightarrow> position_ok rf p) \<Longrightarrow>
   restore_snapshot_position rf positions i (case q of None \<Rightarrow> PNone | Some p \<Rightarrow> PDict (serialize_open_position p)) =
     Inr (case dict_get positions i of Some p \<Rightarrow> Some p | None \<Rightarrow> map_option (position_restarted rf) q)"
  by (cases q) (simp_all add: restore_snapshot_position_def position_restored split: option.split)

lemma passive_close_restored:
  assumes "passive_close_ok rf pid c"
  shows "restore_passive_close rf positions pid (passive_close_view c) = Inr (passive_close_restarted rf positions c)"
proof -
  note ok = assms [unfolded passive_close_ok_def]
  note written = decode_written_all [OF _ passive_names(1) subset_refl] decode_written_all [OF _ passive_names(2) subset_refl]
  show ?thesis
    unfolding restore_passive_close_def passive_view_parts passive_close_restarted_def
      passive_position_id [OF ok [THEN conjunct1]] decode_passive_fields [OF ok [THEN conjunct1]] bind_res_simps
    using ok by (simp add: written snapshot_position_restored restore_orders_view runtimes_part_view)
qed

lemma execution_leg_ok_restored:
  "json_value (PDict d) \<Longrightarrow> restore_execution_leg rf d = Inr x \<Longrightarrow> execution_leg_ok rf x"
  by (auto simp: restore_execution_leg_def execution_leg_ok_def returns_iff simp del: json_dict
      intro: decode_fields_ok fill.decode_ok [OF json_part])

lemma execution_legs_ok:
  "list_all json_value vs \<Longrightarrow> restore_execution_legs rf vs = Inr xs \<Longrightarrow> list_all (execution_leg_ok rf) xs"
  by (induction rf vs arbitrary: xs rule: restore_execution_legs.induct)
     (auto simp: returns_iff simp del: json_dict intro: execution_leg_ok_restored)

lemma restore_orders_ok: "json_value v \<Longrightarrow> restore_orders rf v = Inr xs \<Longrightarrow> list_all (execution_leg_ok rf) xs"
  by (auto simp: restore_orders_def returns_iff py_or_def split: if_splits dest: json_iter intro: execution_legs_ok)

lemma dict_part_json: "json_value (PDict d) \<Longrightarrow> dict_part d k = Inr e \<Longrightarrow> json_value (PDict e)"
  using json_get [of d "PDict []" k] by (auto simp: dict_part_def split: pyval.splits simp del: py_get.simps)

lemma passive_close_ok_restored:
  assumes json: "json_value (PDict d)" and "restore_passive_close rf positions pid d = Inr c"
    and positions: "\<forall>(i, p)\<in>set positions. position_ok rf p"
  shows "passive_close_ok rf pid c"
proof -
  from assms(2) obtain ph mf hf where
      ph: "dict_part d ''phase_state'' = Inr ph" "decode_fields rf close_phase_fields ph = Inr (pc_phase_state c)"
    and mf: "dict_part d ''maker_fill'' = Inr mf" "decode_fields rf leg_fill_fields mf = Inr (pc_maker_fill c)"
    and hf: "dict_part d ''hedge_fill'' = Inr hf" "decode_fields rf leg_fill_fields hf = Inr (pc_hedge_fill c)"
    and snap: "restore_snapshot_position rf positions (default_text d ''position_id'' pid) (dget d ''position_snapshot'') =
        Inr (pc_position_snapshot c)"
    and a: "decode_fields rf (passive_close_fields pid) d = Inr (pc_fields c)"
    and legs: "restore_orders rf (dget d ''long_legs'') = Inr (pc_long_legs c)"
      "restore_orders rf (dget d ''short_legs'') = Inr (pc_short_legs c)"
    by (auto simp: restore_passive_close_def returns_iff)
  note part = json_part [OF json]
  from snap part [of "''position_snapshot''"] positions
  have "case pc_position_snapshot c of None \<Rightarrow> True | Some p \<Rightarrow> position_ok rf p"
    by (auto simp: restore_snapshot_position_def returns_iff simp del: json_dict split: option.splits pyval.splits
        dest!: map_of_SomeD intro: position_ok_restored)
  with decode_fields_ok [OF json a] decode_fields_ok [OF dict_part_json [OF json ph(1)] ph(2)]
    decode_fields_ok [OF dict_part_json [OF json mf(1)] mf(2)] decode_fields_ok [OF dict_part_json [OF json hf(1)] hf(2)]
    restore_orders_ok [OF part legs(1)] restore_orders_ok [OF part legs(2)]
  show ?thesis by (simp add: passive_close_ok_def)
qed

section \<open>The state\<close>

fun lifecycle_value :: "engine_lifecycle \<Rightarrow> string" where
  "lifecycle_value BOOTING = ''booting''" | "lifecycle_value RECONCILING = ''reconciling''"
| "lifecycle_value RISK_ONLY = ''risk_only''" | "lifecycle_value LC_RUNNING = ''running''"

fun risk_mode_value :: "global_risk_mode \<Rightarrow> string" where
  "risk_mode_value RM_RUNNING = ''running''" | "risk_mode_value ENTRY_PAUSED = ''entry_paused''"
| "risk_mode_value REDUCE_ONLY = ''reduce_only''" | "risk_mode_value FAIL_CLOSED = ''fail_closed''"

definition risk_member :: "string \<Rightarrow> global_risk_mode option" where
  "risk_member = member_of risk_mode_value [RM_RUNNING, ENTRY_PAUSED, REDUCE_ONLY, FAIL_CLOSED]"

text \<open>\<open>fail_closed\<close> was a life cycle of older snapshots; what is unreadable is booting, and a risk
  mode that is unreadable is running.\<close>

fun restore_lifecycle :: "pyval \<Rightarrow> engine_lifecycle" where
  "restore_lifecycle (PStr s) =
     (if s = ''fail_closed'' then RISK_ONLY
      else case member_of lifecycle_value [BOOTING, RECONCILING, RISK_ONLY, LC_RUNNING] s of None \<Rightarrow> BOOTING | Some l \<Rightarrow> l)"
| "restore_lifecycle _ = BOOTING"

fun restore_risk_mode :: "pyval \<Rightarrow> global_risk_mode" where
  "restore_risk_mode (PStr s) = (case risk_member s of None \<Rightarrow> RM_RUNNING | Some m \<Rightarrow> m)"
| "restore_risk_mode _ = RM_RUNNING"

definition state_fields :: "(string \<times> field_kind) list" where
  "state_fields =
    [(''run_id'', F_Raw (PStr [])), (''started_at_ms'', F_Raw (PInt 0)), (''last_tick_ms'', F_Raw (PInt 0)),
     (''tick_count'', F_Raw (PInt 0)), (''global_risk_reason'', F_Raw PNone),
     (''recovery_blocked_reason'', F_Raw PNone), (''recovery_blocked_at_ms'', F_Int 0),
     (''pending_residual_repairs'', F_Raw (PList [])), (''live_recovery_reduce_only_pairs'', F_Raw (PList [])),
     (''venue_entry_cooldowns'', F_Raw (PDict [])), (''venue_market_data_degradations'', F_Raw (PDict [])),
     (''transfer_truth'', F_Raw (PDict [])), (''entry_liquidity_qualification_records'', F_Raw (PList [])),
     (''passive_order_manager_states'', F_Raw (PDict []))]"

record saved_state =
  sv_lifecycle :: engine_lifecycle
  sv_risk_mode :: global_risk_mode
  sv_requested_mode :: "global_risk_mode option"
  sv_pending_reconcile :: bool
  sv_fields :: obj
  sv_venue_health :: pyval
  sv_hyperliquid_trading_disabled_reason :: "string option"
  sv_last_scan :: pyval
  sv_runtime_progress :: obj
  sv_runtime_market_data_config :: obj
  sv_v1_lifecycle_closure :: obj
  sv_account_fees :: "(string, obj) dict"
  sv_reconciliations :: "obj list"
  sv_positions :: "(string, position_attrs) dict"
  sv_entries :: "(string, entry_attrs) dict"
  sv_closes :: "(string, close_attrs) dict"
  sv_passive_closes :: "(string, passive_close_attrs) dict"
  sv_retained_local_l2_books :: "pyval list"
  sv_local_l2_books_snapshot :: "pyval list"
  sv_local_l2_session_snapshot :: "pyval list"

text \<open>An item of the local book lists is written by \<open>dict(b)\<close> if it can be iterated and is no
  dictionary: a sequence of pairs becomes one, any other sequence raises. (A key that is neither a
  text nor unhashable is outside the model.)\<close>

definition pair_item :: "pyval \<Rightarrow> decode_fault + string \<times> pyval" where
  "pair_item v = bind_res (py_iter v) (\<lambda>xs. case xs of
     [k, x] \<Rightarrow> (case k of PStr s \<Rightarrow> Inr (s, x) | PList _ \<Rightarrow> Inl Raises | PDict _ \<Rightarrow> Inl Raises | _ \<Rightarrow> Inl Not_Finite)
   | _ \<Rightarrow> Inl Raises)"

definition dict_of_pairs :: "pyval list \<Rightarrow> decode_fault + pyval" where
  "dict_of_pairs vs = bind_res (map_res pair_item vs) (\<lambda>ps. Inr (PDict (foldl (\<lambda>d (k, x). dict_put k x d) [] ps)))"

definition local_l2_item :: "pyval \<Rightarrow> decode_fault + pyval" where
  "local_l2_item v = (case v of
     PStr s \<Rightarrow> dict_of_pairs (map (\<lambda>c. PStr [c]) s) | PList xs \<Rightarrow> dict_of_pairs xs | PTuple xs \<Rightarrow> dict_of_pairs xs | _ \<Rightarrow> Inr v)"

definition dict_view :: "('a \<Rightarrow> obj) \<Rightarrow> (string, 'a) dict \<Rightarrow> pyval" where
  "dict_view view xs = PDict (map (\<lambda>(k, x). (k, PDict (view x))) xs)"

definition operator_view :: "saved_state \<Rightarrow> pyval" where
  "operator_view s = PDict
     [(''requested_mode'', case sv_requested_mode s of None \<Rightarrow> PNone | Some m \<Rightarrow> PStr (risk_mode_value m)),
      (''pending_reconcile'', PBool (sv_pending_reconcile s))]"

definition view_body :: "(pyfloat \<Rightarrow> string) \<Rightarrow> saved_state \<Rightarrow> pyval list \<Rightarrow> pyval list \<Rightarrow> pyval list \<Rightarrow> obj" where
  "view_body rf s retained books sessions = write_fields (map fst state_fields) (sv_fields s) @
     [(''lifecycle'', PStr (lifecycle_value (sv_lifecycle s))), (''risk_mode'', PStr (risk_mode_value (sv_risk_mode s))),
      (''hyperliquid_trading_disabled_reason'',
         case sv_hyperliquid_trading_disabled_reason s of None \<Rightarrow> PNone | Some r \<Rightarrow> PStr r),
      (''last_scan'', sv_last_scan s), (''runtime_progress'', PDict (sv_runtime_progress s)),
      (''runtime_market_data_config'', PDict (sv_runtime_market_data_config s)),
      (''v1_lifecycle_closure'', PDict (sv_v1_lifecycle_closure s)),
      (''operator'', operator_view s), (''account_fee_snapshots'', dict_view id (sv_account_fees s)),
      (''pending_close_reconciliations'', as_raw (normalize_pending_close_reconciliations (as_raw (sv_reconciliations s)))),
      (''open_positions'', dict_view serialize_open_position (sv_positions s)),
      (''pending_entries'', dict_view (entry_view rf) (sv_entries s)),
      (''pending_closes'', dict_view close_view (sv_closes s)),
      (''pending_passive_closes'', dict_view passive_close_view (sv_passive_closes s)),
      (''retained_local_l2_books'', PList retained), (''local_l2_books_snapshot'', PList books),
      (''local_l2_session_snapshot'', PList sessions)]"

definition persistent_view :: "(pyfloat \<Rightarrow> string) \<Rightarrow> saved_state \<Rightarrow> decode_fault + obj" where
  "persistent_view rf s =
     bind_res (map_res local_l2_item (sv_retained_local_l2_books s)) (\<lambda>retained.
     bind_res (map_res local_l2_item (sv_local_l2_books_snapshot s)) (\<lambda>books.
     bind_res (map_res local_l2_item (sv_local_l2_session_snapshot s)) (\<lambda>sessions.
     Inr (view_body rf s retained books sessions))))"

text \<open>A collection that is not a dictionary is ignored.\<close>

definition keyed_part :: "(string \<Rightarrow> obj \<Rightarrow> decode_fault + 'a) \<Rightarrow> obj \<Rightarrow> string \<Rightarrow> decode_fault + (string, 'a) dict" where
  "keyed_part f d k = (case dget d k of PDict vs \<Rightarrow> keyed f vs | _ \<Rightarrow> Inr [])"

definition restore_requested_mode :: "pyval \<Rightarrow> global_risk_mode option" where
  "restore_requested_mode v = (if truth (py_get v ''requested_mode'' PNone) then risk_member (py_str (py_get v ''requested_mode'' PNone)) else None)"

definition operator_part :: "obj \<Rightarrow> pyval" where
  "operator_part d = (case dget d ''operator'' of PDict e \<Rightarrow> PDict e | _ \<Rightarrow> PDict [])"

definition list_part :: "obj \<Rightarrow> string \<Rightarrow> pyval list" where
  "list_part d k = (case py_get (PDict d) k (PList []) of PList xs \<Rightarrow> xs | _ \<Rightarrow> [])"

text \<open>The attributes that no line of the restore reads keep the defaults of a new state.\<close>

definition restore_state :: "(pyfloat \<Rightarrow> string) \<Rightarrow> obj \<Rightarrow> decode_fault + saved_state" where
  "restore_state rf d =
     bind_res (decode_fields rf state_fields d) (\<lambda>a.
     bind_res (keyed_part (\<lambda>_ e. Inr e) d ''account_fee_snapshots'') (\<lambda>fees.
     bind_res (keyed_part (\<lambda>_. deserialize_open_position rf) d ''open_positions'') (\<lambda>ps.
     bind_res (keyed_part (restore_entry rf) d ''pending_entries'') (\<lambda>es.
     bind_res (keyed_part (restore_close rf) d ''pending_closes'') (\<lambda>cs.
     bind_res (keyed_part (restore_passive_close rf ps) d ''pending_passive_closes'') (\<lambda>pcs.
     Inr \<lparr>sv_lifecycle = restore_lifecycle (py_get (PDict d) ''lifecycle'' (PStr ''booting'')),
          sv_risk_mode = restore_risk_mode (py_get (PDict d) ''risk_mode'' (PStr ''running'')),
          sv_requested_mode = restore_requested_mode (operator_part d),
          sv_pending_reconcile = truth (py_get (operator_part d) ''pending_reconcile'' (PBool False)),
          sv_fields = a, sv_venue_health = py_get (PDict d) ''venue_health'' (PDict []),
          sv_hyperliquid_trading_disabled_reason = None, sv_last_scan = PNone, sv_runtime_progress = [],
          sv_runtime_market_data_config = [], sv_v1_lifecycle_closure = [], sv_account_fees = fees,
          sv_reconciliations =
            set_pending_close_reconciliations (py_get (PDict d) ''pending_close_reconciliations'' (PList [])),
          sv_positions = ps, sv_entries = es, sv_closes = cs, sv_passive_closes = pcs,
          sv_retained_local_l2_books = list_part d ''retained_local_l2_books'',
          sv_local_l2_books_snapshot = list_part d ''local_l2_books_snapshot'',
          sv_local_l2_session_snapshot = list_part d ''local_l2_session_snapshot''\<rparr>))))))"

section \<open>A restart\<close>

definition state_ok :: "(pyfloat \<Rightarrow> string) \<Rightarrow> saved_state \<Rightarrow> bool" where
  "state_ok rf s \<longleftrightarrow> fields_ok rf state_fields (sv_fields s) \<and> json_value (sv_venue_health s) \<and>
     (\<forall>(k, p)\<in>set (sv_positions s). position_ok rf p) \<and> (\<forall>(k, e)\<in>set (sv_entries s). entry_ok rf e) \<and>
     (\<forall>(k, c)\<in>set (sv_closes s). close_ok rf c) \<and> (\<forall>(k, c)\<in>set (sv_passive_closes s). passive_close_ok rf k c)"

definition map_values :: "('a \<Rightarrow> 'b) \<Rightarrow> (string, 'a) dict \<Rightarrow> (string, 'b) dict" where
  "map_values f xs = map (\<lambda>(k, x). (k, f x)) xs"

lemma map_values_id [simp]: "map_values id xs = xs" "map_values (\<lambda>x. x) xs = xs"
  by (simp_all add: map_values_def case_prod_eta)

lemma map_values_twice [simp]: "map_values f (map_values g xs) = map_values (\<lambda>x. f (g x)) xs"
  by (induction xs) (auto simp: map_values_def)

lemma set_map_values [simp]: "set (map_values f xs) = (\<lambda>(k, x). (k, f x)) ` set xs"
  by (simp add: map_values_def)

text \<open>What the view makes of an item of the book lists; a dictionary, a number or None stays as it is.\<close>

definition l2_kept :: "pyval \<Rightarrow> pyval" where
  "l2_kept v = (case local_l2_item v of Inr w \<Rightarrow> w | Inl _ \<Rightarrow> v)"

fun l2_plain :: "pyval \<Rightarrow> bool" where
  "l2_plain (PStr s) = False" | "l2_plain (PList xs) = False" | "l2_plain (PTuple xs) = False" | "l2_plain _ = True"

abbreviation l2_items :: "saved_state \<Rightarrow> pyval list" where
  "l2_items s \<equiv> sv_retained_local_l2_books s @ sv_local_l2_books_snapshot s @ sv_local_l2_session_snapshot s"

lemma l2_plain_item: "l2_plain v \<Longrightarrow> local_l2_item v = Inr v"
  by (cases v) (simp_all add: local_l2_item_def)

lemma l2_item_plain: "local_l2_item v = Inr w \<Longrightarrow> l2_plain w"
  by (cases v) (auto simp: local_l2_item_def dict_of_pairs_def returns_iff)

lemma l2_plain_items: "list_all l2_plain vs \<Longrightarrow> map_res local_l2_item vs = Inr vs"
  by (induction vs) (simp_all add: l2_plain_item)

lemma l2_items_kept: "map_res local_l2_item vs = Inr ws \<Longrightarrow> ws = map l2_kept vs \<and> list_all l2_plain ws"
  by (induction vs arbitrary: ws) (auto simp: returns_iff l2_kept_def l2_item_plain)

lemma l2_plain_kept: "l2_plain v \<Longrightarrow> l2_kept v = v"
  by (simp add: l2_kept_def l2_plain_item)

lemma l2_kept_again [simp]: "l2_kept (l2_kept v) = l2_kept v"
  by (cases "local_l2_item v") (auto simp: l2_kept_def l2_plain_item dest: l2_item_plain)

definition restarted :: "(pyfloat \<Rightarrow> string) \<Rightarrow> saved_state \<Rightarrow> saved_state" where
  "restarted rf s = s\<lparr>sv_venue_health := PDict [], sv_hyperliquid_trading_disabled_reason := None, sv_last_scan := PNone,
     sv_runtime_progress := [], sv_runtime_market_data_config := [], sv_v1_lifecycle_closure := [],
     sv_retained_local_l2_books := map l2_kept (sv_retained_local_l2_books s),
     sv_local_l2_books_snapshot := map l2_kept (sv_local_l2_books_snapshot s),
     sv_local_l2_session_snapshot := map l2_kept (sv_local_l2_session_snapshot s),
     sv_reconciliations := last_n MAX_PENDING_CLOSE_RECONCILIATIONS (sv_reconciliations s),
     sv_positions := map_values (position_restarted rf) (sv_positions s),
     sv_entries := map_values entry_restarted (sv_entries s),
     sv_passive_closes :=
       map_values (passive_close_restarted rf (map_values (position_restarted rf) (sv_positions s))) (sv_passive_closes s)\<rparr>"

lemma lifecycle_restored [simp]: "restore_lifecycle (PStr (lifecycle_value l)) = l"
  by (cases l) (simp_all add: member_of_def)

lemma risk_member_value [simp]: "risk_member (risk_mode_value m) = Some m"
  by (cases m) (simp_all add: risk_member_def member_of_def)

lemma risk_mode_restored [simp]: "restore_risk_mode (PStr (risk_mode_value m)) = m"
  by simp

lemma risk_text [simp]: "risk_mode_value m \<noteq> []"
  by (cases m) simp_all

lemma state_names: "distinct (map fst state_fields)"
  by (simp add: state_fields_def)

lemma state_parts:
  "n \<in> {''lifecycle'', ''risk_mode'', ''operator'', ''account_fee_snapshots'', ''pending_close_reconciliations'',
     ''open_positions'', ''pending_entries'', ''pending_closes'', ''pending_passive_closes'', ''venue_health'',
     ''retained_local_l2_books'', ''local_l2_books_snapshot'', ''local_l2_session_snapshot''} \<Longrightarrow>
   n \<notin> set (map fst state_fields)"
  by (simp only: insert_iff empty_iff) (auto simp: state_fields_def)

lemma view_parts:
  fixes rf :: "pyfloat \<Rightarrow> string" and s :: saved_state and retained books sessions :: "pyval list"
  defines "d \<equiv> view_body rf s retained books sessions"
  shows "dget d ''operator'' = operator_view s"
    "dget d ''account_fee_snapshots'' = dict_view id (sv_account_fees s)"
    "dget d ''open_positions'' = dict_view serialize_open_position (sv_positions s)"
    "dget d ''pending_entries'' = dict_view (entry_view rf) (sv_entries s)"
    "dget d ''pending_closes'' = dict_view close_view (sv_closes s)"
    "dget d ''pending_passive_closes'' = dict_view passive_close_view (sv_passive_closes s)"
    "py_get (PDict d) ''lifecycle'' v = PStr (lifecycle_value (sv_lifecycle s))"
    "py_get (PDict d) ''risk_mode'' v = PStr (risk_mode_value (sv_risk_mode s))"
    "py_get (PDict d) ''venue_health'' v = v"
    "py_get (PDict d) ''pending_close_reconciliations'' v =
       as_raw (normalize_pending_close_reconciliations (as_raw (sv_reconciliations s)))"
    "list_part d ''retained_local_l2_books'' = retained"
    "list_part d ''local_l2_books_snapshot'' = books"
    "list_part d ''local_l2_session_snapshot'' = sessions"
  unfolding d_def view_body_def list_part_def
  by (simp_all only: dget_part py_get_written state_parts insert_iff simp_thms) simp_all

lemma keyed_part_view:
  assumes "dget d k = dict_view view xs"
    and "\<And>i x. (i, x) \<in> set xs \<Longrightarrow> f i (view x) = Inr (h x)"
  shows "keyed_part f d k = Inr (map_values h xs)"
proof -
  have "keyed f (map (\<lambda>(k, x). (k, PDict (view x))) xs) = Inr (map_values h xs)"
    unfolding map_values_def by (rule keyed_view) (simp add: assms(2))
  with assms(1) show ?thesis by (simp add: keyed_part_def dict_view_def)
qed

lemma operator_restored:
  "restore_requested_mode (operator_view s) = sv_requested_mode s"
  "truth (py_get (operator_view s) ''pending_reconcile'' v) = sv_pending_reconcile s"
  by (cases "sv_requested_mode s"; simp add: restore_requested_mode_def operator_view_def)
     (simp add: operator_view_def)

lemma normalize_as_raw [simp]: "normalize_pending_close_reconciliations (as_raw q) = q"
  by (simp add: as_raw_def comp_def normalize_item_def)

lemma body_restored:
  assumes "state_ok rf s"
  shows "restore_state rf (view_body rf s (map l2_kept (sv_retained_local_l2_books s))
    (map l2_kept (sv_local_l2_books_snapshot s)) (map l2_kept (sv_local_l2_session_snapshot s))) = Inr (restarted rf s)"
proof -
  let ?d = "view_body rf s (map l2_kept (sv_retained_local_l2_books s))
    (map l2_kept (sv_local_l2_books_snapshot s)) (map l2_kept (sv_local_l2_session_snapshot s))"
  note ok = assms [unfolded state_ok_def]
  have a: "decode_fields rf state_fields ?d = Inr (sv_fields s)"
    using ok decode_written [OF _ state_names subset_refl] unfolding view_body_def by blast
  have fees: "keyed_part (\<lambda>_ e. Inr e) ?d ''account_fee_snapshots'' = Inr (map_values id (sv_account_fees s))"
    by (rule keyed_part_view [OF view_parts(2)]) simp
  have ps: "keyed_part (\<lambda>_. deserialize_open_position rf) ?d ''open_positions'' =
      Inr (map_values (position_restarted rf) (sv_positions s))"
    using ok by (intro keyed_part_view [OF view_parts(3)] position_restored) auto
  have es: "keyed_part (restore_entry rf) ?d ''pending_entries'' = Inr (map_values entry_restarted (sv_entries s))"
    using ok by (intro keyed_part_view [OF view_parts(4)] entry_restored) auto
  have cs: "keyed_part (restore_close rf) ?d ''pending_closes'' = Inr (map_values id (sv_closes s))"
    using ok by (intro keyed_part_view [OF view_parts(5)]) (auto intro!: close_restored)
  have pcs: "keyed_part (restore_passive_close rf ps) ?d ''pending_passive_closes'' =
      Inr (map_values (passive_close_restarted rf ps) (sv_passive_closes s))" for ps
    using ok by (intro keyed_part_view [OF view_parts(6)] passive_close_restored) auto
  have "operator_part ?d = operator_view s"
    by (simp add: operator_part_def view_parts operator_view_def)
  then show ?thesis
    unfolding restore_state_def a fees ps es cs pcs bind_res_simps restarted_def
    by (simp add: view_parts operator_restored set_queue_normal del: py_get.simps restore_lifecycle.simps)
qed

lemma state_restored:
  assumes "state_ok rf s" and "persistent_view rf s = Inr v"
  shows "restore_state rf v = Inr (restarted rf s)"
proof -
  from assms(2) obtain retained books sessions where
      l: "map_res local_l2_item (sv_retained_local_l2_books s) = Inr retained"
        "map_res local_l2_item (sv_local_l2_books_snapshot s) = Inr books"
        "map_res local_l2_item (sv_local_l2_session_snapshot s) = Inr sessions"
      and v: "v = view_body rf s retained books sessions"
    by (auto simp: persistent_view_def returns_iff)
  from body_restored [OF assms(1)] l [THEN l2_items_kept] show ?thesis unfolding v by simp
qed

lemma view_built: "list_all l2_plain (l2_items s) \<Longrightarrow> \<exists>v. persistent_view rf s = Inr v"
  by (simp add: persistent_view_def l2_plain_items)

lemma view_built_again:
  assumes "persistent_view rf s = Inr v"
  shows "\<exists>w. persistent_view rf (restarted rf s) = Inr w"
proof (rule view_built)
  from assms show "list_all l2_plain (l2_items (restarted rf s))"
    by (auto simp: persistent_view_def returns_iff restarted_def dest!: l2_items_kept)
qed

section \<open>Whatever is read is well-formed\<close>

lemma keyed_part_ok:
  assumes "json_value (PDict d)" and "keyed_part f d k = Inr xs"
    and "\<And>i e x. json_value (PDict e) \<Longrightarrow> f i e = Inr x \<Longrightarrow> P i x"
  shows "\<forall>(i, x)\<in>set xs. P i x"
proof (cases "dget d k")
  case (PDict vs)
  with assms(2) json_part [OF assms(1), of k] have "json_value (PDict vs)" "keyed f vs = Inr xs"
    by (simp_all add: keyed_part_def del: json_dict)
  with keyed_ok [of f P] assms(3) show ?thesis by blast
qed (use assms(2) in \<open>auto simp: keyed_part_def\<close>)

lemma restore_state_ok:
  assumes json: "json_value (PDict d)" and "restore_state rf d = Inr s"
  shows "state_ok rf s"
proof -
  from assms(2) have a: "decode_fields rf state_fields d = Inr (sv_fields s)"
      and ps: "keyed_part (\<lambda>_. deserialize_open_position rf) d ''open_positions'' = Inr (sv_positions s)"
      and es: "keyed_part (restore_entry rf) d ''pending_entries'' = Inr (sv_entries s)"
      and cs: "keyed_part (restore_close rf) d ''pending_closes'' = Inr (sv_closes s)"
      and pcs: "keyed_part (restore_passive_close rf (sv_positions s)) d ''pending_passive_closes'' = Inr (sv_passive_closes s)"
    by (auto simp: restore_state_def returns_iff)
  have p: "\<forall>(k, p)\<in>set (sv_positions s). position_ok rf p"
    by (rule keyed_part_ok [OF json ps]) (rule position_ok_restored)
  have e: "\<forall>(k, e)\<in>set (sv_entries s). entry_ok rf e"
    by (rule keyed_part_ok [OF json es]) (rule restore_entry_ok)
  have c: "\<forall>(k, c)\<in>set (sv_closes s). close_ok rf c"
    by (rule keyed_part_ok [OF json cs]) (rule close_ok_restored)
  have "\<forall>(k, c)\<in>set (sv_passive_closes s). passive_close_ok rf k c"
    by (rule keyed_part_ok [OF json pcs]) (rule passive_close_ok_restored [OF _ _ p])
  moreover have "json_value (sv_venue_health s)"
    using assms(2) json_get [OF json, of "PDict []" "''venue_health''"]
    by (auto simp: restore_state_def returns_iff simp del: py_get.simps json_dict) simp
  ultimately show ?thesis using p e c decode_fields_ok [OF json a] by (simp add: state_ok_def)
qed

lemma entry_restarted_ok: "entry_ok rf e \<Longrightarrow> entry_ok rf (entry_restarted e)"
  by (simp add: entry_ok_def entry_restarted_def entry_post_init_ok without_fees_ok)

lemma position_restarted_ok: "position_ok rf p \<Longrightarrow> position_ok rf (position_restarted rf p)"
  by (simp add: position_ok_def position_restarted_def position_post_init_ok)

lemma passive_restarted_ok:
  "passive_close_ok rf k c \<Longrightarrow> \<forall>(i, p)\<in>set ps. position_ok rf p \<Longrightarrow> passive_close_ok rf k (passive_close_restarted rf ps c)"
  by (auto simp: passive_close_ok_def passive_close_restarted_def position_restarted_ok split: option.splits dest!: map_of_SomeD)

lemma restarted_ok:
  assumes "state_ok rf s"
  shows "state_ok rf (restarted rf s)"
proof -
  let ?ps = "map_values (position_restarted rf) (sv_positions s)"
  from assms have p: "\<forall>(i, p)\<in>set ?ps. position_ok rf p" by (auto simp: state_ok_def intro: position_restarted_ok)
  with assms show ?thesis
    by (auto simp: state_ok_def restarted_def intro!: entry_restarted_ok passive_restarted_ok)
qed

lemma position_restarted_again: "position_restarted rf (position_restarted rf p) = position_restarted rf p"
  by (simp add: position_restarted_def position_post_init_again)

lemma passive_restarted_again:
  "passive_close_restarted rf (map_values (position_restarted rf) ps) (passive_close_restarted rf (map_values (position_restarted rf) ps) c) =
   passive_close_restarted rf (map_values (position_restarted rf) ps) c"
  by (cases "pc_position_snapshot c")
     (auto simp: passive_close_restarted_def close_position_id_def position_restarted_again split: option.splits)

lemma restarted_again: "restarted rf (restarted rf s) = restarted rf s"
  by (simp add: restarted_def position_restarted_again entry_restarted_again passive_restarted_again)

lemma position_kept:
  "n \<notin> {''matched_quantity'', ''initial_quantity'', ''entered_at_ms'', ''total_entry_fee_quote''} \<Longrightarrow>
     dget (pa_fields (position_restarted rf p)) n = dget (pa_fields p) n"
  by (simp add: position_restarted_def position_post_init_def)

lemma entry_kept:
  "n \<notin> {''maker_fee_quote'', ''hedge_fee_quote'', ''repost_count''} \<Longrightarrow>
     dget (ea_fields (entry_restarted e)) n = dget (ea_fields e) n"
  by (simp add: entry_restarted_def entry_post_init_def without_fees_def)

lemma position_part: "\<exists>a. position_restarted rf p = p\<lparr>pa_fields := a\<rparr>"
  unfolding position_restarted_def by blast

lemma entry_parts_kept:
  "\<exists>a. entry_restarted e = e\<lparr>ea_fields := a, ea_passive_order := map_option order_forgotten (ea_passive_order e)\<rparr>"
  unfolding entry_restarted_def by blast

text \<open>C16: What a restart keeps of the engine's state. Take a state whose converted attributes have their
  types and whose other simple attributes hold JSON values, whose entries' phases have no empty name, and
  whose local books are neither texts nor lists or tuples (dictionaries, as the engine stores them). Its view can be built, and reading it back gives the state, except for the following. The health of
  the venues, the reason that disabled Hyperliquid, the last scan, the progress and market data records
  of the runtime and the record of the life cycle's closure are lost (they are empty afterwards). Of a
  position, the quantities, time and fee that its constructor derives from others when they are zero may
  change, and nothing else. Of a pending entry, both fees and the time of the order's last quality sample
  are lost, and an unset repost count is taken from the attempts. The queue of close reconciliations is cut
  to its last 256 items. A passive closing refers to the restored position with its id, if there is one.
  A further restart changes nothing.\<close>

theorem restart_keeps_the_state:
  assumes "state_ok rf s" and "list_all l2_plain (l2_items s)"
  defines "t \<equiv> restarted rf s"
  shows "(\<exists>v. persistent_view rf s = Inr v \<and> restore_state rf v = Inr t) \<and>
    sv_lifecycle t = sv_lifecycle s \<and> sv_risk_mode t = sv_risk_mode s \<and> sv_requested_mode t = sv_requested_mode s \<and>
    sv_pending_reconcile t = sv_pending_reconcile s \<and> sv_fields t = sv_fields s \<and>
    sv_account_fees t = sv_account_fees s \<and> sv_closes t = sv_closes s \<and>
    sv_retained_local_l2_books t = sv_retained_local_l2_books s \<and>
    sv_local_l2_books_snapshot t = sv_local_l2_books_snapshot s \<and>
    sv_local_l2_session_snapshot t = sv_local_l2_session_snapshot s \<and>
    sv_venue_health t = PDict [] \<and> sv_hyperliquid_trading_disabled_reason t = None \<and> sv_last_scan t = PNone \<and>
    sv_runtime_progress t = [] \<and> sv_runtime_market_data_config t = [] \<and> sv_v1_lifecycle_closure t = [] \<and>
    sv_reconciliations t = last_n 256 (sv_reconciliations s) \<and>
    sv_positions t = map_values (position_restarted rf) (sv_positions s) \<and>
    (\<forall>p. \<exists>a. position_restarted rf p = p\<lparr>pa_fields := a\<rparr>) \<and>
    (\<forall>p n. n \<notin> {''matched_quantity'', ''initial_quantity'', ''entered_at_ms'', ''total_entry_fee_quote''} \<longrightarrow>
       dget (pa_fields (position_restarted rf p)) n = dget (pa_fields p) n) \<and>
    sv_entries t = map_values entry_restarted (sv_entries s) \<and>
    (\<forall>e. \<exists>a. entry_restarted e = e\<lparr>ea_fields := a, ea_passive_order := map_option order_forgotten (ea_passive_order e)\<rparr>) \<and>
    (\<forall>e n. n \<notin> {''maker_fee_quote'', ''hedge_fee_quote'', ''repost_count''} \<longrightarrow>
       dget (ea_fields (entry_restarted e)) n = dget (ea_fields e) n) \<and>
    sv_passive_closes t = map_values (passive_close_restarted rf (sv_positions t)) (sv_passive_closes s) \<and>
    (\<forall>c. passive_close_restarted rf (sv_positions t) c = c\<lparr>pc_position_snapshot :=
       (case dict_get (sv_positions t) (close_position_id c) of
          Some p \<Rightarrow> Some p | None \<Rightarrow> map_option (position_restarted rf) (pc_position_snapshot c))\<rparr>) \<and>
    restarted rf t = t"
proof -
  have same: "map l2_kept vs = vs" if "list_all l2_plain vs" for vs
    using that by (induction vs) (simp_all add: l2_plain_kept)
  have kept: "map l2_kept (sv_retained_local_l2_books s) = sv_retained_local_l2_books s"
    "map l2_kept (sv_local_l2_books_snapshot s) = sv_local_l2_books_snapshot s"
    "map l2_kept (sv_local_l2_session_snapshot s) = sv_local_l2_session_snapshot s"
    using assms(2) by (auto intro: same)
  obtain v where v: "persistent_view rf s = Inr v" using view_built [OF assms(2)] by blast
  have "\<exists>v. persistent_view rf s = Inr v \<and> restore_state rf v = Inr t"
    unfolding t_def using v state_restored [OF assms(1) v] by blast
  moreover have "restarted rf t = t" unfolding t_def by (rule restarted_again)
  ultimately show ?thesis
    by (simp add: t_def restarted_def kept MAX_PENDING_CLOSE_RECONCILIATIONS_def position_kept entry_kept
        position_part entry_parts_kept passive_close_restarted_def del: l2_kept_again)
qed

text \<open>C17: Whatever the snapshot holds, the restored state is well-formed. If the snapshot is JSON and
  the restore does not raise (nor meets a number that is not finite, where the model holds a real), every
  converted attribute of every position, entry, closing and of the state has its type, and those that are
  copied as they stand hold a JSON value of any type (a symbol may be a number). So whenever the view can
  be built again (it is, if the local books are not texts or lists themselves), the snapshot is read
  again, and from then on a further restart succeeds and changes nothing.\<close>

theorem restored_state_is_well_formed:
  assumes "json_value (PDict d)" and "restore_state rf d = Inr s"
  shows "state_ok rf s \<and> (list_all l2_plain (l2_items s) \<longrightarrow> (\<exists>v. persistent_view rf s = Inr v)) \<and>
    (\<forall>v. persistent_view rf s = Inr v \<longrightarrow>
       restore_state rf v = Inr (restarted rf s) \<and>
       (\<exists>w. persistent_view rf (restarted rf s) = Inr w \<and> restore_state rf w = Inr (restarted rf s)))"
proof (intro conjI allI impI)
  show ok: "state_ok rf s" by (rule restore_state_ok [OF assms])
  show "\<exists>v. persistent_view rf s = Inr v" if "list_all l2_plain (l2_items s)" using that by (rule view_built)
  fix v assume v: "persistent_view rf s = Inr v"
  show "restore_state rf v = Inr (restarted rf s)" by (rule state_restored [OF ok v])
  obtain w where w: "persistent_view rf (restarted rf s) = Inr w" using view_built_again [OF v] by blast
  with state_restored [OF restarted_ok [OF ok] w]
  show "\<exists>w. persistent_view rf (restarted rf s) = Inr w \<and> restore_state rf w = Inr (restarted rf s)"
    by (simp only: restarted_again) blast
qed

text \<open>C37: A pending entry over a restart. Take an entry whose converted attributes have their types and
  whose phase, if it has one, has no empty name (an empty one would be read as the default). The
  hedge in flight, the phase of the cycle, the remainder slices and the manager's runtime come back as they
  were. The resting order comes back except for the time of its last quality sample, which is forgotten.
  So does every other attribute, except that an unset repost count is taken from the attempts and that
  both fees are unknown afterwards, whatever was known about them.\<close>

theorem pending_entry_over_restart:
  assumes "fields_ok rf (entry_fields []) (ea_fields e)" and "phase_named (ea_phase_state e)"
  shows "\<exists>e'. restore_entry rf pid (entry_view rf e) = Inr e' \<and>
    ea_hedge_inflight e' = ea_hedge_inflight e \<and> ea_phase_state e' = ea_phase_state e \<and>
    ea_remainder_slices e' = ea_remainder_slices e \<and> ea_manager_runtime e' = ea_manager_runtime e \<and>
    ea_passive_order e' =
      map_option (\<lambda>po. po\<lparr>po_last_resting_quality_sample_at_ms := None\<rparr>) (ea_passive_order e) \<and>
    dget (ea_fields e') ''maker_fee_quote'' = PNone \<and> dget (ea_fields e') ''hedge_fee_quote'' = PNone \<and>
    dget (ea_fields e') ''repost_count'' =
      (if number (dget (ea_fields e) ''repost_count'') = Fin 0 \<and> truth (dget (ea_fields e) ''repost_attempt_count'')
       then dget (ea_fields e) ''repost_attempt_count'' else dget (ea_fields e) ''repost_count'') \<and>
    (\<forall>n. n \<notin> {''maker_fee_quote'', ''hedge_fee_quote'', ''repost_count''} \<longrightarrow>
       dget (ea_fields e') n = dget (ea_fields e) n)"
proof -
  have ok: "entry_ok rf e" using assms by (simp add: entry_ok_def)
  have "order_forgotten = (\<lambda>po. po\<lparr>po_last_resting_quality_sample_at_ms := None\<rparr>)"
    by (rule ext) (simp add: order_forgotten_def)
  then show ?thesis
    by (simp add: entry_restored [OF ok] entry_restarted_def entry_post_init_def without_fees_def)
qed

section \<open>A snapshot\<close>

definition no_text :: "pyfloat \<Rightarrow> string" where
  "no_text x = ''0.0''"

text \<open>An entry whose fees are known, as an older snapshot could hold it, next to a position and a
  passive closing of it.\<close>

definition sample_entry :: obj where
  "sample_entry = [(''symbol'', PStr ''BTCUSDT''), (''long_venue'', PStr ''okx''), (''target_quantity'', PFloat (Fin 2) ''2.0''),
     (''maker_fee_quote'', PFloat (Fin 1) ''1.0''), (''repost_attempt_count'', PInt 3),
     (''maker_remainder_slices'', PList [PDict [(''quantity'', PInt 1), (''notional_quote'', PInt 9)]]),
     (''phase_state'', PDict [(''cycle_attempt'', PInt 2)]),
     (''hedge_inflight'', PDict [(''venue'', PStr ''gate''), (''side'', PStr ''sell''), (''quantity'', PInt 1)])]"

definition sample_snapshot_dict :: obj where
  "sample_snapshot_dict = [(''lifecycle'', PStr ''risk_only''), (''risk_mode'', PStr ''reduce_only''),
     (''pending_entries'', PDict [(''e'', PDict sample_entry)])]"

lemma sample_json: "json_value (PDict sample_snapshot_dict)" "json_value (PDict sample_entry)"
  by (simp_all add: sample_snapshot_dict_def sample_entry_def)

lemma sample_entry_restores:
  "case restore_entry no_text ''e'' sample_entry of Inl _ \<Rightarrow> False
   | Inr e \<Rightarrow> dget (ea_fields e) ''maker_fee_quote'' = PFloat (Fin 1) ''1.0''"
  by code_simp

lemma sample_entry_ok:
  "\<exists>e. restore_entry no_text ''e'' sample_entry = Inr e \<and> entry_ok no_text e \<and>
     dget (ea_fields e) ''maker_fee_quote'' = PFloat (Fin 1) ''1.0''"
  using sample_entry_restores restore_entry_ok [OF sample_json(2), of no_text "''e''"]
  by (cases "restore_entry no_text ''e'' sample_entry") auto

lemma sample_absent:
  "k \<notin> {''lifecycle'', ''risk_mode'', ''pending_entries''} \<Longrightarrow> keyed_part f sample_snapshot_dict k = Inr []"
  by (auto simp: keyed_part_def sample_snapshot_dict_def)

lemma sample_lists:
  "k \<notin> {''lifecycle'', ''risk_mode'', ''pending_entries''} \<Longrightarrow> list_part sample_snapshot_dict k = []"
  by (auto simp: list_part_def sample_snapshot_dict_def)

lemma sample_restores:
  "\<exists>s. restore_state no_text sample_snapshot_dict = Inr s \<and> map fst (sv_entries s) = [''e''] \<and> l2_items s = []"
proof -
  from sample_entry_ok obtain e where e: "restore_entry no_text ''e'' sample_entry = Inr e" by blast
  have "isl (decode_fields no_text state_fields sample_snapshot_dict) = False"
    by (simp add: decode_fields_def state_fields_def sample_snapshot_dict_def)
  then obtain a where "decode_fields no_text state_fields sample_snapshot_dict = Inr a"
    by (cases "decode_fields no_text state_fields sample_snapshot_dict") auto
  moreover have "keyed_part (restore_entry no_text) sample_snapshot_dict ''pending_entries'' = Inr [(''e'', e)]"
    by (simp add: keyed_part_def sample_snapshot_dict_def e)
  ultimately show ?thesis by (simp add: restore_state_def sample_absent sample_lists del: py_get.simps)
qed

lemma restored_state_is_well_formed_witness:
  "\<exists>s v. restore_state no_text sample_snapshot_dict = Inr s \<and> map fst (sv_entries s) = [''e''] \<and> state_ok no_text s \<and>
     persistent_view no_text s = Inr v \<and> restore_state no_text v = Inr (restarted no_text s)"
proof -
  obtain s where s: "restore_state no_text sample_snapshot_dict = Inr s" "map fst (sv_entries s) = [''e'']" "l2_items s = []"
    using sample_restores by (elim exE conjE)
  from s(3) have l2: "list_all l2_plain (l2_items s)" by simp
  note wf = restored_state_is_well_formed [OF sample_json(1) s(1)]
  from wf [THEN conjunct2, THEN conjunct1] l2 obtain v where v: "persistent_view no_text s = Inr v" by (elim impE exE)
  from wf [THEN conjunct2, THEN conjunct2, THEN spec, THEN mp, OF v] have "restore_state no_text v = Inr (restarted no_text s)" ..
  then show ?thesis using wf [THEN conjunct1] s(1,2) v by (intro exI conjI)
qed

lemma restart_keeps_the_state_witness:
  "\<exists>s v. map fst (sv_entries s) = [''e''] \<and> persistent_view no_text s = Inr v \<and>
     restore_state no_text v = Inr (restarted no_text s)"
proof -
  obtain s where s: "restore_state no_text sample_snapshot_dict = Inr s" "map fst (sv_entries s) = [''e'']" "l2_items s = []"
    using sample_restores by (elim exE conjE)
  from s(3) have l2: "list_all l2_plain (l2_items s)" by simp
  from restart_keeps_the_state [OF restore_state_ok [OF sample_json(1) s(1)] l2, THEN conjunct1]
  obtain v where "persistent_view no_text s = Inr v \<and> restore_state no_text v = Inr (restarted no_text s)" ..
  with s(2) show ?thesis by (intro exI conjI) (assumption | elim conjE)+
qed

text \<open>The fee of the entry, known before the restart, is unknown after it.\<close>

lemma pending_entry_over_restart_witness:
  "\<exists>e e'. dget (ea_fields e) ''maker_fee_quote'' = PFloat (Fin 1) ''1.0'' \<and>
     restore_entry no_text ''e'' (entry_view no_text e) = Inr e' \<and> dget (ea_fields e') ''maker_fee_quote'' = PNone"
proof -
  from sample_entry_ok obtain e where e: "entry_ok no_text e" "dget (ea_fields e) ''maker_fee_quote'' = PFloat (Fin 1) ''1.0''"
    by blast
  from e(1) have ok: "fields_ok no_text (entry_fields []) (ea_fields e)" "phase_named (ea_phase_state e)"
    unfolding entry_ok_def by simp_all
  from pending_entry_over_restart [OF ok, of "''e''"] obtain e' where
      "restore_entry no_text ''e'' (entry_view no_text e) = Inr e'" "dget (ea_fields e') ''maker_fee_quote'' = PNone"
    by (elim exE conjE)
  with e(2) show ?thesis by (intro exI conjI)
qed

end
