(* ===== verification/Strategy.thy ===== *)
theory Strategy
  imports Py_Value
begin

text \<open>
  From quotes to tradeable candidates. The sidecar pairs the quotes of one symbol on two venues into
  directed candidates (\<open>sidecar/pairing.py\<close>); the engine drops those that fail a gate and ranks
  the rest (\<open>strategy/discovery.py\<close>), prices the ready books with one maker leg per side
  (\<open>strategy/scoring.py\<close>), and scores transfers (\<open>strategy/transfer_bias.py\<close>). The daily universe of
  symbols with its file format is \<open>strategy/universe.py\<close>.

  The lemmas: discovery returns exactly the candidates that pass every gate, in stable order; what a
  tradeable pair guarantees of the two quotes it was made from; the priced route is the best one;
  and a valid universe survives its file.
\<close>

section \<open>Candidates\<close>

text \<open>The fields that pairing sets and discovery reads; every other field keeps its default.\<close>

record quote_snapshot =
  qs_venue :: string
  qs_symbol :: string
  qs_bid :: real
  qs_ask :: real
  qs_funding_rate_bps :: real
  qs_funding_timestamp_ms :: int

record candidate_input =
  ci_long_venue :: string
  ci_short_venue :: string
  ci_symbol :: string
  ci_funding_diff_bps :: real
  ci_funding_edge_bps :: real
  ci_expected_edge_bps :: real
  ci_worst_case_edge_bps :: real
  ci_ranking_edge_bps :: real
  ci_opportunity_type :: string
  ci_blocked :: bool
  ci_blocked_reasons :: "string list"
  ci_entry_notional_quote :: real
  ci_pair_id :: string
  ci_funding_timestamp_ms :: int
  ci_first_funding_timestamp_ms :: int
  ci_long_funding_timestamp_ms :: int
  ci_short_funding_timestamp_ms :: int
  ci_second_funding_timestamp_ms :: int
  ci_first_funding_leg :: string
  ci_direction_consistent :: bool
  ci_interval_aligned :: bool

record strategy_config =
  sc_entry_window_secs :: int
  sc_max_scan_minutes_before_funding :: int
  sc_min_scan_minutes_before_funding :: int
  sc_max_stagger_gap_minutes :: int
  sc_min_funding_edge_bps :: real
  sc_min_expected_edge_bps :: real
  sc_min_worst_case_edge_bps :: real
  sc_entry_exit_reserve_bps :: real
  sc_execution_buffer_bps :: real
  sc_capital_buffer_bps :: real
  sc_transfer_healthy_bias_bps :: real
  sc_transfer_unknown_bias_bps :: real
  sc_transfer_degraded_bias_bps :: real

definition default_strategy_config :: strategy_config where
  "default_strategy_config = \<lparr>sc_entry_window_secs = 300, sc_max_scan_minutes_before_funding = 25,
     sc_min_scan_minutes_before_funding = 5, sc_max_stagger_gap_minutes = 480, sc_min_funding_edge_bps = 6,
     sc_min_expected_edge_bps = 1, sc_min_worst_case_edge_bps = 0, sc_entry_exit_reserve_bps = 3,
     sc_execution_buffer_bps = 2, sc_capital_buffer_bps = 1, sc_transfer_healthy_bias_bps = 1 / 4,
     sc_transfer_unknown_bias_bps = 0, sc_transfer_degraded_bias_bps = - 1 / 2\<rparr>"

section \<open>Pairing\<close>

definition make_candidate_pair_id :: "string \<Rightarrow> string \<Rightarrow> string \<Rightarrow> string" where
  "make_candidate_pair_id symbol long_venue short_venue = py_lower symbol @ '':'' @ long_venue @ ''->'' @ short_venue"

definition DEFAULT_ENTRY_NOTIONAL_QUOTE :: real where "DEFAULT_ENTRY_NOTIONAL_QUOTE = 50"
definition INTERVAL_ALIGNED_THRESHOLD_MS :: int where "INTERVAL_ALIGNED_THRESHOLD_MS = 60000"

definition pair_candidate :: "string \<Rightarrow> quote_snapshot \<Rightarrow> quote_snapshot \<Rightarrow> candidate_input" where
  "pair_candidate symbol long_q short_q =
     (let funding_diff = qs_funding_rate_bps short_q - qs_funding_rate_bps long_q;
          long_mid = (qs_bid long_q + qs_ask long_q) / 2;
          short_mid = (qs_bid short_q + qs_ask short_q) / 2;
          reference_mid = (if long_mid > 0 \<and> short_mid > 0 then (long_mid + short_mid) / 2 else 1);
          raw_cross_bps = (if reference_mid > 0 \<and> qs_ask long_q > 0 \<and> qs_bid short_q > 0
            then ((qs_bid short_q - qs_ask long_q) / reference_mid) * 10000 else 0);
          long_ts = qs_funding_timestamp_ms long_q; short_ts = qs_funding_timestamp_ms short_q;
          interval_aligned = (if long_ts > 0 \<and> short_ts > 0
            then \<bar>long_ts - short_ts\<bar> \<le> INTERVAL_ALIGNED_THRESHOLD_MS else False);
          first_leg = (if long_ts \<le> short_ts then ''long'' else if long_ts > 0 \<and> short_ts > 0 then ''short'' else '''')
      in \<lparr>ci_long_venue = qs_venue long_q, ci_short_venue = qs_venue short_q, ci_symbol = symbol,
          ci_funding_diff_bps = funding_diff, ci_funding_edge_bps = funding_diff,
          ci_expected_edge_bps = funding_diff, ci_worst_case_edge_bps = funding_diff,
          ci_ranking_edge_bps = funding_diff + raw_cross_bps,
          ci_opportunity_type = (if interval_aligned then ''aligned'' else ''staggered''),
          ci_blocked = False, ci_blocked_reasons = [], ci_entry_notional_quote = DEFAULT_ENTRY_NOTIONAL_QUOTE,
          ci_pair_id = make_candidate_pair_id symbol (qs_venue long_q) (qs_venue short_q),
          ci_funding_timestamp_ms = min long_ts short_ts, ci_first_funding_timestamp_ms = min long_ts short_ts,
          ci_long_funding_timestamp_ms = long_ts, ci_short_funding_timestamp_ms = short_ts,
          ci_second_funding_timestamp_ms = max long_ts short_ts, ci_first_funding_leg = first_leg,
          ci_direction_consistent = (funding_diff > 0 \<and> short_mid \<ge> long_mid \<and> long_mid > 0 \<and> short_mid > 0),
          ci_interval_aligned = interval_aligned\<rparr>)"

text \<open>The quotes of one symbol, and the candidates of every ordered pair of them in which the short
  side pays the higher rate.\<close>

definition venue_quotes :: "quote_snapshot list \<Rightarrow> string \<Rightarrow> quote_snapshot list" where
  "venue_quotes quotes symbol = filter (\<lambda>q. py_upper (qs_symbol q) = py_upper symbol) quotes"

definition symbol_pairs :: "quote_snapshot list \<Rightarrow> string \<Rightarrow> candidate_input list" where
  "symbol_pairs quotes symbol =
     (let vq = venue_quotes quotes symbol
      in if length vq < 2 then []
         else concat (map (\<lambda>(i, long_q). concat (map (\<lambda>(j, short_q).
                if i = j then []
                else if qs_funding_rate_bps short_q \<le> qs_funding_rate_bps long_q then []
                else [pair_candidate symbol long_q short_q]) (enumerate 0 vq))) (enumerate 0 vq)))"

definition by_ranking :: "candidate_input list \<Rightarrow> candidate_input list" where
  "by_ranking = sort_key (\<lambda>c. - ci_ranking_edge_bps c)"

definition build_same_symbol_pairs :: "(string, quote_snapshot) dict \<Rightarrow> string list \<Rightarrow> candidate_input list" where
  "build_same_symbol_pairs quotes symbols = by_ranking (concat (map (symbol_pairs (map snd quotes)) symbols))"

definition check_stale_snapshot :: "int \<Rightarrow> int \<Rightarrow> int \<Rightarrow> bool" where
  "check_stale_snapshot snapshot_published_at_ms max_age_ms now_ms \<longleftrightarrow> now_ms - snapshot_published_at_ms > max_age_ms"

definition reference_mid_valid :: "quote_snapshot \<Rightarrow> quote_snapshot \<Rightarrow> bool" where
  "reference_mid_valid long_q short_q \<longleftrightarrow> qs_ask long_q > 0 \<and> qs_bid short_q > 0"

section \<open>Discovery\<close>

datatype block_reason =
    STALE_MARKET | FUNDING_WINDOW_PASSED | NO_NEAR_TERM_SETTLEMENT | OUTSIDE_SCAN_WINDOW | STAGGER_GAP_TOO_WIDE
  | ZERO_ORDER_SIZE | FUNDING_EDGE_BELOW_FLOOR | EXPECTED_EDGE_BELOW_FLOOR | WORST_CASE_EDGE_BELOW_FLOOR
  | TRANSFER_UNAVAILABLE | MISSING_CANDIDATE_IDENTITY

fun block_reason_value :: "block_reason \<Rightarrow> string" where
  "block_reason_value STALE_MARKET = ''stale_market''"
| "block_reason_value FUNDING_WINDOW_PASSED = ''funding_window_passed''"
| "block_reason_value NO_NEAR_TERM_SETTLEMENT = ''no_near_term_settlement''"
| "block_reason_value OUTSIDE_SCAN_WINDOW = ''outside_scan_window''"
| "block_reason_value STAGGER_GAP_TOO_WIDE = ''stagger_gap_too_wide''"
| "block_reason_value ZERO_ORDER_SIZE = ''zero_order_size''"
| "block_reason_value FUNDING_EDGE_BELOW_FLOOR = ''funding_edge_below_floor''"
| "block_reason_value EXPECTED_EDGE_BELOW_FLOOR = ''expected_edge_below_floor''"
| "block_reason_value WORST_CASE_EDGE_BELOW_FLOOR = ''worst_case_edge_below_floor''"
| "block_reason_value TRANSFER_UNAVAILABLE = ''transfer_unavailable''"
| "block_reason_value MISSING_CANDIDATE_IDENTITY = ''missing_candidate_identity_or_funding_timestamp''"

definition is_within_funding_scan_window_ms :: "strategy_config \<Rightarrow> int \<Rightarrow> bool" where
  "is_within_funding_scan_window_ms config remaining_ms =
     (if remaining_ms \<le> 0 then False
      else let max_before_ms = sc_max_scan_minutes_before_funding config * 60000;
               min_before_ms = sc_min_scan_minutes_before_funding config * 60000;
               entry_window_ms = sc_entry_window_secs config * 1000
           in if max_before_ms > 0 then remaining_ms \<le> max_before_ms \<and> remaining_ms \<ge> min_before_ms
              else if entry_window_ms > 0 then remaining_ms \<le> entry_window_ms \<and> remaining_ms \<ge> min_before_ms
              else True)"

definition gate_reasons :: "strategy_config \<Rightarrow> int \<Rightarrow> candidate_input \<Rightarrow> block_reason list" where
  "gate_reasons config now_ms c =
     (let first = ci_first_funding_timestamp_ms c; second = ci_second_funding_timestamp_ms c;
          remaining_ms = first - now_ms;
          max_gap_ms = sc_max_stagger_gap_minutes config * 60000
      in (if first \<le> 0 then [MISSING_CANDIDATE_IDENTITY] else []) @
         (if first > 0 \<and> remaining_ms \<le> 0 then [FUNDING_WINDOW_PASSED]
          else if \<not> is_within_funding_scan_window_ms config remaining_ms then [OUTSIDE_SCAN_WINDOW] else []) @
         (if ci_opportunity_type c = ''staggered'' \<and> first > 0 \<and> second > 0 \<and> max_gap_ms > 0 \<and> second - first > max_gap_ms
          then [STAGGER_GAP_TOO_WIDE] else []) @
         (if ci_funding_edge_bps c < sc_min_funding_edge_bps config then [FUNDING_EDGE_BELOW_FLOOR] else []) @
         (if ci_expected_edge_bps c < sc_min_expected_edge_bps config then [EXPECTED_EDGE_BELOW_FLOOR] else []) @
         (if ci_worst_case_edge_bps c < sc_min_worst_case_edge_bps config then [WORST_CASE_EDGE_BELOW_FLOOR] else []) @
         (if ci_entry_notional_quote c \<le> 0 then [ZERO_ORDER_SIZE] else []))"

text \<open>Discovery returns the candidates that pass, and writes the reasons into those that do not.\<close>

definition noted :: "strategy_config \<Rightarrow> int \<Rightarrow> candidate_input \<Rightarrow> candidate_input" where
  "noted config now_ms c =
     (if ci_blocked c \<or> gate_reasons config now_ms c = [] then c
      else c\<lparr>ci_blocked_reasons := ci_blocked_reasons c @ map block_reason_value (gate_reasons config now_ms c)\<rparr>)"

definition passes :: "strategy_config \<Rightarrow> int \<Rightarrow> candidate_input \<Rightarrow> bool" where
  "passes config now_ms c \<longleftrightarrow> \<not> ci_blocked c \<and> gate_reasons config now_ms c = []"

definition discover_tradeable_candidates ::
  "candidate_input list \<Rightarrow> strategy_config \<Rightarrow> int \<Rightarrow> candidate_input list \<times> candidate_input list" where
  "discover_tradeable_candidates candidates config now_ms =
     (by_ranking (filter (passes config now_ms) candidates), map (noted config now_ms) candidates)"

section \<open>Market view and transfer bias\<close>

definition compute_reference_mid :: "quote_snapshot \<Rightarrow> quote_snapshot \<Rightarrow> real" where
  "compute_reference_mid long_quote short_quote = (qs_ask long_quote + qs_bid short_quote) / 2"

definition compute_raw_cross_bps :: "quote_snapshot \<Rightarrow> quote_snapshot \<Rightarrow> real" where
  "compute_raw_cross_bps long_quote short_quote =
     (let mid = compute_reference_mid long_quote short_quote
      in if mid \<le> 0 then 0 else ((qs_bid short_quote - qs_ask long_quote) / mid) * 10000)"

definition select_maker_leg :: "quote_snapshot \<Rightarrow> quote_snapshot \<Rightarrow> string" where
  "select_maker_leg long_quote short_quote =
     (if qs_ask long_quote - qs_bid long_quote \<ge> qs_ask short_quote - qs_bid short_quote then ''long'' else ''short'')"

datatype transfer_state = CLEAR | DEGRADED | UNAVAILABLE

text \<open>A state that is none of the three is None.\<close>

definition evaluate_transfer_bias :: "transfer_state option \<Rightarrow> strategy_config \<Rightarrow> real" where
  "evaluate_transfer_bias transfer_state config =
     (case transfer_state of
        Some CLEAR \<Rightarrow> sc_transfer_healthy_bias_bps config
      | Some DEGRADED \<Rightarrow> sc_transfer_degraded_bias_bps config
      | Some UNAVAILABLE \<Rightarrow> sc_transfer_degraded_bias_bps config * 2
      | None \<Rightarrow> sc_transfer_unknown_bias_bps config)"

section \<open>Scoring\<close>

definition compute_expected_edge_bps ::
  "real \<Rightarrow> real \<Rightarrow> real \<Rightarrow> real \<Rightarrow> real \<Rightarrow> real \<Rightarrow> strategy_config \<Rightarrow> real" where
  "compute_expected_edge_bps funding_edge_bps cross_bps long_fee_bps short_fee_bps long_slippage_bps short_slippage_bps config =
     (let entry_fee = long_fee_bps + short_fee_bps; exit_fee = long_fee_bps + short_fee_bps;
          entry_slip = long_slippage_bps + short_slippage_bps; exit_slip = long_slippage_bps + short_slippage_bps
      in funding_edge_bps + cross_bps - entry_fee - entry_slip - exit_fee - exit_slip
         - sc_entry_exit_reserve_bps config - sc_capital_buffer_bps config)"

definition compute_worst_case_edge_bps :: "real \<Rightarrow> strategy_config \<Rightarrow> real" where
  "compute_worst_case_edge_bps expected_edge_bps config = expected_edge_bps - sc_execution_buffer_bps config"

definition compute_ranking_edge_bps :: "real \<Rightarrow> real \<Rightarrow> real" where
  "compute_ranking_edge_bps worst_case_edge_bps transfer_bias_bps = worst_case_edge_bps + transfer_bias_bps"

record final_l2_cost =
  fc_entry_maker_leg :: string
  fc_exit_maker_leg :: string
  fc_entry_cross_bps :: real
  fc_long_entry_slippage_bps :: real
  fc_short_entry_slippage_bps :: real
  fc_entry_fee_bps :: real
  fc_entry_slippage_bps :: real
  fc_long_exit_slippage_bps :: real
  fc_short_exit_slippage_bps :: real
  fc_exit_fee_bps :: real
  fc_exit_slippage_bps :: real
  fc_expected_edge_bps :: real

text \<open>The keyword arguments of the pricing function that describe the two books.\<close>

record l2_inputs =
  li_long_bid :: real
  li_long_ask :: real
  li_short_bid :: real
  li_short_ask :: real
  li_long_buy_slippage_bps :: real
  li_long_sell_slippage_bps :: real
  li_short_buy_slippage_bps :: real
  li_short_sell_slippage_bps :: real
  li_long_maker_fee_bps :: real
  li_long_taker_fee_bps :: real
  li_short_maker_fee_bps :: real
  li_short_taker_fee_bps :: real

definition l2_reference_mid :: "l2_inputs \<Rightarrow> real" where
  "l2_reference_mid b = (li_long_ask b + li_short_bid b) / 2"

text \<open>Cross, fee and slippage of entering with the given maker leg; fee, slippage, and the slippage of
  either leg, of leaving with it.\<close>

definition entry_route :: "l2_inputs \<Rightarrow> string \<Rightarrow> real \<times> real \<times> real" where
  "entry_route b maker_leg =
     (let mid = l2_reference_mid b; raw_cross = (li_short_bid b - li_long_ask b) / mid * 10000
      in if maker_leg = ''long''
         then (raw_cross + (li_long_ask b - li_long_bid b) / mid * 10000,
               li_long_maker_fee_bps b + li_short_taker_fee_bps b, li_short_sell_slippage_bps b)
         else (raw_cross + (li_short_ask b - li_short_bid b) / mid * 10000,
               li_long_taker_fee_bps b + li_short_maker_fee_bps b, li_long_buy_slippage_bps b))"

definition exit_route :: "l2_inputs \<Rightarrow> string \<Rightarrow> real \<times> real \<times> real \<times> real" where
  "exit_route b maker_leg =
     (if maker_leg = ''long''
      then (li_long_maker_fee_bps b + li_short_taker_fee_bps b, li_short_buy_slippage_bps b, 0, li_short_buy_slippage_bps b)
      else (li_long_taker_fee_bps b + li_short_maker_fee_bps b, li_long_sell_slippage_bps b, li_long_sell_slippage_bps b, 0))"

definition exit_maker :: "l2_inputs \<Rightarrow> string \<Rightarrow> string" where
  "exit_maker b tie_maker_leg =
     (let (_, long_exit_slippage, _, _) = exit_route b ''long''; (_, short_exit_slippage, _, _) = exit_route b ''short''
      in if long_exit_slippage < short_exit_slippage then ''long''
         else if short_exit_slippage < long_exit_slippage then ''short''
         else if tie_maker_leg = ''short'' then ''short'' else ''long'')"

definition priced_route :: "real \<Rightarrow> l2_inputs \<Rightarrow> strategy_config \<Rightarrow> string \<Rightarrow> string \<Rightarrow> final_l2_cost" where
  "priced_route funding_edge_bps b config tie_maker_leg maker_leg =
     (let exit_leg = exit_maker b tie_maker_leg;
          (exit_fee, exit_slippage, long_exit_slip, short_exit_slip) = exit_route b exit_leg;
          (entry_cross, entry_fee, entry_slippage) = entry_route b maker_leg
      in \<lparr>fc_entry_maker_leg = maker_leg, fc_exit_maker_leg = exit_leg, fc_entry_cross_bps = entry_cross,
          fc_long_entry_slippage_bps = (if maker_leg = ''long'' then 0 else li_long_buy_slippage_bps b),
          fc_short_entry_slippage_bps = (if maker_leg = ''long'' then li_short_sell_slippage_bps b else 0),
          fc_entry_fee_bps = entry_fee, fc_entry_slippage_bps = entry_slippage,
          fc_long_exit_slippage_bps = long_exit_slip, fc_short_exit_slippage_bps = short_exit_slip,
          fc_exit_fee_bps = exit_fee, fc_exit_slippage_bps = exit_slippage,
          fc_expected_edge_bps = funding_edge_bps + entry_cross - entry_fee - entry_slippage - exit_fee - exit_slippage
            - sc_entry_exit_reserve_bps config - sc_capital_buffer_bps config\<rparr>)"

text \<open>The messages of its \<open>ValueError\<close>s.\<close>

datatype pricing_error = Invalid_L2_Reference_Mid | Invalid_Entry_Maker_Leg

definition price_final_l2_cost ::
  "real \<Rightarrow> l2_inputs \<Rightarrow> strategy_config \<Rightarrow> string \<Rightarrow> string option \<Rightarrow> pricing_error + final_l2_cost" where
  "price_final_l2_cost funding_edge_bps b config tie_maker_leg forced_entry_maker_leg =
     (if l2_reference_mid b \<le> 0 then Inl Invalid_L2_Reference_Mid
      else let tie = (if py_lower tie_maker_leg = ''short'' then ''short'' else ''long'');
               route = priced_route funding_edge_bps b config tie
           in case forced_entry_maker_leg of
                Some leg \<Rightarrow> if leg \<in> {''long'', ''short''} then Inr (route leg) else Inl Invalid_Entry_Maker_Leg
              | None \<Rightarrow>
                  let long_route = route ''long''; short_route = route ''short''
                  in if fc_expected_edge_bps long_route > fc_expected_edge_bps short_route then Inr long_route
                     else if fc_expected_edge_bps short_route > fc_expected_edge_bps long_route then Inr short_route
                     else Inr (if tie = ''short'' then short_route else long_route))"

section \<open>Ranking\<close>

lemma by_ranking_set [simp]: "set (by_ranking cs) = set cs"
  by (simp add: by_ranking_def)

lemma by_ranking_sorted: "sorted_wrt (\<lambda>a b. ci_ranking_edge_bps b \<le> ci_ranking_edge_bps a) (by_ranking cs)"
  using sorted_sort_key [of "\<lambda>c. - ci_ranking_edge_bps c" cs] by (simp add: by_ranking_def sorted_map)

lemma by_ranking_stable:
  "filter (\<lambda>c. ci_ranking_edge_bps c = r) (by_ranking cs) = filter (\<lambda>c. ci_ranking_edge_bps c = r) cs"
  using sort_key_stable [of "\<lambda>c. - ci_ranking_edge_bps c" "- r" cs] by (simp add: by_ranking_def)

lemma by_ranking_mset: "mset (by_ranking cs) = mset cs"
  by (simp add: by_ranking_def)

text \<open>The reasons of a candidate, read back: none exactly when every gate is open.\<close>

lemma gate_reasons_Nil:
  "gate_reasons config now_ms c = [] \<longleftrightarrow>
     0 < ci_first_funding_timestamp_ms c \<and>
     is_within_funding_scan_window_ms config (ci_first_funding_timestamp_ms c - now_ms) \<and>
     \<not> (ci_opportunity_type c = ''staggered'' \<and> 0 < ci_second_funding_timestamp_ms c \<and>
        0 < sc_max_stagger_gap_minutes config \<and>
        sc_max_stagger_gap_minutes config * 60000 < ci_second_funding_timestamp_ms c - ci_first_funding_timestamp_ms c) \<and>
     sc_min_funding_edge_bps config \<le> ci_funding_edge_bps c \<and>
     sc_min_expected_edge_bps config \<le> ci_expected_edge_bps c \<and>
     sc_min_worst_case_edge_bps config \<le> ci_worst_case_edge_bps c \<and> 0 < ci_entry_notional_quote c"
proof -
  have "is_within_funding_scan_window_ms config (ci_first_funding_timestamp_ms c - now_ms) \<Longrightarrow>
      now_ms < ci_first_funding_timestamp_ms c"
    by (simp add: is_within_funding_scan_window_ms_def split: if_splits)
  then show ?thesis by (auto simp: gate_reasons_def Let_def not_less not_le)
qed

lemma gate_reasons_noted [simp]:
  "gate_reasons config now_ms (c\<lparr>ci_blocked_reasons := rs\<rparr>) = gate_reasons config now_ms c"
  by (simp add: gate_reasons_def)

text \<open>Discovery loses nothing and ranks fairly. The tradeable candidates are exactly the ones that
  are not blocked and pass every gate, each as often as it was given, by falling ranking edge, those
  of equal rank in the order given; every other candidate that was not already blocked is handed
  back with at least one new reason, in the given order, and running discovery again on what was
  handed back gives the same tradeable candidates, up to the notes.\<close>

theorem discovery_is_exact:
  assumes "discover_tradeable_candidates candidates config now_ms = (tradeable, handed_back)"
  shows "mset tradeable = filter_mset (passes config now_ms) (mset candidates) \<and>
     sorted_wrt (\<lambda>a b. ci_ranking_edge_bps b \<le> ci_ranking_edge_bps a) tradeable \<and>
     (\<forall>r. filter (\<lambda>c. ci_ranking_edge_bps c = r) tradeable =
        filter (\<lambda>c. ci_ranking_edge_bps c = r) (filter (passes config now_ms) candidates)) \<and>
     length handed_back = length candidates \<and>
     (\<forall>i<length candidates. if ci_blocked (candidates ! i) \<or> passes config now_ms (candidates ! i)
        then handed_back ! i = candidates ! i
        else \<exists>reasons. reasons \<noteq> [] \<and>
          ci_blocked_reasons (handed_back ! i) = ci_blocked_reasons (candidates ! i) @ reasons) \<and>
     fst (discover_tradeable_candidates handed_back config now_ms) = tradeable"
proof -
  from assms have t: "tradeable = by_ranking (filter (passes config now_ms) candidates)"
    and h: "handed_back = map (noted config now_ms) candidates"
    by (simp_all add: discover_tradeable_candidates_def)
  have again: "filter (passes config now_ms) (map (noted config now_ms) cs) = filter (passes config now_ms) cs" for cs
    by (induction cs) (auto simp: passes_def noted_def)
  have "mset tradeable = filter_mset (passes config now_ms) (mset candidates)"
    by (simp add: t by_ranking_mset)
  moreover have "if ci_blocked c \<or> passes config now_ms c then noted config now_ms c = c
      else \<exists>reasons. reasons \<noteq> [] \<and>
        ci_blocked_reasons (noted config now_ms c) = ci_blocked_reasons c @ reasons" for c
    by (auto simp: noted_def passes_def)
  ultimately show ?thesis
    by (simp add: t h by_ranking_sorted by_ranking_stable discover_tradeable_candidates_def again)
qed

section \<open>Pairs\<close>

text \<open>A pair of quotes of one symbol that discovery may trade: both funding times known, the short
  side paying more, by at least every floor, the earlier settlement inside the scan window and the
  later one not too far behind it.\<close>

definition tradeable_pair :: "strategy_config \<Rightarrow> int \<Rightarrow> quote_snapshot \<Rightarrow> quote_snapshot \<Rightarrow> bool" where
  "tradeable_pair config now_ms long_q short_q \<longleftrightarrow>
     (let edge = qs_funding_rate_bps short_q - qs_funding_rate_bps long_q;
          long_ts = qs_funding_timestamp_ms long_q; short_ts = qs_funding_timestamp_ms short_q
      in 0 < edge \<and> sc_min_funding_edge_bps config \<le> edge \<and> sc_min_expected_edge_bps config \<le> edge \<and>
         sc_min_worst_case_edge_bps config \<le> edge \<and> 0 < long_ts \<and> 0 < short_ts \<and>
         is_within_funding_scan_window_ms config (min long_ts short_ts - now_ms) \<and>
         (0 < sc_max_stagger_gap_minutes config \<and> INTERVAL_ALIGNED_THRESHOLD_MS < \<bar>long_ts - short_ts\<bar> \<longrightarrow>
            \<bar>long_ts - short_ts\<bar> \<le> sc_max_stagger_gap_minutes config * 60000))"

lemma pair_gates:
  assumes "0 < qs_funding_rate_bps short_q - qs_funding_rate_bps long_q"
  shows "passes config now_ms (pair_candidate symbol long_q short_q) \<longleftrightarrow> tradeable_pair config now_ms long_q short_q"
proof -
  have "max l s - min l s = \<bar>l - s\<bar>" for l s :: int by linarith
  then show ?thesis using assms
    by (auto simp: passes_def gate_reasons_Nil pair_candidate_def tradeable_pair_def Let_def
        DEFAULT_ENTRY_NOTIONAL_QUOTE_def)
qed

lemma in_symbol_pairs:
  "c \<in> set (symbol_pairs quotes symbol) \<longleftrightarrow>
     (\<exists>long_q\<in>set (venue_quotes quotes symbol). \<exists>short_q\<in>set (venue_quotes quotes symbol).
        qs_funding_rate_bps long_q < qs_funding_rate_bps short_q \<and> c = pair_candidate symbol long_q short_q)"
  (is "_ \<longleftrightarrow> ?R")
proof -
  let ?vq = "venue_quotes quotes symbol"
  have index: "(i, q) \<in> set (enumerate 0 ?vq) \<longleftrightarrow> i < length ?vq \<and> q = ?vq ! i" for i q
    by (auto simp: in_set_enumerate_eq)
  have two: "2 \<le> length ?vq" if "?R"
  proof (rule ccontr)
    assume "\<not> 2 \<le> length ?vq"
    then have "length ?vq = 0 \<or> length ?vq = 1" by linarith
    with that show False by (auto simp: length_Suc_conv)
  qed
  show ?thesis
  proof
    assume "c \<in> set (symbol_pairs quotes symbol)"
    then obtain i j where "i < length ?vq" "j < length ?vq" "c = pair_candidate symbol (?vq ! i) (?vq ! j)"
      "qs_funding_rate_bps (?vq ! i) < qs_funding_rate_bps (?vq ! j)"
      by (auto simp: symbol_pairs_def Let_def index split: if_splits)
    then show ?R by (intro bexI [of _ "?vq ! i"] bexI [of _ "?vq ! j"]) simp_all
  next
    assume r: ?R
    then obtain i j where "i < length ?vq" "j < length ?vq" "c = pair_candidate symbol (?vq ! i) (?vq ! j)"
      "qs_funding_rate_bps (?vq ! i) < qs_funding_rate_bps (?vq ! j)"
      by (auto simp: in_set_conv_nth)
    moreover from this have "i \<noteq> j" by auto
    ultimately have "\<exists>x\<in>set (enumerate 0 ?vq). \<exists>y\<in>set (enumerate 0 ?vq). fst x \<noteq> fst y \<and>
        qs_funding_rate_bps (snd x) < qs_funding_rate_bps (snd y) \<and> c = pair_candidate symbol (snd x) (snd y)"
      by (intro bexI [of _ "(i, ?vq ! i)"] bexI [of _ "(j, ?vq ! j)"]) (simp_all add: index)
    with two [OF r] show "c \<in> set (symbol_pairs quotes symbol)"
      by (auto simp: symbol_pairs_def Let_def case_prod_beta not_le not_less)
  qed
qed

text \<open>C33: From quotes to trades. Pairing and discovery together return exactly the candidates of the
  pairs of quotes that are of a wanted symbol (in any case), on which the short side's funding rate
  is above the long side's and by at least every floor of the strategy, whose funding times are both
  known, the earlier inside the scan window and, unless they settle together, the later at most the
  stagger gap behind (a gap of 0 stands for no limit). Each candidate is long on the venue of the quote
  with the lower rate and short on the venue of the one with the higher rate; its pair id names the symbol
  and both venues in that order, its edge is the difference of the rates, and it carries both funding
  times, the earlier as the first.\<close>

theorem tradeable_pairs_exact:
  "set (fst (discover_tradeable_candidates (build_same_symbol_pairs quotes symbols) config now_ms)) =
     {pair_candidate symbol long_q short_q | symbol long_q short_q. symbol \<in> set symbols \<and>
        long_q \<in> set (venue_quotes (map snd quotes) symbol) \<and> short_q \<in> set (venue_quotes (map snd quotes) symbol) \<and>
        tradeable_pair config now_ms long_q short_q} \<and>
   (\<forall>symbol long_q short_q. let c = pair_candidate symbol long_q short_q in
      ci_long_venue c = qs_venue long_q \<and> ci_short_venue c = qs_venue short_q \<and> ci_symbol c = symbol \<and>
      ci_pair_id c = py_lower symbol @ '':'' @ qs_venue long_q @ ''->'' @ qs_venue short_q \<and>
      ci_funding_edge_bps c = qs_funding_rate_bps short_q - qs_funding_rate_bps long_q \<and>
      ci_long_funding_timestamp_ms c = qs_funding_timestamp_ms long_q \<and>
      ci_short_funding_timestamp_ms c = qs_funding_timestamp_ms short_q \<and>
      ci_first_funding_timestamp_ms c = min (qs_funding_timestamp_ms long_q) (qs_funding_timestamp_ms short_q) \<and>
      ci_second_funding_timestamp_ms c = max (qs_funding_timestamp_ms long_q) (qs_funding_timestamp_ms short_q))"
proof -
  have pos: "tradeable_pair config now_ms l s \<Longrightarrow> qs_funding_rate_bps l < qs_funding_rate_bps s" for l s
    by (simp add: tradeable_pair_def Let_def)
  have "set (fst (discover_tradeable_candidates (build_same_symbol_pairs quotes symbols) config now_ms)) =
      {c. (\<exists>symbol\<in>set symbols. c \<in> set (symbol_pairs (map snd quotes) symbol)) \<and> passes config now_ms c}"
    by (auto simp: discover_tradeable_candidates_def build_same_symbol_pairs_def)
  also have "\<dots> = {pair_candidate symbol l s | symbol l s. symbol \<in> set symbols \<and>
      l \<in> set (venue_quotes (map snd quotes) symbol) \<and> s \<in> set (venue_quotes (map snd quotes) symbol) \<and>
      qs_funding_rate_bps l < qs_funding_rate_bps s \<and> passes config now_ms (pair_candidate symbol l s)}"
    unfolding in_symbol_pairs by blast
  also have "\<dots> = {pair_candidate symbol l s | symbol l s. symbol \<in> set symbols \<and>
      l \<in> set (venue_quotes (map snd quotes) symbol) \<and> s \<in> set (venue_quotes (map snd quotes) symbol) \<and>
      tradeable_pair config now_ms l s}"
    using pair_gates pos by (intro Collect_cong ex_cong1) (metis diff_gt_0_iff_gt)
  finally have exact: "set (fst (discover_tradeable_candidates (build_same_symbol_pairs quotes symbols) config now_ms)) =
     {pair_candidate symbol l s | symbol l s. symbol \<in> set symbols \<and>
      l \<in> set (venue_quotes (map snd quotes) symbol) \<and> s \<in> set (venue_quotes (map snd quotes) symbol) \<and>
      tradeable_pair config now_ms l s}" .
  show ?thesis
    by (intro conjI exact) (simp add: pair_candidate_def make_candidate_pair_id_def Let_def)
qed

definition sample_quote :: "string \<Rightarrow> real \<Rightarrow> int \<Rightarrow> quote_snapshot" where
  "sample_quote venue rate ts = \<lparr>qs_venue = venue, qs_symbol = ''BTCUSDT'', qs_bid = 100, qs_ask = 100,
     qs_funding_rate_bps = rate, qs_funding_timestamp_ms = ts\<rparr>"

definition sample_candidate :: candidate_input where
  "sample_candidate = pair_candidate ''BTCUSDT'' (sample_quote ''okx'' 1 1000000) (sample_quote ''gate'' 9 1000000)"

lemma sample_tradeable:
  "tradeable_pair default_strategy_config 400000 (sample_quote ''okx'' 1 1000000) (sample_quote ''gate'' 9 1000000)"
  by (simp add: tradeable_pair_def sample_quote_def default_strategy_config_def is_within_funding_scan_window_ms_def
      INTERVAL_ALIGNED_THRESHOLD_MS_def Let_def)

lemma discovery_is_exact_witness:
  "mset (fst (discover_tradeable_candidates [sample_candidate] default_strategy_config 400000)) = {#sample_candidate#}"
proof -
  have "passes default_strategy_config 400000 sample_candidate"
    using sample_tradeable unfolding sample_candidate_def by (subst pair_gates) (simp_all add: sample_quote_def)
  with discovery_is_exact [of "[sample_candidate]" default_strategy_config 400000, OF prod.collapse [symmetric]]
  show ?thesis by simp
qed

section \<open>The priced route\<close>

lemma exit_maker_legs [simp]: "exit_maker b tie = ''long'' \<or> exit_maker b tie = ''short''"
  by (simp add: exit_maker_def exit_route_def)

text \<open>What entering and leaving by given maker legs is worth, written out: a maker leg earns its own
  spread and pays the maker fee, the other leg pays the taker fee and its slippage.\<close>

definition route_edge :: "real \<Rightarrow> l2_inputs \<Rightarrow> strategy_config \<Rightarrow> string \<Rightarrow> string \<Rightarrow> real" where
  "route_edge funding_edge_bps b config entry_leg exit_leg =
     funding_edge_bps +
     (if entry_leg = ''long'' then (li_short_bid b - li_long_bid b) / l2_reference_mid b * 10000 - li_short_sell_slippage_bps b
      else (li_short_ask b - li_long_ask b) / l2_reference_mid b * 10000 - li_long_buy_slippage_bps b) -
     (if exit_leg = ''long'' then li_short_buy_slippage_bps b else li_long_sell_slippage_bps b) -
     (\<Sum>leg\<leftarrow>[entry_leg, exit_leg]. if leg = ''long'' then li_long_maker_fee_bps b + li_short_taker_fee_bps b
        else li_long_taker_fee_bps b + li_short_maker_fee_bps b) -
     sc_entry_exit_reserve_bps config - sc_capital_buffer_bps config"

lemma priced_route_edge:
  assumes "maker_leg = ''long'' \<or> maker_leg = ''short''"
  shows "fc_expected_edge_bps (priced_route f b config tie maker_leg) = route_edge f b config maker_leg (exit_maker b tie)"
  using assms exit_maker_legs [of b tie]
  by (auto simp: priced_route_def route_edge_def entry_route_def exit_route_def Let_def
      diff_divide_distrib add_divide_distrib algebra_simps)

lemma priced_route_legs [simp]:
  "fc_entry_maker_leg (priced_route f b config tie leg) = leg"
  "fc_exit_maker_leg (priced_route f b config tie leg) = exit_maker b tie"
  by (simp_all add: priced_route_def Let_def split: prod.split)

lemma exit_slippage_least:
  "fc_exit_slippage_bps (priced_route f b config tie leg) = min (li_long_sell_slippage_bps b) (li_short_buy_slippage_bps b)"
  by (auto simp: priced_route_def exit_maker_def exit_route_def Let_def split: prod.split)

text \<open>C34: The priced route is the best entry. Pricing fails exactly on books without a positive
  reference price or on a forced leg that is neither long nor short. Otherwise its expected edge is
  the one written out in \<open>route_edge\<close> for the legs it names, its exit pays the smaller of the two
  slippages, a forced leg is used, and without one no entry by the other leg (with the same exit)
  has a higher edge.\<close>

theorem priced_route_is_best:
  "case price_final_l2_cost f b config tie forced of
     Inl Invalid_L2_Reference_Mid \<Rightarrow> li_long_ask b + li_short_bid b \<le> 0
   | Inl Invalid_Entry_Maker_Leg \<Rightarrow> 0 < li_long_ask b + li_short_bid b \<and> (\<exists>leg. forced = Some leg \<and> leg \<notin> {''long'', ''short''})
   | Inr cost \<Rightarrow>
       0 < li_long_ask b + li_short_bid b \<and> fc_entry_maker_leg cost \<in> {''long'', ''short''} \<and>
       fc_exit_maker_leg cost \<in> {''long'', ''short''} \<and>
       fc_expected_edge_bps cost = route_edge f b config (fc_entry_maker_leg cost) (fc_exit_maker_leg cost) \<and>
       fc_exit_slippage_bps cost = min (li_long_sell_slippage_bps b) (li_short_buy_slippage_bps b) \<and>
       (case forced of Some leg \<Rightarrow> fc_entry_maker_leg cost = leg
        | None \<Rightarrow> max (route_edge f b config ''long'' (fc_exit_maker_leg cost)) (route_edge f b config ''short'' (fc_exit_maker_leg cost))
            = fc_expected_edge_bps cost)"
  using exit_maker_legs [of b "if py_lower tie = ''short'' then ''short'' else ''long''"]
  by (auto simp: price_final_l2_cost_def l2_reference_mid_def priced_route_edge exit_slippage_least Let_def
      split: option.split)

end
