(* ===== verification/Universe.thy ===== *)
theory Universe
  imports Py_Value "HOL-Library.List_Lexorder" "HOL-Library.Char_ord" "HOL-Library.Product_Lexorder"
begin

text \<open>
  The daily universe of symbols (\<open>strategy/universe.py\<close>, \<open>config/universe.py\<close>): the file it is kept
  in, its selection from the liquidity of all venues, and its resolution at start, with a stale file
  or a remembered selection as fallback. The contents of the file are a parameter of the operations
  that read it: absent, unreadable, or a JSON value.

  The lemmas: a valid universe survives its file; the selection is the best symbols that are liquid
  on both venues of some pair; and what a resolution can return.
\<close>

section \<open>Dates and symbols\<close>

text \<open>\<open>date.fromisoformat\<close> of calendar dates, with and without separators. (The ISO week forms, which the
  program never writes, are rejected here.)\<close>

definition days_in_month :: "nat \<Rightarrow> nat \<Rightarrow> nat" where
  "days_in_month y m =
     (if m = 2 then (if y mod 4 = 0 \<and> (y mod 100 \<noteq> 0 \<or> y mod 400 = 0) then 29 else 28)
      else if m \<in> {4, 6, 9, 11} then 30 else 31)"

definition digits :: "string \<Rightarrow> nat option" where
  "digits s = foldl (\<lambda>n c. case (n, char_digit c) of (Some n, Some k) \<Rightarrow> Some (10 * n + k) | _ \<Rightarrow> None) (Some 0) s"

definition calendar_date :: "string \<Rightarrow> string \<Rightarrow> string \<Rightarrow> (nat \<times> nat \<times> nat) option" where
  "calendar_date ys ms ds =
     (case (digits ys, digits ms, digits ds) of
        (Some y, Some m, Some d) \<Rightarrow>
          if 1 \<le> y \<and> 1 \<le> m \<and> m \<le> 12 \<and> 1 \<le> d \<and> d \<le> days_in_month y m then Some (y, m, d) else None
      | _ \<Rightarrow> None)"

definition iso_date :: "string \<Rightarrow> (nat \<times> nat \<times> nat) option" where
  "iso_date s =
     (if length s = 10 \<and> s ! 4 = CHR ''-'' \<and> s ! 7 = CHR ''-''
      then calendar_date (take 4 s) (take 2 (drop 5 s)) (drop 8 s)
      else if length s = 8 then calendar_date (take 4 s) (take 2 (drop 4 s)) (drop 6 s) else None)"

definition normalize_symbol :: "pyval \<Rightarrow> string option" where
  "normalize_symbol raw =
     (case raw of
        PStr s \<Rightarrow> let t = filter (\<lambda>c. c \<notin> {CHR ''-'', CHR ''_'', CHR ''/'', CHR '' ''}) (py_upper s)
                  in if t = [] then None else Some t
      | _ \<Rightarrow> None)"

section \<open>The persisted universe\<close>

record daily_universe =
  pu_trading_date :: string
  pu_generated_at_ms :: int
  pu_selector_version :: int
  pu_source_symbol_count :: int
  pu_selected_symbol_count :: int
  pu_selected_symbols :: "pyval list"

datatype universe_error =
    Bad_Trading_Date | Negative_Generated_At | Bad_Selector_Version | Count_Differs | Count_Exceeds_Source
  | Invalid_Symbol pyval | Duplicate_Symbol pyval

primrec symbol_errors :: "string list \<Rightarrow> pyval list \<Rightarrow> universe_error list" where
  "symbol_errors seen [] = []"
| "symbol_errors seen (s # ss) =
     (case normalize_symbol s of
        None \<Rightarrow> Invalid_Symbol s # symbol_errors seen ss
      | Some n \<Rightarrow> (if n \<in> set seen then [Duplicate_Symbol s] else []) @ symbol_errors (n # seen) ss)"

definition validate :: "daily_universe \<Rightarrow> universe_error list" where
  "validate u =
     (if iso_date (pu_trading_date u) = None then [Bad_Trading_Date] else []) @
     (if pu_generated_at_ms u < 0 then [Negative_Generated_At] else []) @
     (if pu_selector_version u < 1 then [Bad_Selector_Version] else []) @
     (if pu_selected_symbol_count u \<noteq> int (length (pu_selected_symbols u)) then [Count_Differs] else []) @
     (if pu_selected_symbol_count u > pu_source_symbol_count u then [Count_Exceeds_Source] else []) @
     symbol_errors [] (pu_selected_symbols u)"

definition canonical_selected_symbols :: "daily_universe \<Rightarrow> universe_error list + string list" where
  "canonical_selected_symbols u =
     (if validate u \<noteq> [] then Inl (validate u) else Inr (map (the \<circ> normalize_symbol) (pu_selected_symbols u)))"

definition universe_asdict :: "daily_universe \<Rightarrow> pyval" where
  "universe_asdict u = PDict [(''trading_date'', PStr (pu_trading_date u)), (''generated_at_ms'', PInt (pu_generated_at_ms u)),
     (''selector_version'', PInt (pu_selector_version u)), (''source_symbol_count'', PInt (pu_source_symbol_count u)),
     (''selected_symbol_count'', PInt (pu_selected_symbol_count u)), (''selected_symbols'', PList (pu_selected_symbols u))]"

text \<open>The file: \<open>save\<close> refuses an invalid universe and may fail to write; \<open>load\<close> raises on anything that
  is not a valid universe and returns nothing for a missing file.\<close>

datatype file_content = No_File | Broken_File | Json pyval

datatype universe_exc = Invalid_Universe | Write_Failed | Generation_Failed | Universe_Unavailable | No_Pair_Liquidity | Fetch_Failed

definition save_universe :: "bool \<Rightarrow> daily_universe \<Rightarrow> universe_exc + file_content" where
  "save_universe writable u =
     (if validate u \<noteq> [] then Inl Invalid_Universe else if \<not> writable then Inl Write_Failed else Inr (Json (universe_asdict u)))"

definition int_field :: "obj \<Rightarrow> string \<Rightarrow> int \<Rightarrow> int" where
  "int_field d k v = (case dict_get d k of Some (PInt i) \<Rightarrow> i | _ \<Rightarrow> v)"

definition integer_or_absent :: "obj \<Rightarrow> string \<Rightarrow> bool" where
  "integer_or_absent d k = (case dict_get d k of None \<Rightarrow> True | Some (PInt _) \<Rightarrow> True | _ \<Rightarrow> False)"

definition load_universe :: "file_content \<Rightarrow> universe_exc + daily_universe option" where
  "load_universe file =
     (case file of
        No_File \<Rightarrow> Inr None
      | Broken_File \<Rightarrow> Inl Invalid_Universe
      | Json (PDict d) \<Rightarrow>
          if \<not> list_all (has_key d) [''trading_date'', ''generated_at_ms'', ''source_symbol_count'', ''selected_symbol_count'']
          then Inl Invalid_Universe
          else if \<not> list_all (integer_or_absent d)
                 [''generated_at_ms'', ''selector_version'', ''source_symbol_count'', ''selected_symbol_count'']
          then Inl Invalid_Universe
          else (case (dget d ''trading_date'', case dict_get d ''selected_symbols'' of None \<Rightarrow> PList [] | Some v \<Rightarrow> v) of
                  (PStr date, PList symbols) \<Rightarrow>
                    let u = \<lparr>pu_trading_date = date, pu_generated_at_ms = int_field d ''generated_at_ms'' 0,
                          pu_selector_version = int_field d ''selector_version'' 1,
                          pu_source_symbol_count = int_field d ''source_symbol_count'' 0,
                          pu_selected_symbol_count = int_field d ''selected_symbol_count'' 0,
                          pu_selected_symbols = symbols\<rparr>
                    in if validate u \<noteq> [] then Inl Invalid_Universe else Inr (Some u)
                | _ \<Rightarrow> Inl Invalid_Universe)
      | Json _ \<Rightarrow> Inl Invalid_Universe)"

definition load_persisted_daily_universe :: "file_content \<Rightarrow> ((nat \<times> nat \<times> nat) \<times> string list) option" where
  "load_persisted_daily_universe file =
     (case load_universe file of
        Inr (Some u) \<Rightarrow> (case (iso_date (pu_trading_date u), canonical_selected_symbols u) of
            (Some date, Inr symbols) \<Rightarrow> Some (date, symbols) | _ \<Rightarrow> None)
      | _ \<Rightarrow> None)"

definition load_daily_universe :: "(nat \<times> nat \<times> nat) \<Rightarrow> file_content \<Rightarrow> string list option" where
  "load_daily_universe today file =
     (case load_persisted_daily_universe file of
        None \<Rightarrow> None | Some (date, symbols) \<Rightarrow> if date \<noteq> today then None else Some symbols)"

section \<open>Configured pairs\<close>

record directed_pair =
  dp_long :: string
  dp_short :: string
  dp_symbols :: "string list"

definition filter_by_directed_pairs ::
  "(string \<times> string \<times> string) list \<Rightarrow> directed_pair list \<Rightarrow> (string \<times> string \<times> string) list" where
  "filter_by_directed_pairs pairs directed =
     (if directed = [] then pairs
      else let allowed = concat (map (\<lambda>dp. filter (\<lambda>(long, short, symbol). long = dp_long dp \<and> short = dp_short dp \<and>
                 (dp_symbols dp = [] \<or> symbol \<in> set (dp_symbols dp))) pairs) directed)
           in filter (\<lambda>p. p \<in> set allowed) pairs)"

datatype pair_issue = Unknown_Long nat string | Unknown_Short nat string | Same_Venue nat

definition venue_values :: "string list" where
  "venue_values = [''binance'', ''okx'', ''bybit'', ''bitget'', ''gate'', ''aster'', ''hyperliquid'']"

definition validate_directed_pairs :: "directed_pair list \<Rightarrow> pair_issue list" where
  "validate_directed_pairs directed =
     concat (map (\<lambda>(i, dp).
       (if dp_long dp \<notin> set venue_values then [Unknown_Long i (dp_long dp)] else []) @
       (if dp_short dp \<notin> set venue_values then [Unknown_Short i (dp_short dp)] else []) @
       (if dp_long dp = dp_short dp then [Same_Venue i] else [])) (enumerate 0 directed))"

section \<open>Selection\<close>

text \<open>A row of liquidity: the symbol it names itself, if it does, and its two amounts (\<open>x or 0.0\<close>).\<close>

record liquidity_row =
  lr_symbol :: "string option"
  lr_volume_24h_quote :: pyfloat
  lr_open_interest_quote :: pyfloat

record universe_config =
  uc_enabled :: bool
  uc_path :: string
  uc_fallback_to_last_good :: bool
  uc_max_symbols :: int
  uc_symbols :: "string list"
  uc_directed_pairs :: "directed_pair list"
  uc_venues :: "string list"
  uc_volume_floor_by_venue :: "(string, real) dict"
  uc_volume_floor_default :: real
  uc_interest_floor_by_venue :: "(string, real) dict"
  uc_interest_floor_default :: real

definition entry_volume_floor_quote :: "universe_config \<Rightarrow> string \<Rightarrow> real" where
  "entry_volume_floor_quote config venue =
     (case dict_get (uc_volume_floor_by_venue config) (py_lower venue) of Some x \<Rightarrow> x | None \<Rightarrow> uc_volume_floor_default config)"

definition entry_open_interest_floor_quote :: "universe_config \<Rightarrow> string \<Rightarrow> real" where
  "entry_open_interest_floor_quote config venue =
     (case dict_get (uc_interest_floor_by_venue config) (py_lower venue) of Some x \<Rightarrow> x | None \<Rightarrow> uc_interest_floor_default config)"

text \<open>The slice \<open>xs[:n]\<close>.\<close>

definition py_prefix :: "int \<Rightarrow> 'a list \<Rightarrow> 'a list" where
  "py_prefix n xs = (if 0 \<le> n then take (nat n) xs else take (length xs - nat (- n)) xs)"

definition directed_pairs_or_all :: "universe_config \<Rightarrow> (string \<times> string \<times> string list) list" where
  "directed_pairs_or_all config =
     (if uc_directed_pairs config \<noteq> []
      then map (\<lambda>p. (py_lower (dp_long p), py_lower (dp_short p), dp_symbols p)) (uc_directed_pairs config)
      else let venues = first_occurrences (map py_lower (uc_venues config))
           in concat (map (\<lambda>long. map (\<lambda>short. (long, short, [])) (filter (\<lambda>short. long \<noteq> short) venues)) venues))"

type_synonym liquidity = "(string, (string, liquidity_row) dict) dict"

definition rows_by_symbol :: "(string, liquidity_row) dict \<Rightarrow> (string, liquidity_row) dict" where
  "rows_by_symbol rows =
     fold (\<lambda>(symbol, row). dict_put (py_upper (case lr_symbol row of Some s \<Rightarrow> s | None \<Rightarrow> symbol)) row) rows []"

definition normalized_rows :: "liquidity \<Rightarrow> liquidity" where
  "normalized_rows liquidity_by_venue =
     fold (\<lambda>(venue, rows). dict_put (py_lower venue) (rows_by_symbol rows)) liquidity_by_venue []"

text \<open>The score of a symbol on a pair, if both rows are there, finite and above the floors of their
  venues: the smaller volume, then the smaller open interest.\<close>

definition pair_score :: "universe_config \<Rightarrow> string \<Rightarrow> string \<Rightarrow> liquidity_row \<Rightarrow> liquidity_row \<Rightarrow> (real \<times> real) option" where
  "pair_score config long_venue short_venue long_row short_row =
     (case (lr_volume_24h_quote long_row, lr_volume_24h_quote short_row,
            lr_open_interest_quote long_row, lr_open_interest_quote short_row) of
        (Fin long_volume, Fin short_volume, Fin long_oi, Fin short_oi) \<Rightarrow>
          if long_volume < entry_volume_floor_quote config long_venue \<or>
             short_volume < entry_volume_floor_quote config short_venue \<or>
             long_oi < entry_open_interest_floor_quote config long_venue \<or>
             short_oi < entry_open_interest_floor_quote config short_venue
          then None else Some (min long_volume short_volume, min long_oi short_oi)
      | _ \<Rightarrow> None)"

definition keep_max :: "'v::linorder \<Rightarrow> 'k \<times> 'v option \<Rightarrow> ('k, 'v) dict \<Rightarrow> ('k, 'v) dict" where
  "keep_max least = (\<lambda>(k, score) scored. case score of None \<Rightarrow> scored
     | Some v \<Rightarrow> if v > (case dict_get scored k of None \<Rightarrow> least | Some w \<Rightarrow> w) then dict_put k v scored else scored)"

abbreviation keep_best :: "string \<times> (real \<times> real) option \<Rightarrow> (string, real \<times> real) dict \<Rightarrow> (string, real \<times> real) dict" where
  "keep_best \<equiv> keep_max (- 1, - 1)"

definition source_symbols :: "universe_config \<Rightarrow> string list" where
  "source_symbols config = first_occurrences (map py_upper (uc_symbols config))"

text \<open>What the two loops over pairs and symbols look at, in their order.\<close>

definition pair_scores :: "universe_config \<Rightarrow> liquidity \<Rightarrow> string \<times> string \<times> string list \<Rightarrow> (string \<times> (real \<times> real) option) list" where
  "pair_scores config rows = (\<lambda>(long_venue, short_venue, configured).
     case (dict_get rows long_venue, dict_get rows short_venue) of
       (Some long_rows, Some short_rows) \<Rightarrow>
         map (\<lambda>symbol. (symbol, case (dict_get long_rows symbol, dict_get short_rows symbol) of
                (Some l, Some s) \<Rightarrow> pair_score config long_venue short_venue l s | _ \<Rightarrow> None))
           (filter (\<lambda>symbol. symbol \<in> set (source_symbols config))
             (if configured \<noteq> [] then map py_upper configured else source_symbols config))
     | _ \<Rightarrow> [])"

definition usable_pair :: "liquidity \<Rightarrow> string \<times> string \<times> string list \<Rightarrow> bool" where
  "usable_pair rows = (\<lambda>(long_venue, short_venue, _). dict_get rows long_venue \<noteq> None \<and> dict_get rows short_venue \<noteq> None)"

definition ranked_symbols :: "(string, real \<times> real) dict \<Rightarrow> (string \<times> real \<times> real) list" where
  "ranked_symbols = sort_key (\<lambda>(symbol, volume, interest). (- volume, - interest, symbol))"

definition select_daily_universe_symbols :: "universe_config \<Rightarrow> liquidity \<Rightarrow> universe_exc + string list" where
  "select_daily_universe_symbols config liquidity_by_venue =
     (let pairs = directed_pairs_or_all config; rows = normalized_rows liquidity_by_venue
      in if pairs = [] then Inr (py_prefix (uc_max_symbols config) (uc_symbols config))
         else if \<not> list_ex (usable_pair rows) pairs then Inl No_Pair_Liquidity
         else Inr (map fst (py_prefix (uc_max_symbols config)
                (ranked_symbols (fold keep_best (concat (map (pair_scores config rows) pairs)) [])))))"

section \<open>Resolution\<close>

record resolved_universe =
  ru_daily_universe_enabled :: bool
  ru_global_symbol_count :: nat
  ru_resolved_symbol_count :: nat
  ru_resolved_symbols :: "string list"
  ru_used_fallback :: bool

type_synonym universe_cache = "(string, string list) dict"
type_synonym date = "nat \<times> nat \<times> nat"

text \<open>The symbols of the file or of the cache, with the flag that says they are a fallback.\<close>

definition found_symbols :: "universe_config \<Rightarrow> date \<Rightarrow> file_content \<Rightarrow> universe_cache \<Rightarrow> (string list \<times> bool) option" where
  "found_symbols config today file cache =
     (let persisted = load_persisted_daily_universe file;
          cached = (if uc_fallback_to_last_good config
             then (case dict_get cache (uc_path config) of Some (x # xs) \<Rightarrow> Some (x # xs, True) | _ \<Rightarrow> None) else None)
      in case persisted of
           None \<Rightarrow> cached
         | Some (date, symbols) \<Rightarrow>
             if date = today then Some (symbols, False)
             else if uc_fallback_to_last_good config then Some (symbols, True) else cached)"

definition resolve_universe_symbols ::
  "universe_config \<Rightarrow> date \<Rightarrow> file_content \<Rightarrow> universe_cache \<Rightarrow> universe_exc + resolved_universe \<times> universe_cache" where
  "resolve_universe_symbols config today file cache =
     (if \<not> uc_enabled config
      then Inr (\<lparr>ru_daily_universe_enabled = False, ru_global_symbol_count = length (uc_symbols config),
             ru_resolved_symbol_count = length (uc_symbols config), ru_resolved_symbols = uc_symbols config,
             ru_used_fallback = False\<rparr>, cache)
      else case found_symbols config today file cache of
             None \<Rightarrow> Inl Universe_Unavailable
           | Some (found, used_fallback) \<Rightarrow>
               let symbols = (if int (length found) > uc_max_symbols config then py_prefix (uc_max_symbols config) found else found)
               in Inr (\<lparr>ru_daily_universe_enabled = True, ru_global_symbol_count = length (uc_symbols config),
                      ru_resolved_symbol_count = length symbols, ru_resolved_symbols = symbols,
                      ru_used_fallback = used_fallback\<rparr>,
                    if \<not> used_fallback \<and> symbols \<noteq> [] then dict_put (uc_path config) symbols cache else cache))"

definition daily_universe_is_current :: "universe_config \<Rightarrow> date \<Rightarrow> file_content \<Rightarrow> bool" where
  "daily_universe_is_current config today file \<longleftrightarrow>
     uc_enabled config \<and> (case load_persisted_daily_universe file of None \<Rightarrow> False | Some (date, _) \<Rightarrow> date = today)"

text \<open>One start: the file before and after the liquidity was fetched (another process may have written
  it meanwhile), the result of the fetch, the text of today's date, the time, and whether the file
  can be written. The file is returned as it is left.\<close>

record universe_world =
  uw_today_text :: string
  uw_now_ms :: int
  uw_file_before :: file_content
  uw_file_after_fetch :: file_content
  uw_fetched :: "universe_exc + liquidity"
  uw_writable :: bool

definition generated_universe :: "universe_config \<Rightarrow> universe_world \<Rightarrow> string list \<Rightarrow> daily_universe" where
  "generated_universe config w selected =
     \<lparr>pu_trading_date = uw_today_text w, pu_generated_at_ms = uw_now_ms w, pu_selector_version = 1,
      pu_source_symbol_count = int (length (uc_symbols config)), pu_selected_symbol_count = int (length selected),
      pu_selected_symbols = map PStr selected\<rparr>"

definition generate_universe :: "universe_config \<Rightarrow> date \<Rightarrow> universe_world \<Rightarrow> universe_exc + file_content" where
  "generate_universe config today w =
     bind_res (uw_fetched w) (\<lambda>liquidity_by_venue.
     bind_res (select_daily_universe_symbols config liquidity_by_venue) (\<lambda>selected.
       if daily_universe_is_current config today (uw_file_after_fetch w) then Inr (uw_file_after_fetch w)
       else save_universe (uw_writable w) (generated_universe config w selected)))"

definition resolve_or_generate_universe_symbols ::
  "universe_config \<Rightarrow> date \<Rightarrow> universe_world \<Rightarrow> universe_cache
     \<Rightarrow> (universe_exc + resolved_universe \<times> universe_cache) \<times> file_content" where
  "resolve_or_generate_universe_symbols config today w cache =
     (if \<not> uc_enabled config \<or> daily_universe_is_current config today (uw_file_before w)
      then (resolve_universe_symbols config today (uw_file_before w) cache, uw_file_before w)
      else case generate_universe config today w of
             Inr file \<Rightarrow> (resolve_universe_symbols config today file cache, file)
           | Inl _ \<Rightarrow>
               if \<not> uc_fallback_to_last_good config then (Inl Generation_Failed, uw_file_after_fetch w)
               else (case resolve_universe_symbols config today (uw_file_after_fetch w) cache of
                       Inr r \<Rightarrow> (Inr r, uw_file_after_fetch w)
                     | Inl _ \<Rightarrow> (Inl Generation_Failed, uw_file_after_fetch w)))"

section \<open>A universe survives its file\<close>

lemma symbol_errors_Nil:
  "symbol_errors seen ss = [] \<longleftrightarrow>
     (\<forall>s\<in>set ss. normalize_symbol s \<noteq> None) \<and> distinct (map (the \<circ> normalize_symbol) ss) \<and>
     set seen \<inter> set (map (the \<circ> normalize_symbol) ss) = {}"
  by (induction ss arbitrary: seen) (auto split: option.split)

lemma has_key_dict: "has_key d k \<longleftrightarrow> dict_get d k \<noteq> None"
  by (simp add: has_key_def)

text \<open>A daily universe survives its file. What can be saved is loaded back unchanged, and its
  symbols come back normalised, one for each, all different; what cannot be saved is refused before
  the file is touched.\<close>

theorem universe_survives_file:
  "(validate u = [] \<longrightarrow>
      (\<exists>file. save_universe True u = Inr file \<and> load_universe file = Inr (Some u) \<and>
         (\<exists>date. iso_date (pu_trading_date u) = Some date \<and>
            load_persisted_daily_universe file = Some (date, map (the \<circ> normalize_symbol) (pu_selected_symbols u))) \<and>
         distinct (map (the \<circ> normalize_symbol) (pu_selected_symbols u)))) \<and>
   (validate u \<noteq> [] \<longrightarrow> save_universe writable u = Inl Invalid_Universe)"
proof (cases "validate u = []")
  case True
  have load: "load_universe (Json (universe_asdict u)) = Inr (Some u)"
    using True by (cases u) (simp add: load_universe_def universe_asdict_def has_key_dict integer_or_absent_def int_field_def
        dget_def Let_def)
  from True obtain date where date: "iso_date (pu_trading_date u) = Some date"
    by (auto simp: validate_def split: if_splits)
  from True have "symbol_errors [] (pu_selected_symbols u) = []" by (simp add: validate_def)
  then have "distinct (map (the \<circ> normalize_symbol) (pu_selected_symbols u))" by (simp add: symbol_errors_Nil)
  with True load date show ?thesis
    by (simp add: save_universe_def load_persisted_daily_universe_def canonical_selected_symbols_def)
qed (simp add: save_universe_def)

definition sample_universe :: daily_universe where
  "sample_universe = \<lparr>pu_trading_date = ''2026-02-28'', pu_generated_at_ms = 5, pu_selector_version = 1,
     pu_source_symbol_count = 2, pu_selected_symbol_count = 1, pu_selected_symbols = [PStr ''btc-usdt'']\<rparr>"

lemma universe_survives_file_witness: "load_universe (Json (universe_asdict sample_universe)) = Inr (Some sample_universe)"
proof -
  have "validate sample_universe = []" by code_simp
  with universe_survives_file [of sample_universe True] show ?thesis by (auto simp: save_universe_def)
qed

section \<open>The selection\<close>

lemma keep_max_None [simp]: "keep_max least (k, None) d = d"
  by (simp add: keep_max_def)

text \<open>What the loop keeps for a symbol is the greatest of its scores, if one exceeds the default.\<close>

definition kept_at :: "'v::linorder \<Rightarrow> ('k \<times> 'v option) list \<Rightarrow> 'k \<Rightarrow> 'v option \<Rightarrow> bool" where
  "kept_at least xs k kept \<longleftrightarrow> (case kept of
      None \<Rightarrow> \<forall>v. (k, Some v) \<in> set xs \<longrightarrow> v \<le> least
    | Some w \<Rightarrow> least < w \<and> (k, Some w) \<in> set xs \<and> (\<forall>v. (k, Some v) \<in> set xs \<longrightarrow> v \<le> w))"

definition best_kept :: "'v::linorder \<Rightarrow> ('k \<times> 'v option) list \<Rightarrow> ('k, 'v) dict \<Rightarrow> bool" where
  "best_kept least xs d \<longleftrightarrow> distinct (map fst d) \<and> (\<forall>k. kept_at least xs k (dict_get d k))"

lemma kept_at_other: "j \<noteq> k \<or> s = None \<Longrightarrow> kept_at least (xs @ [(k, s)]) j kept = kept_at least xs j kept"
  by (cases kept) (auto simp: kept_at_def)

lemma kept_at_new:
  "kept_at least xs k kept \<Longrightarrow> v > (case kept of None \<Rightarrow> least | Some w \<Rightarrow> w) \<Longrightarrow>
     kept_at least (xs @ [(k, Some v)]) k (Some v)"
  by (cases kept) (auto simp: kept_at_def dest: order.strict_trans order.strict_trans1 less_imp_le)

lemma kept_at_old:
  "kept_at least xs k kept \<Longrightarrow> \<not> v > (case kept of None \<Rightarrow> least | Some w \<Rightarrow> w) \<Longrightarrow>
     kept_at least (xs @ [(k, Some v)]) k kept"
  by (cases kept) (auto simp: kept_at_def)

lemma kept_atD:
  "kept_at least xs k (Some w) \<Longrightarrow> (k, Some w) \<in> set xs"
  "kept_at least xs k (Some w) \<Longrightarrow> (k, Some v) \<in> set xs \<Longrightarrow> v \<le> w"
  by (simp_all add: kept_at_def)

lemma kept_at_found:
  "kept_at least xs k kept \<Longrightarrow> (k, Some v) \<in> set xs \<Longrightarrow> least < v \<Longrightarrow> \<exists>w. kept = Some w \<and> v \<le> w"
  by (cases kept) (auto simp: kept_at_def)

lemma best_kept_snoc:
  assumes "best_kept least xs d"
  shows "best_kept least (xs @ [(k, s)]) (keep_max least (k, s) d)"
proof (cases s)
  case None
  with assms show ?thesis by (simp add: best_kept_def kept_at_other)
next
  case (Some v)
  have old: "kept_at least xs j (dict_get d j)" for j using assms by (simp add: best_kept_def)
  show ?thesis
  proof (cases "v > (case dict_get d k of None \<Rightarrow> least | Some w \<Rightarrow> w)")
    case True
    from kept_at_new [OF old True] True Some assms old show ?thesis
      by (simp add: best_kept_def keep_max_def distinct_update kept_at_other)
  next
    case False
    have "kept_at least (xs @ [(k, s)]) j (dict_get d j)" for j
      using kept_at_old [OF old False] kept_at_other [of j k s] old Some by (cases "j = k") auto
    with False Some assms show ?thesis by (simp add: best_kept_def keep_max_def)
  qed
qed

lemma best_kept_fold: "best_kept least xs (fold (keep_max least) xs [])"
proof (induction xs rule: rev_induct)
  case Nil
  show ?case by (simp add: best_kept_def kept_at_def)
next
  case (snoc x xs)
  show ?case using best_kept_snoc [OF snoc, of "fst x" "snd x"] by simp
qed

lemma ranked_symbols_facts:
  shows "mset (ranked_symbols d) = mset d" and "set (ranked_symbols d) = set d"
    and "sorted_wrt (\<lambda>x y. snd y \<le> snd x) (ranked_symbols d)"
proof -
  let ?f = "\<lambda>(symbol, volume, interest). (- volume, - interest, symbol) :: real \<times> real \<times> string"
  show "mset (ranked_symbols d) = mset d" "set (ranked_symbols d) = set d" by (simp_all add: ranked_symbols_def)
  have "sorted_wrt (\<lambda>x y. ?f x \<le> ?f y) (ranked_symbols d)"
    using sorted_sort_key [of ?f d] by (simp add: ranked_symbols_def sorted_map)
  then show "sorted_wrt (\<lambda>x y. snd y \<le> snd x) (ranked_symbols d)"
    by (rule sorted_wrt_mono_rel [rotated]) (auto simp: less_eq_prod_def)
qed

text \<open>A symbol qualifies with a score if some pair gives it that score.\<close>

definition qualifies :: "universe_config \<Rightarrow> liquidity \<Rightarrow> string \<Rightarrow> real \<times> real \<Rightarrow> bool" where
  "qualifies config liquidity_by_venue symbol score \<longleftrightarrow>
     (\<exists>pair\<in>set (directed_pairs_or_all config).
        (symbol, Some score) \<in> set (pair_scores config (normalized_rows liquidity_by_venue) pair))"

lemma qualifies_source: "qualifies config l symbol score \<Longrightarrow> symbol \<in> set (source_symbols config)"
  by (auto simp: qualifies_def pair_scores_def split: option.splits)

text \<open>What the selection is, over the scores of the model.\<close>

lemma selection_facts:
  assumes "select_daily_universe_symbols config liquidity_by_venue = Inr selected"
    and "directed_pairs_or_all config \<noteq> []" and "0 \<le> uc_max_symbols config"
  shows "distinct selected \<and> int (length selected) \<le> uc_max_symbols config \<and>
     set selected \<subseteq> set (source_symbols config) \<and>
     (\<exists>score. (\<forall>symbol\<in>set selected. qualifies config liquidity_by_venue symbol (score symbol) \<and>
           (\<forall>v. qualifies config liquidity_by_venue symbol v \<longrightarrow> v \<le> score symbol)) \<and>
        sorted_wrt (\<lambda>a b. score b \<le> score a) selected \<and>
        (\<forall>symbol v. qualifies config liquidity_by_venue symbol v \<and> (- 1, - 1) < v \<and> symbol \<notin> set selected \<longrightarrow>
           int (length selected) = uc_max_symbols config \<and> (\<forall>s\<in>set selected. v \<le> score s)))"
proof -
  let ?xs = "concat (map (pair_scores config (normalized_rows liquidity_by_venue)) (directed_pairs_or_all config))"
  let ?d = "fold keep_best ?xs []" and ?n = "nat (uc_max_symbols config)"
  let ?r = "ranked_symbols ?d"
  have q: "qualifies config liquidity_by_venue k v \<longleftrightarrow> (k, Some v) \<in> set ?xs" for k v
    by (simp add: qualifies_def)
  have best: "distinct (map fst ?d)" "kept_at (- 1, - 1) ?xs k (dict_get ?d k)" for k
    using best_kept_fold [of "(- 1, - 1)" ?xs] by (simp_all only: best_kept_def)
  from assms have sel: "selected = map fst (take ?n ?r)"
    by (simp add: select_daily_universe_symbols_def Let_def py_prefix_def split: if_splits)
  have dist: "distinct (map fst ?r)"
    using best(1) mset_eq_imp_distinct_iff [of "map fst ?r" "map fst ?d"] ranked_symbols_facts(1) [of ?d] by simp
  define score where "score k = the (dict_get ?d k)" for k
  have in_d: "score k = v \<and> dict_get ?d k = Some v" if "(k, v) \<in> set ?r" for k v
    using that best(1) by (simp add: score_def ranked_symbols_facts(2))
  have taken: "(k, score k) \<in> set ?r \<and> dict_get ?d k = Some (score k)" if "k \<in> set selected" for k
    using that in_d unfolding sel by (auto dest: in_set_takeD)
  have good: "qualifies config liquidity_by_venue k (score k)" "\<And>v. qualifies config liquidity_by_venue k v \<Longrightarrow> v \<le> score k"
    if "k \<in> set selected" for k
  proof -
    have kept: "kept_at (- 1, - 1) ?xs k (Some (score k))" using best(2) [of k] taken [OF that] by metis
    show "qualifies config liquidity_by_venue k (score k)" unfolding q by (rule kept_atD(1) [OF kept])
    show "v \<le> score k" if "qualifies config liquidity_by_venue k v" for v
      using that unfolding q by (rule kept_atD(2) [OF kept])
  qed
  have order: "sorted_wrt (\<lambda>x y. snd y \<le> snd x) (take ?n ?r @ drop ?n ?r)"
    using ranked_symbols_facts(3) by simp
  have snds: "snd x = score (fst x)" if "x \<in> set ?r" for x
    using in_d [of "fst x" "snd x"] that by simp
  have first: "sorted_wrt (\<lambda>x y. snd y \<le> snd x) (take ?n ?r)"
    and across: "\<forall>x\<in>set (take ?n ?r). \<forall>y\<in>set (drop ?n ?r). snd y \<le> snd x"
    using order unfolding sorted_wrt_append by blast+
  have "sorted_wrt (\<lambda>x y. score (fst y) \<le> score (fst x)) (take ?n ?r)"
    by (rule sorted_wrt_mono_rel [rotated, OF first]) (metis in_set_takeD snds)
  then have "sorted_wrt (\<lambda>a b. score b \<le> score a) selected" unfolding sel by (simp add: sorted_wrt_map)
  moreover have "int (length selected) = uc_max_symbols config \<and> (\<forall>s\<in>set selected. v \<le> score s)"
    if k: "qualifies config liquidity_by_venue k v" "(- 1, - 1) < v" "k \<notin> set selected" for k v
  proof -
    obtain w where w: "dict_get ?d k = Some w" "v \<le> w"
      using kept_at_found [OF best(2) [of k] _ k(2)] k(1) unfolding q by blast
    then have "(k, w) \<in> set ?r" by (simp add: ranked_symbols_facts(2) map_of_SomeD)
    moreover have "(k, w) \<notin> set (take ?n ?r)" using k(3) unfolding sel by force
    ultimately have rest: "(k, w) \<in> set (drop ?n ?r)" by (metis Un_iff append_take_drop_id set_append)
    then have "?n < length ?r" by (cases "?n < length ?r") auto
    moreover have "v \<le> score s" if "s \<in> set selected" for s
    proof -
      from that obtain u where u: "(s, u) \<in> set (take ?n ?r)" unfolding sel by force
      with across rest have "snd (k, w) \<le> snd (s, u)" by blast
      then have "w \<le> u" by simp
      moreover have "u = score s" using in_d u by (metis in_set_takeD)
      ultimately show ?thesis using w(2) by (metis order.trans)
    qed
    ultimately show ?thesis using assms(3) by (simp add: sel)
  qed
  moreover have "distinct selected" unfolding sel using dist by (simp flip: take_map)
  moreover have "int (length selected) \<le> uc_max_symbols config" unfolding sel using assms(3) by simp
  ultimately show ?thesis using good qualifies_source by (intro conjI exI [of _ score]) blast+
qed

text \<open>The liquidity that a symbol must have, written out: on some configured pair of venues, for the
  symbol or for all, both venues have a row of it with finite figures, and each venue's volume and open
  interest reach that venue's floors. Its score on the pair is the smaller volume and the smaller open interest.\<close>

definition liquid_on_pair :: "universe_config \<Rightarrow> liquidity \<Rightarrow> string \<Rightarrow> real \<times> real \<Rightarrow> bool" where
  "liquid_on_pair config liquidity_by_venue symbol score \<longleftrightarrow>
     (\<exists>long short configured longs shorts l s long_volume short_volume long_interest short_interest.
        (long, short, configured) \<in> set (directed_pairs_or_all config) \<and> symbol \<in> set (source_symbols config) \<and>
        (configured = [] \<or> symbol \<in> py_upper ` set configured) \<and>
        dict_get (normalized_rows liquidity_by_venue) long = Some longs \<and> dict_get longs symbol = Some l \<and>
        dict_get (normalized_rows liquidity_by_venue) short = Some shorts \<and> dict_get shorts symbol = Some s \<and>
        lr_volume_24h_quote l = Fin long_volume \<and> lr_volume_24h_quote s = Fin short_volume \<and>
        lr_open_interest_quote l = Fin long_interest \<and> lr_open_interest_quote s = Fin short_interest \<and>
        entry_volume_floor_quote config long \<le> long_volume \<and> entry_volume_floor_quote config short \<le> short_volume \<and>
        entry_open_interest_floor_quote config long \<le> long_interest \<and>
        entry_open_interest_floor_quote config short \<le> short_interest \<and>
        score = (min long_volume short_volume, min long_interest short_interest))"

lemma pair_score_Some:
  "pair_score config long short l s = Some score \<longleftrightarrow>
     (\<exists>long_volume short_volume long_interest short_interest.
        lr_volume_24h_quote l = Fin long_volume \<and> lr_volume_24h_quote s = Fin short_volume \<and>
        lr_open_interest_quote l = Fin long_interest \<and> lr_open_interest_quote s = Fin short_interest \<and>
        entry_volume_floor_quote config long \<le> long_volume \<and> entry_volume_floor_quote config short \<le> short_volume \<and>
        entry_open_interest_floor_quote config long \<le> long_interest \<and>
        entry_open_interest_floor_quote config short \<le> short_interest \<and>
        score = (min long_volume short_volume, min long_interest short_interest))"
  by (auto simp: pair_score_def not_less split: pyfloat.splits)

lemma in_pair_scores:
  "(symbol, Some score) \<in> set (pair_scores config rows (long, short, configured)) \<longleftrightarrow>
     symbol \<in> set (source_symbols config) \<and> (configured = [] \<or> symbol \<in> py_upper ` set configured) \<and>
     (\<exists>longs shorts l s. dict_get rows long = Some longs \<and> dict_get longs symbol = Some l \<and>
        dict_get rows short = Some shorts \<and> dict_get shorts symbol = Some s \<and> pair_score config long short l s = Some score)"
proof (cases "dict_get rows long = None \<or> dict_get rows short = None")
  case True
  then show ?thesis by (cases "dict_get rows long") (auto simp: pair_scores_def)
next
  case False
  then obtain longs shorts where rows: "dict_get rows long = Some longs" "dict_get rows short = Some shorts" by auto
  let ?f = "\<lambda>symbol. case (dict_get longs symbol, dict_get shorts symbol) of
    (Some l, Some s) \<Rightarrow> pair_score config long short l s | _ \<Rightarrow> None"
  have "?f symbol = Some score \<longleftrightarrow> (\<exists>l s. dict_get longs symbol = Some l \<and> dict_get shorts symbol = Some s \<and>
      pair_score config long short l s = Some score)"
    by (auto split: option.splits)
  moreover have "(symbol, Some score) \<in> set (pair_scores config rows (long, short, configured)) \<longleftrightarrow>
      symbol \<in> set (source_symbols config) \<and> (configured = [] \<or> symbol \<in> py_upper ` set configured) \<and> ?f symbol = Some score"
    by (simp add: pair_scores_def rows image_iff del: set_map) (auto simp: image_iff)
  ultimately show ?thesis by (simp add: rows)
qed

lemma qualifies_iff: "qualifies config liquidity_by_venue symbol score \<longleftrightarrow> liquid_on_pair config liquidity_by_venue symbol score"
proof -
  have "qualifies config liquidity_by_venue symbol score \<longleftrightarrow>
      (\<exists>long short configured. (long, short, configured) \<in> set (directed_pairs_or_all config) \<and>
         (symbol, Some score) \<in> set (pair_scores config (normalized_rows liquidity_by_venue) (long, short, configured)))"
    unfolding qualifies_def by (metis prod_cases3)
  also have "\<dots> \<longleftrightarrow> liquid_on_pair config liquidity_by_venue symbol score"
    unfolding in_pair_scores pair_score_Some liquid_on_pair_def by blast
  finally show ?thesis .
qed

text \<open>C38: The daily selection is the best there is. Where some pair of venues is configured and the cap is
  not negative, a successful selection returns different configured symbols, no more than the cap. Each
  is liquid on a configured pair: both its venues have finite figures for it that reach their
  own floors of volume and of open interest. They come by falling score, the score of a symbol being the
  best of its pairs, where the smaller volume counts first and the smaller open interest second. A symbol
  that is also liquid, with a score above (-1, -1), is left out only when the cap is reached
  and every selected symbol scores at least as high.\<close>

theorem selection_is_best:
  assumes "select_daily_universe_symbols config liquidity_by_venue = Inr selected"
    and "directed_pairs_or_all config \<noteq> []" and "0 \<le> uc_max_symbols config"
  shows "distinct selected \<and> int (length selected) \<le> uc_max_symbols config \<and>
     set selected \<subseteq> set (source_symbols config) \<and>
     (\<exists>score. (\<forall>symbol\<in>set selected. liquid_on_pair config liquidity_by_venue symbol (score symbol) \<and>
           (\<forall>v. liquid_on_pair config liquidity_by_venue symbol v \<longrightarrow> v \<le> score symbol)) \<and>
        sorted_wrt (\<lambda>a b. score b \<le> score a) selected \<and>
        (\<forall>symbol v. liquid_on_pair config liquidity_by_venue symbol v \<and> (- 1, - 1) < v \<and> symbol \<notin> set selected \<longrightarrow>
           int (length selected) = uc_max_symbols config \<and> (\<forall>s\<in>set selected. v \<le> score s)))"
  using selection_facts [OF assms] unfolding qualifies_iff .

definition sample_row :: "real \<Rightarrow> liquidity_row" where
  "sample_row v = \<lparr>lr_symbol = None, lr_volume_24h_quote = Fin v, lr_open_interest_quote = Fin v\<rparr>"

definition sample_config :: universe_config where
  "sample_config = \<lparr>uc_enabled = True, uc_path = ''u.json'', uc_fallback_to_last_good = True, uc_max_symbols = 1,
     uc_symbols = [''AAA'', ''BBB''], uc_directed_pairs = [], uc_venues = [''okx'', ''gate''],
     uc_volume_floor_by_venue = [], uc_volume_floor_default = 10, uc_interest_floor_by_venue = [],
     uc_interest_floor_default = 0\<rparr>"

definition sample_liquidity :: liquidity where
  "sample_liquidity = [(''okx'', [(''AAA'', sample_row 20), (''BBB'', sample_row 30)]),
     (''gate'', [(''AAA'', sample_row 90), (''BBB'', sample_row 40)])]"

lemma sample_selected: "select_daily_universe_symbols sample_config sample_liquidity = Inr [''BBB'']"
  by code_simp

lemma selection_is_best_witness: "\<exists>v. liquid_on_pair sample_config sample_liquidity ''BBB'' v"
proof -
  have "directed_pairs_or_all sample_config \<noteq> []" by code_simp
  moreover have "0 \<le> uc_max_symbols sample_config" by (simp add: sample_config_def)
  ultimately show ?thesis using selection_is_best [OF sample_selected] by (metis insertI1 list.simps(15))
qed

section \<open>Resolution\<close>

lemma py_prefix_short [simp]: "int (length xs) \<le> n \<Longrightarrow> py_prefix n xs = xs"
  by (simp add: py_prefix_def)

text \<open>C39: What a resolution can return. With the daily universe enabled and a cap that is not negative,
  a resolution returns at most as many symbols as the cap. They are the first ones of today's selection,
  and then the cache remembers exactly them for the file (unless there are none). Or they are a
  fallback, only where that is allowed: of the stale selection in the file, or, if the file has none, of
  the remembered one, and the cache stays. It fails only if there is no selection for today and
  no fallback.\<close>

theorem resolution_outcome:
  assumes "uc_enabled config" and "0 \<le> uc_max_symbols config"
  shows "case resolve_universe_symbols config today content cache of
     Inr (r, cache') \<Rightarrow>
       int (length (ru_resolved_symbols r)) \<le> uc_max_symbols config \<and>
       (\<exists>found. ru_resolved_symbols r = take (nat (uc_max_symbols config)) found \<and>
          (if ru_used_fallback r
           then uc_fallback_to_last_good config \<and> cache' = cache \<and>
             (case load_persisted_daily_universe content of
                Some (date, symbols) \<Rightarrow> date \<noteq> today \<and> found = symbols
              | None \<Rightarrow> found \<noteq> [] \<and> dict_get cache (uc_path config) = Some found)
           else load_persisted_daily_universe content = Some (today, found) \<and>
             cache' = (if ru_resolved_symbols r = [] then cache
               else dict_put (uc_path config) (ru_resolved_symbols r) cache)))
   | Inl e \<Rightarrow> e = Universe_Unavailable \<and>
       (\<nexists>found. load_persisted_daily_universe content = Some (today, found)) \<and>
       (uc_fallback_to_last_good config \<longrightarrow>
          load_persisted_daily_universe content = None \<and> dict_get cache (uc_path config) \<in> {None, Some []})"
proof (cases "found_symbols config today content cache")
  case None
  then show ?thesis using assms(1)
    by (auto simp: resolve_universe_symbols_def found_symbols_def Let_def split: option.splits if_splits list.splits)
next
  case (Some f)
  obtain found used where f: "f = (found, used)" by (cases f)
  have used: "if used then uc_fallback_to_last_good config \<and>
             (case load_persisted_daily_universe content of
                Some (date, symbols) \<Rightarrow> date \<noteq> today \<and> found = symbols
              | None \<Rightarrow> found \<noteq> [] \<and> dict_get cache (uc_path config) = Some found)
           else load_persisted_daily_universe content = Some (today, found)"
    using Some unfolding f found_symbols_def Let_def by (auto split: option.splits if_splits list.splits)
  have pre: "(if int (length found) > uc_max_symbols config then py_prefix (uc_max_symbols config) found else found) =
      take (nat (uc_max_symbols config)) found"
    using assms(2) by (simp add: py_prefix_def)
  show ?thesis
    using used assms Some unfolding f
    by (auto simp: resolve_universe_symbols_def Let_def pre intro!: exI [of _ found])
qed

lemma resolution_outcome_witness:
  "case resolve_universe_symbols sample_config (2026, 2, 28) No_File [] of Inr _ \<Rightarrow> False | Inl e \<Rightarrow> e = Universe_Unavailable"
  using resolution_outcome [where config = sample_config and today = "(2026, 2, 28)" and content = No_File and cache = "[]"]
  by (auto simp: sample_config_def load_persisted_daily_universe_def load_universe_def
      split: sum.splits if_splits)

text \<open>Symbols that stay different and not empty when they are normalised.\<close>

definition clean_symbols :: "universe_config \<Rightarrow> bool" where
  "clean_symbols config \<longleftrightarrow>
     list_all (\<lambda>s. normalize_symbol (PStr s) \<noteq> None) (source_symbols config) \<and>
     distinct (map (\<lambda>s. the (normalize_symbol (PStr s))) (source_symbols config))"

lemma generated_valid:
  assumes "clean_symbols config" and "distinct selected" and "set selected \<subseteq> set (source_symbols config)"
    and "iso_date (uw_today_text w) \<noteq> None" and "0 \<le> uw_now_ms w"
  shows "validate (generated_universe config w selected) = []"
proof -
  have "card (set selected) \<le> card (set (source_symbols config))" using assms(3) by (intro card_mono) simp_all
  also have "\<dots> \<le> length (source_symbols config)" by (rule card_length)
  also have "\<dots> \<le> length (uc_symbols config)"
    by (simp add: source_symbols_def first_occurrences_def order.trans [OF length_remdups_leq])
  finally have "length selected \<le> length (uc_symbols config)" using assms(2) by (simp add: distinct_card)
  moreover have "inj_on (\<lambda>s. the (normalize_symbol (PStr s))) (set selected)"
    using assms(1,3) by (auto simp: clean_symbols_def distinct_map intro: inj_on_subset)
  ultimately show ?thesis using assms
    by (auto simp: validate_def generated_universe_def symbol_errors_Nil clean_symbols_def list_all_iff distinct_map comp_def)
qed

text \<open>C40: A generated universe is the one that is used. Let the daily universe be enabled with a cap that
  is not negative, let today's universe be missing from the file before and after the fetch, let the fetch
  return rows for both venues of some configured pair (a venue whose fetch fails has none, and without such
  a pair the selection fails and the fallback applies), let the configured symbols stay different and not
  empty when normalised, let the text of the date name today and the time not be negative, and let
  the file be writable. Then the selection succeeds, and the start resolves to the whole of it,
  normalised, not to a fallback; and every later start of the day resolves to the same symbols from the file
  it left, whatever its own fetch returns.\<close>

theorem generated_universe_is_used:
  assumes "uc_enabled config" "0 \<le> uc_max_symbols config" "clean_symbols config"
    and "\<not> daily_universe_is_current config today (uw_file_before w)"
    and "\<not> daily_universe_is_current config today (uw_file_after_fetch w)"
    and "uw_fetched w = Inr liquidity_by_venue"
    and "(long, short, configured) \<in> set (directed_pairs_or_all config)"
    and "dict_get (normalized_rows liquidity_by_venue) long \<noteq> None" "dict_get (normalized_rows liquidity_by_venue) short \<noteq> None"
    and "iso_date (uw_today_text w) = Some today" "0 \<le> uw_now_ms w" "uw_writable w"
  shows "\<exists>selected r cache' content. select_daily_universe_symbols config liquidity_by_venue = Inr selected \<and>
     resolve_or_generate_universe_symbols config today w cache = (Inr (r, cache'), content) \<and>
     ru_resolved_symbols r = map (\<lambda>s. the (normalize_symbol (PStr s))) selected \<and> \<not> ru_used_fallback r \<and>
     (\<forall>w' c. uw_file_before w' = content \<longrightarrow>
        (\<exists>r' c'. resolve_or_generate_universe_symbols config today w' c = (Inr (r', c'), content) \<and>
           ru_resolved_symbols r' = ru_resolved_symbols r))"
proof -
  have "list_ex (usable_pair (normalized_rows liquidity_by_venue)) (directed_pairs_or_all config)"
    using assms(7-9) by (auto simp: list_ex_iff usable_pair_def intro!: bexI [OF _ assms(7)])
  moreover have pairs: "directed_pairs_or_all config \<noteq> []" using assms(7) by auto
  ultimately obtain selected where selected: "select_daily_universe_symbols config liquidity_by_venue = Inr selected"
    by (simp add: select_daily_universe_symbols_def Let_def)
  let ?u = "generated_universe config w selected" and ?norm = "map (\<lambda>s. the (normalize_symbol (PStr s))) selected"
  from selection_facts [OF selected pairs assms(2)] have sel: "distinct selected" "int (length selected) \<le> uc_max_symbols config"
      "set selected \<subseteq> set (source_symbols config)" by simp_all
  have valid: "validate ?u = []" using sel assms(3,10,11) by (intro generated_valid) simp_all
  then obtain content where saved: "save_universe True ?u = Inr content"
    and loaded: "load_persisted_daily_universe content = Some (today, ?norm)"
    using universe_survives_file [of ?u] assms(10) by (auto simp: generated_universe_def comp_def)
  have written: "generate_universe config today w = Inr content" using assms(5,6,12) selected saved by (simp add: generate_universe_def)
  have found: "found_symbols config today content c = Some (?norm, False)" for c
    by (simp add: found_symbols_def loaded)
  have current: "daily_universe_is_current config today content" using assms(1) loaded by (simp add: daily_universe_is_current_def)
  have resolved: "\<exists>r c'. resolve_universe_symbols config today content c = Inr (r, c') \<and> ru_resolved_symbols r = ?norm \<and>
      \<not> ru_used_fallback r" for c
    using sel(2) assms(1) by (simp add: resolve_universe_symbols_def found Let_def)
  then obtain r c' where r: "resolve_universe_symbols config today content cache = Inr (r, c')" "ru_resolved_symbols r = ?norm"
    "\<not> ru_used_fallback r" by blast
  have "resolve_or_generate_universe_symbols config today w cache = (Inr (r, c'), content)"
    using assms(1,4) r(1) by (simp add: resolve_or_generate_universe_symbols_def written)
  moreover have "\<exists>r' c'. resolve_or_generate_universe_symbols config today w' c = (Inr (r', c'), content) \<and>
      ru_resolved_symbols r' = ru_resolved_symbols r" if "uw_file_before w' = content" for w' c
    using resolved [of c] current that r(2) by (auto simp: resolve_or_generate_universe_symbols_def)
  ultimately show ?thesis using r selected by blast
qed

definition sample_world :: universe_world where
  "sample_world = \<lparr>uw_today_text = ''2026-02-28'', uw_now_ms = 5, uw_file_before = No_File, uw_file_after_fetch = No_File,
     uw_fetched = Inr sample_liquidity, uw_writable = True\<rparr>"

lemma generated_universe_is_used_witness:
  "\<exists>r cache' content. resolve_or_generate_universe_symbols sample_config (2026, 2, 28) sample_world [] = (Inr (r, cache'), content) \<and>
     ru_resolved_symbols r = [''BBB'']"
proof -
  have "(''okx'', ''gate'', []) \<in> set (directed_pairs_or_all sample_config)" "clean_symbols sample_config"
    "\<not> daily_universe_is_current sample_config (2026, 2, 28) No_File" "iso_date ''2026-02-28'' = Some (2026, 2, 28)"
    "the (normalize_symbol (PStr ''BBB'')) = ''BBB''" "dict_get (normalized_rows sample_liquidity) ''okx'' \<noteq> None"
    "dict_get (normalized_rows sample_liquidity) ''gate'' \<noteq> None"
    by code_simp+
  moreover have "uc_enabled sample_config" "0 \<le> uc_max_symbols sample_config" by (simp_all add: sample_config_def)
  moreover have "uw_file_before sample_world = No_File" "uw_file_after_fetch sample_world = No_File"
    "uw_fetched sample_world = Inr sample_liquidity" "uw_today_text sample_world = ''2026-02-28''" "0 \<le> uw_now_ms sample_world"
    "uw_writable sample_world" by (simp_all add: sample_world_def)
  ultimately have "\<exists>selected r cache' content. select_daily_universe_symbols sample_config sample_liquidity = Inr selected \<and>
     resolve_or_generate_universe_symbols sample_config (2026, 2, 28) sample_world [] = (Inr (r, cache'), content) \<and>
     ru_resolved_symbols r = map (\<lambda>s. the (normalize_symbol (PStr s))) selected"
    using generated_universe_is_used [of sample_config "(2026, 2, 28)" sample_world sample_liquidity "''okx''" "''gate''" "[]" "[]"]
    by metis
  then show ?thesis using sample_selected \<open>the (normalize_symbol (PStr ''BBB'')) = ''BBB''\<close> by auto
qed

end
