(* ===== verification/Entry.thy ===== *)
theory Entry
  imports Exit_Decision Py_Value
begin

text \<open>
  Opening a position (\<open>engine/entry.py\<close>, \<open>venues/cid.py\<close>): the states of an entry, the maker and
  hedge orders with client order ids that every exchange accepts, and the open position that the
  two fills leave, which \<open>Exit_Decision\<close> takes over. The digest of a text (SHA-256) is a parameter:
  32 bytes.

  The lemmas: an entry never leaves a final state; the two orders are the two sides of one trade and
  their ids are legal; and what the books of a fresh position add up to, up to its closing.
\<close>

section \<open>States\<close>

datatype entry_state =
    IDLE | SUBMITTING_MAKER | MAKER_RESTING | SUBMITTING_HEDGE | HEDGE_PENDING | COMPLETED | FAILED
  | PASSIVE_FALLBACK_STATE | FAILED_WITH_RESIDUAL

definition is_terminal :: "entry_state \<Rightarrow> bool" where
  "is_terminal s \<longleftrightarrow> s \<in> {COMPLETED, FAILED, FAILED_WITH_RESIDUAL}"

datatype entry_type = STANDARD_DUAL_TAKER | PASSIVE_INCREMENTAL | PASSIVE_FALLBACK

text \<open>What the entry knew when it was made and the position keeps: each field is copied
  (\<open>float(x or 0.0)\<close> of a float, \<open>str(x or "")\<close> of a string, a list copied).\<close>

record entry_evidence =
  ev_expected_edge_bps_entry :: real
  ev_worst_case_edge_bps_entry :: real
  ev_first_funding_leg :: string
  ev_entry_maker_leg :: string
  ev_exit_maker_leg :: string
  ev_entry_cross_bps_entry :: real
  ev_fee_bps_entry :: real
  ev_entry_slippage_bps_entry :: real
  ev_transfer_bias_bps_entry :: real
  ev_transfer_state_at_entry :: "string option"
  ev_entry_liquidity_source_at_entry :: "string option"
  ev_long_volume_24h_quote_at_entry :: real
  ev_short_volume_24h_quote_at_entry :: real
  ev_long_open_interest_quote_at_entry :: real
  ev_short_open_interest_quote_at_entry :: real
  ev_long_entry_vwap :: "real option"
  ev_short_entry_vwap :: "real option"
  ev_entry_capacity_constrained :: bool
  ev_entry_target_quantity :: real
  ev_long_max_executable_quantity :: real
  ev_short_max_executable_quantity :: real
  ev_entry_max_executable_quantity :: real
  ev_entry_depth_shortfall_quantity :: real
  ev_entry_max_executable_notional_quote :: real
  ev_entry_depth_capped_at_entry :: bool
  ev_advisories :: "string list"
  ev_blocked_reasons :: "string list"

record entry_context =
  ec_entry_id :: string
  ec_symbol :: string
  ec_long_venue :: venue
  ec_short_venue :: venue
  ec_long_quantity :: real
  ec_short_quantity :: real
  ec_long_price_hint :: real
  ec_short_price_hint :: real
  ec_maker_leg :: order_side
  ec_entry_type :: entry_type
  ec_state :: entry_state
  ec_opportunity_type :: string
  ec_funding_timestamp_ms :: int
  ec_first_funding_timestamp_ms :: int
  ec_long_funding_timestamp_ms :: int
  ec_short_funding_timestamp_ms :: int
  ec_second_funding_timestamp_ms :: int
  ec_funding_edge_bps_entry :: real
  ec_total_funding_edge_bps_entry :: real
  ec_exit_after_first_stage :: bool
  ec_evidence :: entry_evidence

definition advance_entry_state :: "entry_context \<Rightarrow> entry_state \<Rightarrow> entry_state + entry_context" where
  "advance_entry_state ctx next_state =
     (if is_terminal (ec_state ctx) then Inl (ec_state ctx) else Inr (ctx\<lparr>ec_state := next_state\<rparr>))"

inductive entry_run :: "entry_context \<Rightarrow> entry_state list \<Rightarrow> entry_context \<Rightarrow> bool" where
  stop: "entry_run ctx [] ctx"
| advance: "advance_entry_state ctx s = Inr ctx' \<Longrightarrow> entry_run ctx' ss ctx'' \<Longrightarrow> entry_run ctx (s # ss) ctx''"

code_pred entry_run .

inductive_cases run_stopped: "entry_run ctx [] ctx'"
inductive_cases run_advanced: "entry_run ctx (s # ss) ctx'"

section \<open>Client order ids\<close>

definition cid_max_len :: "venue \<Rightarrow> nat" where
  "cid_max_len v = (case v of OKX \<Rightarrow> 32 | GATE \<Rightarrow> 28 | _ \<Rightarrow> 36)"

text \<open>\<open>str.isalnum\<close> of one 8-bit character: digits, letters and the numeric signs of Latin-1.\<close>

definition is_alnum :: "char \<Rightarrow> bool" where
  "is_alnum c = (let n = (of_char c :: nat)
     in 48 \<le> n \<and> n \<le> 57 \<or> 65 \<le> n \<and> n \<le> 90 \<or> 97 \<le> n \<and> n \<le> 122 \<or>
        n \<in> {170, 178, 179, 181, 185, 186, 188, 189, 190} \<or> 192 \<le> n \<and> n \<noteq> 215 \<and> n \<noteq> 247)"

definition hex_digit :: "nat \<Rightarrow> char" where
  "hex_digit d = (if d < 10 then char_of (48 + d) else char_of (87 + d))"

definition hex_of_bytes :: "nat list \<Rightarrow> string" where
  "hex_of_bytes bs = concat (map (\<lambda>b. [hex_digit (b div 16), hex_digit (b mod 16)]) bs)"

text \<open>\<open>f"{n:016x}"\<close> of the big-endian number in the bytes is their hex text.\<close>

definition STAGE_CODE :: "(string, string) dict" where
  "STAGE_CODE = [(''entry_long'', ''el''), (''entry_short'', ''es''), (''exit_long'', ''xl''), (''exit_short'', ''xs''),
     (''compensate'', ''cp'')]"

definition compact_client_order_id :: "(string \<Rightarrow> nat list) \<Rightarrow> string \<Rightarrow> string \<Rightarrow> string \<Rightarrow> string" where
  "compact_client_order_id digest instance_id position_id stage =
     (let raw_code = (case dict_get STAGE_CODE stage of Some c \<Rightarrow> c | None \<Rightarrow> take 2 stage);
          stage_code = take 2 (filter is_alnum raw_code);
          instance_code = take 4 (filter is_alnum instance_id);
          hash_bytes = take 8 (digest (position_id @ '':'' @ stage))
      in if instance_code \<noteq> [] then ''lf'' @ instance_code @ stage_code @ hex_of_bytes (drop 1 hash_bytes)
         else ''lf'' @ stage_code @ hex_of_bytes hash_bytes)"

definition generate_exchange_cid :: "(string \<Rightarrow> nat list) \<Rightarrow> string \<Rightarrow> string \<Rightarrow> venue \<Rightarrow> string" where
  "generate_exchange_cid digest internal_entry_id leg v =
     hex_of_bytes (take (cid_max_len v div 2) (digest (internal_entry_id @ '':'' @ leg)))"

definition cid_is_valid_for_venue :: "string \<Rightarrow> venue \<Rightarrow> bool" where
  "cid_is_valid_for_venue cid v =
     (if length cid > cid_max_len v then False else if cid = [] then False
      else list_all (\<lambda>c. is_alnum c \<or> c \<in> {CHR ''-'', CHR ''_''}) cid)"

section \<open>Orders\<close>

datatype time_in_force = GTC | IOC | FOK | POST_ONLY

record entry_order =
  eo_venue :: venue
  eo_symbol :: string
  eo_side :: order_side
  eo_quantity :: real
  eo_price :: real
  eo_reduce_only :: bool
  eo_post_only :: bool
  eo_time_in_force :: time_in_force
  eo_client_order_id :: string

definition build_entry_orders :: "(string \<Rightarrow> nat list) \<Rightarrow> entry_context \<Rightarrow> entry_order \<times> entry_order" where
  "build_entry_orders digest ctx =
     (let maker_venue = (if ec_maker_leg ctx = BUY then ec_long_venue ctx else ec_short_venue ctx);
          hedge_venue = (if ec_maker_leg ctx = BUY then ec_short_venue ctx else ec_long_venue ctx);
          maker_cid = generate_exchange_cid digest (ec_entry_id ctx) ''m'' maker_venue;
          hedge_cid = generate_exchange_cid digest (ec_entry_id ctx) ''h'' hedge_venue;
          is_passive = (ec_entry_type ctx \<in> {PASSIVE_INCREMENTAL, PASSIVE_FALLBACK});
          maker_tif = (if is_passive then GTC else IOC)
      in if ec_maker_leg ctx = BUY
         then (\<lparr>eo_venue = ec_long_venue ctx, eo_symbol = ec_symbol ctx, eo_side = BUY, eo_quantity = ec_long_quantity ctx,
                eo_price = ec_long_price_hint ctx, eo_reduce_only = False, eo_post_only = is_passive,
                eo_time_in_force = maker_tif, eo_client_order_id = maker_cid\<rparr>,
               \<lparr>eo_venue = ec_short_venue ctx, eo_symbol = ec_symbol ctx, eo_side = SELL, eo_quantity = ec_short_quantity ctx,
                eo_price = ec_short_price_hint ctx, eo_reduce_only = False, eo_post_only = False,
                eo_time_in_force = IOC, eo_client_order_id = hedge_cid\<rparr>)
         else (\<lparr>eo_venue = ec_short_venue ctx, eo_symbol = ec_symbol ctx, eo_side = SELL, eo_quantity = ec_short_quantity ctx,
                eo_price = ec_short_price_hint ctx, eo_reduce_only = False, eo_post_only = is_passive,
                eo_time_in_force = maker_tif, eo_client_order_id = maker_cid\<rparr>,
               \<lparr>eo_venue = ec_long_venue ctx, eo_symbol = ec_symbol ctx, eo_side = BUY, eo_quantity = ec_long_quantity ctx,
                eo_price = ec_long_price_hint ctx, eo_reduce_only = False, eo_post_only = False,
                eo_time_in_force = IOC, eo_client_order_id = hedge_cid\<rparr>))"

section \<open>The open position\<close>

record entry_fill =
  ef_quantity :: real
  ef_price :: real
  ef_fee_quote :: "pyfloat option"
  ef_filled_at_ms :: int

text \<open>The position of \<open>Exit_Decision\<close> with the fields only the entry sets.\<close>

record opened_position = open_position +
  od_opened_at_ms :: int
  od_entered_at_ms :: int
  od_initial_quantity :: real
  od_review_id :: "string option"
  od_long_fill :: entry_fill
  od_short_fill :: entry_fill
  od_long_entry_fee_quote :: real
  od_short_entry_fee_quote :: real
  od_total_entry_fee_quote :: real
  od_entry_fee_evidence_complete :: bool
  od_long_funding_timestamp_ms :: int
  od_short_funding_timestamp_ms :: int
  od_evidence :: entry_evidence

definition normalize_opportunity_type :: "string \<Rightarrow> string" where
  "normalize_opportunity_type value = (if value = ''staggered'' then ''staggered'' else ''aligned'')"

definition positive_int :: "int \<Rightarrow> int" where
  "positive_int value = (if value > 0 then value else 0)"

fun first_positive :: "int list \<Rightarrow> int" where
  "first_positive [] = 0"
| "first_positive (v # vs) = (if positive_int v > 0 then positive_int v else first_positive vs)"

definition exact_fee_quote :: "entry_fill \<Rightarrow> real option" where
  "exact_fee_quote fill = (case ef_fee_quote fill of Some (Fin fee) \<Rightarrow> if fee \<ge> 0 then Some fee else None | _ \<Rightarrow> None)"

definition prorated_fee :: "real \<Rightarrow> entry_fill \<Rightarrow> real" where
  "prorated_fee matched_qty fill =
     (if ef_quantity fill > 0 then or_num (exact_fee_quote fill) 0 * (matched_qty / ef_quantity fill) else 0)"

definition inferred_first_funding_ms :: "entry_context \<Rightarrow> int" where
  "inferred_first_funding_ms ctx =
     (let long_ts = positive_int (ec_long_funding_timestamp_ms ctx); short_ts = positive_int (ec_short_funding_timestamp_ms ctx)
      in first_positive [ec_funding_timestamp_ms ctx, ec_first_funding_timestamp_ms ctx,
           if long_ts > 0 \<and> short_ts > 0 then min long_ts short_ts else max long_ts short_ts])"

definition inferred_second_funding_ms :: "entry_context \<Rightarrow> int" where
  "inferred_second_funding_ms ctx =
     (let long_ts = positive_int (ec_long_funding_timestamp_ms ctx); short_ts = positive_int (ec_short_funding_timestamp_ms ctx);
          second = positive_int (ec_second_funding_timestamp_ms ctx)
      in if second \<le> 0 \<and> long_ts > 0 \<and> short_ts > 0 \<and> max long_ts short_ts > inferred_first_funding_ms ctx
         then max long_ts short_ts else second)"

definition side_fills :: "entry_context \<Rightarrow> entry_fill \<Rightarrow> entry_fill \<Rightarrow> entry_fill \<times> entry_fill" where
  "side_fills ctx maker_fill hedge_fill =
     (if ec_maker_leg ctx = BUY then (maker_fill, hedge_fill) else (hedge_fill, maker_fill))"

definition build_open_position ::
  "entry_context \<Rightarrow> entry_fill \<Rightarrow> entry_fill \<Rightarrow> int \<Rightarrow> string option \<Rightarrow> opened_position" where
  "build_open_position ctx maker_fill hedge_fill now_ms review_id =
     (let matched_qty = min (ef_quantity maker_fill) (ef_quantity hedge_fill);
          (long_fill, short_fill) = side_fills ctx maker_fill hedge_fill;
          long_fee = prorated_fee matched_qty long_fill; short_fee = prorated_fee matched_qty short_fill;
          entry_notional = (if matched_qty > 0 \<and> ef_price long_fill > 0 \<and> ef_price short_fill > 0
            then matched_qty * (ef_price long_fill + ef_price short_fill) * (1 / 2) else 0);
          first_ms = inferred_first_funding_ms ctx; second_ms = inferred_second_funding_ms ctx;
          opportunity_type = normalize_opportunity_type (ec_opportunity_type ctx);
          entered_at = max (ef_filled_at_ms maker_fill) (ef_filled_at_ms hedge_fill);
          edge = ec_funding_edge_bps_entry ctx
      in \<lparr>op_position_id = ec_entry_id ctx, op_symbol = ec_symbol ctx, op_long_venue = ec_long_venue ctx,
          op_short_venue = ec_short_venue ctx, op_long_quantity = matched_qty, op_short_quantity = matched_qty,
          op_long_entry_price = ef_price long_fill, op_short_entry_price = ef_price short_fill,
          op_entry_notional_quote = entry_notional, op_captured_funding_quote = 0, op_funding_captured = False,
          op_funding_edge_bps_entry = edge,
          op_total_funding_edge_bps_entry =
            (if ec_total_funding_edge_bps_entry ctx \<noteq> 0 then ec_total_funding_edge_bps_entry ctx else edge),
          op_peak_net_quote = - (long_fee + short_fee), op_current_net_quote = - (long_fee + short_fee),
          op_settlement_half_closed_at_ms = 0, op_matched_quantity = matched_qty, op_funding_timestamp_ms = first_ms,
          op_exit_after_first_stage = ec_exit_after_first_stage ctx, op_opportunity_type = opportunity_type,
          op_second_stage_enabled_at_entry = (opportunity_type = ''staggered'' \<and> first_ms > 0 \<and> second_ms > first_ms),
          op_second_funding_timestamp_ms = second_ms, op_second_stage_funding_captured = False,
          op_second_stage_funding_quote = 0,
          od_opened_at_ms = now_ms, od_entered_at_ms = (if entered_at = 0 then now_ms else entered_at),
          od_initial_quantity = matched_qty, od_review_id = review_id, od_long_fill = long_fill, od_short_fill = short_fill,
          od_long_entry_fee_quote = long_fee, od_short_entry_fee_quote = short_fee,
          od_total_entry_fee_quote = long_fee + short_fee,
          od_entry_fee_evidence_complete = (exact_fee_quote long_fill \<noteq> None \<and> exact_fee_quote short_fill \<noteq> None),
          od_long_funding_timestamp_ms = positive_int (ec_long_funding_timestamp_ms ctx),
          od_short_funding_timestamp_ms = positive_int (ec_short_funding_timestamp_ms ctx),
          od_evidence = ec_evidence ctx\<rparr>)"

section \<open>Final states\<close>

lemma run_frame: "entry_run ctx ss ctx' \<Longrightarrow> ctx'\<lparr>ec_state := s\<rparr> = ctx\<lparr>ec_state := s\<rparr>"
  by (induction rule: entry_run.induct) (auto simp: advance_entry_state_def split: if_splits)

lemma run_total:
  "list_all (\<lambda>s. \<not> is_terminal s) (butlast (ec_state ctx # ss)) \<longleftrightarrow>
     entry_run ctx ss (ctx\<lparr>ec_state := last (ec_state ctx # ss)\<rparr>)"
proof (induction ss arbitrary: ctx)
  case Nil
  show ?case by (simp add: entry_run.stop)
next
  case (Cons s ss)
  show ?case
  proof (cases "is_terminal (ec_state ctx)")
    case True
    then show ?thesis by (auto simp: advance_entry_state_def elim: run_advanced)
  next
    case False
    then have "entry_run ctx (s # ss) d \<longleftrightarrow> entry_run (ctx\<lparr>ec_state := s\<rparr>) ss d" for d
      by (auto simp: advance_entry_state_def elim: run_advanced intro: entry_run.advance)
    with Cons.IH [of "ctx\<lparr>ec_state := s\<rparr>"] False show ?thesis by simp
  qed
qed

text \<open>An entry ends once. A sequence of advances succeeds exactly if no state before the last is
  final, then it ends in the last state and changes nothing else of the entry; so an entry in a
  final state takes no advance at all.\<close>

theorem entry_ends_once:
  "(\<exists>ctx'. entry_run ctx ss ctx') = list_all (\<lambda>s. \<not> is_terminal s) (butlast (ec_state ctx # ss)) \<and>
   (entry_run ctx ss ctx' = (list_all (\<lambda>s. \<not> is_terminal s) (butlast (ec_state ctx # ss)) \<and>
      ctx' = ctx\<lparr>ec_state := last (ec_state ctx # ss)\<rparr>))"
proof -
  have det: "entry_run ctx ss d \<Longrightarrow> d = ctx\<lparr>ec_state := last (ec_state ctx # ss)\<rparr>" for d
  proof (induction rule: entry_run.induct)
    case (advance ctx s ctx' ss ctx'')
    then show ?case by (auto simp: advance_entry_state_def split: if_splits)
  qed simp
  then show ?thesis using run_total [of ctx ss] by metis
qed

section \<open>Legal ids\<close>

text \<open>What is known of a digest: it has 32 bytes.\<close>

definition digest_ok :: "(string \<Rightarrow> nat list) \<Rightarrow> bool" where
  "digest_ok digest \<longleftrightarrow> (\<forall>s. length (digest s) = 32 \<and> list_all (\<lambda>b. b < 256) (digest s))"

lemma hex_digit_alnum: "d < 16 \<Longrightarrow> is_alnum (hex_digit d)"
  by (auto simp: hex_digit_def is_alnum_def of_char_of take_bit_nat_def Let_def)

lemma hex_of_bytes_facts:
  "length (hex_of_bytes bs) = 2 * length bs" "list_all (\<lambda>b. b < 256) bs \<Longrightarrow> list_all is_alnum (hex_of_bytes bs)"
  by (induction bs) (auto simp: hex_of_bytes_def intro!: hex_digit_alnum)

lemma cid_max_len_bounds: "28 \<le> cid_max_len v" "cid_max_len v \<le> 36" "even (cid_max_len v)"
  by (simp_all add: cid_max_len_def split: venue.split)

lemma valid_cidI: "cid \<noteq> [] \<Longrightarrow> length cid \<le> cid_max_len v \<Longrightarrow> list_all is_alnum cid \<Longrightarrow> cid_is_valid_for_venue cid v"
  by (auto simp: cid_is_valid_for_venue_def list_all_iff)

lemma generated_facts:
  assumes "digest_ok digest"
  shows "length (generate_exchange_cid digest i leg v) = cid_max_len v" "list_all is_alnum (generate_exchange_cid digest i leg v)"
proof -
  have d: "length (digest s) = 32" "list_all (\<lambda>b. b < 256) (take n (digest s))" for s n
    using assms by (auto simp: digest_ok_def list_all_iff dest: in_set_takeD)
  then show "length (generate_exchange_cid digest i leg v) = cid_max_len v"
    "list_all is_alnum (generate_exchange_cid digest i leg v)"
    using cid_max_len_bounds [of v] by (simp_all add: generate_exchange_cid_def hex_of_bytes_facts min_def)
qed

lemma legal_id:
  assumes "digest_ok digest"
  shows "cid_is_valid_for_venue (generate_exchange_cid digest i leg v) v"
  using generated_facts [OF assms, of i leg v] cid_max_len_bounds [of v] by (auto intro!: valid_cidI)

text \<open>Every generated client order id passes the engine's own check. With any 32-byte digest, the id
  generated for a venue is exactly as long as the table of lengths says and passes for that venue, and
  the compact id of any position, stage and instance passes for every venue with at most 22
  characters. (For Binance and Aster the table says 36, where the comments of \<open>cid.py\<close> say that
  the exchanges want fewer than 36 characters.)\<close>

theorem generated_ids_pass_the_check:
  assumes "digest_ok digest"
  shows "cid_is_valid_for_venue (generate_exchange_cid digest internal_entry_id leg v) v \<and>
     length (generate_exchange_cid digest internal_entry_id leg v) = cid_max_len v \<and>
     cid_is_valid_for_venue (compact_client_order_id digest instance_id position_id stage) v \<and>
     length (compact_client_order_id digest instance_id position_id stage) \<le> 22"
proof -
  have d: "length (digest s) = 32" "list_all (\<lambda>b. b < 256) (digest s)" for s using assms by (auto simp: digest_ok_def)
  then have part: "list_all (\<lambda>b. b < 256) (take n (digest s))" "list_all (\<lambda>b. b < 256) (drop m (take n (digest s)))" for m n s
    unfolding list_all_iff by (metis in_set_dropD in_set_takeD)+
  let ?c = "compact_client_order_id digest instance_id position_id stage"
  have letters: "is_alnum CHR ''l''" "is_alnum CHR ''f''" by code_simp+
  have codes: "list_all is_alnum (take n (filter is_alnum xs))" for n xs
    by (auto simp: list_all_iff dest: in_set_takeD)
  have c: "?c \<noteq> []" "length ?c \<le> 22" "list_all is_alnum ?c"
    using d part letters codes
    by (auto simp: compact_client_order_id_def Let_def hex_of_bytes_facts min_def)
  from c cid_max_len_bounds [of v] generated_facts(1) [OF assms] legal_id [OF assms] show ?thesis
    by (auto intro!: valid_cidI)
qed

lemma generated_ids_pass_the_check_witness:
  "cid_is_valid_for_venue (generate_exchange_cid (\<lambda>_. replicate 32 171) ''entry-1'' ''m'' GATE) GATE"
proof -
  have "digest_ok (\<lambda>_. replicate 32 171)" by (simp add: digest_ok_def list_all_iff)
  from generated_ids_pass_the_check [OF this] show ?thesis by blast
qed

text \<open>C36: The two orders open one pair. Together the maker and the hedge order buy the long quantity on
  the long venue and sell the short quantity on the short venue, each at its side's hinted price and for the
  symbol of the entry, the maker on the chosen leg. Neither only reduces. Only the maker of a passive
  entry rests (post-only and good till cancelled); every other order is immediate or cancelled.
  Each carries the client order id generated from the entry's id and its role for its own venue.\<close>

theorem entry_orders_open_one_pair:
  assumes "build_entry_orders digest ctx = (maker, hedge)"
  shows "{(eo_venue maker, eo_side maker, eo_quantity maker, eo_price maker),
          (eo_venue hedge, eo_side hedge, eo_quantity hedge, eo_price hedge)} =
        {(ec_long_venue ctx, BUY, ec_long_quantity ctx, ec_long_price_hint ctx),
         (ec_short_venue ctx, SELL, ec_short_quantity ctx, ec_short_price_hint ctx)} \<and>
     eo_side maker = ec_maker_leg ctx \<and> eo_symbol maker = ec_symbol ctx \<and> eo_symbol hedge = ec_symbol ctx \<and>
     \<not> eo_reduce_only maker \<and> \<not> eo_reduce_only hedge \<and> \<not> eo_post_only hedge \<and> eo_time_in_force hedge = IOC \<and>
     (eo_post_only maker \<longleftrightarrow> ec_entry_type ctx \<noteq> STANDARD_DUAL_TAKER) \<and>
     eo_time_in_force maker = (if ec_entry_type ctx = STANDARD_DUAL_TAKER then IOC else GTC) \<and>
     eo_client_order_id maker = generate_exchange_cid digest (ec_entry_id ctx) ''m'' (eo_venue maker) \<and>
     eo_client_order_id hedge = generate_exchange_cid digest (ec_entry_id ctx) ''h'' (eo_venue hedge)"
  using assms
  by (cases "ec_maker_leg ctx"; cases "ec_entry_type ctx") (auto simp: build_entry_orders_def Let_def)

section \<open>The books of a fresh position\<close>

lemma exact_fee_nonneg: "exact_fee_quote fill = Some fee \<Longrightarrow> 0 \<le> fee"
  by (auto simp: exact_fee_quote_def split: option.splits pyfloat.splits if_splits)

lemma prorated_fee_bounds:
  assumes "0 \<le> matched" "matched \<le> ef_quantity fill"
  shows "0 \<le> prorated_fee matched fill" "prorated_fee matched fill \<le> or_num (exact_fee_quote fill) 0"
proof -
  have nn: "0 \<le> or_num (exact_fee_quote fill) 0"
    using exact_fee_nonneg by (cases "exact_fee_quote fill") (auto simp: or_num_def)
  with assms show "0 \<le> prorated_fee matched fill" by (simp add: prorated_fee_def)
  have "or_num (exact_fee_quote fill) 0 * (matched / ef_quantity fill) \<le> or_num (exact_fee_quote fill) 0 * 1"
    if "0 < ef_quantity fill" using that assms nn by (intro mult_left_mono) simp_all
  with nn show "prorated_fee matched fill \<le> or_num (exact_fee_quote fill) 0" by (simp add: prorated_fee_def)
qed

lemma truncate_fields [simp]:
  "op_current_net_quote (open_position.truncate p) = op_current_net_quote p"
  "op_peak_net_quote (open_position.truncate p) = op_peak_net_quote p"
  "op_funding_captured (open_position.truncate p) = op_funding_captured p"
  "op_captured_funding_quote (open_position.truncate p) = op_captured_funding_quote p"
  "op_second_stage_funding_quote (open_position.truncate p) = op_second_stage_funding_quote p"
  "op_long_quantity (open_position.truncate p) = op_long_quantity p"
  "op_short_quantity (open_position.truncate p) = op_short_quantity p"
  "op_long_entry_price (open_position.truncate p) = op_long_entry_price p"
  "op_short_entry_price (open_position.truncate p) = op_short_entry_price p"
  "op_long_venue (open_position.truncate p) = op_long_venue p"
  "op_short_venue (open_position.truncate p) = op_short_venue p"
  "op_symbol (open_position.truncate p) = op_symbol p"
  by (simp_all add: open_position.truncate_def)

text \<open>C35: A fresh position balances, and stays balanced. For fills of non-negative quantity, the position
  is of the entry's symbol on the entry's venues, and both legs hold the smaller fill, at the prices of
  their own fills (the long leg's is the maker's if the maker leg buys, else the hedge's); each leg is
  charged the exact fee of its fill in proportion to the part it holds (nothing if the fee is unknown, or
  the fill is empty); the second stage is enabled only with two funding times in order; the result and its
  peak start at minus the fees. However often funding is captured afterwards, the result without
  funding stays minus the fees and never exceeds the peak. The closing orders undo exactly the two legs:
  reduce-only, one sells the held quantity on the long venue, one buys it back on the short venue; and
  filled at the entry prices they lose nothing but the closing fees.\<close>

theorem fresh_position_balances:
  fixes ts :: "int list" and h now_ms :: int and ctx :: entry_context and maker_fill hedge_fill :: entry_fill and review_id :: "string option"
  assumes "0 \<le> ef_quantity maker_fill" "0 \<le> ef_quantity hedge_fill"
  defines "d \<equiv> build_open_position ctx maker_fill hedge_fill now_ms review_id"
    and "q \<equiv> min (ef_quantity maker_fill) (ef_quantity hedge_fill)"
    and "long_fill \<equiv> (if ec_maker_leg ctx = BUY then maker_fill else hedge_fill)"
    and "short_fill \<equiv> (if ec_maker_leg ctx = BUY then hedge_fill else maker_fill)"
    and "share \<equiv> \<lambda>fill. if ef_quantity fill = 0 then 0
           else (case exact_fee_quote fill of None \<Rightarrow> 0 | Some fee \<Rightarrow> fee)
             * (min (ef_quantity maker_fill) (ef_quantity hedge_fill) / ef_quantity fill)"
  defines "p \<equiv> foldl (\<lambda>p t. update_position_funding_capture_state t h p) (open_position.truncate d) ts"
  shows "op_long_venue d = ec_long_venue ctx \<and> op_short_venue d = ec_short_venue ctx \<and> op_symbol d = ec_symbol ctx \<and>
     op_long_quantity d = q \<and> op_short_quantity d = q \<and> op_long_entry_price d = ef_price long_fill \<and>
     op_short_entry_price d = ef_price short_fill \<and>
     od_long_entry_fee_quote d = share long_fill \<and> od_short_entry_fee_quote d = share short_fill \<and>
     0 \<le> share long_fill \<and> 0 \<le> share short_fill \<and>
     op_current_net_quote d = - (share long_fill + share short_fill) \<and> op_peak_net_quote d = op_current_net_quote d \<and>
     (op_second_stage_enabled_at_entry d \<longrightarrow>
        0 < op_funding_timestamp_ms d \<and> op_funding_timestamp_ms d < op_second_funding_timestamp_ms d) \<and>
     price_net p = - (share long_fill + share short_fill) \<and>
     op_current_net_quote p \<le> op_peak_net_quote p \<and>
     build_reduce_only_close_orders (open_position.truncate d) =
       (\<lparr>co_venue = ec_long_venue ctx, co_symbol = ec_symbol ctx, co_side = SELL, co_quantity = q, co_reduce_only = True\<rparr>,
        \<lparr>co_venue = ec_short_venue ctx, co_symbol = ec_symbol ctx, co_side = BUY, co_quantity = q, co_reduce_only = True\<rparr>) \<and>
     (\<forall>fee1 fee2. ce_net_quote (compute_close_pnl (open_position.truncate d)
          \<lparr>cf_quantity = q, cf_price = ef_price long_fill, cf_fee_quote = fee1\<rparr>
          \<lparr>cf_quantity = q, cf_price = ef_price short_fill, cf_fee_quote = fee2\<rparr>) = - or_num fee1 0 - or_num fee2 0)"
proof -
  have q: "0 \<le> q" "q \<le> ef_quantity long_fill" "q \<le> ef_quantity short_fill"
    using assms(1,2) by (simp_all add: q_def long_fill_def short_fill_def)
  have share: "share long_fill = prorated_fee q long_fill" "share short_fill = prorated_fee q short_fill"
    using q by (auto simp: share_def q_def [symmetric] prorated_fee_def or_num_def split: option.splits)
  have place: "op_long_venue d = ec_long_venue ctx" "op_short_venue d = ec_short_venue ctx" "op_symbol d = ec_symbol ctx"
    by (simp_all add: d_def build_open_position_def Let_def split_beta)
  have d: "op_long_quantity d = q" "op_short_quantity d = q" "op_long_entry_price d = ef_price long_fill"
    "op_short_entry_price d = ef_price short_fill" "od_long_entry_fee_quote d = prorated_fee q long_fill"
    "od_short_entry_fee_quote d = prorated_fee q short_fill" "op_current_net_quote d = - (prorated_fee q long_fill + prorated_fee q short_fill)"
    "op_peak_net_quote d = op_current_net_quote d" "\<not> op_funding_captured d" "op_captured_funding_quote d = 0"
    "op_second_stage_funding_quote d = 0"
    by (simp_all add: d_def build_open_position_def q_def long_fill_def short_fill_def side_fills_def Let_def)
  have stage: "op_second_stage_enabled_at_entry d \<Longrightarrow>
       0 < op_funding_timestamp_ms d \<and> op_funding_timestamp_ms d < op_second_funding_timestamp_ms d"
    by (cases "side_fills ctx maker_fill hedge_fill") (simp add: d_def build_open_position_def Let_def)
  have inv: "stage_booked (- (prorated_fee q long_fill + prorated_fee q short_fill)) (open_position.truncate d)"
    by (simp add: stage_booked_def price_net_def d)
  have "run_ok (\<lambda>p t. update_position_funding_capture_state t h p) (\<lambda>_ _. True) (open_position.truncate d) ts" by simp
  from capturing.run_inv [OF inv this] have "stage_booked (- (prorated_fee q long_fill + prorated_fee q short_fill)) p"
    by (simp add: p_def)
  moreover have "ce_net_quote (compute_close_pnl (open_position.truncate d)
          \<lparr>cf_quantity = q, cf_price = ef_price long_fill, cf_fee_quote = fee1\<rparr>
          \<lparr>cf_quantity = q, cf_price = ef_price short_fill, cf_fee_quote = fee2\<rparr>) = - or_num fee1 0 - or_num fee2 0" for fee1 fee2
    by (simp add: compute_close_pnl_def d Let_def)
  moreover have "build_reduce_only_close_orders (open_position.truncate d) =
       (\<lparr>co_venue = ec_long_venue ctx, co_symbol = ec_symbol ctx, co_side = SELL, co_quantity = q, co_reduce_only = True\<rparr>,
        \<lparr>co_venue = ec_short_venue ctx, co_symbol = ec_symbol ctx, co_side = BUY, co_quantity = q, co_reduce_only = True\<rparr>)"
    using q(1) by (simp add: build_reduce_only_close_orders_def d place)
  ultimately show ?thesis using d place stage prorated_fee_bounds [OF q(1,2)] prorated_fee_bounds [OF q(1,3)]
    unfolding share by (simp add: stage_booked_def)
qed

section \<open>Samples\<close>

definition sample_evidence :: entry_evidence where
  "sample_evidence = \<lparr>ev_expected_edge_bps_entry = 5, ev_worst_case_edge_bps_entry = 3, ev_first_funding_leg = ''long'',
     ev_entry_maker_leg = ''short'', ev_exit_maker_leg = ''long'', ev_entry_cross_bps_entry = 0, ev_fee_bps_entry = 4,
     ev_entry_slippage_bps_entry = 1, ev_transfer_bias_bps_entry = 0, ev_transfer_state_at_entry = None,
     ev_entry_liquidity_source_at_entry = None, ev_long_volume_24h_quote_at_entry = 0, ev_short_volume_24h_quote_at_entry = 0,
     ev_long_open_interest_quote_at_entry = 0, ev_short_open_interest_quote_at_entry = 0, ev_long_entry_vwap = None,
     ev_short_entry_vwap = None, ev_entry_capacity_constrained = False, ev_entry_target_quantity = 2,
     ev_long_max_executable_quantity = 0, ev_short_max_executable_quantity = 0, ev_entry_max_executable_quantity = 0,
     ev_entry_depth_shortfall_quantity = 0, ev_entry_max_executable_notional_quote = 0, ev_entry_depth_capped_at_entry = False,
     ev_advisories = [], ev_blocked_reasons = []\<rparr>"

definition sample_context :: entry_context where
  "sample_context = \<lparr>ec_entry_id = ''entry-1'', ec_symbol = ''BTCUSDT'', ec_long_venue = OKX, ec_short_venue = GATE,
     ec_long_quantity = 2, ec_short_quantity = 2, ec_long_price_hint = 100, ec_short_price_hint = 101, ec_maker_leg = SELL,
     ec_entry_type = PASSIVE_INCREMENTAL, ec_state = IDLE, ec_opportunity_type = ''staggered'', ec_funding_timestamp_ms = 0,
     ec_first_funding_timestamp_ms = 0, ec_long_funding_timestamp_ms = 5000, ec_short_funding_timestamp_ms = 9000,
     ec_second_funding_timestamp_ms = 0, ec_funding_edge_bps_entry = 8, ec_total_funding_edge_bps_entry = 0,
     ec_exit_after_first_stage = False, ec_evidence = sample_evidence\<rparr>"

lemma entry_orders_open_one_pair_witness:
  "eo_side (fst (build_entry_orders (\<lambda>_. replicate 32 171) sample_context)) = SELL \<and>
   eo_post_only (fst (build_entry_orders (\<lambda>_. replicate 32 171) sample_context)) \<and>
   eo_venue (snd (build_entry_orders (\<lambda>_. replicate 32 171) sample_context)) = OKX"
proof -
  have "eo_venue (snd (build_entry_orders (\<lambda>_. replicate 32 171) sample_context)) = OKX"
    by (simp add: build_entry_orders_def sample_context_def Let_def)
  with entry_orders_open_one_pair [OF prod.collapse [symmetric], of "\<lambda>_. replicate 32 171" sample_context] show ?thesis
    by (simp add: sample_context_def)
qed

lemma fresh_position_balances_witness:
  "op_long_quantity (build_open_position sample_context
      \<lparr>ef_quantity = 2, ef_price = 101, ef_fee_quote = Some (Fin 1), ef_filled_at_ms = 40\<rparr>
      \<lparr>ef_quantity = 3/2, ef_price = 100, ef_fee_quote = None, ef_filled_at_ms = 50\<rparr> 60 None) = 3/2"
proof -
  let ?m = "\<lparr>ef_quantity = 2, ef_price = 101, ef_fee_quote = Some (Fin 1), ef_filled_at_ms = 40\<rparr>"
  let ?h = "\<lparr>ef_quantity = 3/2, ef_price = 100, ef_fee_quote = None, ef_filled_at_ms = 50\<rparr>"
  from fresh_position_balances [of ?m ?h sample_context 60 None] show ?thesis by simp
qed

end
