(* ===== verification/Order_Truth.thy ===== *)
theory Order_Truth
  imports Py_Value Backoff Pending_Entry
begin

text \<open>
  What became of an order (\<open>engine/order_truth_ledger.py\<close>, \<open>engine/bybit_duplicate_reconcile.py\<close>,
  \<open>engine/reconciliation.py\<close>): whether an order is filled, known not to be filled or still unknown,
  from what the exchange answered; what to do when an exchange refuses a client order id as a
  duplicate; and the reconciliation of the two legs of a position. What an adapter returns is a
  parameter: untyped answers, a position, the events of its diagnostics, or the text of an exception.

  The lemmas: a fill is believed only on proof of a fill, and its absence only on proof that nothing
  is held or open; what is unknown stays unknown, with the evidence that is missing; and a retry
  after a duplicate never asks for more than is missing or than the exchange shows.
\<close>

section \<open>Reading answers\<close>

definition positive_float :: "pyval \<Rightarrow> pyfloat" where
  "positive_float v =
     (if type_name v \<notin> {''bool'', ''int'', ''float'', ''str''} then Fin 0
      else case py_float (py_or v (PInt 0)) of
             Inl _ \<Rightarrow> Fin 0
           | Inr x \<Rightarrow> if float_less x (Fin 0) then float_neg x else x)"

definition tuple_texts :: "pyval \<Rightarrow> string list" where
  "tuple_texts v = (case v of
       PNone \<Rightarrow> []
     | PStr s \<Rightarrow> if s = [] then [] else [s]
     | PDict d \<Rightarrow> filter (\<lambda>s. s \<noteq> []) (map fst d)
     | PList xs \<Rightarrow> filter (\<lambda>s. s \<noteq> []) (map py_str xs)
     | PTuple xs \<Rightarrow> filter (\<lambda>s. s \<noteq> []) (map py_str xs)
     | _ \<Rightarrow> if py_str v = [] then [] else [py_str v])"

definition dict_update :: "obj \<Rightarrow> obj \<Rightarrow> obj" where
  "dict_update d e = foldl (\<lambda>d (k, v). dict_put k v d) d e"

definition any_in :: "string list \<Rightarrow> string \<Rightarrow> bool" where
  "any_in markers text = list_ex (\<lambda>m. py_contains m text) markers"

text \<open>\<open>d.get(k) or d.get(j) or \<dots>\<close>, read only for its truth or as a text: a value that is not true is None.\<close>

definition first_true :: "obj \<Rightarrow> string list \<Rightarrow> pyval" where
  "first_true d ks = foldr (\<lambda>k v. py_or (dget d k) v) ks PNone"

section \<open>Fill truth\<close>

definition classification_is_fail_closed :: "string \<Rightarrow> bool" where
  "classification_is_fail_closed = any_in
     [''positive_quantity_missing_side'', ''missing_side'', ''invalid_side'', ''family_unresolved'',
      ''account_identity_mismatch'', ''account_mismatch'', ''account_address_missing'',
      ''unsupported_fail_closed'', ''unsupported'']"

definition classification_is_weak_fill_source :: "string \<Rightarrow> bool" where
  "classification_is_weak_fill_source = any_in
     [''okx_order_detail'', ''bybit_order_realtime'', ''bybit_order_history'', ''binance_order_status'',
      ''aster_order_status'', ''bitget_order_detail'', ''gate_order_detail'', ''detail_found;fills_empty'',
      ''fills_empty'', ''execution_not_found'', ''accepted_ack_without_execution'', ''stale_accepted_order'',
      ''new'', ''pending_new'']"

definition classification_is_terminal_no_fill_truth :: "string \<Rightarrow> bool" where
  "classification_is_terminal_no_fill_truth text =
     any_in [''canceled'', ''cancelled'', ''expired'', ''rejected'', ''terminal_no_fill''] (py_lower text)"

definition endpoint_is_fill_truth :: "venue \<Rightarrow> string list \<Rightarrow> bool" where
  "endpoint_is_fill_truth venue endpoints =
     (let endpoint_text = joined '' '' (map py_lower endpoints)
      in case venue of
           OKX \<Rightarrow> py_contains ''/api/v5/trade/fills'' endpoint_text
         | BYBIT \<Rightarrow> py_contains ''/v5/execution/list'' endpoint_text
         | _ \<Rightarrow> False)"

definition explicit_truth :: "obj \<Rightarrow> bool" where
  "explicit_truth metadata = list_ex (\<lambda>k. truth (dget metadata k))
     [''normalized_fill_truth'', ''normalized_execution_truth'', ''fill_truth'', ''execution_truth'',
      ''order_fill_truth'', ''live_fill_truth'']"

definition classification_is_terminal_fill_truth :: "venue \<Rightarrow> obj \<Rightarrow> string \<Rightarrow> bool" where
  "classification_is_terminal_fill_truth venue metadata classification_text =
     (let text = py_lower classification_text;
          source = py_lower (text_of (dget metadata ''evidence_source''));
          response = py_lower (text_of (first_true metadata [''response_classification'', ''classification'']));
          raw_status = py_lower (text_of (dget metadata ''raw_exchange_status''))
      in if metadata = [] then False else if explicit_truth metadata then True
         else case venue of
           OKX \<Rightarrow> source \<in> {''okx_fills'', ''okx_fills_history'', ''okx_trade_fills''}
         | BYBIT \<Rightarrow> source \<in> {''bybit_execution_list'', ''bybit_private_execution''}
         | BINANCE \<Rightarrow> if raw_status = ''filled'' then True else py_startswith response ''filled_after_''
         | ASTER \<Rightarrow> if raw_status = ''filled'' then True else py_startswith response ''filled_after_''
         | BITGET \<Rightarrow>
             truth (first_true metadata [''resolved_account_family'', ''account_family'', ''contract_family'', ''product_type'']) \<and>
             py_lower (text_of (first_true metadata [''side'', ''resolved_side''])) \<in> {''buy'', ''sell'', ''long'', ''short''} \<and>
             (any_in [''fill'', ''fills'', ''trade''] source \<or> raw_status = ''filled'' \<or> py_startswith response ''filled'')
         | GATE \<Rightarrow>
             any_in [''fill'', ''fills'', ''trade'', ''execution''] source \<or> raw_status = ''filled'' \<or>
             py_startswith response ''filled''
         | HYPERLIQUID \<Rightarrow>
             (truth (first_true metadata [''account'', ''account_address'', ''configured_account'', ''configured_account_address'']) \<and>
              truth (first_true metadata [''oid'', ''order_id'', ''cloid'', ''client_order_id''])) \<and>
             (raw_status = ''filled'' \<or> py_startswith response ''filled'' \<or> py_contains ''filled'' text))"

definition fill_truth_source_is_confirmed :: "venue \<Rightarrow> obj \<Rightarrow> string list \<Rightarrow> string \<Rightarrow> bool" where
  "fill_truth_source_is_confirmed venue metadata endpoints classification_text =
     (let text = py_lower classification_text
      in if metadata = [] then False else if classification_is_fail_closed text then False
         else if venue \<in> {BINANCE, ASTER} \<and> classification_is_terminal_fill_truth venue metadata text then True
         else if classification_is_weak_fill_source text then False
         else endpoint_is_fill_truth venue endpoints \<or> classification_is_terminal_fill_truth venue metadata text)"

definition missing_order_truth_evidence :: "venue \<Rightarrow> string \<Rightarrow> string list \<Rightarrow> string list" where
  "missing_order_truth_evidence venue classification_text endpoints =
     (let endpoint_text = joined '' '' (map py_lower endpoints);
          has = (\<lambda>m. py_contains m classification_text);
          missing =
            (case venue of
               OKX \<Rightarrow> if py_contains ''fills'' endpoint_text then [] else [''okx_fills_or_fills_history'']
             | BYBIT \<Rightarrow> if py_contains ''execution'' endpoint_text then [] else [''bybit_execution_list'']
             | BINANCE \<Rightarrow> [''executed_qty_positive'', ''open_order_or_position_truth'']
             | ASTER \<Rightarrow> [''executed_qty_positive'', ''open_order_or_position_truth'']
             | BITGET \<Rightarrow> [''bitget_fill_truth_with_side_and_family'']
             | GATE \<Rightarrow> [''gate_order_open_position_truth'']
             | HYPERLIQUID \<Rightarrow> [''hyperliquid_configured_account_order_truth'']) @
            (if has ''fills_empty'' \<or> has ''execution_not_found'' then [''positive_exchange_fill''] else []) @
            (if has ''stale_accepted_order'' \<or> has ''new'' then [''terminal_order_or_live_position_truth''] else []) @
            (if has ''accepted_ack'' \<or> has ''ack_without_execution'' then [''post_ack_execution_truth''] else []) @
            (if endpoints = [] then [''fill_confirmation''] else [])
      in first_occurrences (if missing = [] then [''fill_confirmation''] else missing))"

section \<open>Order success\<close>

datatype fill_status =
    CONFIRMED_FILL | CONFIRMED_NO_FILL | TRUTH_GAP | LIVE_POSITION_PRESENT | LIVE_FLAT | UNSUPPORTED_FAIL_CLOSED

fun fill_status_value :: "fill_status \<Rightarrow> string" where
  "fill_status_value CONFIRMED_FILL = ''confirmed_fill''"
| "fill_status_value CONFIRMED_NO_FILL = ''confirmed_no_fill''"
| "fill_status_value TRUTH_GAP = ''truth_gap''"
| "fill_status_value LIVE_POSITION_PRESENT = ''live_position_present''"
| "fill_status_value LIVE_FLAT = ''live_flat''"
| "fill_status_value UNSUPPORTED_FAIL_CLOSED = ''unsupported_fail_closed''"

datatype evidence_status = AVAILABLE | EVIDENCE_UNAVAILABLE

record success_decision =
  sd_fill_status :: fill_status
  sd_evidence_status :: evidence_status
  sd_decision :: string
  sd_venue :: venue
  sd_symbol :: string
  sd_target_qty :: pyfloat
  sd_reconciled_qty :: pyfloat
  sd_live_qty :: pyfloat
  sd_remaining_qty :: pyfloat
  sd_order_id :: string
  sd_client_order_id :: string
  sd_average_price :: pyfloat
  sd_queried_endpoints :: "string list"
  sd_missing_evidence :: "string list"
  sd_response_classification :: string
  sd_terminal_without_truth :: bool

definition confirmed_fill :: "success_decision \<Rightarrow> bool" where
  "confirmed_fill d \<longleftrightarrow> sd_fill_status d = CONFIRMED_FILL \<and> float_above eps (sd_reconciled_qty d)"

text \<open>The arguments of \<open>resolve_order_success\<close>.\<close>

record success_query =
  sq_venue :: venue
  sq_symbol :: string
  sq_order_id :: string
  sq_client_order_id :: string
  sq_target_qty :: pyval
  sq_reconciliation :: pyval
  sq_metadata :: pyval
  sq_live_position :: pyval
  sq_open_order_present :: "bool option"

definition merged_metadata :: "success_query \<Rightarrow> obj" where
  "merged_metadata q =
     dict_update (dict_update [] (mapping_part (py_getattr (sq_reconciliation q) ''metadata'' PNone))) (mapping_part (sq_metadata q))"

definition sq_classification :: "success_query \<Rightarrow> string" where
  "sq_classification q =
     text_of (first_true (merged_metadata q) [''response_classification'', ''classification'', ''raw_exchange_status''])"

definition sq_classification_text :: "success_query \<Rightarrow> string" where
  "sq_classification_text q = joined '' '' (map py_lower (filter (\<lambda>s. s \<noteq> [])
     [sq_classification q, text_of (dget (merged_metadata q) ''evidence_source''),
      text_of (dget (merged_metadata q) ''raw_exchange_status'')]))"

definition sq_endpoints :: "success_query \<Rightarrow> string list" where
  "sq_endpoints q = tuple_texts (dget (merged_metadata q) ''queried_endpoints'')"

definition quantity_of :: "pyval \<Rightarrow> pyfloat" where
  "quantity_of v = positive_float (py_getattr v ''quantity'' (PInt 0))"

definition price_of :: "pyval \<Rightarrow> pyval" where
  "price_of v = py_getattr v ''average_price'' (py_getattr v ''price'' (PFloat (Fin 0) ''0.0''))"

definition target_of :: "pyval \<Rightarrow> pyfloat" where
  "target_of v = py_fmax (positive_float v) (Fin 0)"

text \<open>What all outcomes have in common.\<close>

definition base_decision :: "success_query \<Rightarrow> success_decision" where
  "base_decision q = \<lparr>sd_fill_status = TRUTH_GAP, sd_evidence_status = EVIDENCE_UNAVAILABLE, sd_decision = ''retain_backoff'',
     sd_venue = sq_venue q, sd_symbol = sq_symbol q, sd_target_qty = target_of (sq_target_qty q), sd_reconciled_qty = Fin 0,
     sd_live_qty = quantity_of (sq_live_position q), sd_remaining_qty = target_of (sq_target_qty q),
     sd_order_id = text_of (py_or (py_getattr (sq_reconciliation q) ''order_id'' (PStr [])) (PStr (sq_order_id q))),
     sd_client_order_id = text_of (py_or (py_getattr (sq_reconciliation q) ''client_order_id'' PNone) (PStr (sq_client_order_id q))),
     sd_average_price = Fin 0, sd_queried_endpoints = sq_endpoints q, sd_missing_evidence = [],
     sd_response_classification = sq_classification q, sd_terminal_without_truth = False\<rparr>"

definition resolve_order_success :: "success_query \<Rightarrow> success_decision" where
  "resolve_order_success q =
     (let text = sq_classification_text q; rec = sq_reconciliation q; live = sq_live_position q;
          reconciled_qty = quantity_of rec; live_qty = quantity_of live;
          no_open_order_truth = (sq_open_order_present q = Some False);
          live_flat_truth = (live \<noteq> PNone \<and> float_le live_qty (Fin eps));
          terminal_no_fill_truth = (live_flat_truth \<and> no_open_order_truth \<and> classification_is_terminal_no_fill_truth text)
      in if classification_is_fail_closed text
         then (base_decision q)\<lparr>sd_fill_status := UNSUPPORTED_FAIL_CLOSED, sd_decision := ''retain_fail_closed'',
                sd_missing_evidence := [''supported_fill_truth'']\<rparr>
         else if rec \<noteq> PNone \<and> float_above eps reconciled_qty \<and>
                 fill_truth_source_is_confirmed (sq_venue q) (merged_metadata q) (sq_endpoints q) text
         then (base_decision q)\<lparr>sd_fill_status := CONFIRMED_FILL, sd_evidence_status := AVAILABLE,
                sd_decision := ''terminal_fill'', sd_reconciled_qty := reconciled_qty,
                sd_remaining_qty := py_fmax (float_sub (target_of (sq_target_qty q)) reconciled_qty) (Fin 0),
                sd_average_price := positive_float (price_of rec)\<rparr>
         else if float_above eps live_qty
         then (base_decision q)\<lparr>sd_fill_status := LIVE_POSITION_PRESENT, sd_evidence_status := AVAILABLE,
                sd_decision := ''retain_owned_cleanup'', sd_missing_evidence := [''fill_confirmation'']\<rparr>
         else if py_contains ''live_flat'' text \<or> no_open_order_truth \<and> py_contains ''no_open_order'' text \<or> terminal_no_fill_truth
         then (base_decision q)\<lparr>sd_fill_status := LIVE_FLAT, sd_evidence_status := AVAILABLE, sd_decision := ''terminal_no_fill''\<rparr>
         else (base_decision q)\<lparr>sd_missing_evidence := missing_order_truth_evidence (sq_venue q) text (sq_endpoints q)\<rparr>)"

section \<open>Accepted orders and truth gaps\<close>

text \<open>What the ledger reads of an error: whether it is an \<open>OrderSubmitError\<close> that is uncertain, its
  text, and the flag of an order that was only acknowledged.\<close>

record order_error =
  oe_uncertain_submit :: bool
  oe_text :: string
  oe_order_ack_only :: bool

definition is_order_truth_gap :: "order_error \<Rightarrow> bool" where
  "is_order_truth_gap error =
     (if oe_order_ack_only error then True
      else if \<not> oe_uncertain_submit error then False
      else let text = py_lower (oe_text error)
           in py_contains ''fill not confirmed'' text \<or> py_contains ''no order id and no fill data'' text \<or>
              py_contains ''order response contains no order id'' text)"

definition accepted_order_state :: "order_error \<Rightarrow> string" where
  "accepted_order_state error =
     (if oe_order_ack_only error then ''ack_only_accepted''
      else if is_order_truth_gap error then ''truth_gap'' else ''unresolved'')"

record truth_decision =
  td_state :: string
  td_classification :: string
  td_decision :: string
  td_target_qty :: pyfloat
  td_reconciled_qty :: pyfloat
  td_live_qty :: pyfloat
  td_remaining_qty :: pyfloat
  td_retry_qty :: pyfloat
  td_live_side :: pyval
  td_order_id :: pyval
  td_client_order_id :: pyval
  td_average_price :: pyfloat
  td_reconcile_error :: string
  td_live_fetch_error :: string

definition simple_decision :: "string \<Rightarrow> string \<Rightarrow> string \<Rightarrow> truth_decision" where
  "simple_decision state classification decision =
     \<lparr>td_state = state, td_classification = classification, td_decision = decision, td_target_qty = Fin 0,
      td_reconciled_qty = Fin 0, td_live_qty = Fin 0, td_remaining_qty = Fin 0, td_retry_qty = Fin 0, td_live_side = PNone,
      td_order_id = PStr [], td_client_order_id = PStr [], td_average_price = Fin 0, td_reconcile_error = [],
      td_live_fetch_error = []\<rparr>"

definition clear_state :: "truth_decision \<Rightarrow> bool" where
  "clear_state d \<longleftrightarrow> td_decision d \<in> {''clear'', ''clear_live_flat''}"

definition should_retry_with_new_client_id :: "truth_decision \<Rightarrow> bool" where
  "should_retry_with_new_client_id d \<longleftrightarrow> td_decision d = ''retry_new_client_order_id'' \<and> float_above eps (td_retry_qty d)"

definition truth_gap_status_decision :: "string \<Rightarrow> truth_decision" where
  "truth_gap_status_decision status =
     (let status_text = py_lower status
      in if status_text \<in> {''filled'', ''accepted_order_reconciled''} then simple_decision ''resolved_flat'' status_text ''clear''
         else if status_text \<in> {''live_flat'', ''accepted_order_live_flat''}
         then simple_decision ''resolved_flat'' status_text ''clear_live_flat''
         else if status_text \<in> {''open_order_present'', ''position_present'', ''live_position_present''}
         then simple_decision ''resolved_position'' status_text ''retain''
         else simple_decision ''unresolved'' (if status_text = [] then ''truth_gap'' else status_text) ''backoff_recheck'')"

definition duplicate_reconcile_state :: "string \<Rightarrow> string \<Rightarrow> string" where
  "duplicate_reconcile_state classification decision =
     (let c = py_lower classification; d = py_lower decision
      in if d \<in> {''clear'', ''clear_live_flat''} then ''resolved_flat''
         else if d \<in> {''retry_new_client_order_id'', ''retain''} then ''resolved_position''
         else if d \<in> {''backoff_recheck'', ''reconcile_before_terminal''} then ''unresolved''
         else if c = ''full'' then ''resolved_flat''
         else if c \<in> {''partial'', ''stale_full_live_nonzero''} then ''resolved_position'' else ''unresolved'')"

section \<open>Duplicate client order ids\<close>

record duplicate_query =
  dq_client_order_id :: string
  dq_target_qty :: pyval
  dq_reconciliation :: pyval
  dq_live_pos_before :: pyval
  dq_live_pos_after :: pyval
  dq_reconcile_error :: string
  dq_live_fetch_error :: string
  dq_live_fetch_attempted :: bool

definition dq_live :: "duplicate_query \<Rightarrow> pyval" where
  "dq_live q = (if dq_live_fetch_attempted q \<and> dq_live_fetch_error q = [] then dq_live_pos_after q else dq_live_pos_before q)"

text \<open>The state, the classification, the decision and the remaining quantity.\<close>

definition duplicate_outcome :: "duplicate_query \<Rightarrow> string \<times> string \<times> string \<times> pyfloat" where
  "duplicate_outcome q =
     (let reconciled_qty = quantity_of (dq_reconciliation q); target_qty = target_of (dq_target_qty q);
          remaining_qty = py_fmax (float_sub target_qty reconciled_qty) (Fin 0);
          live_qty = quantity_of (dq_live q);
          live_flat = (dq_live_fetch_attempted q \<and> dq_live_fetch_error q = [] \<and> float_le live_qty (Fin eps));
          full = (float_le (py_fmax (float_sub target_qty (Fin eps)) (Fin 0)) reconciled_qty \<and> float_above 0 reconciled_qty)
      in if full \<and> dq_live_fetch_error q \<noteq> [] then (''unresolved'', ''unknown_transient'', ''backoff_recheck'', remaining_qty)
         else if full \<and> float_above eps live_qty
         then (''resolved_position'', ''stale_full_live_nonzero'', ''retry_new_client_order_id'', live_qty)
         else if full then (''resolved_flat'', ''full'', ''clear_live_flat'', remaining_qty)
         else if live_flat
         then (''resolved_flat'', if float_le reconciled_qty (Fin eps) then ''none'' else ''partial'', ''clear_live_flat'', remaining_qty)
         else if float_above eps reconciled_qty then (''resolved_position'', ''partial'', ''retry_new_client_order_id'', remaining_qty)
         else if dq_reconcile_error q \<noteq> [] \<or> dq_live_fetch_error q \<noteq> []
         then (''unresolved'', ''unknown_transient'', ''backoff_recheck'', remaining_qty)
         else (''unresolved'', ''none'', ''backoff_recheck'', remaining_qty))"

definition resolve_duplicate_conflict :: "duplicate_query \<Rightarrow> truth_decision" where
  "resolve_duplicate_conflict q =
     (let (state, classification, decision, remaining_qty) = duplicate_outcome q;
          live_qty = quantity_of (dq_live q); rec = dq_reconciliation q
      in \<lparr>td_state = state, td_classification = classification, td_decision = decision,
          td_target_qty = target_of (dq_target_qty q), td_reconciled_qty = quantity_of rec, td_live_qty = live_qty,
          td_remaining_qty = remaining_qty,
          td_retry_qty = (if decision = ''retry_new_client_order_id'' \<and> float_above eps live_qty
             then py_fmin remaining_qty live_qty else remaining_qty),
          td_live_side = py_getattr (py_getattr (dq_live q) ''side'' PNone) ''value'' PNone,
          td_order_id = (if rec \<noteq> PNone then py_getattr rec ''order_id'' (PStr []) else PStr []),
          td_client_order_id = (if rec \<noteq> PNone then py_or (py_getattr rec ''client_order_id'' PNone) (PStr (dq_client_order_id q))
             else PStr (dq_client_order_id q)),
          td_average_price = positive_float (price_of rec), td_reconcile_error = dq_reconcile_error q,
          td_live_fetch_error = dq_live_fetch_error q\<rparr>)"

text \<open>The response that says duplicate, and its reconciliation with two calls of the adapter: each
  returns a value or raises, with the text of the exception.\<close>

definition is_duplicate_client_order_error :: "venue \<Rightarrow> pyval \<Rightarrow> bool" where
  "is_duplicate_client_order_error venue error =
     (let parts = text_of error # map py_str (filter truth (map (\<lambda>k. py_getattr error k (PStr []))
            [''exchange_response_body'', ''raw_response'', ''body'', ''code'', ''msg'']));
          text = py_replace ''_'' [] (py_lower (joined '' '' parts))
      in case venue of
           BYBIT \<Rightarrow> py_contains ''110072'' text \<or> py_contains ''orderlinkedid'' text \<and> py_contains ''duplicate'' text
         | BITGET \<Rightarrow> py_contains ''40786'' text \<or>
             (py_contains ''duplicate clientoid'' text \<or> py_contains ''clientoid'' text \<and> py_contains ''duplicate'' text)
         | _ \<Rightarrow> False)"

definition reconcile_duplicate_client_order ::
  "string \<Rightarrow> pyval \<Rightarrow> pyval \<Rightarrow> string + pyval \<Rightarrow> string + pyval \<Rightarrow> truth_decision" where
  "reconcile_duplicate_client_order client_order_id target_qty live_pos_before fill_answer position_answer =
     resolve_duplicate_conflict
       \<lparr>dq_client_order_id = client_order_id, dq_target_qty = target_qty,
        dq_reconciliation = (case fill_answer of Inl _ \<Rightarrow> PNone | Inr v \<Rightarrow> v), dq_live_pos_before = live_pos_before,
        dq_live_pos_after = (case position_answer of Inl _ \<Rightarrow> PNone | Inr v \<Rightarrow> v),
        dq_reconcile_error = (case fill_answer of Inl e \<Rightarrow> e | Inr _ \<Rightarrow> []),
        dq_live_fetch_error = (case position_answer of Inl e \<Rightarrow> e | Inr _ \<Rightarrow> []), dq_live_fetch_attempted = True\<rparr>"

section \<open>Reconciliation of the legs of a position\<close>

record live_position =
  lp_side :: string
  lp_quantity :: pyfloat

text \<open>What one adapter answers for a symbol: the fill of an order (by its id and client id), the
  position, and the diagnostics it recorded meanwhile.\<close>

record order_adapter =
  oa_fetch_fill :: "string \<Rightarrow> string \<Rightarrow> pyval"
  oa_fetch_position :: "live_position option"
  oa_diagnostics :: "obj list"

definition float_abs :: "pyfloat \<Rightarrow> pyfloat" where
  "float_abs x = (if float_less x (Fin 0) then float_neg x else x)"

definition recon_fill_price :: "pyval \<Rightarrow> pyval" where
  "recon_fill_price v = (if v = PNone then PFloat (Fin 0) ''0.0'' else price_of v)"

definition recon_list :: "pyval \<Rightarrow> pyval list" where
  "recon_list v = (case v of PNone \<Rightarrow> [] | PStr s \<Rightarrow> if s = [] then [] else [PStr s]
     | PList xs \<Rightarrow> xs | PTuple xs \<Rightarrow> xs | _ \<Rightarrow> [v])"

definition endpoint_evidence_proves_no_effect :: "string \<Rightarrow> string \<Rightarrow> bool" where
  "endpoint_evidence_proves_no_effect subtype response_classification =
     (let text = py_lower (subtype @ '' '' @ response_classification)
      in if py_contains ''accepted'' text \<or> py_contains ''stale_accepted'' text then False
         else subtype \<in> {''execution_not_found'', ''open_order_not_found'', ''closed_order_not_found''} \<or>
              py_contains ''execution_not_found'' text \<or> py_contains ''no_execution'' text \<or>
              py_contains ''not_found'' text \<and> \<not> py_contains ''accepted'' text)"

definition query_proves_terminal_zero_fill :: "obj \<Rightarrow> bool" where
  "query_proves_terminal_zero_fill payload \<longleftrightarrow>
     py_str (py_get (PDict payload) ''response_classification'' (PStr [])) = ''terminal_zero_fill'' \<and>
     py_str (py_get (PDict payload) ''uncertain_subtype'' (PStr [])) = ''execution_not_found''"

definition query_has_terminal_fill_quantity_unavailable :: "obj \<Rightarrow> bool" where
  "query_has_terminal_fill_quantity_unavailable payload \<longleftrightarrow>
     py_str (py_get (PDict payload) ''response_classification'' (PStr [])) = ''terminal_fill_quantity_unavailable'' \<and>
     py_str (py_get (PDict payload) ''uncertain_subtype'' (PStr [])) = ''execution_fields_unavailable''"

definition latest_query_payload :: "obj list \<Rightarrow> obj" where
  "latest_query_payload events =
     (case find (\<lambda>e. dget e ''kind'' = PStr ''order.reconcile_query'') (rev events) of
        None \<Rightarrow> [] | Some e \<Rightarrow> mapping_part (dget e ''payload''))"

record leg_status =
  rt_status :: string
  rt_raw_status :: string
  rt_subtype :: string
  rt_response_classification :: string
  rt_endpoints :: "string list"
  rt_endpoint_responses :: "pyval list"
  rt_next_action :: string

text \<open>The question that the ledger is asked for a fill: the metadata of the fill goes before the
  diagnostics of the query.\<close>

definition recon_metadata :: "pyval \<Rightarrow> obj" where
  "recon_metadata rec = mapping_part (py_getattr rec ''metadata'' PNone)"

definition recon_query :: "venue \<Rightarrow> string \<Rightarrow> string \<Rightarrow> string \<Rightarrow> pyval \<Rightarrow> obj \<Rightarrow> success_query" where
  "recon_query venue symbol order_id client_order_id rec query_payload =
     (let meta = recon_metadata rec;
          text = (\<lambda>given k. if given \<noteq> [] then given else text_of (py_getattr rec k (PStr [])))
      in \<lparr>sq_venue = venue, sq_symbol = text symbol ''symbol'', sq_order_id = text order_id ''order_id'',
          sq_client_order_id = text client_order_id ''client_order_id'',
          sq_target_qty = py_getattr rec ''quantity'' (PInt 0), sq_reconciliation = rec,
          sq_metadata = PDict (dict_update [] meta @ filter (\<lambda>(k, _). \<not> has_key meta k) (dict_update [] query_payload)),
          sq_live_position = PNone, sq_open_order_present = None\<rparr>)"

text \<open>The quantity of a fill that an adapter returns is a number.\<close>

definition positive_number :: "pyval \<Rightarrow> bool" where
  "positive_number v = (case number_of v of Some x \<Rightarrow> float_above 0 x | None \<Rightarrow> False)"

definition or_text :: "string \<Rightarrow> string \<Rightarrow> string" where
  "or_text s t = (if s = [] then t else s)"

definition derived_subtype :: "string \<Rightarrow> string" where
  "derived_subtype response_classification =
     (let text = py_lower response_classification; has = (\<lambda>m. py_contains m text)
      in if has ''timeout'' then ''submit_timeout'' else if has ''duplicate'' then ''duplicate_client_id''
         else if has ''open'' \<and> has ''not_found'' then ''open_order_not_found''
         else if has ''closed'' \<and> has ''not_found'' then ''closed_order_not_found''
         else if has ''accepted'' \<or> has ''new'' \<or> has ''open'' then ''stale_accepted_order'' else ''execution_not_found'')"

text \<open>What the metadata of the fill and the payload of the query say together.\<close>

definition leg_endpoints :: "obj \<Rightarrow> obj \<Rightarrow> pyval list" where
  "leg_endpoints meta payload =
     (let own = recon_list (first_true meta [''queried_endpoints'', ''reconcile_endpoints''])
      in if own = [] then recon_list (dget payload ''queried_endpoints'') else own)"

definition leg_responses :: "obj \<Rightarrow> obj \<Rightarrow> pyval list" where
  "leg_responses meta payload =
     (let own = recon_list (dget meta ''endpoint_responses'')
      in if own = [] then recon_list (dget payload ''endpoint_responses'') else own)"

definition leg_classification :: "obj \<Rightarrow> obj \<Rightarrow> string" where
  "leg_classification meta payload = text_of (py_or (py_or (dget meta ''response_classification'')
     (dget payload ''response_classification'')) (dget meta ''raw_exchange_status''))"

definition leg_text :: "string \<Rightarrow> obj \<Rightarrow> obj \<Rightarrow> string" where
  "leg_text k meta payload = text_of (py_or (dget meta k) (dget payload k))"

definition live_position_confirmed :: "obj \<Rightarrow> obj \<Rightarrow> bool" where
  "live_position_confirmed meta payload \<longleftrightarrow>
     leg_text ''uncertain_subtype'' meta payload = ''live_position_confirmed'' \<or>
     leg_classification meta payload = ''live_position_confirmed'' \<or>
     truth (dget meta ''live_position_confirmed'') \<or> truth (dget payload ''live_position_confirmed'')"

definition leg_answer :: "obj \<Rightarrow> obj \<Rightarrow> string \<Rightarrow> string \<Rightarrow> string \<Rightarrow> string \<Rightarrow> string \<Rightarrow> leg_status" where
  "leg_answer meta payload status raw subtype response next_action =
     \<lparr>rt_status = status, rt_raw_status = raw, rt_subtype = subtype, rt_response_classification = response,
      rt_endpoints = map py_str (leg_endpoints meta payload),
      rt_endpoint_responses = filter (\<lambda>e. type_name e = ''dict'') (leg_responses meta payload), rt_next_action = next_action\<rparr>"

definition position_quantity :: "live_position option \<Rightarrow> pyfloat" where
  "position_quantity position = (case position of None \<Rightarrow> Fin 0 | Some p \<Rightarrow> float_abs (lp_quantity p))"

definition status_from_reconciliation ::
  "venue \<Rightarrow> string \<Rightarrow> string \<Rightarrow> string \<Rightarrow> pyval \<Rightarrow> live_position option \<Rightarrow> obj \<Rightarrow> leg_status" where
  "status_from_reconciliation venue symbol order_id client_order_id rec position query_payload =
     (let meta = recon_metadata rec; answer = leg_answer meta query_payload;
          response = leg_classification meta query_payload;
          subtype = leg_text ''uncertain_subtype'' meta query_payload;
          next_action = leg_text ''next_action'' meta query_payload;
          position_qty = position_quantity position;
          has_endpoint_evidence = (leg_endpoints meta query_payload \<noteq> [] \<or> query_payload \<noteq> [])
      in if rec \<noteq> PNone \<and> positive_number (py_getattr rec ''quantity'' (PInt 0))
         then let d = resolve_order_success (recon_query venue symbol order_id client_order_id rec query_payload);
                  fill = fill_status_value (sd_fill_status d);
                  raw = or_text (text_of (dget meta ''raw_exchange_status'')) (or_text response fill)
              in if sd_fill_status d \<noteq> CONFIRMED_FILL
                 then answer fill raw fill (or_text response fill) (or_text next_action (sd_decision d))
                 else answer ''filled'' raw subtype (or_text response ''filled'')
                        (if subtype \<noteq> [] then ''clear_uncertain_state'' else next_action)
         else if float_above (1 / 10 ^ 12) position_qty \<and> has_endpoint_evidence \<and> live_position_confirmed meta query_payload
         then answer ''filled'' (or_text response ''live_position_confirmed'') ''live_position_confirmed''
                (or_text response ''live_position_confirmed'') ''clear_uncertain_state''
         else if position \<noteq> None \<and> float_le position_qty (Fin (1 / 10 ^ 12)) \<and> has_endpoint_evidence \<and>
                 endpoint_evidence_proves_no_effect subtype response
         then answer ''not_found'' (or_text response ''live_no_effect_confirmed'') ''live_no_effect_confirmed''
                (or_text response ''live_no_effect_confirmed'') ''clear_uncertain_state''
         else let sub = or_text subtype (derived_subtype response)
              in answer ''uncertain'' (or_text response sub) sub (or_text response sub)
                   (or_text next_action ''reconcile_again_after_backoff''))"

record leg_result =
  lg_status :: string
  lg_fill :: pyval
  lg_position :: "live_position option"
  lg_terminal_zero_fill :: bool
  lg_terminal_fill_quantity_unavailable :: bool

definition unqueried_leg :: leg_result where
  "unqueried_leg = \<lparr>lg_status = ''uncertain'', lg_fill = PNone, lg_position = None, lg_terminal_zero_fill = False,
     lg_terminal_fill_quantity_unavailable = False\<rparr>"

definition reconcile_leg :: "venue \<Rightarrow> order_adapter \<Rightarrow> string \<Rightarrow> string \<Rightarrow> string \<Rightarrow> leg_result" where
  "reconcile_leg venue adapter symbol order_id client_order_id =
     (let rec = (if order_id \<noteq> [] then oa_fetch_fill adapter order_id client_order_id
            else if client_order_id \<noteq> [] then oa_fetch_fill adapter [] client_order_id else PNone);
          query_payload = latest_query_payload (oa_diagnostics adapter);
          status = rt_status (status_from_reconciliation venue symbol order_id client_order_id rec
             (oa_fetch_position adapter) query_payload)
      in \<lparr>lg_status = status, lg_fill = (if status = ''filled'' \<and> rec \<noteq> PNone then rec else PNone),
          lg_position = oa_fetch_position adapter,
          lg_terminal_zero_fill = query_proves_terminal_zero_fill query_payload,
          lg_terminal_fill_quantity_unavailable = query_has_terminal_fill_quantity_unavailable query_payload\<rparr>)"

record position_reconciliation =
  rp_position_id :: string
  rp_symbol :: string
  rp_long :: leg_result
  rp_short :: leg_result
  rp_matched_quantity :: pyfloat
  rp_is_flat :: bool

definition leg_quantity :: "leg_result \<Rightarrow> pyfloat" where
  "leg_quantity l = (case lg_position l of None \<Rightarrow> Fin 0 | Some p \<Rightarrow> float_abs (lp_quantity p))"

definition reconcile_position ::
  "(venue, order_adapter) dict \<Rightarrow> string \<Rightarrow> string \<Rightarrow> venue option \<times> string \<times> string \<Rightarrow> venue option \<times> string \<times> string
     \<Rightarrow> position_reconciliation" where
  "reconcile_position adapters position_id symbol long short =
     (let leg = (\<lambda>(venue, order_id, client_order_id). case venue of None \<Rightarrow> unqueried_leg
            | Some v \<Rightarrow> (case dict_get adapters v of None \<Rightarrow> unqueried_leg
                | Some adapter \<Rightarrow> reconcile_leg v adapter symbol order_id client_order_id));
          l = leg long; s = leg short;
          is_flat = (float_less (leg_quantity l) (Fin (1 / 10 ^ 12)) \<and> float_less (leg_quantity s) (Fin (1 / 10 ^ 12)))
      in \<lparr>rp_position_id = position_id, rp_symbol = symbol, rp_long = l, rp_short = s,
          rp_matched_quantity = (if \<not> is_flat \<and> lg_position l \<noteq> None \<and> lg_position s \<noteq> None
             then py_fmin (leg_quantity l) (leg_quantity s) else Fin 0),
          rp_is_flat = is_flat\<rparr>)"

section \<open>Reconciliation helpers\<close>

text \<open>The answer of the adapter, or the text of its exception.\<close>

record order_resolution =
  or_status :: string
  or_order_id :: string
  or_symbol :: string
  or_fill :: pyval
  or_reason :: string

definition reconcile_unknown_order :: "venue \<Rightarrow> string \<Rightarrow> string \<Rightarrow> string \<Rightarrow> string + pyval \<Rightarrow> order_resolution" where
  "reconcile_unknown_order venue symbol order_id client_order_id answer =
     (let result = (\<lambda>status fill reason. \<lparr>or_status = status, or_order_id = order_id, or_symbol = symbol, or_fill = fill,
            or_reason = reason\<rparr>)
      in case answer of
           Inl e \<Rightarrow> result ''uncertain'' PNone (''query_error:'' @ e)
         | Inr fill \<Rightarrow>
             if fill = PNone then result ''uncertain'' PNone ''adapter_returned_none''
             else let d = resolve_order_success
                    \<lparr>sq_venue = venue, sq_symbol = symbol,
                     sq_order_id = or_text order_id (text_of (py_getattr fill ''order_id'' (PStr []))),
                     sq_client_order_id = or_text client_order_id (text_of (py_getattr fill ''client_order_id'' (PStr []))),
                     sq_target_qty = py_getattr fill ''quantity'' (PInt 0), sq_reconciliation = fill,
                     sq_metadata = py_getattr fill ''metadata'' PNone, sq_live_position = PNone, sq_open_order_present = None\<rparr>
                  in if sd_fill_status d \<noteq> CONFIRMED_FILL
                     then result (fill_status_value (sd_fill_status d)) PNone (sd_decision d)
                     else result ''filled'' fill [])"

definition CLOSE_RECONCILIATION_RETRY_BASE_MS :: int where "CLOSE_RECONCILIATION_RETRY_BASE_MS = 30000"
definition CLOSE_RECONCILIATION_RETRY_MAX_MS :: int where "CLOSE_RECONCILIATION_RETRY_MAX_MS = 300000"

definition close_retry_delay :: "nat \<Rightarrow> int" where
  "close_retry_delay attempts = min (CLOSE_RECONCILIATION_RETRY_BASE_MS * 2 ^ attempts) CLOSE_RECONCILIATION_RETRY_MAX_MS"

text \<open>The attempts so far, and the time of the next.\<close>

definition reconcile_pending_close :: "nat \<Rightarrow> int \<Rightarrow> nat \<times> int" where
  "reconcile_pending_close attempt_count now_ms = (attempt_count + 1, now_ms + close_retry_delay attempt_count)"

datatype residual_outcome = Cleared | Retry | Protect

definition reconcile_residual_exposure :: "int \<Rightarrow> string + live_position \<Rightarrow> int \<Rightarrow> residual_outcome" where
  "reconcile_residual_exposure deadline_ms answer now_ms =
     (case answer of
        Inl _ \<Rightarrow> Retry
      | Inr position \<Rightarrow>
          if float_less (float_abs (lp_quantity position)) (Fin (1 / 10 ^ 12)) then Cleared
          else if deadline_ms > 0 \<and> now_ms > deadline_ms then Protect else Retry)"

section \<open>Proof of a fill\<close>

text \<open>What counts as proof of a fill on each exchange: a flag that says the fill was normalised from
  executions, an answer of the endpoint or the source that lists executions, or the final status.\<close>

definition status_says :: "obj \<Rightarrow> string \<Rightarrow> bool" where
  "status_says metadata prefix \<longleftrightarrow>
     py_lower (text_of (dget metadata ''raw_exchange_status'')) = ''filled'' \<or>
     py_startswith (py_lower (text_of (first_true metadata [''response_classification'', ''classification'']))) prefix"

definition source_says :: "obj \<Rightarrow> string list \<Rightarrow> bool" where
  "source_says metadata markers \<longleftrightarrow> any_in markers (py_lower (text_of (dget metadata ''evidence_source'')))"

inductive fill_proof :: "venue \<Rightarrow> obj \<Rightarrow> string list \<Rightarrow> string \<Rightarrow> bool" where
  flagged: "explicit_truth md \<Longrightarrow> fill_proof v md endpoints text"
| listed: "endpoint_is_fill_truth v endpoints \<Longrightarrow> fill_proof v md endpoints text"
| okx_source: "py_lower (text_of (dget md ''evidence_source'')) \<in> {''okx_fills'', ''okx_fills_history'', ''okx_trade_fills''}
    \<Longrightarrow> fill_proof OKX md endpoints text"
| bybit_source: "py_lower (text_of (dget md ''evidence_source'')) \<in> {''bybit_execution_list'', ''bybit_private_execution''}
    \<Longrightarrow> fill_proof BYBIT md endpoints text"
| final_status: "v \<in> {BINANCE, ASTER} \<Longrightarrow> status_says md ''filled_after_'' \<Longrightarrow> fill_proof v md endpoints text"
| bitget_fill: "source_says md [''fill'', ''fills'', ''trade''] \<or> status_says md ''filled'' \<Longrightarrow>
    truth (first_true md [''resolved_account_family'', ''account_family'', ''contract_family'', ''product_type'']) \<Longrightarrow>
    py_lower (text_of (first_true md [''side'', ''resolved_side''])) \<in> {''buy'', ''sell'', ''long'', ''short''} \<Longrightarrow>
    fill_proof BITGET md endpoints text"
| gate_fill: "source_says md [''fill'', ''fills'', ''trade'', ''execution''] \<or> status_says md ''filled'' \<Longrightarrow>
    fill_proof GATE md endpoints text"
| hyperliquid_fill: "status_says md ''filled'' \<or> py_contains ''filled'' text \<Longrightarrow>
    truth (first_true md [''oid'', ''order_id'', ''cloid'', ''client_order_id'']) \<Longrightarrow>
    truth (first_true md [''account'', ''account_address'', ''configured_account'', ''configured_account_address'']) \<Longrightarrow>
    fill_proof HYPERLIQUID md endpoints text"

inductive_simps okx_proof: "fill_proof OKX md endpoints text"
inductive_simps gate_proof: "fill_proof GATE md endpoints text"

lemma terminal_fill_proof:
  assumes "classification_is_terminal_fill_truth v md text" and "py_lower text = text"
  shows "fill_proof v md endpoints text"
  using assms
  by (cases v; cases "explicit_truth md")
    (auto simp: classification_is_terminal_fill_truth_def Let_def status_says_def source_says_def
      intro: fill_proof.intros split: if_splits)

lemma lower_joined: "py_lower (joined sep ss) = joined (py_lower sep) (map py_lower ss)"
  by (induction sep ss rule: joined.induct) (simp_all add: py_lower_def)

lemma classification_text_lower: "py_lower (sq_classification_text q) = sq_classification_text q"
  by (simp add: sq_classification_text_def lower_joined py_lower_def [of "'' ''"] comp_def)

lemma confirmed_source:
  assumes "fill_truth_source_is_confirmed v md endpoints text" and "py_lower text = text"
  shows "fill_proof v md endpoints text" "\<not> classification_is_fail_closed text"
    "classification_is_weak_fill_source text \<Longrightarrow> v \<in> {BINANCE, ASTER}" "md \<noteq> []"
  using assms terminal_fill_proof [of v md "text" endpoints]
  by (auto simp: fill_truth_source_is_confirmed_def Let_def intro: fill_proof.intros split: if_splits)

lemmas outcome_simps = resolve_order_success_def base_decision_def Let_def

lemma confirmed_iff:
  "sd_fill_status (resolve_order_success q) = CONFIRMED_FILL \<longleftrightarrow>
     \<not> classification_is_fail_closed (sq_classification_text q) \<and> sq_reconciliation q \<noteq> PNone \<and>
     float_above eps (quantity_of (sq_reconciliation q)) \<and>
     fill_truth_source_is_confirmed (sq_venue q) (merged_metadata q) (sq_endpoints q) (sq_classification_text q)"
  by (simp add: outcome_simps)

text \<open>C11: A fill is believed only on proof. If the ledger confirms a fill, the reconciliation reports a
  quantity above the tolerance, the metadata holds a proof that the venue accepts, nothing in the
  classification says that the evidence is unsupported, and a classification with a weak marker
  (one that names the order's detail or its acceptance) was accepted for no venue but Binance and
  Aster, whose final order status is itself the proof; the remaining quantity is what the fill
  leaves of the target.\<close>

theorem fill_needs_proof:
  assumes "sd_fill_status (resolve_order_success q) = CONFIRMED_FILL"
  shows "float_above eps (quantity_of (sq_reconciliation q)) \<and>
     fill_proof (sq_venue q) (merged_metadata q) (sq_endpoints q) (sq_classification_text q) \<and>
     \<not> classification_is_fail_closed (sq_classification_text q) \<and>
     (classification_is_weak_fill_source (sq_classification_text q) \<longrightarrow> sq_venue q \<in> {BINANCE, ASTER}) \<and>
     sd_decision (resolve_order_success q) = ''terminal_fill'' \<and>
     sd_reconciled_qty (resolve_order_success q) = quantity_of (sq_reconciliation q) \<and>
     sd_remaining_qty (resolve_order_success q) =
       py_fmax (float_sub (target_of (sq_target_qty q)) (quantity_of (sq_reconciliation q))) (Fin 0)"
proof -
  from assms have c: "\<not> classification_is_fail_closed (sq_classification_text q)" "sq_reconciliation q \<noteq> PNone"
    "float_above eps (quantity_of (sq_reconciliation q))"
    "fill_truth_source_is_confirmed (sq_venue q) (merged_metadata q) (sq_endpoints q) (sq_classification_text q)"
    by (simp_all add: confirmed_iff)
  with confirmed_source [OF c(4) classification_text_lower] show ?thesis
    by (simp add: outcome_simps)
qed

section \<open>What is unknown stays unknown\<close>

lemma missing_evidence_nonempty: "missing_order_truth_evidence v text endpoints \<noteq> []"
  by (simp add: missing_order_truth_evidence_def Let_def)

text \<open>C12: Unknown is not resolved. The ledger ends an order as filled exactly when it confirms the fill, and
  as not filled exactly when it calls the account flat; otherwise it retains the order. It says that
  evidence is unavailable exactly for the two retentions that wait for truth
  (\<open>retain_fail_closed\<close>, \<open>retain_backoff\<close>). The third, \<open>retain_owned_cleanup\<close>, has its evidence: a
  position above the tolerance is live. Every retention names evidence that is missing. It ends
  an order as not filled only if no position above the tolerance is live, and either the
  classification says the account is flat, or the exchange was seen to hold no open order and the
  order is known to be gone or to have ended with a flat position. A filled quantity is
  reported only for a confirmed fill; else all of the target remains.\<close>

theorem unknown_is_retained:
  "let d = resolve_order_success q; text = sq_classification_text q in
     sd_decision d \<in> {''terminal_fill'', ''terminal_no_fill'', ''retain_owned_cleanup'', ''retain_fail_closed'', ''retain_backoff''} \<and>
     \<not> sd_terminal_without_truth d \<and>
     (sd_decision d = ''terminal_fill'' \<longleftrightarrow> sd_fill_status d = CONFIRMED_FILL) \<and>
     (sd_decision d = ''terminal_no_fill'' \<longleftrightarrow> sd_fill_status d = LIVE_FLAT) \<and>
     (sd_evidence_status d = EVIDENCE_UNAVAILABLE) = (sd_decision d \<in> {''retain_fail_closed'', ''retain_backoff''}) \<and>
     (sd_decision d = ''retain_owned_cleanup'' \<longrightarrow>
        sd_fill_status d = LIVE_POSITION_PRESENT \<and> float_above eps (quantity_of (sq_live_position q))) \<and>
     (sd_decision d \<in> {''retain_owned_cleanup'', ''retain_fail_closed'', ''retain_backoff''} \<longrightarrow> sd_missing_evidence d \<noteq> []) \<and>
     (sd_decision d = ''terminal_no_fill'' \<longrightarrow>
        \<not> float_above eps (quantity_of (sq_live_position q)) \<and>
        (py_contains ''live_flat'' text \<or>
         sq_open_order_present q = Some False \<and>
           (py_contains ''no_open_order'' text \<or>
            sq_live_position q \<noteq> PNone \<and> classification_is_terminal_no_fill_truth text))) \<and>
     (sd_reconciled_qty d \<noteq> Fin 0 \<longrightarrow> confirmed_fill d) \<and>
     (sd_fill_status d \<noteq> CONFIRMED_FILL \<longrightarrow> sd_remaining_qty d = sd_target_qty d)"
  using missing_evidence_nonempty
  by (auto simp: outcome_simps confirmed_fill_def)

section \<open>Duplicates\<close>

lemma fmax_Fin [simp]: "py_fmax (Fin a) (Fin b) = Fin (max a b)" "py_fmin (Fin a) (Fin b) = Fin (min a b)"
  "float_sub (Fin a) (Fin b) = Fin (a - b)"
  by (auto simp: py_fmax_def py_fmin_def float_sub_def)

lemma float_le_Fin [simp]: "float_le (Fin a) (Fin b) \<longleftrightarrow> a \<le> b"
  by (auto simp: float_eq_def)

declare float_le.simps [simp del]

lemma positive_float_nonneg: "positive_float v = Fin x \<Longrightarrow> 0 \<le> x"
  by (auto simp: positive_float_def split: sum.splits if_splits elim!: float_neg.elims)

lemma duplicate_states:
  "duplicate_reconcile_state c ''clear_live_flat'' = ''resolved_flat''"
  "duplicate_reconcile_state c ''retry_new_client_order_id'' = ''resolved_position''"
  "duplicate_reconcile_state c ''backoff_recheck'' = ''unresolved''"
proof -
  have "py_lower ''clear_live_flat'' = ''clear_live_flat''" "py_lower ''backoff_recheck'' = ''backoff_recheck''"
    "py_lower ''retry_new_client_order_id'' = ''retry_new_client_order_id''" by code_simp+
  then show "duplicate_reconcile_state c ''clear_live_flat'' = ''resolved_flat''"
    "duplicate_reconcile_state c ''retry_new_client_order_id'' = ''resolved_position''"
    "duplicate_reconcile_state c ''backoff_recheck'' = ''unresolved''"
    by (simp_all add: duplicate_reconcile_state_def)
qed

lemma duplicate_outcome_cases:
  assumes "target_of (dq_target_qty q) = Fin t" and "quantity_of (dq_reconciliation q) = Fin r" and "quantity_of (dq_live q) = Fin l"
    and o: "duplicate_outcome q = (state, classification, decision, rem)"
  defines "F \<equiv> max (t - eps) 0 \<le> r \<and> 0 < r" and "E \<equiv> dq_live_fetch_error q = []"
    and "A \<equiv> dq_live_fetch_attempted q"
  shows "(state, decision) = (''unresolved'', ''backoff_recheck'') \<and>
        \<not> (E \<and> l \<le> eps \<and> (F \<or> A)) \<and> (if F then \<not> E else r \<le> eps) \<or>
      (state, decision) = (''resolved_flat'', ''clear_live_flat'') \<and> E \<and> l \<le> eps \<and> (F \<or> A) \<or>
      (state, decision) = (''resolved_position'', ''retry_new_client_order_id'') \<and> \<not> (E \<and> l \<le> eps \<and> (F \<or> A)) \<and>
        (if F then E \<and> eps < l \<and> rem = Fin l else eps < r \<and> eps < t - r \<and> rem = Fin (t - r))"
proof -
  define m where "m = max (t - r) 0"
  let ?L = "A \<and> E \<and> l \<le> eps"
  have out: "duplicate_outcome q =
      (if F \<and> \<not> E then (''unresolved'', ''unknown_transient'', ''backoff_recheck'', Fin (m))
       else if F \<and> eps < l then (''resolved_position'', ''stale_full_live_nonzero'', ''retry_new_client_order_id'', Fin l)
       else if F then (''resolved_flat'', ''full'', ''clear_live_flat'', Fin (m))
       else if ?L then (''resolved_flat'', if r \<le> eps then ''none'' else ''partial'', ''clear_live_flat'', Fin (m))
       else if eps < r then (''resolved_position'', ''partial'', ''retry_new_client_order_id'', Fin (m))
       else if dq_reconcile_error q \<noteq> [] \<or> \<not> E
       then (''unresolved'', ''unknown_transient'', ''backoff_recheck'', Fin (m))
       else (''unresolved'', ''none'', ''backoff_recheck'', Fin (m)))"
    by (simp only: F_def E_def A_def m_def duplicate_outcome_def assms(1-3) Let_def float_le_Fin float_above.simps fmax_Fin)
  have m: "eps < t - r \<and> m = t - r" if "eps < r" "\<not> F"
    using that eps_pos by (auto simp: F_def m_def max_def split: if_splits)
  consider "F" "\<not> E" | "F" "E" "eps < l" | "F" "E" "l \<le> eps" | "\<not> F" ?L | "\<not> F" "\<not> ?L" "eps < r" | "\<not> F" "\<not> ?L" "r \<le> eps"
    by linarith
  then show ?thesis
  proof cases
    case 5
    with o m show ?thesis unfolding out by auto
  next
    case 6
    then have "F = False" and L: "?L = False" and "(eps < r) = False" by simp_all
    then have "duplicate_outcome q = (''unresolved'', if dq_reconcile_error q \<noteq> [] \<or> \<not> E then ''unknown_transient''
        else ''none'', ''backoff_recheck'', Fin m)"
      by (simp only: out L) simp
    with o 6 show ?thesis by auto
  qed (use o in \<open>auto simp: out\<close>)
qed

text \<open>C28: What a duplicate client order id leads to. Let t be the target, r the reconciled and l the live
  quantity (of the probe if it was made and left no error text, of the position known before
  otherwise), all finite, and call the fill full when r is positive and misses at most 1e-9 of t.
  The conflict is cleared exactly if no error text of the probe is recorded, l is within the
  tolerance, and the fill is full or a probe was made. (A probe that raises with an empty text
  leaves none, and reads as a flat position: \<open>silent_failure_reads_flat\<close>.) Otherwise it is retried
  with a new id exactly if the fill is full and no error text is recorded, or the fill is partial;
  the retry then asks for l after a full fill, and else for the t - r that is missing, cut to l
  if a live position above the tolerance is known. It is more than the tolerance. Everything
  else is checked again later. The state says which.\<close>

theorem duplicate_retry_bounded:
  assumes "target_of (dq_target_qty q) = Fin t" and "quantity_of (dq_reconciliation q) = Fin r" and "quantity_of (dq_live q) = Fin l"
  defines "d \<equiv> resolve_duplicate_conflict q" and "is_full \<equiv> max (t - eps) 0 \<le> r \<and> 0 < r"
    and "no_error \<equiv> dq_live_fetch_error q = []"
  shows "td_decision d \<in> {''clear_live_flat'', ''retry_new_client_order_id'', ''backoff_recheck''} \<and>
     td_state d = duplicate_reconcile_state (td_classification d) (td_decision d) \<and>
     (clear_state d \<longleftrightarrow> no_error \<and> l \<le> eps \<and> (is_full \<or> dq_live_fetch_attempted q)) \<and>
     (td_decision d = ''retry_new_client_order_id'' \<longleftrightarrow> \<not> clear_state d \<and> (if is_full then no_error else eps < r)) \<and>
     (td_decision d = ''retry_new_client_order_id'' \<longrightarrow>
        should_retry_with_new_client_id d \<and>
        (\<exists>x. td_retry_qty d = Fin x \<and> eps < x \<and>
           x = (if is_full then l else if eps < l then min (t - r) l else t - r)))"
proof -
  obtain state classification decision rem where o: "duplicate_outcome q = (state, classification, decision, rem)"
    by (cases "duplicate_outcome q") auto
  note outcome = duplicate_outcome_cases [OF assms(1-3) o, folded is_full_def no_error_def]
  have state: "state = duplicate_reconcile_state classification decision"
    using outcome duplicate_states [of classification] by auto
  have "td_state d = state" "td_classification d = classification" "td_decision d = decision"
    "td_retry_qty d = (if decision = ''retry_new_client_order_id'' \<and> eps < l then py_fmin rem (Fin l) else rem)"
    by (simp_all add: d_def resolve_duplicate_conflict_def o assms(1-3) Let_def)
  then show ?thesis using outcome state
    by (cases is_full) (auto simp: clear_state_def should_retry_with_new_client_id_def)
qed

text \<open>An exception whose text is empty (as a timeout's is) does not count as a failed probe: the missing
  position then reads as flat, and the conflict is cleared.\<close>

lemma silent_failure_reads_flat:
  "clear_state (reconcile_duplicate_client_order cid target before (Inr PNone) (Inl []))"
  by (simp add: clear_state_def reconcile_duplicate_client_order_def resolve_duplicate_conflict_def duplicate_outcome_def
      dq_live_def quantity_of_def positive_float_def Let_def)

text \<open>With a text it is checked again, or retried on what was known before.\<close>

lemma failed_probe_is_not_cleared:
  assumes "e \<noteq> []"
  shows "\<not> clear_state (reconcile_duplicate_client_order cid target before answer (Inl e))"
  using assms by (auto simp: clear_state_def reconcile_duplicate_client_order_def resolve_duplicate_conflict_def
      duplicate_outcome_def dq_live_def Let_def)

section \<open>Legs\<close>

lemma fill_values: "fill_status_value x \<noteq> ''filled''" "fill_status_value x \<noteq> ''not_found''"
  by (cases x; simp)+

lemma unreported_leg:
  fixes venue :: venue and symbol order_id client_order_id :: string and rec :: pyval and position :: "live_position option"
    and payload :: obj
  assumes "\<not> (rec \<noteq> PNone \<and> positive_number (py_getattr rec ''quantity'' (PInt 0)))"
  defines "m \<equiv> recon_metadata rec"
  defines "response \<equiv> leg_classification m payload"
    and "evidence \<equiv> leg_endpoints m payload \<noteq> [] \<or> payload \<noteq> []"
  defines "sub \<equiv> or_text (leg_text ''uncertain_subtype'' m payload) (derived_subtype response)"
  shows "status_from_reconciliation venue symbol order_id client_order_id rec position payload =
     (if float_above (1 / 10 ^ 12) (position_quantity position) \<and> evidence \<and> live_position_confirmed m payload
      then leg_answer m payload ''filled'' (or_text response ''live_position_confirmed'')
          ''live_position_confirmed'' (or_text response ''live_position_confirmed'') ''clear_uncertain_state''
      else if position \<noteq> None \<and> float_le (position_quantity position) (Fin (1 / 10 ^ 12)) \<and> evidence \<and>
          endpoint_evidence_proves_no_effect (leg_text ''uncertain_subtype'' m payload) response
      then leg_answer m payload ''not_found'' (or_text response ''live_no_effect_confirmed'')
          ''live_no_effect_confirmed'' (or_text response ''live_no_effect_confirmed'') ''clear_uncertain_state''
      else leg_answer m payload ''uncertain'' (or_text response sub) sub
          (or_text response sub) (or_text (leg_text ''next_action'' m payload) ''reconcile_again_after_backoff''))"
  unfolding status_from_reconciliation_def Let_def if_not_P [OF assms(1)] m_def response_def evidence_def sub_def ..

lemma contains_suffix: "py_contains p s \<longleftrightarrow> (\<exists>u v. s = u @ p @ v)"
proof (induction s)
  case (Cons c cs)
  have "py_startswith (c # cs) p \<longleftrightarrow> (\<exists>v. c # cs = p @ v)"
    by (metis append_eq_conv_conj py_startswith_def)
  moreover have "(\<exists>u v. cs = u @ p @ v) \<longleftrightarrow> (\<exists>u v. u \<noteq> [] \<and> c # cs = u @ p @ v)"
    by (auto simp: Cons_eq_append_conv)
  ultimately show ?case using Cons by (metis append_Nil py_contains.simps(2))
qed auto

lemma contains_trans: "py_contains p q \<Longrightarrow> py_contains q s \<Longrightarrow> py_contains p s"
  unfolding contains_suffix by (metis append_assoc)

text \<open>The test of the code, put shortly: its longer markers contain the shorter ones.\<close>

lemma no_effect_iff:
  "endpoint_evidence_proves_no_effect sub response \<longleftrightarrow>
     (let text = py_lower (sub @ '' '' @ response)
      in \<not> py_contains ''accepted'' text \<and> (py_contains ''not_found'' text \<or> py_contains ''no_execution'' text))"
proof -
  let ?t = "py_lower (sub @ '' '' @ response)"
  have "py_contains ''accepted'' ''stale_accepted''" "py_contains ''not_found'' ''execution_not_found''" by code_simp+
  then have acc: "py_contains ''stale_accepted'' ?t \<Longrightarrow> py_contains ''accepted'' ?t"
    and exe: "py_contains ''execution_not_found'' ?t \<Longrightarrow> py_contains ''not_found'' ?t"
    by (blast intro: contains_trans)+
  have sub: "py_contains ''not_found'' ?t"
    if "sub \<in> {''execution_not_found'', ''open_order_not_found'', ''closed_order_not_found''}"
  proof -
    have "py_contains ''not_found'' (py_lower ''execution_not_found'')"
      "py_contains ''not_found'' (py_lower ''open_order_not_found'')"
      "py_contains ''not_found'' (py_lower ''closed_order_not_found'')" by code_simp+
    with that have "py_contains ''not_found'' (py_lower sub)" by (metis emptyE insertE)
    moreover have "py_contains (py_lower sub) ?t"
      unfolding contains_suffix by (rule exI [of _ "[]"]) (simp add: py_lower_def)
    ultimately show ?thesis by (rule contains_trans)
  qed
  show ?thesis unfolding endpoint_evidence_proves_no_effect_def Let_def using acc exe sub by auto
qed

lemma above_not_le: "float_above b x \<Longrightarrow> \<not> float_le x (Fin b)"
  by (cases x) (simp_all add: float_le.simps float_eq_def)

text \<open>C15: A leg is resolved only on evidence. If a fill of positive quantity is reported for it, it is
  filled exactly if the ledger confirms that fill, and keeps the ledger's verdict otherwise. If none
  is reported, it is filled exactly if the position is larger than 1e-12, the query left endpoints
  or a record, and that evidence says \<open>live_position_confirmed\<close>, as its subtype, as its
  classification or as a flag; it is not found exactly if the position was returned and is at most
  1e-12, there is such evidence, and its subtype and classification name something not found or
  without execution and nothing accepted. In all other cases it is uncertain.\<close>

theorem leg_status_sound:
  fixes venue :: venue and symbol order_id client_order_id :: string and rec :: pyval and position :: "live_position option"
    and payload :: obj
  defines "s \<equiv> status_from_reconciliation venue symbol order_id client_order_id rec position payload"
    and "reported \<equiv> rec \<noteq> PNone \<and> positive_number (py_getattr rec ''quantity'' (PInt 0))"
    and "fill \<equiv> sd_fill_status (resolve_order_success (recon_query venue symbol order_id client_order_id rec payload))"
    and "md \<equiv> recon_metadata rec"
  defines "subtype \<equiv> text_of (py_or (dget md ''uncertain_subtype'') (dget payload ''uncertain_subtype''))"
    and "verdict \<equiv> leg_classification md payload"
    and "answered \<equiv> leg_endpoints md payload \<noteq> [] \<or> payload \<noteq> []"
  shows "rt_status s =
     (if reported then (if fill = CONFIRMED_FILL then ''filled'' else fill_status_value fill)
      else if answered \<and> (\<exists>p. position = Some p \<and> float_above (1 / 10 ^ 12) (float_abs (lp_quantity p))) \<and>
          (''live_position_confirmed'' \<in> {subtype, verdict} \<or>
           truth (dget md ''live_position_confirmed'') \<or> truth (dget payload ''live_position_confirmed''))
      then ''filled''
      else if answered \<and> (\<exists>p. position = Some p \<and> float_le (float_abs (lp_quantity p)) (Fin (1 / 10 ^ 12))) \<and>
          \<not> py_contains ''accepted'' (py_lower (subtype @ '' '' @ verdict)) \<and>
          (py_contains ''not_found'' (py_lower (subtype @ '' '' @ verdict)) \<or>
           py_contains ''no_execution'' (py_lower (subtype @ '' '' @ verdict)))
      then ''not_found'' else ''uncertain'') \<and>
     fill_status_value fill \<notin> {''filled'', ''not_found'', ''uncertain''}"
proof -
  have verdicts: "fill_status_value fill \<notin> {''filled'', ''not_found'', ''uncertain''}" by (cases fill) simp_all
  show ?thesis
  proof (cases reported)
    case True
    let ?d = "resolve_order_success (recon_query venue symbol order_id client_order_id rec payload)"
    have "rt_status s = (if sd_fill_status ?d \<noteq> CONFIRMED_FILL then fill_status_value (sd_fill_status ?d) else ''filled'')"
      unfolding s_def status_from_reconciliation_def Let_def reported_def [symmetric] if_P [OF True] leg_answer_def by simp
    with True verdicts show ?thesis unfolding fill_def by simp
  next
    case False
    let ?q = "position_quantity position"
    have q: "float_above (1 / 10 ^ 12) ?q \<longleftrightarrow> (\<exists>p. position = Some p \<and> float_above (1 / 10 ^ 12) (float_abs (lp_quantity p)))"
      "position \<noteq> None \<and> float_le ?q (Fin (1 / 10 ^ 12)) \<longleftrightarrow>
         (\<exists>p. position = Some p \<and> float_le (float_abs (lp_quantity p)) (Fin (1 / 10 ^ 12)))"
      by (cases position; simp add: position_quantity_def)+
    have c: "live_position_confirmed md payload \<longleftrightarrow> ''live_position_confirmed'' \<in> {subtype, verdict} \<or>
        truth (dget md ''live_position_confirmed'') \<or> truth (dget payload ''live_position_confirmed'')"
      by (auto simp: live_position_confirmed_def leg_text_def subtype_def verdict_def)
    let ?F = "float_above (1 / 10 ^ 12) ?q \<and> answered \<and> live_position_confirmed md payload"
      and ?N = "position \<noteq> None \<and> float_le ?q (Fin (1 / 10 ^ 12)) \<and> answered \<and>
        endpoint_evidence_proves_no_effect subtype verdict"
    have status: "rt_status (if ?F then leg_answer md payload ''filled'' a b c d
        else if ?N then leg_answer md payload ''not_found'' a' b' c' d'
        else leg_answer md payload ''uncertain'' a'' b'' c'' d'') =
       (if ?F then ''filled'' else if ?N then ''not_found'' else ''uncertain'')" for a b c d a' b' c' d' a'' b'' c'' d''
      by (simp add: leg_answer_def)
    have subtype: "leg_text ''uncertain_subtype'' md payload = subtype" by (simp add: leg_text_def subtype_def)
    have out: "rt_status s = (if ?F then ''filled'' else if ?N then ''not_found'' else ''uncertain'')"
      unfolding s_def
        unreported_leg [OF False [unfolded reported_def], of venue symbol order_id client_order_id position payload]
        md_def [symmetric] subtype verdict_def [symmetric] answered_def [symmetric]
      by (rule status)
    have n: "?N \<longleftrightarrow> answered \<and> (\<exists>p. position = Some p \<and> float_le (float_abs (lp_quantity p)) (Fin (1 / 10 ^ 12))) \<and>
          \<not> py_contains ''accepted'' (py_lower (subtype @ '' '' @ verdict)) \<and>
          (py_contains ''not_found'' (py_lower (subtype @ '' '' @ verdict)) \<or>
           py_contains ''no_execution'' (py_lower (subtype @ '' '' @ verdict)))"
      using q(2) unfolding no_effect_iff Let_def by blast
    have f: "?F \<longleftrightarrow> answered \<and> (\<exists>p. position = Some p \<and> float_above (1 / 10 ^ 12) (float_abs (lp_quantity p))) \<and>
          (''live_position_confirmed'' \<in> {subtype, verdict} \<or>
           truth (dget md ''live_position_confirmed'') \<or> truth (dget payload ''live_position_confirmed''))"
      unfolding q(1) c by blast
    show ?thesis unfolding out n f if_not_P [OF False] using verdicts by (rule conjI [OF refl])
  qed
qed

section \<open>Positions\<close>

text \<open>What a reconciliation of a position may be relied on for. A leg carries a fill only if it is
  filled; a fill of positive quantity is one that the ledger confirms, so its venue's proof exists.
  Each leg keeps the position that its adapter returned. With both positions known, the result is
  flat exactly if both are, and otherwise the matched quantity is the smaller of the two.\<close>

theorem reconciled_position_sound:
  fixes long short :: "venue option \<times> string \<times> string"
  assumes "reconcile_position adapters position_id symbol long short = result"
    and "(leg, venue, order_id, client_order_id) \<in>
      {(rp_long result, the (fst long), snd long), (rp_short result, the (fst short), snd short)}"
    and "lg_fill leg \<noteq> PNone" and "positive_number (py_getattr (lg_fill leg) ''quantity'' (PInt 0))"
  shows "lg_status leg = ''filled'' \<and>
     (\<exists>adapter. dict_get adapters venue = Some adapter \<and> lg_position leg = oa_fetch_position adapter \<and>
        (let q = recon_query venue symbol order_id client_order_id (lg_fill leg) (latest_query_payload (oa_diagnostics adapter))
         in sd_fill_status (resolve_order_success q) = CONFIRMED_FILL \<and>
            fill_proof venue (merged_metadata q) (sq_endpoints q) (sq_classification_text q)))"
proof -
  have leg: "leg = unqueried_leg \<or> (\<exists>adapter. dict_get adapters venue = Some adapter \<and>
      leg = reconcile_leg venue adapter symbol order_id client_order_id)"
    using assms(1,2) by (auto simp: reconcile_position_def Let_def split: option.splits prod.splits)
  then obtain adapter where a: "dict_get adapters venue = Some adapter"
    and l: "leg = reconcile_leg venue adapter symbol order_id client_order_id"
    using assms(3) by (auto simp: unqueried_leg_def)
  let ?p = "latest_query_payload (oa_diagnostics adapter)"
  let ?s = "status_from_reconciliation venue symbol order_id client_order_id (lg_fill leg) (oa_fetch_position adapter) ?p"
  have fill: "lg_status leg = ''filled'' \<and> rt_status ?s = ''filled'' \<and> lg_position leg = oa_fetch_position adapter"
    using assms(3) by (auto simp: l reconcile_leg_def Let_def split: if_splits)
  with fill_values(1) have c: "sd_fill_status (resolve_order_success (recon_query venue symbol order_id client_order_id (lg_fill leg) ?p)) = CONFIRMED_FILL"
    using assms(3,4) by (auto simp: status_from_reconciliation_def leg_answer_def Let_def split: if_splits)
  moreover from c have "fill_proof venue (merged_metadata q) (sq_endpoints q) (sq_classification_text q)"
    if "q = recon_query venue symbol order_id client_order_id (lg_fill leg) ?p" for q
    using confirmed_source(1) [OF _ classification_text_lower [of q]] that
    by (simp add: confirmed_iff recon_query_def Let_def)
  ultimately show ?thesis using fill a by (auto simp: Let_def)
qed

lemma flat_of_known_positions:
  assumes "lg_position (rp_long r) = Some p" "lg_position (rp_short r) = Some s"
    "lp_quantity p = Fin x" "lp_quantity s = Fin y"
    "r = reconcile_position adapters position_id symbol long short"
  shows "rp_is_flat r \<longleftrightarrow> \<bar>x\<bar> < 1 / 10 ^ 12 \<and> \<bar>y\<bar> < 1 / 10 ^ 12"
    "rp_matched_quantity r = Fin (if rp_is_flat r then 0 else min \<bar>x\<bar> \<bar>y\<bar>)"
  using assms by (auto simp: reconcile_position_def leg_quantity_def float_abs_def Let_def)

text \<open>A position that nobody asked for, or that the adapter did not return, counts as flat.\<close>

lemma unknown_positions_are_flat: "rp_is_flat (reconcile_position [] position_id symbol long short)"
  by (cases long; cases short) (auto simp: reconcile_position_def unqueried_leg_def leg_quantity_def Let_def split: option.split)

section \<open>Retries of a close\<close>

interpretation close_retry: capped_backoff close_retry_delay CLOSE_RECONCILIATION_RETRY_BASE_MS CLOSE_RECONCILIATION_RETRY_MAX_MS
proof
  fix n :: nat
  have "(2::int) ^ 20 \<le> 2 ^ n" if "20 < n" using that by (intro power_increasing) auto
  then show "close_retry_delay n = min (CLOSE_RECONCILIATION_RETRY_BASE_MS * 2 ^ min n 20) CLOSE_RECONCILIATION_RETRY_MAX_MS"
    by (cases "n \<le> 20") (auto simp: close_retry_delay_def CLOSE_RECONCILIATION_RETRY_BASE_MS_def
        CLOSE_RECONCILIATION_RETRY_MAX_MS_def min_def)
qed (simp_all add: CLOSE_RECONCILIATION_RETRY_BASE_MS_def CLOSE_RECONCILIATION_RETRY_MAX_MS_def)

lemma close_attempts_advance:
  "reconcile_pending_close n now_ms = (m, next_ms) \<Longrightarrow>
     m = n + 1 \<and> now_ms + CLOSE_RECONCILIATION_RETRY_BASE_MS \<le> next_ms \<and> next_ms \<le> now_ms + CLOSE_RECONCILIATION_RETRY_MAX_MS"
  using close_retry.le_cap [of n] close_retry.ge_initial [of n] by (auto simp: reconcile_pending_close_def)

section \<open>Samples\<close>

definition sample_fill :: pyval where
  "sample_fill = PObj ''OrderFillReconciliation''
     [(''quantity'', PFloat (Fin 2) ''2.0''), (''order_id'', PStr ''1''),
      (''metadata'', PDict [(''evidence_source'', PStr ''okx_fills'')])]"

definition sample_fill_query :: success_query where
  "sample_fill_query = recon_query OKX ''BTCUSDT'' ''1'' [] sample_fill []"

lemma sample_confirmed: "sd_fill_status (resolve_order_success sample_fill_query) = CONFIRMED_FILL"
  by code_simp

lemma fill_needs_proof_witness:
  "fill_proof OKX (merged_metadata sample_fill_query) (sq_endpoints sample_fill_query) (sq_classification_text sample_fill_query)"
  using fill_needs_proof [OF sample_confirmed] by (simp add: sample_fill_query_def recon_query_def Let_def)

text \<open>An order that was only acknowledged.\<close>

definition sample_ack_query :: success_query where
  "sample_ack_query = \<lparr>sq_venue = OKX, sq_symbol = ''BTCUSDT'', sq_order_id = ''1'', sq_client_order_id = [],
     sq_target_qty = PInt 2, sq_reconciliation = PNone, sq_metadata = PNone, sq_live_position = PNone, sq_open_order_present = None\<rparr>"

lemma unknown_is_retained_witness:
  "sd_missing_evidence (resolve_order_success sample_ack_query) \<noteq> []"
proof -
  have "sd_decision (resolve_order_success sample_ack_query) = ''retain_backoff''" by code_simp
  with unknown_is_retained [of sample_ack_query] show ?thesis by (simp add: Let_def)
qed

definition sample_duplicate :: duplicate_query where
  "sample_duplicate = \<lparr>dq_client_order_id = ''c'', dq_target_qty = PInt 10,
     dq_reconciliation = PObj ''OrderFillReconciliation'' [(''quantity'', PInt 3)], dq_live_pos_before = PNone,
     dq_live_pos_after = PObj ''PositionSnapshot'' [(''quantity'', PInt 5)], dq_reconcile_error = [], dq_live_fetch_error = [],
     dq_live_fetch_attempted = True\<rparr>"

lemma duplicate_retry_bounded_witness:
  "should_retry_with_new_client_id (resolve_duplicate_conflict sample_duplicate)"
proof -
  have q: "target_of (dq_target_qty sample_duplicate) = Fin 10" "quantity_of (dq_reconciliation sample_duplicate) = Fin 3"
    "quantity_of (dq_live sample_duplicate) = Fin 5"
    by (simp_all add: sample_duplicate_def target_of_def quantity_of_def positive_float_def dq_live_def)
  have "td_decision (resolve_duplicate_conflict sample_duplicate) = ''retry_new_client_order_id''" by code_simp
  with duplicate_retry_bounded [OF q] show ?thesis by simp
qed

lemma leg_status_sound_witness:
  "rt_status (status_from_reconciliation OKX ''BTCUSDT'' ''1'' [] sample_fill None []) = ''filled'' \<and>
   rt_status (status_from_reconciliation OKX ''BTCUSDT'' ''1'' [] PNone (Some \<lparr>lp_side = ''buy'', lp_quantity = Fin 0\<rparr>)
     [(''response_classification'', PStr ''order_not_found'')]) = ''not_found''"
proof -
  have "sample_fill \<noteq> PNone" "positive_number (py_getattr sample_fill ''quantity'' (PInt 0))"
    by (simp_all add: sample_fill_def positive_number_def)
  with leg_status_sound [of OKX "''BTCUSDT''" "''1''" "[]" sample_fill None "[]"] sample_confirmed
  have filled: "rt_status (status_from_reconciliation OKX ''BTCUSDT'' ''1'' [] sample_fill None []) = ''filled''"
    by (simp add: sample_fill_query_def)
  let ?payload = "[(''response_classification'', PStr ''order_not_found'')]" and ?md = "recon_metadata PNone"
  have e: "text_of (py_or (dget ?md ''uncertain_subtype'') (dget ?payload ''uncertain_subtype'')) = []"
    "leg_classification ?md ?payload = ''order_not_found''" "\<not> truth (dget ?md ''live_position_confirmed'')"
    "\<not> truth (dget ?payload ''live_position_confirmed'')" "py_lower '' order_not_found'' = '' order_not_found''"
    "\<not> py_contains ''accepted'' '' order_not_found''" "py_contains ''not_found'' '' order_not_found''"
    by code_simp+
  have z: "float_abs (Fin 0) = Fin 0" by (simp add: float_abs_def)
  show ?thesis
    using leg_status_sound [of OKX "''BTCUSDT''" "''1''" "[]" PNone "Some \<lparr>lp_side = ''buy'', lp_quantity = Fin 0\<rparr>" ?payload] e
    by (simp add: z filled del: py_contains.simps)
qed

definition sample_adapter :: order_adapter where
  "sample_adapter = \<lparr>oa_fetch_fill = (\<lambda>_ _. sample_fill), oa_fetch_position = None, oa_diagnostics = []\<rparr>"

lemma reconciled_position_sound_witness:
  "lg_status (rp_long (reconcile_position [(OKX, sample_adapter)] ''p'' ''BTCUSDT'' (Some OKX, ''1'', []) (None, [], []))) = ''filled''"
proof -
  let ?r = "reconcile_position [(OKX, sample_adapter)] ''p'' ''BTCUSDT'' (Some OKX, ''1'', []) (None, [], [])"
  have "rt_status (status_from_reconciliation OKX ''BTCUSDT'' ''1'' [] sample_fill None []) = ''filled''"
    by code_simp
  then have "lg_fill (rp_long ?r) = sample_fill"
    by (simp add: reconcile_position_def reconcile_leg_def sample_adapter_def latest_query_payload_def sample_fill_def Let_def)
  with reconciled_position_sound [of "[(OKX, sample_adapter)]" "''p''" "''BTCUSDT''" "(Some OKX, ''1'', [])" "(None, [], [])" ?r
      "rp_long ?r" OKX "''1''" "[]"] show ?thesis
    by (simp add: sample_fill_def positive_number_def)
qed

end
