(* ===== verification/Supervision.thy ===== *)
theory Supervision
  imports Risk_State Backoff Reconciliation Owner_Index
begin

text \<open>
  The supervision of risk (\<open>engine/risk_actions.py\<close>, \<open>engine/supervisor.py\<close>, and the operator commands
  of \<open>ops/commands.py\<close>): the health of each venue, the risk of each position and the plan it calls
  for, the execution of the plan, and the global risk mode with its latch. What an adapter caches
  is a parameter, as is what the executor of closes decides (not what it may write); journal entries are left out.

  The lemmas: each health line and each gap of evidence has its consequence; the mode is the most
  severe that any venue calls for; only a clean state leaves the fail-closed mode; and the partial
  closes of a position are bounded in number, in size and in time.
\<close>

section \<open>Venue health\<close>

datatype venue_health_action = VH_NORMAL | VH_PAUSE_ENTRY | VH_REDUCE_ONLY | VH_FAIL_CLOSED

fun health_severity :: "venue_health_action \<Rightarrow> nat" where
  "health_severity VH_NORMAL = 0"
| "health_severity VH_PAUSE_ENTRY = 1"
| "health_severity VH_REDUCE_ONLY = 2"
| "health_severity VH_FAIL_CLOSED = 3"

lemma health_severity_inj: "health_severity a = health_severity b \<Longrightarrow> a = b"
  by (cases a; cases b) simp_all

instantiation venue_health_action :: linorder
begin

definition less_eq_venue_health_action :: "venue_health_action \<Rightarrow> venue_health_action \<Rightarrow> bool" where
  "a \<le> b \<longleftrightarrow> health_severity a \<le> health_severity b"

definition less_venue_health_action :: "venue_health_action \<Rightarrow> venue_health_action \<Rightarrow> bool" where
  "a < b \<longleftrightarrow> health_severity a < health_severity b"

instance
  by intro_classes
    (auto simp: less_eq_venue_health_action_def less_venue_health_action_def dest: health_severity_inj)

end

definition max_action :: "venue_health_action \<Rightarrow> venue_health_action \<Rightarrow> venue_health_action" where
  "max_action a b = (if health_severity a \<ge> health_severity b then a else b)"

lemma max_action_max [simp]: "max_action a b = max a b"
  by (auto simp: max_action_def max_def less_eq_venue_health_action_def dest: health_severity_inj)

text \<open>Why a venue is not healthy; the code renders these as texts, with the number to some digits.\<close>

datatype health_reason =
    Private_Stream_Unhealthy | Private_Position_Unconfirmed
  | Order_Health_Risk_High real | Order_Health_Risk_Elevated real
  | Risk_Snapshot_Unavailable | Risk_Snapshot_Stale | Risk_Snapshot_Unsupported
  | Health_Below_Death_Line pyfloat | Health_Below_Delever_Line pyfloat | Health_Below_Warning_Line pyfloat

record venue_health_view =
  vh_venue :: venue
  vh_action :: venue_health_action
  vh_health_ratio :: "pyfloat option"
  vh_degraded :: bool
  vh_stale :: bool
  vh_supported :: bool
  vh_order_health_risk_score :: real
  vh_reasons :: "health_reason list"

record account_risk_snapshot =
  ar_equity_quote :: pyfloat
  ar_maintenance_margin_quote :: pyfloat
  ar_health_ratio :: pyfloat
  ar_observed_at_ms :: int
  ar_supported :: bool
  ar_stale :: bool
  ar_zero_maintenance_is_normal :: bool

fun float_div :: "pyfloat \<Rightarrow> pyfloat \<Rightarrow> pyfloat" where
  "float_div (Fin a) (Fin b) = Fin (a / b)"
| "float_div (Fin a) PosInf = Fin 0"
| "float_div PosInf (Fin b) = PosInf"
| "float_div NegInf (Fin b) = NegInf"
| "float_div _ _ = NaN"

text \<open>The constructor derives the ratio, and what it supports, from the margin (\<open>float_div\<close> is the
  quotient for a positive divisor).\<close>

definition account_post_init :: "account_risk_snapshot \<Rightarrow> account_risk_snapshot" where
  "account_post_init s =
     (if \<not> float_above 0 (ar_maintenance_margin_quote s)
      then s\<lparr>ar_supported := ar_zero_maintenance_is_normal s \<and> ar_maintenance_margin_quote s = Fin 0 \<and>
               float_le (Fin 0) (ar_equity_quote s),
             ar_health_ratio := Fin 0\<rparr>
      else if ar_supported s \<and> ar_health_ratio s = Fin 0
      then s\<lparr>ar_health_ratio := float_div (ar_equity_quote s) (ar_maintenance_margin_quote s)\<rparr> else s)"

definition snapshot_age_ms :: "int \<Rightarrow> account_risk_snapshot \<Rightarrow> int" where
  "snapshot_age_ms now_ms s = max (now_ms - ar_observed_at_ms s) 0"

definition is_effectively_stale :: "int \<Rightarrow> int \<Rightarrow> account_risk_snapshot \<Rightarrow> bool" where
  "is_effectively_stale now_ms max_age_ms s \<longleftrightarrow> ar_stale s \<or> max_age_ms > 0 \<and> snapshot_age_ms now_ms s > max_age_ms"

record risk_config = health_config +
  rc_risk_monitor_enabled :: bool
  rc_unsupported_risk_snapshot_behavior :: string
  rc_warning_pause_new_entries_enabled :: bool
  rc_delever_auto_execute_enabled :: bool
  rc_partial_delever_ratio :: real
  rc_partial_delever_cooldown_ms :: int
  rc_max_partial_delever_steps :: int
  rc_health_recovery_ratio :: real
  rc_death_single_side_protection_enabled :: bool
  rc_max_risk_snapshot_age_ms :: int

definition default_risk_config :: risk_config where
  "default_risk_config = \<lparr>hc_death_line_enabled = True, hc_death_health_ratio = 11 / 10, hc_delever_line_enabled = True,
     hc_delever_health_ratio = 3 / 2, hc_warning_line_enabled = True, hc_warning_health_ratio = 3,
     rc_risk_monitor_enabled = False, rc_unsupported_risk_snapshot_behavior = ''death_line'',
     rc_warning_pause_new_entries_enabled = True, rc_delever_auto_execute_enabled = True,
     rc_partial_delever_ratio = 1 / 5, rc_partial_delever_cooldown_ms = 30000, rc_max_partial_delever_steps = 4,
     rc_health_recovery_ratio = 2, rc_death_single_side_protection_enabled = True, rc_max_risk_snapshot_age_ms = 30000\<rparr>"

text \<open>A reason with at least the given action; the view is degraded.\<close>

definition degrade :: "venue_health_action \<Rightarrow> health_reason \<Rightarrow> venue_health_view \<Rightarrow> venue_health_view" where
  "degrade a r v = v\<lparr>vh_action := max_action (vh_action v) a, vh_degraded := True, vh_reasons := vh_reasons v @ [r]\<rparr>"

definition apply_unsupported_snapshot_policy :: "risk_config \<Rightarrow> health_reason \<Rightarrow> venue_health_view \<Rightarrow> venue_health_view" where
  "apply_unsupported_snapshot_policy strategy r v =
     (let behavior = rc_unsupported_risk_snapshot_behavior strategy
      in degrade (if behavior = ''death_line'' then VH_FAIL_CLOSED else if behavior = ''warning_only'' then VH_PAUSE_ENTRY
                  else vh_action v) r v)"

definition new_health_view :: "venue \<Rightarrow> real \<Rightarrow> venue_health_view" where
  "new_health_view venue score = \<lparr>vh_venue = venue, vh_action = VH_NORMAL, vh_health_ratio = None, vh_degraded = False,
     vh_stale = False, vh_supported = False, vh_order_health_risk_score = score, vh_reasons = []\<rparr>"

definition order_health :: "real \<Rightarrow> venue_health_view \<Rightarrow> venue_health_view" where
  "order_health score v =
     (if score \<ge> 3 / 4 then degrade VH_REDUCE_ONLY (Order_Health_Risk_High score) v
      else if score \<ge> 2 / 5 then degrade VH_PAUSE_ENTRY (Order_Health_Risk_Elevated score) v else v)"

definition health_lines :: "risk_config \<Rightarrow> venue_health_view \<Rightarrow> venue_health_view" where
  "health_lines strategy v =
     (case vh_health_ratio v of
        None \<Rightarrow> v
      | Some ratio \<Rightarrow>
          if float_le ratio (Fin (hc_death_health_ratio strategy)) then degrade VH_FAIL_CLOSED (Health_Below_Death_Line ratio) v
          else if float_le ratio (Fin (hc_delever_health_ratio strategy))
          then degrade VH_REDUCE_ONLY (Health_Below_Delever_Line ratio) v
          else if float_le ratio (Fin (hc_warning_health_ratio strategy))
          then degrade VH_PAUSE_ENTRY (Health_Below_Warning_Line ratio) v else v)"

definition snapshot_health ::
  "risk_config \<Rightarrow> int \<Rightarrow> bool \<Rightarrow> account_risk_snapshot option \<Rightarrow> venue_health_view \<Rightarrow> venue_health_view" where
  "snapshot_health strategy now_ms supports_risk_health snapshot v =
     (if \<not> supports_risk_health then apply_unsupported_snapshot_policy strategy Risk_Snapshot_Unavailable v
      else case snapshot of
        None \<Rightarrow> apply_unsupported_snapshot_policy strategy Risk_Snapshot_Unavailable v
      | Some s \<Rightarrow>
          let stale = is_effectively_stale now_ms (rc_max_risk_snapshot_age_ms strategy) s;
              v = v\<lparr>vh_supported := ar_supported s, vh_stale := stale,
                vh_health_ratio := (if ar_supported s \<and> float_above 0 (ar_health_ratio s) then Some (ar_health_ratio s) else None)\<rparr>
          in if \<not> ar_supported s \<or> stale
             then apply_unsupported_snapshot_policy strategy (if stale then Risk_Snapshot_Stale else Risk_Snapshot_Unsupported) v
             else health_lines strategy v)"

definition evaluate_venue_health ::
  "risk_config \<Rightarrow> venue \<Rightarrow> int \<Rightarrow> bool \<Rightarrow> account_risk_snapshot option \<Rightarrow> real \<Rightarrow> bool \<Rightarrow> bool option \<Rightarrow> bool \<Rightarrow> venue_health_view" where
  "evaluate_venue_health strategy venue now_ms supports_risk_health snapshot score supports_private_health
       private_connection_healthy private_position_confirmed =
     (let v = new_health_view venue score
      in if supports_private_health \<and> private_connection_healthy = Some False
         then v\<lparr>vh_action := VH_FAIL_CLOSED, vh_degraded := True, vh_reasons := [Private_Stream_Unhealthy]\<rparr>
         else snapshot_health strategy now_ms supports_risk_health snapshot
           (order_health score
             (if supports_private_health \<and> private_connection_healthy \<noteq> None \<and> \<not> private_position_confirmed
              then degrade VH_REDUCE_ONLY Private_Position_Unconfirmed v else v)))"

section \<open>Position risk\<close>

record position_risk_view =
  pr_long_health_ratio :: "pyfloat option"
  pr_short_health_ratio :: "pyfloat option"
  pr_min_health_ratio :: "pyfloat option"
  pr_warning_condition :: bool
  pr_delever_condition :: bool
  pr_death_condition :: bool
  pr_long_snapshot_supported :: bool
  pr_short_snapshot_supported :: bool
  pr_long_snapshot_stale :: bool
  pr_short_snapshot_stale :: bool
  pr_risk_snapshot_age_ms :: int
  pr_degraded_reason :: "string option"
  pr_degraded_venue :: "venue option"

datatype risk_action = RA_NONE | RA_WARNING | RA_SYNCHRONIZED_DELEVER | RA_SINGLE_SIDE_PROTECTION

definition active_action :: "position_risk_view \<Rightarrow> risk_action" where
  "active_action v = (if pr_death_condition v then RA_SINGLE_SIDE_PROTECTION else if pr_delever_condition v
     then RA_SYNCHRONIZED_DELEVER else if pr_warning_condition v then RA_WARNING else RA_NONE)"

definition leg_stale :: "risk_config \<Rightarrow> int \<Rightarrow> bool \<Rightarrow> account_risk_snapshot option \<Rightarrow> bool" where
  "leg_stale strategy now_ms supports snapshot \<longleftrightarrow>
     supports \<and> (case snapshot of None \<Rightarrow> False | Some s \<Rightarrow> is_effectively_stale now_ms (rc_max_risk_snapshot_age_ms strategy) s)"

definition leg_supported :: "risk_config \<Rightarrow> int \<Rightarrow> bool \<Rightarrow> account_risk_snapshot option \<Rightarrow> bool" where
  "leg_supported strategy now_ms supports snapshot \<longleftrightarrow>
     supports \<and> (case snapshot of None \<Rightarrow> False | Some s \<Rightarrow> ar_supported s) \<and> \<not> leg_stale strategy now_ms supports snapshot"

definition leg_health_ratio :: "account_risk_snapshot option \<Rightarrow> bool \<Rightarrow> pyfloat option" where
  "leg_health_ratio snapshot supports =
     (case snapshot of None \<Rightarrow> None
      | Some s \<Rightarrow> if supports \<and> ar_supported s \<and> float_above 0 (ar_health_ratio s) then Some (ar_health_ratio s) else None)"

definition min_ratio :: "pyfloat option \<Rightarrow> pyfloat option \<Rightarrow> pyfloat option" where
  "min_ratio x y = (case (x, y) of (None, _) \<Rightarrow> y | (_, None) \<Rightarrow> x | (Some a, Some b) \<Rightarrow> Some (py_fmin a b))"

definition at_most_line :: "pyfloat option \<Rightarrow> real \<Rightarrow> bool" where
  "at_most_line ratio line = (case ratio of None \<Rightarrow> False | Some r \<Rightarrow> float_le r (Fin line))"

text \<open>Which leg lacks evidence, and why: the first that applies.\<close>

definition degradation ::
  "risk_config \<Rightarrow> int \<Rightarrow> venue \<Rightarrow> venue \<Rightarrow> bool \<Rightarrow> bool \<Rightarrow> account_risk_snapshot option \<Rightarrow> account_risk_snapshot option
     \<Rightarrow> (string \<times> venue) option" where
  "degradation strategy now_ms long_venue short_venue long_supports short_supports long_snapshot short_snapshot =
     (if \<not> long_supports then Some (''long_snapshot_unavailable'', long_venue)
      else if \<not> short_supports then Some (''short_snapshot_unavailable'', short_venue)
      else if long_snapshot = None then Some (''long_snapshot_unavailable'', long_venue)
      else if short_snapshot = None then Some (''short_snapshot_unavailable'', short_venue)
      else if \<not> leg_supported strategy now_ms long_supports long_snapshot
      then Some (if leg_stale strategy now_ms long_supports long_snapshot then ''long_snapshot_stale''
                 else ''long_snapshot_unsupported'', long_venue)
      else if \<not> leg_supported strategy now_ms short_supports short_snapshot
      then Some (if leg_stale strategy now_ms short_supports short_snapshot then ''short_snapshot_stale''
                 else ''short_snapshot_unsupported'', short_venue)
      else None)"

definition evaluate_position_risk ::
  "risk_config \<Rightarrow> int \<Rightarrow> venue \<Rightarrow> venue \<Rightarrow> bool \<Rightarrow> bool \<Rightarrow> account_risk_snapshot option \<Rightarrow> account_risk_snapshot option
     \<Rightarrow> position_risk_view" where
  "evaluate_position_risk strategy now_ms long_venue short_venue long_supports short_supports long_snapshot short_snapshot =
     (let long_ratio = leg_health_ratio long_snapshot long_supports;
          short_ratio = leg_health_ratio short_snapshot short_supports;
          min_r = min_ratio long_ratio short_ratio;
          age = (\<lambda>s. case s of None \<Rightarrow> 0 | Some x \<Rightarrow> snapshot_age_ms now_ms x);
          degraded = degradation strategy now_ms long_venue short_venue long_supports short_supports long_snapshot short_snapshot;
          warning = at_most_line min_r (hc_warning_health_ratio strategy);
          delever = at_most_line min_r (hc_delever_health_ratio strategy);
          death = at_most_line min_r (hc_death_health_ratio strategy);
          behavior = rc_unsupported_risk_snapshot_behavior strategy;
          (warning, delever, death) =
            (if degraded \<noteq> None \<and> behavior = ''death_line'' then (warning, delever, True)
             else if degraded \<noteq> None \<and> behavior = ''warning_only'' then (True, False, False)
             else (warning, delever, death))
      in \<lparr>pr_long_health_ratio = long_ratio, pr_short_health_ratio = short_ratio, pr_min_health_ratio = min_r,
          pr_warning_condition = warning, pr_delever_condition = delever, pr_death_condition = death,
          pr_long_snapshot_supported = leg_supported strategy now_ms long_supports long_snapshot,
          pr_short_snapshot_supported = leg_supported strategy now_ms short_supports short_snapshot,
          pr_long_snapshot_stale = leg_stale strategy now_ms long_supports long_snapshot,
          pr_short_snapshot_stale = leg_stale strategy now_ms short_supports short_snapshot,
          pr_risk_snapshot_age_ms = max (age long_snapshot) (age short_snapshot),
          pr_degraded_reason = map_option fst degraded, pr_degraded_venue = map_option snd degraded\<rparr>)"

section \<open>Plans\<close>

text \<open>Of a position, what plans read and their execution writes.\<close>

record risk_position =
  rq_position_id :: string
  rq_long_venue :: venue
  rq_short_venue :: venue
  rq_symbol :: string
  rq_matched_quantity :: real
  rq_risk_delever_step_count :: int
  rq_last_risk_action_at_ms :: int
  rq_last_risk_reason :: "string option"
  rq_single_side_protection_triggered :: bool
  rq_blocked_reasons :: "string list"

type_synonym protection_target = "venue \<times> order_side \<times> string"

datatype risk_plan =
    Delever string real
  | Single_Side_Protection string "protection_target option"
  | Plan_Fail_Closed string

fun plan_reason :: "risk_plan \<Rightarrow> string" where
  "plan_reason (Delever r _) = r"
| "plan_reason (Single_Side_Protection r _) = r"
| "plan_reason (Plan_Fail_Closed r) = r"

definition select_single_side_protection_target :: "risk_position \<Rightarrow> position_risk_view \<Rightarrow> protection_target option" where
  "select_single_side_protection_target p v =
     (let long = Some (rq_long_venue p, SELL, ''risk_protection_long'');
          short = Some (rq_short_venue p, BUY, ''risk_protection_short'')
      in if pr_degraded_venue v = Some (rq_long_venue p) then short
         else if pr_degraded_venue v = Some (rq_short_venue p) then long
         else case (pr_long_health_ratio v, pr_short_health_ratio v) of
           (Some l, Some s) \<Rightarrow> if float_le l s then long else short
         | (Some l, None) \<Rightarrow> long
         | (None, Some s) \<Rightarrow> short
         | (None, None) \<Rightarrow> None)"

definition check_delever_liquidity_blocked :: "risk_position \<Rightarrow> real \<Rightarrow> string option" where
  "check_delever_liquidity_blocked p requested_quantity =
     (if requested_quantity < eps then Some ''delever_blocked_zero_quantity''
      else if rq_blocked_reasons p \<noteq> [] \<and>
        list_ex (\<lambda>r. py_contains ''liquidity'' (py_lower r) \<or> py_contains ''blocked'' (py_lower r)) (rq_blocked_reasons p)
      then Some (''delever_blocked_liquidity:'' @ hd (rq_blocked_reasons p)) else None)"

definition delever_regime_active :: "risk_position \<Rightarrow> position_risk_view \<Rightarrow> risk_config \<Rightarrow> bool" where
  "delever_regime_active p v strategy \<longleftrightarrow>
     pr_delever_condition v \<or>
     rq_risk_delever_step_count p > 0 \<and>
       (case pr_min_health_ratio v of None \<Rightarrow> False | Some r \<Rightarrow> float_less r (Fin (rc_health_recovery_ratio strategy)))"

definition escalation :: "risk_config \<Rightarrow> risk_position \<Rightarrow> position_risk_view \<Rightarrow> string \<Rightarrow> risk_plan" where
  "escalation strategy p v r =
     (if rc_death_single_side_protection_enabled strategy
      then Single_Side_Protection r (select_single_side_protection_target p v) else Plan_Fail_Closed r)"

text \<open>The code writes the text out with the default; an empty reason would give the default, too.\<close>

definition build_risk_execution_plan :: "risk_position \<Rightarrow> position_risk_view \<Rightarrow> risk_config \<Rightarrow> int \<Rightarrow> risk_plan option" where
  "build_risk_execution_plan p v strategy now_ms =
     (if \<not> rc_risk_monitor_enabled strategy then None
      else if pr_death_condition v \<and> hc_death_line_enabled strategy
      then Some (escalation strategy p v (case pr_degraded_reason v of Some r \<Rightarrow> r | None \<Rightarrow> ''death_line_health_breach''))
      else if delever_regime_active p v strategy \<and> hc_delever_line_enabled strategy \<and>
        rc_delever_auto_execute_enabled strategy \<and> rq_matched_quantity p > 0 \<and>
        (rc_max_partial_delever_steps strategy = 0 \<or> rq_risk_delever_step_count p < rc_max_partial_delever_steps strategy) \<and>
        \<not> (rq_last_risk_action_at_ms p > 0 \<and> now_ms < rq_last_risk_action_at_ms p + rc_partial_delever_cooldown_ms strategy)
      then let requested_quantity = rq_matched_quantity p * rc_partial_delever_ratio strategy
           in if requested_quantity \<le> 0 then None
              else (case check_delever_liquidity_blocked p requested_quantity of
                      Some r \<Rightarrow> Some (escalation strategy p v r)
                    | None \<Rightarrow> Some (Delever ''risk_delever'' requested_quantity))
      else None)"

section \<open>The supervised state\<close>

datatype global_risk_reason = Health_Reason health_reason | Venue_Health venue | Other_Reason string

record supervised_state = engine_state +
  sv_open_positions :: "(string, risk_position) dict"
  sv_pending_close_reconciliations :: "obj list"
  sv_pending_entries :: nat
  sv_pending_closes :: nat
  sv_pending_passive_closes :: nat
  sv_pending_residual_repairs :: nat
  sv_operator_requested_mode :: "global_risk_mode option"
  sv_last_error :: "string option"
  sv_global_risk_reason :: "global_risk_reason option"

text \<open>What the adapter of a venue says without a call: its capabilities and its caches.\<close>

record health_adapter =
  ha_supports_risk_health :: bool
  ha_supports_private_health :: bool
  ha_private_connection_health :: "connection_health option"
  ha_cached_position :: "string \<Rightarrow> bool"

definition needs_reconciliation :: "supervised_state \<Rightarrow> bool" where
  "needs_reconciliation s \<longleftrightarrow>
     sv_open_positions s \<noteq> [] \<or> sv_pending_entries s > 0 \<or> sv_pending_closes s > 0 \<or>
     sv_pending_passive_closes s > 0 \<or> sv_pending_residual_repairs s > 0"

definition fail_closed_can_clear :: "supervised_state \<Rightarrow> bool" where
  "fail_closed_can_clear s =
     (if sv_operator_requested_mode s = Some FAIL_CLOSED then False
      else if truthy (es_recovery_blocked_reason s) then False else \<not> needs_reconciliation s)"

definition venue_private_position_confirmed :: "health_adapter \<Rightarrow> string \<Rightarrow> bool" where
  "venue_private_position_confirmed adapter symbol =
     (if \<not> ha_supports_private_health adapter then True
      else case ha_private_connection_health adapter of
        None \<Rightarrow> True
      | Some h \<Rightarrow> if is_unhealthy h then False else ha_cached_position adapter symbol)"

text \<open>The venues of the open positions and of the queue of reconciliations, which is normalised first.\<close>

definition added_venue :: "pyval \<Rightarrow> venue list" where
  "added_venue v = (case v of PStr t \<Rightarrow> if t = [] then [] else (case venue_from_str t of Some w \<Rightarrow> [w] | None \<Rightarrow> []) | _ \<Rightarrow> [])"

definition reconciliation_venues :: "obj \<Rightarrow> venue list" where
  "reconciliation_venues rec =
     (let snapshot = mapping_part (dget rec ''position_snapshot'')
      in added_venue (py_or (dget rec ''long_venue'') (dget snapshot ''long_venue'')) @
         added_venue (py_or (dget rec ''short_venue'') (dget snapshot ''short_venue'')))"

definition supervised_venues :: "supervised_state \<Rightarrow> venue list \<times> supervised_state" where
  "supervised_venues s =
     (let queue = set_pending_close_reconciliations (as_raw (sv_pending_close_reconciliations s))
      in (first_occurrences (concat (map (\<lambda>p. [rq_long_venue p, rq_short_venue p]) (map snd (sv_open_positions s)) @
            map reconciliation_venues queue)),
          s\<lparr>sv_pending_close_reconciliations := queue\<rparr>))"

definition health_of_venue ::
  "risk_config \<Rightarrow> int \<Rightarrow> (venue, account_risk_snapshot option) dict \<Rightarrow> risk_position list \<Rightarrow> venue \<Rightarrow> health_adapter
     \<Rightarrow> venue_health_view" where
  "health_of_venue strategy now_ms snapshots positions venue adapter =
     (let snapshot = (if ha_supports_risk_health adapter then (case dict_get snapshots venue of Some x \<Rightarrow> x | None \<Rightarrow> None) else None);
          on_venue = filter (\<lambda>p. rq_long_venue p = venue \<or> rq_short_venue p = venue) positions;
          supports_private = ha_supports_private_health adapter
      in evaluate_venue_health strategy venue now_ms (ha_supports_risk_health adapter) snapshot 0 supports_private
           (if supports_private then map_option (\<lambda>h. \<not> is_unhealthy h) (ha_private_connection_health adapter) else None)
           (if supports_private then list_all (\<lambda>p. venue_private_position_confirmed adapter (rq_symbol p)) on_venue else True))"

text \<open>The code iterates over a set of venues. The order decides only which of several reasons of the
  same severity is remembered; here it is that of the positions, then of the queue.\<close>

definition collect_venue_health_views ::
  "risk_config \<Rightarrow> int \<Rightarrow> (venue, health_adapter) dict \<Rightarrow> (venue, account_risk_snapshot option) dict \<Rightarrow> supervised_state
     \<Rightarrow> venue_health_view list \<times> supervised_state" where
  "collect_venue_health_views strategy now_ms adapters snapshots s =
     (if \<not> rc_risk_monitor_enabled strategy then ([], s)
      else let (venues, s') = supervised_venues s
           in (concat (map (\<lambda>venue. case dict_get adapters venue of None \<Rightarrow> []
                 | Some a \<Rightarrow> [health_of_venue strategy now_ms snapshots (map snd (sv_open_positions s)) venue a]) venues), s'))"

definition supervisor_action_mode :: "risk_config \<Rightarrow> venue_health_action \<Rightarrow> global_risk_mode" where
  "supervisor_action_mode strategy a =
     (let warning = (if hc_warning_line_enabled strategy then ENTRY_PAUSED else RM_RUNNING);
          delever = (if hc_delever_line_enabled strategy then REDUCE_ONLY else warning)
      in case a of
           VH_NORMAL \<Rightarrow> RM_RUNNING
         | VH_PAUSE_ENTRY \<Rightarrow> warning
         | VH_REDUCE_ONLY \<Rightarrow> delever
         | VH_FAIL_CLOSED \<Rightarrow> if hc_death_line_enabled strategy then FAIL_CLOSED else delever)"

section \<open>The global mode\<close>

definition line_mode :: "(string, real) dict \<Rightarrow> risk_config \<Rightarrow> global_risk_mode" where
  "line_mode ratios strategy =
     (let health = evaluate_risk_health ratios (health_config.truncate strategy)
      in if rh_death_condition health \<and> hc_death_line_enabled strategy then FAIL_CLOSED
         else if rh_delever_condition health \<and> hc_delever_line_enabled strategy then REDUCE_ONLY
         else if rh_warning_condition health \<and> hc_warning_line_enabled strategy \<and>
                 rc_warning_pause_new_entries_enabled strategy then ENTRY_PAUSED
         else RM_RUNNING)"

definition raise_mode :: "risk_config \<Rightarrow> venue_health_view \<Rightarrow> global_risk_mode \<times> supervised_state \<Rightarrow> global_risk_mode \<times> supervised_state" where
  "raise_mode strategy v = (\<lambda>(mode, s).
     let candidate = supervisor_action_mode strategy (vh_action v)
     in if at_least_mode candidate mode \<and> candidate \<noteq> mode
        then (candidate, s\<lparr>sv_global_risk_reason :=
               Some (if vh_reasons v \<noteq> [] then Health_Reason (hd (vh_reasons v)) else Venue_Health (vh_venue v))\<rparr>)
        else (mode, s))"

definition update_global_risk_mode ::
  "risk_config \<Rightarrow> (string, real) dict \<Rightarrow> venue_health_view list \<Rightarrow> supervised_state \<Rightarrow> global_risk_mode \<times> supervised_state" where
  "update_global_risk_mode strategy ratios views s =
     (let (new_mode, s) = (if rc_risk_monitor_enabled strategy then fold (raise_mode strategy) views (line_mode ratios strategy, s)
            else (line_mode ratios strategy, s));
          old_mode = es_risk_mode s
      in if old_mode = FAIL_CLOSED \<and> new_mode \<noteq> FAIL_CLOSED \<and> \<not> fail_closed_can_clear s then (old_mode, s)
         else let s = (if old_mode = FAIL_CLOSED \<and> new_mode \<noteq> FAIL_CLOSED
                then s\<lparr>es_lifecycle := LC_RUNNING, sv_last_error := None, sv_global_risk_reason := None\<rparr> else s);
                s = (if new_mode \<noteq> old_mode
                  then (if new_mode = FAIL_CLOSED then s\<lparr>es_risk_mode := new_mode, es_lifecycle := RISK_ONLY\<rparr>
                        else s\<lparr>es_risk_mode := new_mode\<rparr>) else s)
              in (new_mode, s))"

definition supervise ::
  "risk_config \<Rightarrow> int \<Rightarrow> (string, real) dict \<Rightarrow> (venue, health_adapter) dict \<Rightarrow> (venue, account_risk_snapshot option) dict
     \<Rightarrow> supervised_state \<Rightarrow> supervised_state" where
  "supervise strategy now_ms ratios adapters snapshots s =
     (if \<not> rc_risk_monitor_enabled strategy
      then if es_risk_mode s = FAIL_CLOSED \<and> fail_closed_can_clear s
           then s\<lparr>es_lifecycle := LC_RUNNING, es_risk_mode := RM_RUNNING, sv_last_error := None, sv_global_risk_reason := None\<rparr>
           else s
      else let (views, s) = (if adapters = [] then ([], s) else collect_venue_health_views strategy now_ms adapters snapshots s)
           in snd (update_global_risk_mode strategy ratios views s))"

section \<open>Supervision of a position\<close>

definition recovered :: "risk_config \<Rightarrow> position_risk_view \<Rightarrow> risk_position \<Rightarrow> bool" where
  "recovered strategy v p \<longleftrightarrow> rq_risk_delever_step_count p > 0 \<and>
     (case pr_min_health_ratio v of None \<Rightarrow> False | Some r \<Rightarrow> float_le (Fin (rc_health_recovery_ratio strategy)) r)"

definition supervise_position ::
  "risk_config \<Rightarrow> int \<Rightarrow> bool \<Rightarrow> bool \<Rightarrow> account_risk_snapshot option \<Rightarrow> account_risk_snapshot option \<Rightarrow> risk_position
     \<Rightarrow> risk_plan option \<times> risk_position" where
  "supervise_position strategy now_ms long_supports short_supports long_snapshot short_snapshot p =
     (if \<not> rc_risk_monitor_enabled strategy then (None, p)
      else let v = evaluate_position_risk strategy now_ms (rq_long_venue p) (rq_short_venue p) long_supports short_supports
                 long_snapshot short_snapshot;
               p = (if recovered strategy v p then p\<lparr>rq_risk_delever_step_count := 0, rq_last_risk_action_at_ms := 0\<rparr> else p)
           in (build_risk_execution_plan p v strategy now_ms, p))"

text \<open>The warnings in force, by position; a warning is announced when it begins and when it ends.\<close>

definition update_warning_state :: "risk_config \<Rightarrow> position_risk_view \<Rightarrow> string \<Rightarrow> string set \<Rightarrow> string set" where
  "update_warning_state strategy v position_id warned =
     (if \<not> rc_risk_monitor_enabled strategy then warned
      else if hc_warning_line_enabled strategy \<and> pr_warning_condition v then insert position_id warned
      else warned - {position_id})"

text \<open>The executor of closes (\<open>close_executor.py\<close>) is a parameter; what it may do to the position and to
  the state is not. It lowers the matched quantity (1455), may set the time of the last risk action
  (1551, the pause after dust), may queue a reconciliation (879) and residual repairs (1357-1364),
  records the pending close (1482) and removes a closed position (1545). It returns or raises; when a
  compensation fails it enters the fail-closed mode, records the error and raises (2179, 2268).\<close>

datatype close_outcome = Close_Returned | Close_Raised | Compensation_Failed string

record close_effect =
  ce_matched_quantity :: real
  ce_last_risk_action_at_ms :: "int option"
  ce_reconciliations :: "obj list"
  ce_pending_closes :: nat
  ce_pending_residual_repairs :: nat
  ce_position_removed :: bool
  ce_outcome :: close_outcome

type_synonym close_executor = "string \<Rightarrow> real \<Rightarrow> risk_position \<times> supervised_state \<Rightarrow> close_effect"

definition fail_closed_state :: "supervised_state \<Rightarrow> supervised_state" where
  "fail_closed_state s = s\<lparr>es_lifecycle := RISK_ONLY, es_risk_mode := FAIL_CLOSED\<rparr>"

definition apply_close_effect :: "close_effect \<Rightarrow> risk_position \<times> supervised_state \<Rightarrow> risk_position \<times> supervised_state" where
  "apply_close_effect e = (\<lambda>(p, s).
     let q = p\<lparr>rq_matched_quantity := ce_matched_quantity e,
               rq_last_risk_action_at_ms := (case ce_last_risk_action_at_ms e of None \<Rightarrow> rq_last_risk_action_at_ms p | Some t \<Rightarrow> t)\<rparr>;
         t = s\<lparr>sv_pending_close_reconciliations := ce_reconciliations e, sv_pending_closes := ce_pending_closes e,
               sv_pending_residual_repairs := ce_pending_residual_repairs e,
               sv_open_positions := (if ce_position_removed e then dict_pop (rq_position_id p) (sv_open_positions s)
                 else sv_open_positions s)\<rparr>
     in (q, case ce_outcome e of Compensation_Failed err \<Rightarrow> (fail_closed_state t)\<lparr>sv_last_error := Some err\<rparr> | _ \<Rightarrow> t))"

text \<open>Whether the plan's execution returned, the position and the state. A close that raises leaves the
  handler: its step is not counted.\<close>

definition execute_delever ::
  "close_executor option \<Rightarrow> string \<Rightarrow> real \<Rightarrow> int \<Rightarrow> risk_position \<times> supervised_state
     \<Rightarrow> bool \<times> risk_position \<times> supervised_state" where
  "execute_delever executor r quantity now_ms ps =
     (let (returned, p, s) = (case executor of
            Some cx \<Rightarrow> if quantity > 0 then let e = cx r quantity ps in (ce_outcome e = Close_Returned, apply_close_effect e ps)
              else (True, ps)
          | None \<Rightarrow> (True, ps))
      in if \<not> returned then (False, p, s)
         else (True, p\<lparr>rq_last_risk_action_at_ms := now_ms, rq_risk_delever_step_count := rq_risk_delever_step_count p + 1,
                 rq_last_risk_reason := Some r\<rparr>, s))"

text \<open>The executor only submits the protective order; what it raises is caught.\<close>

definition execute_single_side_protection ::
  "string \<Rightarrow> protection_target option \<Rightarrow> int \<Rightarrow> risk_position \<times> supervised_state \<Rightarrow> risk_position \<times> supervised_state" where
  "execute_single_side_protection r target now_ms = (\<lambda>(p, s).
     case target of
       None \<Rightarrow> (p\<lparr>rq_last_risk_reason := Some r\<rparr>, fail_closed_state s)
     | Some t \<Rightarrow>
         (p\<lparr>rq_last_risk_action_at_ms := now_ms, rq_last_risk_reason := Some r, rq_single_side_protection_triggered := True\<rparr>,
          fail_closed_state s))"

definition execute_fail_closed :: "string \<Rightarrow> int \<Rightarrow> risk_position \<times> supervised_state \<Rightarrow> risk_position \<times> supervised_state" where
  "execute_fail_closed r now_ms = (\<lambda>(p, s).
     (p\<lparr>rq_last_risk_action_at_ms := now_ms, rq_last_risk_reason := Some r\<rparr>, fail_closed_state s))"

fun execute_risk_plan ::
  "close_executor option \<Rightarrow> risk_plan \<Rightarrow> int \<Rightarrow> risk_position \<times> supervised_state
     \<Rightarrow> bool \<times> risk_position \<times> supervised_state" where
  "execute_risk_plan executor (Delever r q) now_ms ps = execute_delever executor r q now_ms ps"
| "execute_risk_plan executor (Single_Side_Protection r t) now_ms ps = (True, execute_single_side_protection r t now_ms ps)"
| "execute_risk_plan executor (Plan_Fail_Closed r) now_ms ps = (True, execute_fail_closed r now_ms ps)"

section \<open>Operator commands on the state\<close>

definition execute_operator_command :: "operator_command \<Rightarrow> bool \<Rightarrow> supervised_state \<Rightarrow> supervised_state" where
  "execute_operator_command c has_blocking_recovery s =
     (let (new_risk, new_lifecycle) = apply_operator_command c (es_risk_mode s) (es_lifecycle s) has_blocking_recovery;
          s = s\<lparr>es_risk_mode := new_risk, es_lifecycle := new_lifecycle\<rparr>
      in if c = OC_FAIL_CLOSED then s\<lparr>sv_operator_requested_mode := Some FAIL_CLOSED\<rparr>
         else if c = OC_RESUME_IF_SAFE \<and> new_risk = RM_RUNNING then s\<lparr>sv_operator_requested_mode := None\<rparr> else s)"


section \<open>The mode is the most severe one\<close>

text \<open>The candidate that a view stands for.\<close>

definition view_mode :: "risk_config \<Rightarrow> venue_health_view \<Rightarrow> global_risk_mode" where
  "view_mode strategy v = supervisor_action_mode strategy (vh_action v)"

lemma at_least_le: "at_least_mode a b \<longleftrightarrow> b \<le> a"
  by (simp add: at_least_mode_def less_eq_global_risk_mode_def)

lemma raise_mode_max: "fst (raise_mode strategy v ms) = max (fst ms) (view_mode strategy v)"
  by (auto simp: raise_mode_def view_mode_def Let_def at_least_le max_def split: prod.split)

lemma raised_mode: "fst (fold (raise_mode strategy) vs ms) = Max (insert (fst ms) (set (map (view_mode strategy) vs)))"
proof (induction vs arbitrary: ms)
  case (Cons v vs)
  have "Max (insert (max m c) A) = Max (insert m (insert c A))" if "finite A" for m c :: global_risk_mode and A
    using that by (cases "A = {}") (auto simp: max.assoc)
  then show ?case by (simp add: Cons.IH raise_mode_max)
qed simp

lemma raise_mode_frame:
  "\<exists>r. snd (raise_mode strategy v (m, s)) = s\<lparr>sv_global_risk_reason := r\<rparr>"
  by (auto simp: raise_mode_def Let_def intro: exI [of _ "sv_global_risk_reason s"])

lemma raised_frame: "\<exists>r. snd (fold (raise_mode strategy) vs (m, s)) = s\<lparr>sv_global_risk_reason := r\<rparr>"
proof (induction vs arbitrary: m s)
  case Nil
  show ?case by (auto intro: exI [of _ "sv_global_risk_reason s"])
next
  case (Cons v vs)
  obtain r where r: "snd (raise_mode strategy v (m, s)) = s\<lparr>sv_global_risk_reason := r\<rparr>"
    using raise_mode_frame by blast
  then have "raise_mode strategy v (m, s) = (fst (raise_mode strategy v (m, s)), s\<lparr>sv_global_risk_reason := r\<rparr>)"
    by (metis prod.collapse)
  with Cons.IH [of "fst (raise_mode strategy v (m, s))" "s\<lparr>sv_global_risk_reason := r\<rparr>"] show ?case by auto
qed

lemma reason_is_no_work [simp]:
  "fail_closed_can_clear (s\<lparr>sv_global_risk_reason := r\<rparr>) = fail_closed_can_clear s"
  by (simp add: fail_closed_can_clear_def needs_reconciliation_def)

lemma reason_frame:
  assumes "\<exists>r. t = s\<lparr>sv_global_risk_reason := r\<rparr>"
  shows "es_risk_mode t = es_risk_mode s" "fail_closed_can_clear t = fail_closed_can_clear s"
    "sv_operator_requested_mode t = sv_operator_requested_mode s"
  using assms by auto

text \<open>The mode that the lines and the views of a tick call for.\<close>

definition called_for :: "risk_config \<Rightarrow> (string, real) dict \<Rightarrow> venue_health_view list \<Rightarrow> global_risk_mode" where
  "called_for strategy ratios views =
     (if rc_risk_monitor_enabled strategy
      then Max (insert (line_mode ratios strategy) (set (map (view_mode strategy) views)))
      else line_mode ratios strategy)"

lemma updated_mode:
  "fst (update_global_risk_mode strategy ratios views s) =
     (if es_risk_mode s = FAIL_CLOSED \<and> \<not> fail_closed_can_clear s then FAIL_CLOSED
      else called_for strategy ratios views)"
  and updated_state_mode:
  "es_risk_mode (snd (update_global_risk_mode strategy ratios views s)) = fst (update_global_risk_mode strategy ratios views s)"
proof -
  define ms where "ms = (if rc_risk_monitor_enabled strategy
    then fold (raise_mode strategy) views (line_mode ratios strategy, s) else (line_mode ratios strategy, s))"
  have mode: "fst ms = called_for strategy ratios views"
    by (simp add: ms_def called_for_def raised_mode)
  have "\<exists>r. snd ms = s\<lparr>sv_global_risk_reason := r\<rparr>"
    using raised_frame by (auto simp: ms_def intro: exI [of _ "sv_global_risk_reason s"])
  note frame = reason_frame [OF this]
  show "fst (update_global_risk_mode strategy ratios views s) =
     (if es_risk_mode s = FAIL_CLOSED \<and> \<not> fail_closed_can_clear s then FAIL_CLOSED else called_for strategy ratios views)"
    and "es_risk_mode (snd (update_global_risk_mode strategy ratios views s)) = fst (update_global_risk_mode strategy ratios views s)"
    unfolding update_global_risk_mode_def ms_def [symmetric] by (auto simp: Let_def split_beta mode frame)
qed

section \<open>What the health of a venue shows\<close>

lemma degrade_action [simp]: "vh_action (degrade a r v) = max (vh_action v) a"
  by (simp add: degrade_def)

lemma normal_bottom [simp]: "a \<le> VH_NORMAL \<longleftrightarrow> a = VH_NORMAL"
  by (cases a) (simp_all add: less_eq_venue_health_action_def)

lemma max_normal [simp]: "max a b = VH_NORMAL \<longleftrightarrow> a = VH_NORMAL \<and> b = VH_NORMAL" for a b :: venue_health_action
  by (cases a; cases b) (simp_all add: max_def less_eq_venue_health_action_def)

text \<open>Missing evidence pauses entries, at the least, under the two policies that the configuration names.\<close>

definition policy_acts :: "risk_config \<Rightarrow> bool" where
  "policy_acts strategy \<longleftrightarrow> rc_unsupported_risk_snapshot_behavior strategy \<in> {''death_line'', ''warning_only''}"

text \<open>Evidence that a venue is healthy: a snapshot that is supported and recent, whose ratio, when it
  is positive, is above every line.\<close>

definition healthy_evidence :: "risk_config \<Rightarrow> int \<Rightarrow> account_risk_snapshot \<Rightarrow> bool" where
  "healthy_evidence strategy now_ms x \<longleftrightarrow>
     ar_supported x \<and> \<not> is_effectively_stale now_ms (rc_max_risk_snapshot_age_ms strategy) x \<and>
     (float_above 0 (ar_health_ratio x) \<longrightarrow>
        \<not> float_le (ar_health_ratio x) (Fin (hc_death_health_ratio strategy)) \<and>
        \<not> float_le (ar_health_ratio x) (Fin (hc_delever_health_ratio strategy)) \<and>
        \<not> float_le (ar_health_ratio x) (Fin (hc_warning_health_ratio strategy)))"

lemma policy_normal:
  "policy_acts strategy \<Longrightarrow> vh_action (apply_unsupported_snapshot_policy strategy r v) \<noteq> VH_NORMAL"
  by (auto simp: apply_unsupported_snapshot_policy_def policy_acts_def)

lemma lines_normal:
  "vh_action (health_lines strategy v) = VH_NORMAL \<Longrightarrow>
     vh_action v = VH_NORMAL \<and>
     (\<forall>r. vh_health_ratio v = Some r \<longrightarrow> \<not> float_le r (Fin (hc_death_health_ratio strategy)) \<and>
        \<not> float_le r (Fin (hc_delever_health_ratio strategy)) \<and> \<not> float_le r (Fin (hc_warning_health_ratio strategy)))"
  by (auto simp: health_lines_def split: option.splits if_splits)

lemma snapshot_normal:
  assumes "vh_action (snapshot_health strategy now_ms supports snapshot v) = VH_NORMAL" and "policy_acts strategy"
  shows "vh_action v = VH_NORMAL \<and> supports \<and> (\<exists>x. snapshot = Some x \<and> healthy_evidence strategy now_ms x)"
proof -
  have s: supports
    using assms policy_normal by (auto simp: snapshot_health_def split: if_splits)
  obtain x where x: "snapshot = Some x"
    using assms policy_normal s by (auto simp: snapshot_health_def split: option.splits)
  have supported: "ar_supported x \<and> \<not> is_effectively_stale now_ms (rc_max_risk_snapshot_age_ms strategy) x"
    using assms policy_normal s x by (auto simp: snapshot_health_def Let_def split: if_splits)
  define w where "w = v\<lparr>vh_supported := True, vh_stale := False,
    vh_health_ratio := (if float_above 0 (ar_health_ratio x) then Some (ar_health_ratio x) else None)\<rparr>"
  have "vh_action (health_lines strategy w) = VH_NORMAL"
    using assms(1) s x supported by (simp add: snapshot_health_def w_def Let_def)
  from lines_normal [OF this] show ?thesis
    using s x supported by (auto simp: healthy_evidence_def w_def split: if_splits)
qed

lemma order_health_normal: "vh_action (order_health score v) = VH_NORMAL \<Longrightarrow> vh_action v = VH_NORMAL \<and> score < 2 / 5"
  by (auto simp: order_health_def split: if_splits)

lemma venue_normal:
  assumes "vh_action (evaluate_venue_health strategy venue now_ms supports snapshot score supports_private healthy confirmed) = VH_NORMAL"
    and "policy_acts strategy"
  shows "supports \<and> (\<exists>x. snapshot = Some x \<and> healthy_evidence strategy now_ms x) \<and> score < 2 / 5 \<and>
    (supports_private \<and> healthy \<noteq> None \<longrightarrow> healthy = Some True \<and> confirmed)"
proof -
  let ?v = "if supports_private \<and> healthy \<noteq> None \<and> \<not> confirmed
    then degrade VH_REDUCE_ONLY Private_Position_Unconfirmed (new_health_view venue score) else new_health_view venue score"
  have stream: "\<not> (supports_private \<and> healthy = Some False)"
    using assms(1) by (auto simp: evaluate_venue_health_def Let_def)
  then have "vh_action (snapshot_health strategy now_ms supports snapshot (order_health score ?v)) = VH_NORMAL"
    using assms(1) unfolding evaluate_venue_health_def Let_def by (simp only: if_not_P if_False)
  from snapshot_normal [OF this assms(2)]
  have parts: "vh_action (order_health score ?v) = VH_NORMAL" "supports" "\<exists>x. snapshot = Some x \<and> healthy_evidence strategy now_ms x"
    by auto
  from order_health_normal [OF parts(1)] have "vh_action ?v = VH_NORMAL" "score < 2 / 5" by auto
  with parts stream show ?thesis by (cases healthy) (auto split: if_splits)
qed

lemma running_action:
  "hc_warning_line_enabled strategy \<Longrightarrow> supervisor_action_mode strategy a = RM_RUNNING \<longleftrightarrow> a = VH_NORMAL"
  by (cases a) (auto simp: supervisor_action_mode_def Let_def)

lemma called_running:
  assumes "called_for strategy ratios views = RM_RUNNING" and "rc_risk_monitor_enabled strategy" and "v \<in> set views"
  shows "view_mode strategy v = RM_RUNNING"
proof -
  have "view_mode strategy v \<le> Max (insert (line_mode ratios strategy) (set (map (view_mode strategy) views)))"
    using assms(3) by (intro Max_ge) auto
  with assms(1,2) show ?thesis by (simp add: called_for_def)
qed

lemma held_venue:
  assumes "p \<in> set (map snd (sv_open_positions s))" and "venue \<in> {rq_long_venue p, rq_short_venue p}"
    and "dict_get adapters venue = Some a" and "rc_risk_monitor_enabled strategy"
  shows "health_of_venue strategy now_ms snapshots (map snd (sv_open_positions s)) venue a
    \<in> set (fst (collect_venue_health_views strategy now_ms adapters snapshots s))"
proof -
  have "venue \<in> set (fst (supervised_venues s))"
    using assms(1,2) by (force simp: supervised_venues_def Let_def)
  moreover obtain vs t where "supervised_venues s = (vs, t)" by (cases "supervised_venues s")
  ultimately show ?thesis
    using assms(3,4) by (force simp: collect_venue_health_views_def)
qed

text \<open>When the engine runs after a tick, no latch was in force, and the lines called for no restriction.\<close>

lemma tick_mode:
  "rc_risk_monitor_enabled strategy \<Longrightarrow>
     \<exists>views t. es_risk_mode (supervise strategy now_ms ratios adapters snapshots s) =
       (if es_risk_mode t = FAIL_CLOSED \<and> \<not> fail_closed_can_clear t then FAIL_CLOSED else called_for strategy ratios views) \<and>
       es_risk_mode t = es_risk_mode s \<and> fail_closed_can_clear t = fail_closed_can_clear s \<and>
       (adapters \<noteq> [] \<longrightarrow> views = fst (collect_venue_health_views strategy now_ms adapters snapshots s))"
  by (cases "adapters = []"; rule exI [of _ "if adapters = [] then [] else fst (collect_venue_health_views strategy now_ms adapters snapshots s)"];
      rule exI [of _ "if adapters = [] then s else snd (collect_venue_health_views strategy now_ms adapters snapshots s)"])
     (auto simp: supervise_def split_beta updated_state_mode updated_mode collect_venue_health_views_def supervised_venues_def
        Let_def fail_closed_can_clear_def needs_reconciliation_def)

section \<open>The latch\<close>

datatype supervision_event =
    Tick risk_config int "(string, real) dict" "(venue, health_adapter) dict" "(venue, account_risk_snapshot option) dict"
  | Operate operator_command bool
  | Carry_Out "close_executor option" risk_plan int risk_position

fun supervision_step :: "supervised_state \<Rightarrow> supervision_event \<Rightarrow> supervised_state" where
  "supervision_step s (Tick strategy now_ms ratios adapters snapshots) = supervise strategy now_ms ratios adapters snapshots s"
| "supervision_step s (Operate c blocking) = execute_operator_command c blocking s"
| "supervision_step s (Carry_Out executor plan now_ms p) = snd (snd (execute_risk_plan executor plan now_ms (p, s)))"

fun holds_latch :: "supervision_event \<Rightarrow> bool" where
  "holds_latch (Operate c blocking) \<longleftrightarrow> \<not> (c = OC_RESUME_IF_SAFE \<and> \<not> blocking)"
| "holds_latch _ \<longleftrightarrow> True"

definition operator_latched :: "supervised_state \<Rightarrow> bool" where
  "operator_latched s \<longleftrightarrow> sv_operator_requested_mode s = Some FAIL_CLOSED \<and> es_risk_mode s = FAIL_CLOSED"

lemma update_request [simp]:
  "sv_operator_requested_mode (snd (update_global_risk_mode strategy ratios views s)) = sv_operator_requested_mode s"
proof -
  have "\<exists>r. snd (fold (raise_mode strategy) views (line_mode ratios strategy, s)) = s\<lparr>sv_global_risk_reason := r\<rparr>"
    by (rule raised_frame)
  then show ?thesis by (auto simp: update_global_risk_mode_def Let_def split_beta)
qed

lemma collect_request [simp]:
  "sv_operator_requested_mode (snd (collect_venue_health_views strategy now_ms adapters snapshots s)) = sv_operator_requested_mode s"
  by (simp add: collect_venue_health_views_def supervised_venues_def Let_def)

lemma supervise_request [simp]:
  "sv_operator_requested_mode (supervise strategy now_ms ratios adapters snapshots s) = sv_operator_requested_mode s"
  by (simp add: supervise_def split_beta)

lemma latched_cannot_clear: "operator_latched s \<Longrightarrow> \<not> fail_closed_can_clear s"
  by (simp add: operator_latched_def fail_closed_can_clear_def)

lemma latched_tick:
  assumes "es_risk_mode s = FAIL_CLOSED" and "\<not> fail_closed_can_clear s"
  shows "es_risk_mode (supervise strategy now_ms ratios adapters snapshots s) = FAIL_CLOSED"
proof (cases "rc_risk_monitor_enabled strategy")
  case True
  then show ?thesis using tick_mode [of strategy now_ms ratios adapters snapshots s] assms by auto
next
  case False
  then show ?thesis using assms by (simp add: supervise_def)
qed

lemma close_effect_request [simp]:
  "sv_operator_requested_mode (snd (apply_close_effect e ps)) = sv_operator_requested_mode (snd ps)"
  "rq_risk_delever_step_count (fst (apply_close_effect e ps)) = rq_risk_delever_step_count (fst ps)"
  by (auto simp: apply_close_effect_def fail_closed_state_def Let_def split_beta split: close_outcome.split)

lemma close_effect_mode:
  "es_risk_mode (snd (apply_close_effect e ps)) \<in> {es_risk_mode (snd ps), FAIL_CLOSED}"
  by (auto simp: apply_close_effect_def fail_closed_state_def Let_def split_beta split: close_outcome.split)

lemma delever_state:
  "snd (snd (execute_delever executor r q now_ms ps)) = snd ps \<or>
     (\<exists>e. snd (snd (execute_delever executor r q now_ms ps)) = snd (apply_close_effect e ps))"
  by (auto simp: execute_delever_def Let_def split_beta split: option.splits if_splits)

lemma executed_latch:
  assumes "operator_latched s"
  shows "operator_latched (snd (snd (execute_risk_plan executor plan now_ms (p, s))))"
proof (cases plan)
  case (Delever r q)
  then show ?thesis
    using assms delever_state [of executor r q now_ms "(p, s)"] close_effect_mode [of _ "(p, s)"]
    by (auto simp: operator_latched_def)
qed (use assms in \<open>auto simp: operator_latched_def execute_single_side_protection_def
    execute_fail_closed_def fail_closed_state_def split: option.splits\<close>)

lemma operated_latch:
  "operator_latched s \<Longrightarrow> \<not> (c = OC_RESUME_IF_SAFE \<and> \<not> blocking) \<Longrightarrow> operator_latched (execute_operator_command c blocking s)"
  by (cases c) (auto simp: operator_latched_def execute_operator_command_def apply_operator_command_def max_absorb1)

interpretation latch: event_system supervision_step operator_latched "\<lambda>_. holds_latch"
proof
  fix s e assume "operator_latched s" "holds_latch e"
  then show "operator_latched (supervision_step s e)"
    by (cases e) (auto simp: executed_latch operated_latch intro!: latched_tick latched_cannot_clear
      simp: operator_latched_def [of "supervise _ _ _ _ _ _"] dest: operator_latched_def [THEN iffD1])
qed

text \<open>With the risk monitor on, a tick sets the mode from health alone: a pause that an operator asked
  for is over at the next tick, since only the fail-closed request is remembered.\<close>

lemma operator_pause_lifted:
  assumes "rc_risk_monitor_enabled strategy" and "es_risk_mode s = RM_RUNNING"
  shows "es_risk_mode (supervise strategy now_ms [] [] snapshots (execute_operator_command OC_PAUSE_ENTRY False s)) = RM_RUNNING"
proof -
  have "es_risk_mode (execute_operator_command OC_PAUSE_ENTRY False s) = ENTRY_PAUSED"
    using assms by (simp add: execute_operator_command_def apply_operator_command_def max_def less_eq_global_risk_mode_def)
  moreover have "line_mode [] strategy = RM_RUNNING"
    by (simp add: line_mode_def evaluate_risk_health_def)
  ultimately show ?thesis
    using assms(1) by (simp add: supervise_def updated_state_mode updated_mode called_for_def)
qed

text \<open>An account without equity, but with positions to maintain, is healthy for the lines: its ratio is
  not positive, and only positive ratios are compared.\<close>

lemma insolvent_account_is_healthy:
  assumes "ar_equity_quote x = Fin e" "e \<le> 0" "ar_maintenance_margin_quote x = Fin m" "0 < m" "ar_supported x"
    "ar_health_ratio x = Fin 0" "\<not> is_effectively_stale now_ms (rc_max_risk_snapshot_age_ms strategy) x"
  shows "vh_action (evaluate_venue_health strategy venue now_ms True (Some (account_post_init x)) 0 False None True) = VH_NORMAL"
proof -
  have "e / m \<le> 0" using assms(2,4) by (simp add: divide_nonpos_pos)
  then show ?thesis
    using assms by (auto simp: evaluate_venue_health_def Let_def order_health_def new_health_view_def snapshot_health_def
      account_post_init_def health_lines_def is_effectively_stale_def snapshot_age_ms_def)
qed

section \<open>Partial closes\<close>

record position_tick =
  pt_now_ms :: int
  pt_long_supports :: bool
  pt_short_supports :: bool
  pt_long_snapshot :: "account_risk_snapshot option"
  pt_short_snapshot :: "account_risk_snapshot option"
  pt_executor :: "close_executor option"

definition tick_plan :: "risk_config \<Rightarrow> position_tick \<Rightarrow> risk_position \<Rightarrow> risk_plan option \<times> risk_position" where
  "tick_plan strategy t p = supervise_position strategy (pt_now_ms t) (pt_long_supports t) (pt_short_supports t)
     (pt_long_snapshot t) (pt_short_snapshot t) p"

definition position_result ::
  "risk_config \<Rightarrow> risk_position \<times> supervised_state \<Rightarrow> position_tick \<Rightarrow> bool \<times> risk_position \<times> supervised_state" where
  "position_result strategy ps t =
     (let (plan, p) = tick_plan strategy t (fst ps)
      in case plan of None \<Rightarrow> (True, p, snd ps) | Some x \<Rightarrow> execute_risk_plan (pt_executor t) x (pt_now_ms t) (p, snd ps))"

definition position_step :: "risk_config \<Rightarrow> risk_position \<times> supervised_state \<Rightarrow> position_tick \<Rightarrow> risk_position \<times> supervised_state" where
  "position_step strategy ps t = snd (position_result strategy ps t)"

fun is_delever :: "risk_plan option \<Rightarrow> bool" where
  "is_delever (Some (Delever _ _)) = True"
| "is_delever _ = False"

text \<open>A tick that plans a partial close and carries it out to its end.\<close>

definition partial_close :: "risk_config \<Rightarrow> risk_position \<times> supervised_state \<Rightarrow> position_tick \<Rightarrow> real" where
  "partial_close strategy ps t =
     of_bool (is_delever (fst (tick_plan strategy t (fst ps))) \<and> fst (position_result strategy ps t))"

definition tick_view :: "risk_config \<Rightarrow> position_tick \<Rightarrow> risk_position \<Rightarrow> position_risk_view" where
  "tick_view strategy t p = evaluate_position_risk strategy (pt_now_ms t) (rq_long_venue p) (rq_short_venue p)
     (pt_long_supports t) (pt_short_supports t) (pt_long_snapshot t) (pt_short_snapshot t)"

definition recovery :: "risk_config \<Rightarrow> risk_position \<times> supervised_state \<Rightarrow> position_tick \<Rightarrow> real" where
  "recovery strategy ps t = of_bool (recovered strategy (tick_view strategy t (fst ps)) (fst ps))"

definition count_counts :: "risk_position \<times> supervised_state \<Rightarrow> bool" where
  "count_counts ps \<longleftrightarrow> 0 \<le> rq_risk_delever_step_count (fst ps)"

lemma planned_delever:
  assumes "build_risk_execution_plan p v strategy now_ms = Some (Delever r q)"
  shows "r = ''risk_delever'' \<and> q = rq_matched_quantity p * rc_partial_delever_ratio strategy \<and> eps \<le> q \<and>
    (rc_max_partial_delever_steps strategy = 0 \<or> rq_risk_delever_step_count p < rc_max_partial_delever_steps strategy) \<and>
    (0 < rq_last_risk_action_at_ms p \<longrightarrow> rq_last_risk_action_at_ms p + rc_partial_delever_cooldown_ms strategy \<le> now_ms)"
  using assms
  by (auto simp: build_risk_execution_plan_def Let_def escalation_def check_delever_liquidity_blocked_def split: if_splits option.splits)

lemma executed_count:
  "rq_risk_delever_step_count (fst (snd (execute_risk_plan executor plan now_ms ps))) =
    rq_risk_delever_step_count (fst ps) +
      of_bool (is_delever (Some plan) \<and> fst (execute_risk_plan executor plan now_ms ps))"
  by (cases plan; cases executor; cases ps)
     (auto simp: execute_delever_def execute_single_side_protection_def execute_fail_closed_def
        split_beta Let_def split: option.splits)

lemma stepped_count:
  "rq_risk_delever_step_count (fst (position_step strategy ps t)) =
    rq_risk_delever_step_count (snd (tick_plan strategy t (fst ps))) +
      of_bool (is_delever (fst (tick_plan strategy t (fst ps))) \<and> fst (position_result strategy ps t))"
  by (auto simp: position_step_def position_result_def split_beta executed_count split: option.splits)

lemma tick_count:
  "rq_risk_delever_step_count (snd (tick_plan strategy t p)) =
     (if rc_risk_monitor_enabled strategy \<and> recovered strategy (tick_view strategy t p) p then 0
      else rq_risk_delever_step_count p)"
  by (simp add: tick_plan_def tick_view_def supervise_position_def Let_def)

lemma tick_delever:
  assumes "is_delever (fst (tick_plan strategy t p))" and "0 < rc_max_partial_delever_steps strategy"
  shows "rq_risk_delever_step_count (snd (tick_plan strategy t p)) < rc_max_partial_delever_steps strategy"
proof -
  have on: "rc_risk_monitor_enabled strategy"
    using assms(1) by (auto simp: tick_plan_def supervise_position_def split: if_splits)
  obtain r q where "fst (tick_plan strategy t p) = Some (Delever r q)"
    using assms(1) by (cases "fst (tick_plan strategy t p)" rule: is_delever.cases) auto
  then have "build_risk_execution_plan (snd (tick_plan strategy t p)) (tick_view strategy t p) strategy (pt_now_ms t) = Some (Delever r q)"
    using on by (simp add: tick_plan_def tick_view_def supervise_position_def Let_def)
  from planned_delever [OF this] assms(2) show ?thesis by simp
qed

abbreviation steps_left :: "risk_config \<Rightarrow> risk_position \<times> supervised_state \<Rightarrow> int" where
  "steps_left strategy ps \<equiv> max 0 (rc_max_partial_delever_steps strategy - rq_risk_delever_step_count (fst ps))"

lemma step_metered:
  assumes "0 < rc_max_partial_delever_steps strategy" and "count_counts ps"
  shows "count_counts (position_step strategy ps t)"
    and "real_of_int (steps_left strategy (position_step strategy ps t)) + partial_close strategy ps t
      \<le> real_of_int (steps_left strategy ps) + of_int (rc_max_partial_delever_steps strategy) * recovery strategy ps t"
proof -
  note count = stepped_count [of strategy ps t] tick_count [of strategy t "fst ps"]
  show "count_counts (position_step strategy ps t)"
    using assms(2) count by (auto simp: count_counts_def split: if_splits)
  show "real_of_int (steps_left strategy (position_step strategy ps t)) + partial_close strategy ps t
      \<le> real_of_int (steps_left strategy ps) + of_int (rc_max_partial_delever_steps strategy) * recovery strategy ps t"
    using assms count tick_delever [of strategy t "fst ps"]
    by (auto simp: partial_close_def recovery_def count_counts_def max_def split: if_splits)
qed

lemma delever_metered:
  assumes "0 < rc_max_partial_delever_steps strategy"
  shows "metered_system (position_step strategy) count_counts (\<lambda>_ _. True)
    (\<lambda>ps. of_int (steps_left strategy ps))
    (partial_close strategy) (\<lambda>ps t. of_int (rc_max_partial_delever_steps strategy) * recovery strategy ps t)"
  using step_metered [OF assms] by unfold_locales auto

section \<open>Properties\<close>

text \<open>C13: A tick of supervision leaves the engine running only on evidence. With the risk monitor, the
  warning line and one of the two policies for missing evidence in force, when a tick ends in the running
  mode, then for every leg of every open position whose venue has an adapter: the venue supports account
  risk, its snapshot is present, supported and recent, its ratio (when it is positive) is above all three
  lines, and its private stream (once it reported) is healthy and has confirmed the symbol; and the engine
  was not fail-closed before.\<close>

theorem running_needs_venue_evidence:
  assumes "es_risk_mode (supervise strategy now_ms ratios adapters snapshots s) = RM_RUNNING"
    and "rc_risk_monitor_enabled strategy" "hc_warning_line_enabled strategy" "policy_acts strategy"
    and "(pid, p) \<in> set (sv_open_positions s)" "venue \<in> {rq_long_venue p, rq_short_venue p}"
    and "dict_get adapters venue = Some a"
  shows "es_risk_mode s \<noteq> FAIL_CLOSED \<and> ha_supports_risk_health a \<and>
    (\<exists>x. dict_get snapshots venue = Some (Some x) \<and> healthy_evidence strategy now_ms x) \<and>
    (\<forall>h. ha_supports_private_health a \<and> ha_private_connection_health a = Some h \<longrightarrow>
       \<not> is_unhealthy h \<and> ha_cached_position a (rq_symbol p))"
proof -
  let ?ps = "map snd (sv_open_positions s)"
  have held: "p \<in> set ?ps" and "adapters \<noteq> []"
    using assms(5,7) by force+
  moreover have "\<not> fail_closed_can_clear s"
    using assms(5) by (auto simp: fail_closed_can_clear_def needs_reconciliation_def)
  ultimately have mode: "es_risk_mode s \<noteq> FAIL_CLOSED"
    and called: "called_for strategy ratios (fst (collect_venue_health_views strategy now_ms adapters snapshots s)) = RM_RUNNING"
    using tick_mode [OF assms(2), of now_ms ratios adapters snapshots s] assms(1) by (auto split: if_splits)
  have "view_mode strategy (health_of_venue strategy now_ms snapshots ?ps venue a) = RM_RUNNING"
    using called_running [OF called assms(2) held_venue [OF held assms(6,7,2)]] .
  then have "vh_action (health_of_venue strategy now_ms snapshots ?ps venue a) = VH_NORMAL"
    using running_action [OF assms(3)] by (simp add: view_mode_def)
  from venue_normal [OF this [unfolded health_of_venue_def Let_def] assms(4)] held assms(6) mode
  show ?thesis
    by (cases "ha_private_connection_health a")
       (auto simp: list_all_iff venue_private_position_confirmed_def split: if_splits option.splits)
qed

text \<open>C26: The risk mode is the most severe one that is called for. The mode after an update, which is also
  the state's, is the maximum of what the health lines and, with the risk monitor on, every venue's view
  call for (with the monitor off the views are ignored and the lines alone decide), except that a
  fail-closed engine whose state is not clean stays fail-closed.\<close>

theorem supervised_mode_is_most_severe:
  "fst (update_global_risk_mode strategy ratios views s) =
     (if es_risk_mode s = FAIL_CLOSED \<and> \<not> fail_closed_can_clear s then FAIL_CLOSED
      else if rc_risk_monitor_enabled strategy
      then Max (insert (line_mode ratios strategy) ((\<lambda>v. supervisor_action_mode strategy (vh_action v)) ` set views))
      else line_mode ratios strategy) \<and>
   es_risk_mode (snd (update_global_risk_mode strategy ratios views s)) = fst (update_global_risk_mode strategy ratios views s)"
  by (simp add: updated_mode updated_state_mode called_for_def view_mode_def)

text \<open>C14: An operator's fail-closed command holds. Whatever ticks of supervision, executed risk plans
  (with any executor of closes, whether its close returns, raises or fails its compensation) and
  operator commands follow, the engine stays fail-closed, and the request remembered, until a resume
  command is given while no recovery blocks it.\<close>

theorem operator_fail_closed_holds:
  fixes es :: "supervision_event list" and s :: supervised_state and blocking :: bool
  assumes "list_all holds_latch es"
  defines "t \<equiv> foldl supervision_step (execute_operator_command OC_FAIL_CLOSED blocking s) es"
  shows "es_risk_mode t = FAIL_CLOSED \<and> sv_operator_requested_mode t = Some FAIL_CLOSED \<and>
    derive_engine_mode (es_lifecycle t) (es_risk_mode t) = EM_FAIL_CLOSED"
proof -
  have "operator_latched (execute_operator_command OC_FAIL_CLOSED blocking s)"
    by (simp add: operator_latched_def execute_operator_command_def apply_operator_command_def)
  from latch.run_inv [OF this, of es] show ?thesis
    using assms(1) by (simp add: t_def operator_latched_def derive_engine_mode_def)
qed

text \<open>C27: Partial closes are bounded when a limit is configured (0 stands for none). Along any run of
  supervised ticks of a position whose count of steps is not negative, the number of partial closes that
  are planned and carried out to their end is at most the configured number of steps, plus as many again
  for every tick at which the health had recovered. A close that raises is not counted, here as in
  the code.\<close>

theorem partial_closes_bounded:
  assumes "0 < rc_max_partial_delever_steps strategy" and "0 \<le> rq_risk_delever_step_count (fst ps)"
  shows "run_sum (position_step strategy) (partial_close strategy) ps ts
    \<le> of_int (rc_max_partial_delever_steps strategy) * (1 + run_sum (position_step strategy) (recovery strategy) ps ts)"
proof -
  let ?m = "rc_max_partial_delever_steps strategy" and ?step = "position_step strategy"
  have inv: "count_counts ps" using assms(2) by (simp add: count_counts_def)
  have "run_sum ?step (partial_close strategy) ps ts
      \<le> of_int (steps_left strategy ps) - of_int (steps_left strategy (foldl ?step ps ts))
        + run_sum ?step (\<lambda>ps t. of_int ?m * recovery strategy ps t) ps ts"
    using metered_system.run_charge_le [OF delever_metered [OF assms(1)] inv, of ts] by simp
  also have "\<dots> \<le> of_int ?m + of_int ?m * run_sum ?step (recovery strategy) ps ts"
    using assms unfolding run_sum_scale by simp
  finally show ?thesis by (simp add: algebra_simps)
qed

section \<open>Witnesses\<close>

definition monitored_config :: risk_config where
  "monitored_config = default_risk_config\<lparr>rc_risk_monitor_enabled := True\<rparr>"

definition sample_account :: "real \<Rightarrow> account_risk_snapshot" where
  "sample_account ratio = \<lparr>ar_equity_quote = Fin (100 * ratio), ar_maintenance_margin_quote = Fin 100,
     ar_health_ratio = Fin ratio, ar_observed_at_ms = 1000, ar_supported = True, ar_stale = False,
     ar_zero_maintenance_is_normal = False\<rparr>"

definition sample_held :: risk_position where
  "sample_held = \<lparr>rq_position_id = ''p'', rq_long_venue = BINANCE, rq_short_venue = OKX, rq_symbol = ''BTC'',
     rq_matched_quantity = 2, rq_risk_delever_step_count = 0, rq_last_risk_action_at_ms = 0, rq_last_risk_reason = None,
     rq_single_side_protection_triggered = False, rq_blocked_reasons = []\<rparr>"

definition sample_supervised :: supervised_state where
  "sample_supervised = \<lparr>es_lifecycle = LC_RUNNING, es_risk_mode = RM_RUNNING, es_recovery_blocked_reason = None,
     es_recovery_blocked_at_ms = 0, sv_open_positions = [(''p'', sample_held)], sv_pending_close_reconciliations = [],
     sv_pending_entries = 0, sv_pending_closes = 0, sv_pending_passive_closes = 0, sv_pending_residual_repairs = 0,
     sv_operator_requested_mode = None, sv_last_error = None, sv_global_risk_reason = None\<rparr>"

definition sample_health_adapter :: health_adapter where
  "sample_health_adapter = \<lparr>ha_supports_risk_health = True, ha_supports_private_health = True,
     ha_private_connection_health = Some new_connection_health, ha_cached_position = (\<lambda>sym. sym = ''BTC'')\<rparr>"

definition sample_tick_at :: "int \<Rightarrow> real \<Rightarrow> position_tick" where
  "sample_tick_at now_ms ratio = \<lparr>pt_now_ms = now_ms, pt_long_supports = True, pt_short_supports = True,
     pt_long_snapshot = Some (sample_account ratio\<lparr>ar_observed_at_ms := now_ms\<rparr>),
     pt_short_snapshot = Some (sample_account 5\<lparr>ar_observed_at_ms := now_ms\<rparr>), pt_executor = None\<rparr>"

lemmas supervision_samples = monitored_config_def default_risk_config_def sample_account_def sample_held_def
  sample_supervised_def sample_health_adapter_def sample_tick_at_def new_connection_health_def

lemma sample_tick_runs:
  "es_risk_mode (supervise monitored_config 2000 []
     [(BINANCE, sample_health_adapter), (OKX, sample_health_adapter)]
     [(BINANCE, Some (sample_account 5)), (OKX, Some (sample_account 4))] sample_supervised) = RM_RUNNING"
  by code_simp

theorem running_needs_venue_evidence_witness:
  "\<exists>x. dict_get [(BINANCE, Some (sample_account 5)), (OKX, Some (sample_account 4))] OKX = Some (Some x) \<and>
     healthy_evidence monitored_config 2000 x"
  using running_needs_venue_evidence [OF sample_tick_runs, of "''p''" sample_held OKX sample_health_adapter]
  by (simp add: policy_acts_def supervision_samples)

definition failing_executor :: close_executor where
  "failing_executor r q ps = \<lparr>ce_matched_quantity = 1, ce_last_risk_action_at_ms = None, ce_reconciliations = [],
     ce_pending_closes = 0, ce_pending_residual_repairs = 0, ce_position_removed = True,
     ce_outcome = Compensation_Failed ''close compensation failed for p on okx''\<rparr>"

theorem operator_fail_closed_holds_witness:
  "es_risk_mode (foldl supervision_step (execute_operator_command OC_FAIL_CLOSED False sample_supervised)
     [Tick monitored_config 2000 [] [] [], Operate OC_RESUME_IF_SAFE True,
      Carry_Out None (Delever ''risk_delever'' 1) 3000 sample_held,
      Carry_Out (Some failing_executor) (Delever ''risk_delever'' 1) 4000 sample_held, Tick monitored_config 5000 [] [] []]) = FAIL_CLOSED"
  using operator_fail_closed_holds [of "[Tick monitored_config 2000 [] [] [], Operate OC_RESUME_IF_SAFE True,
    Carry_Out None (Delever ''risk_delever'' 1) 3000 sample_held,
    Carry_Out (Some failing_executor) (Delever ''risk_delever'' 1) 4000 sample_held, Tick monitored_config 5000 [] [] []]"
    False sample_supervised] by simp

theorem partial_closes_bounded_witness:
  "run_sum (position_step monitored_config) (partial_close monitored_config) (sample_held, sample_supervised)
     [sample_tick_at 100000 (7 / 5), sample_tick_at 110000 (7 / 5), sample_tick_at 140000 (7 / 5)]
   \<le> 4 * (1 + run_sum (position_step monitored_config) (recovery monitored_config) (sample_held, sample_supervised)
     [sample_tick_at 100000 (7 / 5), sample_tick_at 110000 (7 / 5), sample_tick_at 140000 (7 / 5)])"
  using partial_closes_bounded [of monitored_config "(sample_held, sample_supervised)"
    "[sample_tick_at 100000 (7 / 5), sample_tick_at 110000 (7 / 5), sample_tick_at 140000 (7 / 5)]"]
  by (simp add: supervision_samples)

text \<open>Two of these three ticks close a part; the middle one falls into the pause.\<close>

lemma sample_partial_closes:
  "map (\<lambda>t. is_delever (fst (tick_plan monitored_config t (sample_held\<lparr>rq_last_risk_action_at_ms := 100000\<rparr>))))
     [sample_tick_at 110000 (7 / 5), sample_tick_at 140000 (7 / 5)] = [False, True]"
  by code_simp

end
