(* ===== verification/Spec2Isabelle.thy ===== *)
theory Spec2Isabelle
  imports Rate_Limit_Runtime Backoff Liquidity Hedge_Delta Terminalizer Passive_Orders
    Execution_Planner Exit_Decision Risk_State Reconciliation Recovery_Core Recovery_Ledger
    Snapshot Strategy Universe Entry Order_Truth Supervision
begin

text \<open>
  LightFee is a funding arbitrage engine: it opens a long and a short position of one perpetual
  contract on two exchanges, collects the funding that one side pays the other, and closes both. It
  is written in Python (\<open>src/lightfee\<close>). Asynchronous orchestration (\<open>engine/runtime.py\<close> and the
  workflows it starts) talks to the exchanges; the decisions are made by components that are pure
  functions or small state machines over explicit records. This development models those components
  and the persistent state they share, and proves what each promises and how they fit together.

  \<^bold>\<open>The parts and how they interact.\<close>
  \<^item> \<open>Prelude\<close>, \<open>Py_Value\<close>: dictionaries, options, floats, the
    value model of Python, and the locales for state machines.
  \<^item> \<open>Rate_Limit\<close>, \<open>Rate_Limit_Runtime\<close>: every request to an
    exchange passes \<open>rate_limit/engine.py\<close>: token buckets, weights, minimal
    intervals, cool-downs and back-offs per scope, admission of all scopes or none, waiting,
    recording of refusals, and the configuration with its hot reload.
  \<^item> \<open>Backoff\<close>: reconnect delays and connection health
    (\<open>marketdata/resilience.py\<close>).
  \<^item> \<open>L2_Book\<close>, \<open>Liquidity\<close>: the local order book with its
    sequence discipline and life cycle (\<open>marketdata/l2.py\<close>), and what entries and
    exits ask it: prices, freshness, executable size (\<open>liquidity.py\<close>,
    \<open>local_book.py\<close>, \<open>freshness.py\<close>).
  \<^item> \<open>Universe\<close>, \<open>Strategy\<close>: which symbols are traded today
    (\<open>config/universe.py\<close>, \<open>strategy/universe.py\<close>), the pairs of
    quotes that become candidates (\<open>sidecar/pairing.py\<close>), the gates and the ranking
    they pass (\<open>strategy/discovery.py\<close>), and what an entry and its exit cost
    (\<open>strategy/scoring.py\<close>).
  \<^item> \<open>Entry\<close>: the states, orders and client order ids of an entry and the
    position its fills leave (\<open>engine/entry.py\<close>, \<open>venues/cid.py\<close>),
    which \<open>Exit_Decision\<close> takes over.
  \<^item> \<open>Order_Truth\<close>: what became of an order: when a fill, its absence or a
    duplicate id may be believed, and the reconciliation of the legs of a position
    (\<open>engine/order_truth_ledger.py\<close>,
    \<open>engine/bybit_duplicate_reconcile.py\<close>,
    \<open>engine/reconciliation.py\<close>).
  \<^item> \<open>Supervision\<close>: the health of venues and positions, the partial and
    protective closes it calls for, and the global risk mode with its latch
    (\<open>engine/risk_actions.py\<close>, \<open>engine/supervisor.py\<close>); it moves the
    mode of \<open>Risk_State\<close> and reads the queue of \<open>Reconciliation\<close>.
  \<^item> \<open>Execution_Planner\<close>: splits an entry into a passive and a hedge part
    that respect the minimums of both venues (\<open>engine/execution_planner.py\<close>,
    \<open>core/money.py\<close>).
  \<^item> \<open>Pending_Entry\<close>, \<open>Hedge_Delta\<close>,
    \<open>Terminalizer\<close>: an entry in progress: fills of the maker leg become remainder
    slices that hedge fills consume first in, first out (\<open>engine/state.py\<close>,
    \<open>engine/pending_entry_lifecycle.py\<close>), when the missing hedge is submitted
    (\<open>engine/pending_entry_hedge_delta.py\<close>), and when the entry may be removed
    (\<open>engine/pending_entry_terminalizer.py\<close>).
  \<^item> \<open>Passive_Orders\<close>: repricing of resting maker orders within a budget of
    operations (\<open>engine/passive_order_manager.py\<close>,
    \<open>engine/passive_maker.py\<close>).
  \<^item> \<open>Exit_Decision\<close>: why and how a position is closed, and the booking of
    funding (\<open>engine/exit_decision.py\<close>, \<open>engine/exit.py\<close>,
    \<open>engine/funding_lifecycle.py\<close>, \<open>engine/v1_lifecycle.py\<close>).
  \<^item> \<open>Reconciliation\<close>: the queue of closings whose accounting is unfinished
    (\<open>engine/state.py\<close>), with the evidence it merges, imports and retires.
  \<^item> \<open>Risk_State\<close>: the risk mode, operator commands, life-cycle transitions,
    health lines, budgets and residual exposure (\<open>risk\<close>,
    \<open>engine/lifecycle.py\<close>, \<open>engine/residual.py\<close>).
  \<^item> \<open>Owner_Index\<close>, \<open>Recovery_Core\<close>,
    \<open>Recovery_Ledger\<close>: recovery: who owns what the exchanges show
    (\<open>engine/recovery_owner_index.py\<close>), whether new entries are allowed and a block
    is cleared (\<open>engine/recovery_decision_core.py\<close>), and the list of work with its
    scope (\<open>engine/recovery_ledger.py\<close>). The decision of the core releases the risk
    mode of \<open>Risk_State\<close>.
  \<^item> \<open>State_Codec\<close>, \<open>Snapshot_Fields\<close>, \<open>Snapshot\<close>:
    the state as JSON and back (\<open>engine/state.py\<close>,
    \<open>engine/recovery.py\<close>): what a restart keeps.

  \<^bold>\<open>How the model corresponds to the code.\<close>
  A class or dataclass is a record with the fields of the source, prefixed by the initials of the
  class; an enum is a datatype; a method that mutates \<open>self\<close> takes the record and returns the new
  one; a raised exception is \<open>Inl\<close>, a returned value \<open>Inr\<close> (\<open>bind_res\<close> of \<open>Py_Value\<close> sequences
  them); a dictionary is an association list in insertion order (\<open>dict_get\<close>, \<open>dict_put\<close> of
  \<open>Prelude\<close>), because the code iterates over dictionaries and the order can be observed. Untyped
  data (JSON, payloads, objects read with \<open>getattr\<close>) is the datatype \<open>pyval\<close>, read with the model of
  Python's \<open>get\<close>, \<open>str\<close>, \<open>int\<close> and \<open>float\<close> in \<open>Py_Value\<close>. Definitions keep the names of the source;
  a local function or a block of a long method becomes a definition of its own.

  \<^bold>\<open>What the lemmas show.\<close>
  \<^item> Invariants over any sequence of operations: the rate limit engine (\<open>engine_ok\<close>, \<open>metered\<close>), the
    order book (\<open>book_ok\<close>), the pending entry (\<open>exposure_covered\<close>), the queue of reconciliations
    (\<open>queue_ok\<close>), the risk mode and the risk budgets.
  \<^item> Safety of the gates: what must be true of exchange and state when entries are allowed, when a
    block is cleared, when a pending entry is removed, when a symbol or a pair is called flat, when
    a passive plan or a hedge order is submitted.
  \<^item> Refinement and equivalence: the replay of book deltas is the override of the linked updates, the
    walk of the book is the liquidity estimate, the ledger is at least as strict as the decision core.
  \<^item> Round trips: every record of the snapshot is restored from what was written, and so is the state.
  \<^item> Bounds, errors and termination: the weight admitted in a window, the back-off of the three delay
    functions, wait loops that return, operations that refuse leave the state as it was.

  \<^bold>\<open>Interfaces.\<close> What several components promise in the same way is a locale.
  \<open>keyed_store\<close> (a store read by key; interpreted by dictionaries and by the scopes of the rate limit
  engine), \<open>event_system\<close> with \<open>metered_system\<close> and \<open>ranked_system\<close> (an invariant kept by every step, a
  measure that the steps spend, a rank that they do not lower; interpreted by the rate limit engine,
  the book, pending entries, the maker lane, funding capture, the risk mode and its latch, risk budgets,
  partial closes and the queue of reconciliations), \<open>capped_backoff\<close> (all three back-off functions), \<open>price_side\<close> (a side of the
  book, bids by the negated price), \<open>scope_invariant\<close> (scopes that keep serving traffic), \<open>codec\<close> and
  \<open>typed_codec\<close> (a record and its JSON; interpreted by every record of the snapshot). Properties rest
  on the facts of the interpretations.

  \<^bold>\<open>Bounds and fuel.\<close> The only loop that can wait is the one of the rate limit runtime; it takes fuel
  and \<open>length ss + 3\<close> rounds are proved enough for its scopes. The queue of reconciliations is bounded by its code at 256.
  All other loops are structural recursions over their data.

  \<^bold>\<open>Abstractions.\<close> Floats that the code only compares and adds are reals; where \<open>nan\<close> and
  infinities decide a branch they are the datatype \<open>pyfloat\<close>, exact otherwise: rounding is not
  modelled. Strings are sequences of 8-bit characters, \<open>lower\<close> and \<open>upper\<close> act on ASCII. The text of a
  float is a component of the value. Time is the argument \<open>now\<close>. Diagnostics that are only logged
  are left out (the hedgeability report of the hedge delta, the payloads of journal events).

  \<^bold>\<open>Not modelled.\<close>
  \<^item> The orchestration: \<open>engine/runtime.py\<close>, \<open>engine/passive_close.py\<close>, \<open>engine/close_runtime.py\<close>,
    \<open>engine/close_executor.py\<close>, \<open>engine/entry_gate_runtime.py\<close>, most of
    \<open>engine/pending_entry_runtime.py\<close> and the other \<open>*_runtime\<close> modules. They interleave awaits on
    exchange adapters, the journal and clocks with mutation of one large shared object; their
    decisions are calls of the components modelled here.
  \<^item> Exchange adapters (\<open>venues\<close>), web sockets (\<open>marketdata/*_ws.py\<close>), the sidecar's collection,
    persistence and the replay of its journal (the tail of \<open>engine/recovery.py\<close>): input and output.
  \<^item> Configuration files, command line programs, reports, scripts and offline analysis.
\<close>

end
